(* ===== verification/Prelude.thy ===== *)
theory Prelude
  imports Main "HOL-Library.Word"
begin

unbundle bit_operations_syntax

text \<open>The generic layer of the development: machine integers, the outcome monad in
  which the C functions are written, the loops they use, and the rules that reason about
  them.

  A C function that touches the device is a function from the machine state to an
  outcome: \<open>Done\<close> when it returns, \<open>Stop\<close> when
  control never comes back (a failed hardened check, an endless wait, the jump to the next
  boot stage, or a polling loop that outlives the bound under which the hardware is
  observed). The state of a \<open>Stop\<close> is kept: what the device was told before control was
  lost is part of what the theorems speak about.\<close>

type_synonym u8 = "8 word"
type_synonym u16 = "16 word"
type_synonym u32 = "32 word"
type_synonym u64 = "64 word"

section \<open>Collections\<close>

named_theorems framed_intros "every operation stays inside a frame relation"
named_theorems run_simps "how a program runs from a state"
named_theorems counts_intros "how many secure writes an operation makes"

section \<open>Words and maps\<close>

lemma unat_lt: "unat (w :: 'a::len word) < 2 ^ LENGTH('a)"
  by (rule unsigned_less)

lemma unat_bound: "unat (w :: u32) < 2 ^ 32"
  using unat_lt [of w] by simp

lemma unat_ucast_u64: "unat (ucast (w :: u32) :: u64) = unat w"
  using unat_bound [of w] by (simp add: unsigned_ucast_eq take_bit_nat_eq_self)

lemma xor_flip: "(x XOR k = y) = (x = y XOR (k :: u32))"
  by (auto simp: xor.assoc)

lemma xor_mask_eq: "(a XOR m = b XOR m) = (a = (b :: u32))"
  by (simp add: xor_flip xor.assoc)

lemma xor_cancel_zero: "(z XOR a XOR b = z) = (a = (b :: u32))"
  by (simp only: xor.commute [of z "a XOR b"] xor_flip) (simp add: xor_flip)

lemma unat_drop_bit64: "unat (drop_bit k (w :: u64)) = unat w div 2 ^ k"
  using unat_lt [of w]
  by (simp only: unsigned_drop_bit_eq) (simp add: drop_bit_eq_div take_bit_nat_eq_self)

lemma and3_dvd: "(w AND 3 = 0) = (4 dvd unat (w :: u32))"
proof -
  have "w AND 3 = take_bit 2 w" by (simp add: take_bit_eq_mask mask_eq_exp_minus_1)
  then have "(w AND 3 = 0) = (unat (take_bit 2 w) = 0)" by (simp only: unat_eq_0)
  also have "\<dots> = (unat w mod 4 = 0)" by (simp only: unsigned_take_bit_eq) (simp add: take_bit_eq_mod)
  finally show ?thesis by auto
qed

lemma bij_rotate: "j < n \<Longrightarrow> bij_betw (\<lambda>k. (j + k) mod n) {..<n} {..<(n::nat)}"
proof (rule bij_betw_imageI)
  assume o: "j < n"
  show inj: "inj_on (\<lambda>k. (j + k) mod n) {..<n}"
    using o by (auto simp: inj_on_def mod_if split: if_splits)
  show "(\<lambda>k. (j + k) mod n) ` {..<n} = {..<n}"
    using o by (intro endo_inj_surj [OF _ _ inj]) auto
qed

lemma map_of_zip_update:
  "distinct xs \<Longrightarrow> length xs = length ys \<Longrightarrow> i < length xs \<Longrightarrow>
   map_of (zip xs (ys[i := v])) = (map_of (zip xs ys))(xs ! i \<mapsto> v)"
proof (induction xs arbitrary: ys i)
  case (Cons x xs)
  then obtain y ys' where "ys = y # ys'" by (cases ys) auto
  then show ?case using Cons by (cases i) (auto simp: fun_eq_iff)
qed simp

lemma map_add_fresh: "a \<notin> dom M \<Longrightarrow> [a \<mapsto> v] ++ M = M(a \<mapsto> v)"
  by (auto simp: fun_eq_iff map_add_def split: option.split)

section \<open>Outcomes\<close>

datatype stop =
    Trap            \<comment> \<open>a hardened check failed: \<open>unimp\<close> is executed\<close>
  | Hang            \<comment> \<open>an endless \<open>wfi\<close> loop (shutdown, wait for reset)\<close>
  | Jump u32        \<comment> \<open>control passes to the next boot stage at this address\<close>
  | Out_of_polls    \<comment> \<open>a busy-wait loop saw its bound of unready reads\<close>

datatype ('a, 's) outcome = Done 'a 's | Stop stop 's

type_synonym ('a, 's) prog = "'s \<Rightarrow> ('a, 's) outcome"

definition returnM :: "'a \<Rightarrow> ('a, 's) prog" where
  "returnM a s = Done a s"

definition stopM :: "stop \<Rightarrow> ('a, 's) prog" where
  "stopM e s = Stop e s"

definition bindM :: "('a, 's) prog \<Rightarrow> ('a \<Rightarrow> ('b, 's) prog) \<Rightarrow> ('b, 's) prog" where
  "bindM m f s = (case m s of Done a s' \<Rightarrow> f a s' | Stop e s' \<Rightarrow> Stop e s')"

definition getM :: "('s \<Rightarrow> 'a) \<Rightarrow> ('a, 's) prog" where
  "getM f s = Done (f s) s"

definition modifyM :: "('s \<Rightarrow> 's) \<Rightarrow> (unit, 's) prog" where
  "modifyM f s = Done () (f s)"

definition whenM :: "bool \<Rightarrow> (unit, 's) prog \<Rightarrow> (unit, 's) prog" where
  "whenM b m = (if b then m else returnM ())"

text \<open>A loop \<open>for (x in xs) body(x)\<close>.\<close>

primrec for_each :: "'b list \<Rightarrow> ('b \<Rightarrow> (unit, 's) prog) \<Rightarrow> (unit, 's) prog" where
  "for_each [] f = returnM ()"
| "for_each (x # xs) f = bindM (f x) (\<lambda>_. for_each xs f)"

text \<open>A loop that fills an array: the values of the body in order.\<close>

primrec map_each :: "'b list \<Rightarrow> ('b \<Rightarrow> ('a, 's) prog) \<Rightarrow> ('a list, 's) prog" where
  "map_each [] f = returnM []"
| "map_each (x # xs) f =
     bindM (f x) (\<lambda>y. bindM (map_each xs f) (\<lambda>ys. returnM (y # ys)))"

text \<open>A loop with an accumulator.\<close>

primrec fold_each :: "'b list \<Rightarrow> 'a \<Rightarrow> ('b \<Rightarrow> 'a \<Rightarrow> ('a, 's) prog) \<Rightarrow> ('a, 's) prog" where
  "fold_each [] a f = returnM a"
| "fold_each (x # xs) a f = bindM (f x a) (\<lambda>a'. fold_each xs a' f)"

text \<open>A busy-wait loop \<open>do { v = m(); } while (!ready(v))\<close>, observed for at most
  \<open>n\<close> reads.\<close>

primrec poll :: "nat \<Rightarrow> ('a, 's) prog \<Rightarrow> ('a \<Rightarrow> bool) \<Rightarrow> ('a, 's) prog" where
  "poll 0 m ready = stopM Out_of_polls"
| "poll (Suc n) m ready =
     bindM m (\<lambda>v. if ready v then returnM v else poll n m ready)"

section \<open>Running programs\<close>

lemma bindM_simps [simp]:
  "m s = Done a s' \<Longrightarrow> bindM m f s = f a s'"
  "m s = Stop e s' \<Longrightarrow> bindM m f s = Stop e s'"
  by (auto simp: bindM_def)

lemma returnM_run [simp, run_simps]: "returnM a s = Done a s"
  by (simp add: returnM_def)

lemma stopM_run [simp, run_simps]: "stopM e s = Stop e s"
  by (simp add: stopM_def)

lemma getM_run [simp, run_simps]: "getM g s = Done (g s) s"
  by (simp add: getM_def)

lemma modifyM_run [simp, run_simps]: "modifyM h s = Done () (h s)"
  by (simp add: modifyM_def)

lemma bind_returnM [simp, run_simps]: "bindM (returnM a) f = f a"
  by (simp add: fun_eq_iff)

lemma bind_stopM [simp, run_simps]: "bindM (stopM e) f = stopM e"
  by (simp add: fun_eq_iff)

lemma bindM_assoc [simp, run_simps]: "bindM (bindM m f) g = bindM m (\<lambda>a. bindM (f a) g)"
  by (auto simp: bindM_def fun_eq_iff split: outcome.splits)

lemma bindM_return [simp]: "bindM m returnM = m"
  by (auto simp: bindM_def returnM_def fun_eq_iff split: outcome.splits)

lemma bindM_Done_iff:
  "bindM m f s = Done b s'' \<longleftrightarrow> (\<exists>a s'. m s = Done a s' \<and> f a s' = Done b s'')"
  by (auto simp: bindM_def split: outcome.splits)

lemma bindM_Stop_iff:
  "bindM m f s = Stop e s'' \<longleftrightarrow>
     m s = Stop e s'' \<or> (\<exists>a s'. m s = Done a s' \<and> f a s' = Stop e s'')"
  by (auto simp: bindM_def split: outcome.splits)

lemma bindM_DoneE:
  assumes "bindM m f s = Done b s''"
  obtains a s' where "m s = Done a s'" "f a s' = Done b s''"
  using assms by (auto simp: bindM_Done_iff)

lemma bindM_StopE:
  assumes "bindM m f s = Stop e s''"
  obtains (now) "m s = Stop e s''" | (later) a s' where "m s = Done a s'" "f a s' = Stop e s''"
  using assms by (auto simp: bindM_Stop_iff)

lemma whenM_simps [simp]: "whenM True m = m" "whenM False m = returnM ()"
  by (simp_all add: whenM_def)

lemma if_app [simp]: "(if b then m else n) s = (if b then m s else n s)"
  by simp

lemma poll_ready: "poll n m ready s = Done v s' \<Longrightarrow> ready v"
  by (induction n arbitrary: s) (auto simp: bindM_Done_iff split: if_splits)

text \<open>A busy-wait loop returns when one of its first \<open>n\<close> reads is ready.\<close>

lemma poll_step_ready: "m s = Done v s' \<Longrightarrow> ready v \<Longrightarrow> poll (Suc n) m ready s = Done v s'"
  by simp

lemma for_each_append:
  "for_each (xs @ ys) f = bindM (for_each xs f) (\<lambda>_. for_each ys f)"
  by (induction xs) simp_all

lemma map_each_ConsE:
  assumes "map_each (x # xs) f s = Done ys t"
  obtains y u zs where "f x s = Done y u" "map_each xs f u = Done zs t" "ys = y # zs"
  using assms by (auto simp: bindM_Done_iff)

lemma map_each_length: "map_each xs f s = Done ys s' \<Longrightarrow> length ys = length xs"
  by (induction xs arbitrary: s ys) (auto simp: bindM_Done_iff)

lemma fold_each_append:
  "fold_each (xs @ ys) a f = bindM (fold_each xs a f) (\<lambda>b. fold_each ys b f)"
  by (induction xs arbitrary: a) simp_all

section \<open>Frames\<close>

text \<open>What a program may do to the state, as a relation between the state it starts in and
  the state it leaves (by returning or not), and to how it stops.\<close>

definition framed ::
  "('s \<Rightarrow> 's \<Rightarrow> bool) \<Rightarrow> (stop \<Rightarrow> bool) \<Rightarrow> ('a, 's) prog \<Rightarrow> bool" where
  "framed R E m \<longleftrightarrow> (\<forall>s. case m s of Done a s' \<Rightarrow> R s s' | Stop e s' \<Rightarrow> R s s' \<and> E e)"

lemma framedI:
  "(\<And>s a s'. m s = Done a s' \<Longrightarrow> R s s') \<Longrightarrow>
   (\<And>s e s'. m s = Stop e s' \<Longrightarrow> R s s' \<and> E e) \<Longrightarrow> framed R E m"
  by (auto simp: framed_def split: outcome.splits)

lemma framedD1: "framed R E m \<Longrightarrow> m s = Done a s' \<Longrightarrow> R s s'"
  by (auto simp: framed_def dest: spec [of _ s])

lemma framedD2: "framed R E m \<Longrightarrow> m s = Stop e s' \<Longrightarrow> R s s'"
  by (auto simp: framed_def dest: spec [of _ s])

lemma framedD3: "framed R E m \<Longrightarrow> m s = Stop e s' \<Longrightarrow> E e"
  by (auto simp: framed_def dest: spec [of _ s])

locale frame_base =
  fixes R :: "'s \<Rightarrow> 's \<Rightarrow> bool" and E :: "stop \<Rightarrow> bool"
  assumes frame_refl: "R s s"
    and frame_trans: "R s t \<Longrightarrow> R t u \<Longrightarrow> R s u"
    and stop_polls: "E Out_of_polls"
begin

lemma framed_return: "framed R E (returnM a)"
  by (simp add: framed_def frame_refl)

lemma framed_get: "framed R E (getM g)"
  by (simp add: framed_def frame_refl)

lemma framed_stop: "E e \<Longrightarrow> framed R E (stopM e)"
  by (simp add: framed_def frame_refl)

lemma framed_bind:
  assumes m: "framed R E m" and f: "\<And>a. framed R E (f a)"
  shows "framed R E (bindM m f)"
proof (rule framedI)
  fix s b t assume "bindM m f s = Done b t"
  then obtain a u where u: "m s = Done a u" "f a u = Done b t" by (rule bindM_DoneE)
  show "R s t" using framedD1 [OF m u(1)] framedD1 [OF f u(2)] by (rule frame_trans)
next
  fix s e t assume "bindM m f s = Stop e t"
  then show "R s t \<and> E e"
  proof (cases rule: bindM_StopE)
    case now then show ?thesis using framedD2 [OF m] framedD3 [OF m] by blast
  next
    case (later a u)
    have "R s t" using framedD1 [OF m later(1)] framedD2 [OF f later(2)] by (rule frame_trans)
    then show ?thesis using framedD3 [OF f later(2)] by simp
  qed
qed

lemma framed_when: "framed R E m \<Longrightarrow> framed R E (whenM b m)"
  by (cases b) (simp_all add: framed_return)

lemma framed_if: "(b \<Longrightarrow> framed R E m) \<Longrightarrow> (\<not> b \<Longrightarrow> framed R E n) \<Longrightarrow> framed R E (if b then m else n)"
  by simp

lemma framed_for: "(\<And>x. framed R E (f x)) \<Longrightarrow> framed R E (for_each xs f)"
  by (induction xs) (auto intro: framed_return framed_bind)

lemma framed_map: "(\<And>x. framed R E (f x)) \<Longrightarrow> framed R E (map_each xs f)"
  by (induction xs) (auto intro: framed_return framed_bind)

lemma framed_fold: "(\<And>x a. framed R E (f x a)) \<Longrightarrow> framed R E (fold_each xs a f)"
  by (induction xs arbitrary: a) (auto intro: framed_return framed_bind)

lemma framed_poll: "framed R E m \<Longrightarrow> framed R E (poll n m ready)"
  by (induction n) (auto intro!: framed_return framed_bind framed_stop stop_polls)

lemmas base_rules = framed_return framed_get framed_bind framed_when framed_if
  framed_for framed_map framed_fold framed_poll

end

text \<open>Frames for programs with hardened checks, which may also stop with a trap.\<close>

locale frame = frame_base +
  assumes stop_trap: "E Trap"
begin

lemma framed_trap: "framed R E (stopM Trap)"
  by (simp add: framed_stop stop_trap)

lemmas framed_rules = framed_trap base_rules

end

section \<open>Programs that never return\<close>

definition never_returns :: "('a, 's) prog \<Rightarrow> bool" where
  "never_returns p \<longleftrightarrow> (\<forall>s a t. p s \<noteq> Done a t)"

lemma never_returns_stop: "never_returns (stopM e)"
  by (simp add: never_returns_def)

lemma never_returns_bind: "(\<And>a. never_returns (f a)) \<Longrightarrow> never_returns (bindM p f)"
  by (auto simp: never_returns_def bindM_Done_iff)

section \<open>Preconditions\<close>

text \<open>The states from which every return satisfies \<open>Q\<close> and every stop satisfies
  \<open>E\<close>.\<close>

definition wp :: "('a, 's) prog \<Rightarrow> ('a \<Rightarrow> 's \<Rightarrow> bool) \<Rightarrow> (stop \<Rightarrow> 's \<Rightarrow> bool) \<Rightarrow> 's \<Rightarrow> bool" where
  "wp p Q E s \<longleftrightarrow> (case p s of Done a t \<Rightarrow> Q a t | Stop e t \<Rightarrow> E e t)"

lemma wp_bind: "wp p (\<lambda>a t. wp (f a) Q E t) E s \<Longrightarrow> wp (bindM p f) Q E s"
  by (auto simp: wp_def bindM_def split: outcome.splits)

lemma wp_framed:
  "framed R S p \<Longrightarrow> (\<And>a t. R s t \<Longrightarrow> Q a t) \<Longrightarrow> (\<And>e t. R s t \<Longrightarrow> E e t) \<Longrightarrow> wp p Q E s"
  by (auto simp: wp_def framed_def split: outcome.splits dest: spec [of _ s])

lemma wp_mono:
  "wp p Q E s \<Longrightarrow> (\<And>a t. Q a t \<Longrightarrow> Q' a t) \<Longrightarrow> (\<And>e t. E e t \<Longrightarrow> E' e t) \<Longrightarrow> wp p Q' E' s"
  by (auto simp: wp_def split: outcome.splits)

end
