(* ===== verification/Regs.thy ===== *)
theory Regs
  imports Prelude
begin

text \<open>Numerical constants the C code takes from generated headers (register offsets, bit
  and field positions, OTP item offsets, the memory map), with the values of the hardware
  descriptions under hw/, and the constants of \<open>lib/error.h\<close>,
  \<open>lib/base/hardened.h\<close> and \<open>drivers/lifecycle.h\<close> that every component shares. They
  are abbreviations, so that the simplifier sees plain numerals.\<close>

record bitfield_field32 =
  bf_mask :: u32
  bf_index :: u32


section \<open>Base addresses (top_earlgrey)\<close>

abbreviation (input) TOP_EARLGREY_UART0_BASE_ADDR :: u32 where "TOP_EARLGREY_UART0_BASE_ADDR \<equiv> 0x40000000"
abbreviation (input) TOP_EARLGREY_GPIO_BASE_ADDR :: u32 where "TOP_EARLGREY_GPIO_BASE_ADDR \<equiv> 0x40040000"
abbreviation (input) TOP_EARLGREY_SPI_DEVICE_BASE_ADDR :: u32 where "TOP_EARLGREY_SPI_DEVICE_BASE_ADDR \<equiv> 0x40050000"
abbreviation (input) TOP_EARLGREY_OTP_CTRL_CORE_BASE_ADDR :: u32 where "TOP_EARLGREY_OTP_CTRL_CORE_BASE_ADDR \<equiv> 0x40130000"
abbreviation (input) TOP_EARLGREY_LC_CTRL_BASE_ADDR :: u32 where "TOP_EARLGREY_LC_CTRL_BASE_ADDR \<equiv> 0x40140000"
abbreviation (input) TOP_EARLGREY_ALERT_HANDLER_BASE_ADDR :: u32 where "TOP_EARLGREY_ALERT_HANDLER_BASE_ADDR \<equiv> 0x40150000"
abbreviation (input) TOP_EARLGREY_PWRMGR_AON_BASE_ADDR :: u32 where "TOP_EARLGREY_PWRMGR_AON_BASE_ADDR \<equiv> 0x40400000"
abbreviation (input) TOP_EARLGREY_RSTMGR_AON_BASE_ADDR :: u32 where "TOP_EARLGREY_RSTMGR_AON_BASE_ADDR \<equiv> 0x40410000"
abbreviation (input) TOP_EARLGREY_PINMUX_AON_BASE_ADDR :: u32 where "TOP_EARLGREY_PINMUX_AON_BASE_ADDR \<equiv> 0x40460000"
abbreviation (input) TOP_EARLGREY_AON_TIMER_AON_BASE_ADDR :: u32 where "TOP_EARLGREY_AON_TIMER_AON_BASE_ADDR \<equiv> 0x40470000"
abbreviation (input) TOP_EARLGREY_SENSOR_CTRL_BASE_ADDR :: u32 where "TOP_EARLGREY_SENSOR_CTRL_BASE_ADDR \<equiv> 0x40490000"
abbreviation (input) TOP_EARLGREY_SRAM_CTRL_RET_AON_REGS_BASE_ADDR :: u32 where "TOP_EARLGREY_SRAM_CTRL_RET_AON_REGS_BASE_ADDR \<equiv> 0x40500000"
abbreviation (input) TOP_EARLGREY_SRAM_CTRL_RET_AON_RAM_BASE_ADDR :: u32 where "TOP_EARLGREY_SRAM_CTRL_RET_AON_RAM_BASE_ADDR \<equiv> 0x40600000"
abbreviation (input) TOP_EARLGREY_FLASH_CTRL_CORE_BASE_ADDR :: u32 where "TOP_EARLGREY_FLASH_CTRL_CORE_BASE_ADDR \<equiv> 0x41000000"
abbreviation (input) TOP_EARLGREY_FLASH_CTRL_MEM_BASE_ADDR :: u32 where "TOP_EARLGREY_FLASH_CTRL_MEM_BASE_ADDR \<equiv> 0x20000000"
abbreviation (input) TOP_EARLGREY_EFLASH_BASE_ADDR :: u32 where "TOP_EARLGREY_EFLASH_BASE_ADDR \<equiv> 0x20000000"
abbreviation (input) TOP_EARLGREY_RV_DM_MEM_BASE_ADDR :: u32 where "TOP_EARLGREY_RV_DM_MEM_BASE_ADDR \<equiv> 0x10000"
abbreviation (input) TOP_EARLGREY_HMAC_BASE_ADDR :: u32 where "TOP_EARLGREY_HMAC_BASE_ADDR \<equiv> 0x41110000"
abbreviation (input) TOP_EARLGREY_OTBN_BASE_ADDR :: u32 where "TOP_EARLGREY_OTBN_BASE_ADDR \<equiv> 0x41130000"
abbreviation (input) TOP_EARLGREY_KEYMGR_BASE_ADDR :: u32 where "TOP_EARLGREY_KEYMGR_BASE_ADDR \<equiv> 0x41140000"
abbreviation (input) TOP_EARLGREY_SRAM_CTRL_MAIN_REGS_BASE_ADDR :: u32 where "TOP_EARLGREY_SRAM_CTRL_MAIN_REGS_BASE_ADDR \<equiv> 0x411c0000"
abbreviation (input) TOP_EARLGREY_RAM_MAIN_BASE_ADDR :: u32 where "TOP_EARLGREY_RAM_MAIN_BASE_ADDR \<equiv> 0x10000000"
abbreviation (input) TOP_EARLGREY_ROM_CTRL_ROM_BASE_ADDR :: u32 where "TOP_EARLGREY_ROM_CTRL_ROM_BASE_ADDR \<equiv> 0x8000"
abbreviation (input) TOP_EARLGREY_RV_CORE_IBEX_CFG_BASE_ADDR :: u32 where "TOP_EARLGREY_RV_CORE_IBEX_CFG_BASE_ADDR \<equiv> 0x411f0000"
abbreviation (input) TOP_EARLGREY_MMIO_BASE_ADDR :: u32 where "TOP_EARLGREY_MMIO_BASE_ADDR \<equiv> 0x40000000"
abbreviation (input) TOP_EARLGREY_EFLASH_SIZE_BYTES :: u32 where "TOP_EARLGREY_EFLASH_SIZE_BYTES \<equiv> 0x100000"
abbreviation (input) TOP_EARLGREY_RV_DM_MEM_SIZE_BYTES :: u32 where "TOP_EARLGREY_RV_DM_MEM_SIZE_BYTES \<equiv> 0x1000"
abbreviation (input) TOP_EARLGREY_RAM_MAIN_SIZE_BYTES :: u32 where "TOP_EARLGREY_RAM_MAIN_SIZE_BYTES \<equiv> 0x20000"
abbreviation (input) TOP_EARLGREY_ROM_CTRL_ROM_SIZE_BYTES :: u32 where "TOP_EARLGREY_ROM_CTRL_ROM_SIZE_BYTES \<equiv> 0x8000"
abbreviation (input) TOP_EARLGREY_MMIO_SIZE_BYTES :: u32 where "TOP_EARLGREY_MMIO_SIZE_BYTES \<equiv> 0x10000000"
abbreviation (input) TOP_EARLGREY_SRAM_CTRL_RET_AON_RAM_SIZE_BYTES :: u32 where "TOP_EARLGREY_SRAM_CTRL_RET_AON_RAM_SIZE_BYTES \<equiv> 0x1000"

section \<open>Flash controller\<close>

abbreviation (input) FLASH_CTRL_DIS_REG_OFFSET :: u32 where "FLASH_CTRL_DIS_REG_OFFSET \<equiv> 0x10"
abbreviation (input) FLASH_CTRL_EXEC_REG_OFFSET :: u32 where "FLASH_CTRL_EXEC_REG_OFFSET \<equiv> 0x14"
abbreviation (input) FLASH_CTRL_INIT_REG_OFFSET :: u32 where "FLASH_CTRL_INIT_REG_OFFSET \<equiv> 0x18"
abbreviation (input) FLASH_CTRL_CONTROL_REG_OFFSET :: u32 where "FLASH_CTRL_CONTROL_REG_OFFSET \<equiv> 0x20"
abbreviation (input) FLASH_CTRL_ADDR_REG_OFFSET :: u32 where "FLASH_CTRL_ADDR_REG_OFFSET \<equiv> 0x24"
abbreviation (input) FLASH_CTRL_DEFAULT_REGION_REG_OFFSET :: u32 where "FLASH_CTRL_DEFAULT_REGION_REG_OFFSET \<equiv> 0x90"
abbreviation (input) FLASH_CTRL_MP_BANK_CFG_SHADOWED_REG_OFFSET :: u32 where "FLASH_CTRL_MP_BANK_CFG_SHADOWED_REG_OFFSET \<equiv> 0x16c"
abbreviation (input) FLASH_CTRL_OP_STATUS_REG_OFFSET :: u32 where "FLASH_CTRL_OP_STATUS_REG_OFFSET \<equiv> 0x170"
abbreviation (input) FLASH_CTRL_STATUS_REG_OFFSET :: u32 where "FLASH_CTRL_STATUS_REG_OFFSET \<equiv> 0x174"
abbreviation (input) FLASH_CTRL_PROG_FIFO_REG_OFFSET :: u32 where "FLASH_CTRL_PROG_FIFO_REG_OFFSET \<equiv> 0x1b0"
abbreviation (input) FLASH_CTRL_RD_FIFO_REG_OFFSET :: u32 where "FLASH_CTRL_RD_FIFO_REG_OFFSET \<equiv> 0x1b4"
abbreviation (input) FLASH_CTRL_CONTROL_START_BIT :: u32 where "FLASH_CTRL_CONTROL_START_BIT \<equiv> 0x0"
abbreviation (input) FLASH_CTRL_CONTROL_ERASE_SEL_BIT :: u32 where "FLASH_CTRL_CONTROL_ERASE_SEL_BIT \<equiv> 0x7"
abbreviation (input) FLASH_CTRL_CONTROL_PARTITION_SEL_BIT :: u32 where "FLASH_CTRL_CONTROL_PARTITION_SEL_BIT \<equiv> 0x8"
abbreviation (input) FLASH_CTRL_INIT_VAL_BIT :: u32 where "FLASH_CTRL_INIT_VAL_BIT \<equiv> 0x0"
abbreviation (input) FLASH_CTRL_MP_BANK_CFG_SHADOWED_ERASE_EN_0_BIT :: u32 where "FLASH_CTRL_MP_BANK_CFG_SHADOWED_ERASE_EN_0_BIT \<equiv> 0x0"
abbreviation (input) FLASH_CTRL_MP_BANK_CFG_SHADOWED_ERASE_EN_1_BIT :: u32 where "FLASH_CTRL_MP_BANK_CFG_SHADOWED_ERASE_EN_1_BIT \<equiv> 0x1"
abbreviation (input) FLASH_CTRL_OP_STATUS_DONE_BIT :: u32 where "FLASH_CTRL_OP_STATUS_DONE_BIT \<equiv> 0x0"
abbreviation (input) FLASH_CTRL_OP_STATUS_ERR_BIT :: u32 where "FLASH_CTRL_OP_STATUS_ERR_BIT \<equiv> 0x1"
abbreviation (input) FLASH_CTRL_STATUS_RD_FULL_BIT :: u32 where "FLASH_CTRL_STATUS_RD_FULL_BIT \<equiv> 0x0"
abbreviation (input) FLASH_CTRL_STATUS_RD_EMPTY_BIT :: u32 where "FLASH_CTRL_STATUS_RD_EMPTY_BIT \<equiv> 0x1"
abbreviation (input) FLASH_CTRL_STATUS_PROG_FULL_BIT :: u32 where "FLASH_CTRL_STATUS_PROG_FULL_BIT \<equiv> 0x2"
abbreviation (input) FLASH_CTRL_STATUS_PROG_EMPTY_BIT :: u32 where "FLASH_CTRL_STATUS_PROG_EMPTY_BIT \<equiv> 0x3"
abbreviation (input) FLASH_CTRL_STATUS_INIT_WIP_BIT :: u32 where "FLASH_CTRL_STATUS_INIT_WIP_BIT \<equiv> 0x4"
abbreviation (input) FLASH_CTRL_CONTROL_OP_FIELD :: bitfield_field32 where
  "FLASH_CTRL_CONTROL_OP_FIELD \<equiv> \<lparr>bf_mask = 0x3, bf_index = 4\<rparr>"
abbreviation (input) FLASH_CTRL_CONTROL_INFO_SEL_FIELD :: bitfield_field32 where
  "FLASH_CTRL_CONTROL_INFO_SEL_FIELD \<equiv> \<lparr>bf_mask = 0x3, bf_index = 9\<rparr>"
abbreviation (input) FLASH_CTRL_CONTROL_NUM_FIELD :: bitfield_field32 where
  "FLASH_CTRL_CONTROL_NUM_FIELD \<equiv> \<lparr>bf_mask = 0xfff, bf_index = 16\<rparr>"
abbreviation (input) FLASH_CTRL_DEFAULT_REGION_RD_EN_FIELD :: bitfield_field32 where
  "FLASH_CTRL_DEFAULT_REGION_RD_EN_FIELD \<equiv> \<lparr>bf_mask = 0xf, bf_index = 0\<rparr>"
abbreviation (input) FLASH_CTRL_DEFAULT_REGION_PROG_EN_FIELD :: bitfield_field32 where
  "FLASH_CTRL_DEFAULT_REGION_PROG_EN_FIELD \<equiv> \<lparr>bf_mask = 0xf, bf_index = 4\<rparr>"
abbreviation (input) FLASH_CTRL_DEFAULT_REGION_ERASE_EN_FIELD :: bitfield_field32 where
  "FLASH_CTRL_DEFAULT_REGION_ERASE_EN_FIELD \<equiv> \<lparr>bf_mask = 0xf, bf_index = 8\<rparr>"
abbreviation (input) FLASH_CTRL_DEFAULT_REGION_SCRAMBLE_EN_FIELD :: bitfield_field32 where
  "FLASH_CTRL_DEFAULT_REGION_SCRAMBLE_EN_FIELD \<equiv> \<lparr>bf_mask = 0xf, bf_index = 12\<rparr>"
abbreviation (input) FLASH_CTRL_DEFAULT_REGION_ECC_EN_FIELD :: bitfield_field32 where
  "FLASH_CTRL_DEFAULT_REGION_ECC_EN_FIELD \<equiv> \<lparr>bf_mask = 0xf, bf_index = 16\<rparr>"
abbreviation (input) FLASH_CTRL_DEFAULT_REGION_HE_EN_FIELD :: bitfield_field32 where
  "FLASH_CTRL_DEFAULT_REGION_HE_EN_FIELD \<equiv> \<lparr>bf_mask = 0xf, bf_index = 20\<rparr>"
abbreviation (input) FLASH_CTRL_BANK0_INFO0_PAGE_CFG_0_EN_0_FIELD :: bitfield_field32 where
  "FLASH_CTRL_BANK0_INFO0_PAGE_CFG_0_EN_0_FIELD \<equiv> \<lparr>bf_mask = 0xf, bf_index = 0\<rparr>"
abbreviation (input) FLASH_CTRL_BANK0_INFO0_PAGE_CFG_0_RD_EN_0_FIELD :: bitfield_field32 where
  "FLASH_CTRL_BANK0_INFO0_PAGE_CFG_0_RD_EN_0_FIELD \<equiv> \<lparr>bf_mask = 0xf, bf_index = 4\<rparr>"
abbreviation (input) FLASH_CTRL_BANK0_INFO0_PAGE_CFG_0_PROG_EN_0_FIELD :: bitfield_field32 where
  "FLASH_CTRL_BANK0_INFO0_PAGE_CFG_0_PROG_EN_0_FIELD \<equiv> \<lparr>bf_mask = 0xf, bf_index = 8\<rparr>"
abbreviation (input) FLASH_CTRL_BANK0_INFO0_PAGE_CFG_0_ERASE_EN_0_FIELD :: bitfield_field32 where
  "FLASH_CTRL_BANK0_INFO0_PAGE_CFG_0_ERASE_EN_0_FIELD \<equiv> \<lparr>bf_mask = 0xf, bf_index = 12\<rparr>"
abbreviation (input) FLASH_CTRL_BANK0_INFO0_PAGE_CFG_0_SCRAMBLE_EN_0_FIELD :: bitfield_field32 where
  "FLASH_CTRL_BANK0_INFO0_PAGE_CFG_0_SCRAMBLE_EN_0_FIELD \<equiv> \<lparr>bf_mask = 0xf, bf_index = 16\<rparr>"
abbreviation (input) FLASH_CTRL_BANK0_INFO0_PAGE_CFG_0_ECC_EN_0_FIELD :: bitfield_field32 where
  "FLASH_CTRL_BANK0_INFO0_PAGE_CFG_0_ECC_EN_0_FIELD \<equiv> \<lparr>bf_mask = 0xf, bf_index = 20\<rparr>"
abbreviation (input) FLASH_CTRL_BANK0_INFO0_PAGE_CFG_0_HE_EN_0_FIELD :: bitfield_field32 where
  "FLASH_CTRL_BANK0_INFO0_PAGE_CFG_0_HE_EN_0_FIELD \<equiv> \<lparr>bf_mask = 0xf, bf_index = 24\<rparr>"
abbreviation (input) FLASH_CTRL_CONTROL_OP_VALUE_READ :: u32 where "FLASH_CTRL_CONTROL_OP_VALUE_READ \<equiv> 0x0"
abbreviation (input) FLASH_CTRL_CONTROL_OP_VALUE_PROG :: u32 where "FLASH_CTRL_CONTROL_OP_VALUE_PROG \<equiv> 0x1"
abbreviation (input) FLASH_CTRL_CONTROL_OP_VALUE_ERASE :: u32 where "FLASH_CTRL_CONTROL_OP_VALUE_ERASE \<equiv> 0x2"

section \<open>HMAC\<close>

abbreviation (input) HMAC_INTR_STATE_REG_OFFSET :: u32 where "HMAC_INTR_STATE_REG_OFFSET \<equiv> 0x0"
abbreviation (input) HMAC_INTR_ENABLE_REG_OFFSET :: u32 where "HMAC_INTR_ENABLE_REG_OFFSET \<equiv> 0x4"
abbreviation (input) HMAC_CFG_REG_OFFSET :: u32 where "HMAC_CFG_REG_OFFSET \<equiv> 0x10"
abbreviation (input) HMAC_CMD_REG_OFFSET :: u32 where "HMAC_CMD_REG_OFFSET \<equiv> 0x14"
abbreviation (input) HMAC_DIGEST_7_REG_OFFSET :: u32 where "HMAC_DIGEST_7_REG_OFFSET \<equiv> 0x60"
abbreviation (input) HMAC_MSG_FIFO_REG_OFFSET :: u32 where "HMAC_MSG_FIFO_REG_OFFSET \<equiv> 0x800"
abbreviation (input) HMAC_CFG_HMAC_EN_BIT :: u32 where "HMAC_CFG_HMAC_EN_BIT \<equiv> 0x0"
abbreviation (input) HMAC_CFG_SHA_EN_BIT :: u32 where "HMAC_CFG_SHA_EN_BIT \<equiv> 0x1"
abbreviation (input) HMAC_CFG_ENDIAN_SWAP_BIT :: u32 where "HMAC_CFG_ENDIAN_SWAP_BIT \<equiv> 0x2"
abbreviation (input) HMAC_CFG_DIGEST_SWAP_BIT :: u32 where "HMAC_CFG_DIGEST_SWAP_BIT \<equiv> 0x3"
abbreviation (input) HMAC_CMD_HASH_START_BIT :: u32 where "HMAC_CMD_HASH_START_BIT \<equiv> 0x0"
abbreviation (input) HMAC_CMD_HASH_PROCESS_BIT :: u32 where "HMAC_CMD_HASH_PROCESS_BIT \<equiv> 0x1"
abbreviation (input) HMAC_INTR_STATE_HMAC_DONE_BIT :: u32 where "HMAC_INTR_STATE_HMAC_DONE_BIT \<equiv> 0x0"

section \<open>Key manager\<close>

abbreviation (input) KEYMGR_START_REG_OFFSET :: u32 where "KEYMGR_START_REG_OFFSET \<equiv> 0x14"
abbreviation (input) KEYMGR_CONTROL_SHADOWED_REG_OFFSET :: u32 where "KEYMGR_CONTROL_SHADOWED_REG_OFFSET \<equiv> 0x18"
abbreviation (input) KEYMGR_SIDELOAD_CLEAR_REG_OFFSET :: u32 where "KEYMGR_SIDELOAD_CLEAR_REG_OFFSET \<equiv> 0x1c"
abbreviation (input) KEYMGR_RESEED_INTERVAL_SHADOWED_REG_OFFSET :: u32 where "KEYMGR_RESEED_INTERVAL_SHADOWED_REG_OFFSET \<equiv> 0x24"
abbreviation (input) KEYMGR_SW_BINDING_REGWEN_REG_OFFSET :: u32 where "KEYMGR_SW_BINDING_REGWEN_REG_OFFSET \<equiv> 0x28"
abbreviation (input) KEYMGR_SEALING_SW_BINDING_0_REG_OFFSET :: u32 where "KEYMGR_SEALING_SW_BINDING_0_REG_OFFSET \<equiv> 0x2c"
abbreviation (input) KEYMGR_ATTEST_SW_BINDING_0_REG_OFFSET :: u32 where "KEYMGR_ATTEST_SW_BINDING_0_REG_OFFSET \<equiv> 0x4c"
abbreviation (input) KEYMGR_MAX_CREATOR_KEY_VER_REGWEN_REG_OFFSET :: u32 where "KEYMGR_MAX_CREATOR_KEY_VER_REGWEN_REG_OFFSET \<equiv> 0x90"
abbreviation (input) KEYMGR_MAX_CREATOR_KEY_VER_SHADOWED_REG_OFFSET :: u32 where "KEYMGR_MAX_CREATOR_KEY_VER_SHADOWED_REG_OFFSET \<equiv> 0x94"
abbreviation (input) KEYMGR_MAX_OWNER_INT_KEY_VER_REGWEN_REG_OFFSET :: u32 where "KEYMGR_MAX_OWNER_INT_KEY_VER_REGWEN_REG_OFFSET \<equiv> 0x98"
abbreviation (input) KEYMGR_MAX_OWNER_INT_KEY_VER_SHADOWED_REG_OFFSET :: u32 where "KEYMGR_MAX_OWNER_INT_KEY_VER_SHADOWED_REG_OFFSET \<equiv> 0x9c"
abbreviation (input) KEYMGR_WORKING_STATE_REG_OFFSET :: u32 where "KEYMGR_WORKING_STATE_REG_OFFSET \<equiv> 0xe8"
abbreviation (input) KEYMGR_OP_STATUS_REG_OFFSET :: u32 where "KEYMGR_OP_STATUS_REG_OFFSET \<equiv> 0xec"
abbreviation (input) KEYMGR_ERR_CODE_REG_OFFSET :: u32 where "KEYMGR_ERR_CODE_REG_OFFSET \<equiv> 0xf0"
abbreviation (input) KEYMGR_CONTROL_SHADOWED_OPERATION_FIELD :: bitfield_field32 where
  "KEYMGR_CONTROL_SHADOWED_OPERATION_FIELD \<equiv> \<lparr>bf_mask = 0x7, bf_index = 4\<rparr>"
abbreviation (input) KEYMGR_CONTROL_SHADOWED_DEST_SEL_FIELD :: bitfield_field32 where
  "KEYMGR_CONTROL_SHADOWED_DEST_SEL_FIELD \<equiv> \<lparr>bf_mask = 0x3, bf_index = 12\<rparr>"
abbreviation (input) KEYMGR_OP_STATUS_STATUS_FIELD :: bitfield_field32 where
  "KEYMGR_OP_STATUS_STATUS_FIELD \<equiv> \<lparr>bf_mask = 0x3, bf_index = 0\<rparr>"
abbreviation (input) KEYMGR_RESEED_INTERVAL_SHADOWED_VAL_FIELD :: bitfield_field32 where
  "KEYMGR_RESEED_INTERVAL_SHADOWED_VAL_FIELD \<equiv> \<lparr>bf_mask = 0xffff, bf_index = 0\<rparr>"
abbreviation (input) KEYMGR_CONTROL_SHADOWED_DEST_SEL_VALUE_NONE :: u32 where "KEYMGR_CONTROL_SHADOWED_DEST_SEL_VALUE_NONE \<equiv> 0x0"
abbreviation (input) KEYMGR_CONTROL_SHADOWED_OPERATION_VALUE_ADVANCE :: u32 where "KEYMGR_CONTROL_SHADOWED_OPERATION_VALUE_ADVANCE \<equiv> 0x0"
abbreviation (input) KEYMGR_CONTROL_SHADOWED_OPERATION_VALUE_DISABLE :: u32 where "KEYMGR_CONTROL_SHADOWED_OPERATION_VALUE_DISABLE \<equiv> 0x4"
abbreviation (input) KEYMGR_OP_STATUS_STATUS_VALUE_IDLE :: u32 where "KEYMGR_OP_STATUS_STATUS_VALUE_IDLE \<equiv> 0x0"
abbreviation (input) KEYMGR_OP_STATUS_STATUS_VALUE_WIP :: u32 where "KEYMGR_OP_STATUS_STATUS_VALUE_WIP \<equiv> 0x1"
abbreviation (input) KEYMGR_OP_STATUS_STATUS_VALUE_DONE_SUCCESS :: u32 where "KEYMGR_OP_STATUS_STATUS_VALUE_DONE_SUCCESS \<equiv> 0x2"
abbreviation (input) KEYMGR_WORKING_STATE_STATE_VALUE_RESET :: u32 where "KEYMGR_WORKING_STATE_STATE_VALUE_RESET \<equiv> 0x0"
abbreviation (input) KEYMGR_WORKING_STATE_STATE_VALUE_INIT :: u32 where "KEYMGR_WORKING_STATE_STATE_VALUE_INIT \<equiv> 0x1"
abbreviation (input) KEYMGR_WORKING_STATE_STATE_VALUE_CREATOR_ROOT_KEY :: u32 where "KEYMGR_WORKING_STATE_STATE_VALUE_CREATOR_ROOT_KEY \<equiv> 0x2"
abbreviation (input) KEYMGR_WORKING_STATE_STATE_VALUE_OWNER_INTERMEDIATE_KEY :: u32 where "KEYMGR_WORKING_STATE_STATE_VALUE_OWNER_INTERMEDIATE_KEY \<equiv> 0x3"
abbreviation (input) KEYMGR_WORKING_STATE_STATE_VALUE_OWNER_KEY :: u32 where "KEYMGR_WORKING_STATE_STATE_VALUE_OWNER_KEY \<equiv> 0x4"
abbreviation (input) KEYMGR_WORKING_STATE_STATE_VALUE_DISABLED :: u32 where "KEYMGR_WORKING_STATE_STATE_VALUE_DISABLED \<equiv> 0x5"
abbreviation (input) KEYMGR_WORKING_STATE_STATE_VALUE_INVALID :: u32 where "KEYMGR_WORKING_STATE_STATE_VALUE_INVALID \<equiv> 0x6"

section \<open>Life cycle controller\<close>

abbreviation (input) LC_CTRL_LC_STATE_REG_OFFSET :: u32 where "LC_CTRL_LC_STATE_REG_OFFSET \<equiv> 0x34"
abbreviation (input) LC_CTRL_HW_REV_REG_OFFSET :: u32 where "LC_CTRL_HW_REV_REG_OFFSET \<equiv> 0x40"
abbreviation (input) LC_CTRL_DEVICE_ID_0_REG_OFFSET :: u32 where "LC_CTRL_DEVICE_ID_0_REG_OFFSET \<equiv> 0x44"
abbreviation (input) LC_CTRL_LC_STATE_STATE_FIELD :: bitfield_field32 where
  "LC_CTRL_LC_STATE_STATE_FIELD \<equiv> \<lparr>bf_mask = 0x3fffffff, bf_index = 0\<rparr>"
abbreviation (input) LC_CTRL_HW_REV_CHIP_GEN_FIELD :: bitfield_field32 where
  "LC_CTRL_HW_REV_CHIP_GEN_FIELD \<equiv> \<lparr>bf_mask = 0xffff, bf_index = 16\<rparr>"
abbreviation (input) LC_CTRL_HW_REV_CHIP_REV_FIELD :: bitfield_field32 where
  "LC_CTRL_HW_REV_CHIP_REV_FIELD \<equiv> \<lparr>bf_mask = 0xffff, bf_index = 0\<rparr>"
abbreviation (input) LC_CTRL_LC_STATE_STATE_VALUE_TEST_UNLOCKED0 :: u32 where "LC_CTRL_LC_STATE_STATE_VALUE_TEST_UNLOCKED0 \<equiv> 0x2108421"
abbreviation (input) LC_CTRL_LC_STATE_STATE_VALUE_TEST_UNLOCKED1 :: u32 where "LC_CTRL_LC_STATE_STATE_VALUE_TEST_UNLOCKED1 \<equiv> 0x6318c63"
abbreviation (input) LC_CTRL_LC_STATE_STATE_VALUE_TEST_UNLOCKED2 :: u32 where "LC_CTRL_LC_STATE_STATE_VALUE_TEST_UNLOCKED2 \<equiv> 0xa5294a5"
abbreviation (input) LC_CTRL_LC_STATE_STATE_VALUE_TEST_UNLOCKED3 :: u32 where "LC_CTRL_LC_STATE_STATE_VALUE_TEST_UNLOCKED3 \<equiv> 0xe739ce7"
abbreviation (input) LC_CTRL_LC_STATE_STATE_VALUE_TEST_UNLOCKED4 :: u32 where "LC_CTRL_LC_STATE_STATE_VALUE_TEST_UNLOCKED4 \<equiv> 0x1294a529"
abbreviation (input) LC_CTRL_LC_STATE_STATE_VALUE_TEST_UNLOCKED5 :: u32 where "LC_CTRL_LC_STATE_STATE_VALUE_TEST_UNLOCKED5 \<equiv> 0x16b5ad6b"
abbreviation (input) LC_CTRL_LC_STATE_STATE_VALUE_TEST_UNLOCKED6 :: u32 where "LC_CTRL_LC_STATE_STATE_VALUE_TEST_UNLOCKED6 \<equiv> 0x1ad6b5ad"
abbreviation (input) LC_CTRL_LC_STATE_STATE_VALUE_TEST_UNLOCKED7 :: u32 where "LC_CTRL_LC_STATE_STATE_VALUE_TEST_UNLOCKED7 \<equiv> 0x1ef7bdef"
abbreviation (input) LC_CTRL_LC_STATE_STATE_VALUE_DEV :: u32 where "LC_CTRL_LC_STATE_STATE_VALUE_DEV \<equiv> 0x21084210"
abbreviation (input) LC_CTRL_LC_STATE_STATE_VALUE_PROD :: u32 where "LC_CTRL_LC_STATE_STATE_VALUE_PROD \<equiv> 0x2318c631"
abbreviation (input) LC_CTRL_LC_STATE_STATE_VALUE_PROD_END :: u32 where "LC_CTRL_LC_STATE_STATE_VALUE_PROD_END \<equiv> 0x25294a52"
abbreviation (input) LC_CTRL_LC_STATE_STATE_VALUE_RMA :: u32 where "LC_CTRL_LC_STATE_STATE_VALUE_RMA \<equiv> 0x2739ce73"

section \<open>AON timer, power, reset and sensor managers\<close>

abbreviation (input) AON_TIMER_WDOG_CTRL_REG_OFFSET :: u32 where "AON_TIMER_WDOG_CTRL_REG_OFFSET \<equiv> 0x14"
abbreviation (input) AON_TIMER_WDOG_BARK_THOLD_REG_OFFSET :: u32 where "AON_TIMER_WDOG_BARK_THOLD_REG_OFFSET \<equiv> 0x18"
abbreviation (input) AON_TIMER_WDOG_BITE_THOLD_REG_OFFSET :: u32 where "AON_TIMER_WDOG_BITE_THOLD_REG_OFFSET \<equiv> 0x1c"
abbreviation (input) AON_TIMER_WDOG_COUNT_REG_OFFSET :: u32 where "AON_TIMER_WDOG_COUNT_REG_OFFSET \<equiv> 0x20"
abbreviation (input) AON_TIMER_WDOG_CTRL_ENABLE_BIT :: u32 where "AON_TIMER_WDOG_CTRL_ENABLE_BIT \<equiv> 0x0"
abbreviation (input) PWRMGR_CFG_CDC_SYNC_REG_OFFSET :: u32 where "PWRMGR_CFG_CDC_SYNC_REG_OFFSET \<equiv> 0x18"
abbreviation (input) PWRMGR_RESET_EN_REG_OFFSET :: u32 where "PWRMGR_RESET_EN_REG_OFFSET \<equiv> 0x2c"
abbreviation (input) RSTMGR_RESET_REQ_REG_OFFSET :: u32 where "RSTMGR_RESET_REQ_REG_OFFSET \<equiv> 0x4"
abbreviation (input) RSTMGR_RESET_INFO_REG_OFFSET :: u32 where "RSTMGR_RESET_INFO_REG_OFFSET \<equiv> 0x8"
abbreviation (input) RSTMGR_ALERT_INFO_CTRL_REG_OFFSET :: u32 where "RSTMGR_ALERT_INFO_CTRL_REG_OFFSET \<equiv> 0x10"
abbreviation (input) RSTMGR_ALERT_INFO_ATTR_REG_OFFSET :: u32 where "RSTMGR_ALERT_INFO_ATTR_REG_OFFSET \<equiv> 0x14"
abbreviation (input) RSTMGR_ALERT_INFO_REG_OFFSET :: u32 where "RSTMGR_ALERT_INFO_REG_OFFSET \<equiv> 0x18"
abbreviation (input) RSTMGR_ALERT_INFO_CTRL_INDEX_FIELD :: bitfield_field32 where
  "RSTMGR_ALERT_INFO_CTRL_INDEX_FIELD \<equiv> \<lparr>bf_mask = 0xf, bf_index = 4\<rparr>"
abbreviation (input) RSTMGR_ALERT_INFO_ATTR_CNT_AVAIL_FIELD :: bitfield_field32 where
  "RSTMGR_ALERT_INFO_ATTR_CNT_AVAIL_FIELD \<equiv> \<lparr>bf_mask = 0xf, bf_index = 0\<rparr>"
abbreviation (input) SENSOR_CTRL_STATUS_REG_OFFSET :: u32 where "SENSOR_CTRL_STATUS_REG_OFFSET \<equiv> 0x24"
abbreviation (input) SENSOR_CTRL_STATUS_AST_INIT_DONE_BIT :: u32 where "SENSOR_CTRL_STATUS_AST_INIT_DONE_BIT \<equiv> 0x0"

section \<open>OTBN\<close>

abbreviation (input) OTBN_INTR_STATE_REG_OFFSET :: u32 where "OTBN_INTR_STATE_REG_OFFSET \<equiv> 0x0"
abbreviation (input) OTBN_CMD_REG_OFFSET :: u32 where "OTBN_CMD_REG_OFFSET \<equiv> 0x10"
abbreviation (input) OTBN_CTRL_REG_OFFSET :: u32 where "OTBN_CTRL_REG_OFFSET \<equiv> 0x14"
abbreviation (input) OTBN_STATUS_REG_OFFSET :: u32 where "OTBN_STATUS_REG_OFFSET \<equiv> 0x18"
abbreviation (input) OTBN_ERR_BITS_REG_OFFSET :: u32 where "OTBN_ERR_BITS_REG_OFFSET \<equiv> 0x1c"
abbreviation (input) OTBN_INSN_CNT_REG_OFFSET :: u32 where "OTBN_INSN_CNT_REG_OFFSET \<equiv> 0x24"
abbreviation (input) OTBN_IMEM_REG_OFFSET :: u32 where "OTBN_IMEM_REG_OFFSET \<equiv> 0x4000"
abbreviation (input) OTBN_DMEM_REG_OFFSET :: u32 where "OTBN_DMEM_REG_OFFSET \<equiv> 0x8000"
abbreviation (input) OTBN_INTR_COMMON_DONE_BIT :: u32 where "OTBN_INTR_COMMON_DONE_BIT \<equiv> 0x0"

section \<open>UART\<close>

abbreviation (input) UART_INTR_STATE_REG_OFFSET :: u32 where "UART_INTR_STATE_REG_OFFSET \<equiv> 0x0"
abbreviation (input) UART_INTR_ENABLE_REG_OFFSET :: u32 where "UART_INTR_ENABLE_REG_OFFSET \<equiv> 0x4"
abbreviation (input) UART_CTRL_REG_OFFSET :: u32 where "UART_CTRL_REG_OFFSET \<equiv> 0x10"
abbreviation (input) UART_STATUS_REG_OFFSET :: u32 where "UART_STATUS_REG_OFFSET \<equiv> 0x14"
abbreviation (input) UART_WDATA_REG_OFFSET :: u32 where "UART_WDATA_REG_OFFSET \<equiv> 0x1c"
abbreviation (input) UART_FIFO_CTRL_REG_OFFSET :: u32 where "UART_FIFO_CTRL_REG_OFFSET \<equiv> 0x20"
abbreviation (input) UART_OVRD_REG_OFFSET :: u32 where "UART_OVRD_REG_OFFSET \<equiv> 0x28"
abbreviation (input) UART_TIMEOUT_CTRL_REG_OFFSET :: u32 where "UART_TIMEOUT_CTRL_REG_OFFSET \<equiv> 0x30"
abbreviation (input) UART_CTRL_TX_BIT :: u32 where "UART_CTRL_TX_BIT \<equiv> 0x0"
abbreviation (input) UART_CTRL_PARITY_EN_BIT :: u32 where "UART_CTRL_PARITY_EN_BIT \<equiv> 0x6"
abbreviation (input) UART_FIFO_CTRL_RXRST_BIT :: u32 where "UART_FIFO_CTRL_RXRST_BIT \<equiv> 0x0"
abbreviation (input) UART_FIFO_CTRL_TXRST_BIT :: u32 where "UART_FIFO_CTRL_TXRST_BIT \<equiv> 0x1"
abbreviation (input) UART_STATUS_TXFULL_BIT :: u32 where "UART_STATUS_TXFULL_BIT \<equiv> 0x0"
abbreviation (input) UART_STATUS_TXIDLE_BIT :: u32 where "UART_STATUS_TXIDLE_BIT \<equiv> 0x3"
abbreviation (input) UART_CTRL_NCO_FIELD :: bitfield_field32 where
  "UART_CTRL_NCO_FIELD \<equiv> \<lparr>bf_mask = 0xffff, bf_index = 16\<rparr>"
abbreviation (input) UART_WDATA_WDATA_FIELD :: bitfield_field32 where
  "UART_WDATA_WDATA_FIELD \<equiv> \<lparr>bf_mask = 0xff, bf_index = 0\<rparr>"

section \<open>SPI device\<close>

abbreviation (input) SPI_DEVICE_INTR_STATE_REG_OFFSET :: u32 where "SPI_DEVICE_INTR_STATE_REG_OFFSET \<equiv> 0x0"
abbreviation (input) SPI_DEVICE_CFG_REG_OFFSET :: u32 where "SPI_DEVICE_CFG_REG_OFFSET \<equiv> 0x14"
abbreviation (input) SPI_DEVICE_FLASH_STATUS_REG_OFFSET :: u32 where "SPI_DEVICE_FLASH_STATUS_REG_OFFSET \<equiv> 0x3c"
abbreviation (input) SPI_DEVICE_JEDEC_CC_REG_OFFSET :: u32 where "SPI_DEVICE_JEDEC_CC_REG_OFFSET \<equiv> 0x40"
abbreviation (input) SPI_DEVICE_JEDEC_ID_REG_OFFSET :: u32 where "SPI_DEVICE_JEDEC_ID_REG_OFFSET \<equiv> 0x44"
abbreviation (input) SPI_DEVICE_UPLOAD_STATUS_REG_OFFSET :: u32 where "SPI_DEVICE_UPLOAD_STATUS_REG_OFFSET \<equiv> 0x50"
abbreviation (input) SPI_DEVICE_UPLOAD_STATUS2_REG_OFFSET :: u32 where "SPI_DEVICE_UPLOAD_STATUS2_REG_OFFSET \<equiv> 0x54"
abbreviation (input) SPI_DEVICE_UPLOAD_CMDFIFO_REG_OFFSET :: u32 where "SPI_DEVICE_UPLOAD_CMDFIFO_REG_OFFSET \<equiv> 0x58"
abbreviation (input) SPI_DEVICE_UPLOAD_ADDRFIFO_REG_OFFSET :: u32 where "SPI_DEVICE_UPLOAD_ADDRFIFO_REG_OFFSET \<equiv> 0x5c"
abbreviation (input) SPI_DEVICE_CMD_INFO_0_REG_OFFSET :: u32 where "SPI_DEVICE_CMD_INFO_0_REG_OFFSET \<equiv> 0x90"
abbreviation (input) SPI_DEVICE_CMD_INFO_3_REG_OFFSET :: u32 where "SPI_DEVICE_CMD_INFO_3_REG_OFFSET \<equiv> 0x9c"
abbreviation (input) SPI_DEVICE_CMD_INFO_4_REG_OFFSET :: u32 where "SPI_DEVICE_CMD_INFO_4_REG_OFFSET \<equiv> 0xa0"
abbreviation (input) SPI_DEVICE_CMD_INFO_11_REG_OFFSET :: u32 where "SPI_DEVICE_CMD_INFO_11_REG_OFFSET \<equiv> 0xbc"
abbreviation (input) SPI_DEVICE_CMD_INFO_12_REG_OFFSET :: u32 where "SPI_DEVICE_CMD_INFO_12_REG_OFFSET \<equiv> 0xc0"
abbreviation (input) SPI_DEVICE_CMD_INFO_13_REG_OFFSET :: u32 where "SPI_DEVICE_CMD_INFO_13_REG_OFFSET \<equiv> 0xc4"
abbreviation (input) SPI_DEVICE_CMD_INFO_14_REG_OFFSET :: u32 where "SPI_DEVICE_CMD_INFO_14_REG_OFFSET \<equiv> 0xc8"
abbreviation (input) SPI_DEVICE_CMD_INFO_WREN_REG_OFFSET :: u32 where "SPI_DEVICE_CMD_INFO_WREN_REG_OFFSET \<equiv> 0xf8"
abbreviation (input) SPI_DEVICE_CMD_INFO_WRDI_REG_OFFSET :: u32 where "SPI_DEVICE_CMD_INFO_WRDI_REG_OFFSET \<equiv> 0xfc"
abbreviation (input) SPI_DEVICE_BUFFER_REG_OFFSET :: u32 where "SPI_DEVICE_BUFFER_REG_OFFSET \<equiv> 0x1000"
abbreviation (input) SPI_DEVICE_CFG_CPOL_BIT :: u32 where "SPI_DEVICE_CFG_CPOL_BIT \<equiv> 0x0"
abbreviation (input) SPI_DEVICE_CFG_CPHA_BIT :: u32 where "SPI_DEVICE_CFG_CPHA_BIT \<equiv> 0x1"
abbreviation (input) SPI_DEVICE_CFG_TX_ORDER_BIT :: u32 where "SPI_DEVICE_CFG_TX_ORDER_BIT \<equiv> 0x2"
abbreviation (input) SPI_DEVICE_CFG_RX_ORDER_BIT :: u32 where "SPI_DEVICE_CFG_RX_ORDER_BIT \<equiv> 0x3"
abbreviation (input) SPI_DEVICE_CFG_ADDR_4B_EN_BIT :: u32 where "SPI_DEVICE_CFG_ADDR_4B_EN_BIT \<equiv> 0x10"
abbreviation (input) SPI_DEVICE_CFG_MAILBOX_EN_BIT :: u32 where "SPI_DEVICE_CFG_MAILBOX_EN_BIT \<equiv> 0x18"
abbreviation (input) SPI_DEVICE_INTR_COMMON_UPLOAD_CMDFIFO_NOT_EMPTY_BIT :: u32 where "SPI_DEVICE_INTR_COMMON_UPLOAD_CMDFIFO_NOT_EMPTY_BIT \<equiv> 0x6"
abbreviation (input) SPI_DEVICE_INTR_COMMON_UPLOAD_PAYLOAD_OVERFLOW_BIT :: u32 where "SPI_DEVICE_INTR_COMMON_UPLOAD_PAYLOAD_OVERFLOW_BIT \<equiv> 0x8"
abbreviation (input) SPI_DEVICE_UPLOAD_STATUS_ADDRFIFO_NOTEMPTY_BIT :: u32 where "SPI_DEVICE_UPLOAD_STATUS_ADDRFIFO_NOTEMPTY_BIT \<equiv> 0xf"
abbreviation (input) SPI_DEVICE_CMD_INFO_0_DUMMY_EN_0_BIT :: u32 where "SPI_DEVICE_CMD_INFO_0_DUMMY_EN_0_BIT \<equiv> 0xf"
abbreviation (input) SPI_DEVICE_CMD_INFO_0_UPLOAD_0_BIT :: u32 where "SPI_DEVICE_CMD_INFO_0_UPLOAD_0_BIT \<equiv> 0x18"
abbreviation (input) SPI_DEVICE_CMD_INFO_0_BUSY_0_BIT :: u32 where "SPI_DEVICE_CMD_INFO_0_BUSY_0_BIT \<equiv> 0x19"
abbreviation (input) SPI_DEVICE_CMD_INFO_0_VALID_0_BIT :: u32 where "SPI_DEVICE_CMD_INFO_0_VALID_0_BIT \<equiv> 0x1f"
abbreviation (input) SPI_DEVICE_CMD_INFO_WREN_VALID_BIT :: u32 where "SPI_DEVICE_CMD_INFO_WREN_VALID_BIT \<equiv> 0x1f"
abbreviation (input) SPI_DEVICE_CFG_TIMER_V_FIELD :: bitfield_field32 where
  "SPI_DEVICE_CFG_TIMER_V_FIELD \<equiv> \<lparr>bf_mask = 0xff, bf_index = 8\<rparr>"
abbreviation (input) SPI_DEVICE_JEDEC_CC_NUM_CC_FIELD :: bitfield_field32 where
  "SPI_DEVICE_JEDEC_CC_NUM_CC_FIELD \<equiv> \<lparr>bf_mask = 0xff, bf_index = 8\<rparr>"
abbreviation (input) SPI_DEVICE_JEDEC_CC_CC_FIELD :: bitfield_field32 where
  "SPI_DEVICE_JEDEC_CC_CC_FIELD \<equiv> \<lparr>bf_mask = 0xff, bf_index = 0\<rparr>"
abbreviation (input) SPI_DEVICE_JEDEC_ID_MF_FIELD :: bitfield_field32 where
  "SPI_DEVICE_JEDEC_ID_MF_FIELD \<equiv> \<lparr>bf_mask = 0xff, bf_index = 16\<rparr>"
abbreviation (input) SPI_DEVICE_UPLOAD_STATUS2_PAYLOAD_DEPTH_FIELD :: bitfield_field32 where
  "SPI_DEVICE_UPLOAD_STATUS2_PAYLOAD_DEPTH_FIELD \<equiv> \<lparr>bf_mask = 0x1ff, bf_index = 0\<rparr>"
abbreviation (input) SPI_DEVICE_CMD_INFO_0_OPCODE_0_FIELD :: bitfield_field32 where
  "SPI_DEVICE_CMD_INFO_0_OPCODE_0_FIELD \<equiv> \<lparr>bf_mask = 0xff, bf_index = 0\<rparr>"
abbreviation (input) SPI_DEVICE_CMD_INFO_0_ADDR_MODE_0_FIELD :: bitfield_field32 where
  "SPI_DEVICE_CMD_INFO_0_ADDR_MODE_0_FIELD \<equiv> \<lparr>bf_mask = 0x3, bf_index = 8\<rparr>"
abbreviation (input) SPI_DEVICE_CMD_INFO_0_DUMMY_SIZE_0_FIELD :: bitfield_field32 where
  "SPI_DEVICE_CMD_INFO_0_DUMMY_SIZE_0_FIELD \<equiv> \<lparr>bf_mask = 0x7, bf_index = 12\<rparr>"
abbreviation (input) SPI_DEVICE_CMD_INFO_WREN_OPCODE_FIELD :: bitfield_field32 where
  "SPI_DEVICE_CMD_INFO_WREN_OPCODE_FIELD \<equiv> \<lparr>bf_mask = 0xff, bf_index = 0\<rparr>"
abbreviation (input) SPI_DEVICE_CMD_INFO_WRDI_OPCODE_FIELD :: bitfield_field32 where
  "SPI_DEVICE_CMD_INFO_WRDI_OPCODE_FIELD \<equiv> \<lparr>bf_mask = 0xff, bf_index = 0\<rparr>"
abbreviation (input) SPI_DEVICE_CMD_INFO_0_ADDR_MODE_0_VALUE_ADDRDISABLED :: u32 where "SPI_DEVICE_CMD_INFO_0_ADDR_MODE_0_VALUE_ADDRDISABLED \<equiv> 0x0"
abbreviation (input) SPI_DEVICE_CMD_INFO_0_ADDR_MODE_0_VALUE_ADDR3B :: u32 where "SPI_DEVICE_CMD_INFO_0_ADDR_MODE_0_VALUE_ADDR3B \<equiv> 0x2"

section \<open>GPIO and SRAM controllers\<close>

abbreviation (input) GPIO_DATA_IN_REG_OFFSET :: u32 where "GPIO_DATA_IN_REG_OFFSET \<equiv> 0x10"
abbreviation (input) SRAM_CTRL_EXEC_REGWEN_REG_OFFSET :: u32 where "SRAM_CTRL_EXEC_REGWEN_REG_OFFSET \<equiv> 0x8"
abbreviation (input) SRAM_CTRL_CTRL_REG_OFFSET :: u32 where "SRAM_CTRL_CTRL_REG_OFFSET \<equiv> 0x14"
abbreviation (input) SRAM_CTRL_CTRL_RENEW_SCR_KEY_BIT :: u32 where "SRAM_CTRL_CTRL_RENEW_SCR_KEY_BIT \<equiv> 0x0"
abbreviation (input) SRAM_CTRL_CTRL_INIT_BIT :: u32 where "SRAM_CTRL_CTRL_INIT_BIT \<equiv> 0x1"
abbreviation (input) SRAM_CTRL_EXEC_EN_OFFSET :: u32 where "SRAM_CTRL_EXEC_EN_OFFSET \<equiv> 0x0"

section \<open>Ibex peripheral\<close>

abbreviation (input) RV_CORE_IBEX_SW_FATAL_ERR_REG_OFFSET :: u32 where "RV_CORE_IBEX_SW_FATAL_ERR_REG_OFFSET \<equiv> 0x8"
abbreviation (input) RV_CORE_IBEX_IBUS_ADDR_EN_0_REG_OFFSET :: u32 where "RV_CORE_IBEX_IBUS_ADDR_EN_0_REG_OFFSET \<equiv> 0x14"
abbreviation (input) RV_CORE_IBEX_IBUS_ADDR_EN_1_REG_OFFSET :: u32 where "RV_CORE_IBEX_IBUS_ADDR_EN_1_REG_OFFSET \<equiv> 0x18"
abbreviation (input) RV_CORE_IBEX_IBUS_ADDR_MATCHING_0_REG_OFFSET :: u32 where "RV_CORE_IBEX_IBUS_ADDR_MATCHING_0_REG_OFFSET \<equiv> 0x1c"
abbreviation (input) RV_CORE_IBEX_IBUS_ADDR_MATCHING_1_REG_OFFSET :: u32 where "RV_CORE_IBEX_IBUS_ADDR_MATCHING_1_REG_OFFSET \<equiv> 0x20"
abbreviation (input) RV_CORE_IBEX_IBUS_REMAP_ADDR_0_REG_OFFSET :: u32 where "RV_CORE_IBEX_IBUS_REMAP_ADDR_0_REG_OFFSET \<equiv> 0x24"
abbreviation (input) RV_CORE_IBEX_IBUS_REMAP_ADDR_1_REG_OFFSET :: u32 where "RV_CORE_IBEX_IBUS_REMAP_ADDR_1_REG_OFFSET \<equiv> 0x28"
abbreviation (input) RV_CORE_IBEX_DBUS_ADDR_EN_0_REG_OFFSET :: u32 where "RV_CORE_IBEX_DBUS_ADDR_EN_0_REG_OFFSET \<equiv> 0x34"
abbreviation (input) RV_CORE_IBEX_DBUS_ADDR_EN_1_REG_OFFSET :: u32 where "RV_CORE_IBEX_DBUS_ADDR_EN_1_REG_OFFSET \<equiv> 0x38"
abbreviation (input) RV_CORE_IBEX_DBUS_ADDR_MATCHING_0_REG_OFFSET :: u32 where "RV_CORE_IBEX_DBUS_ADDR_MATCHING_0_REG_OFFSET \<equiv> 0x3c"
abbreviation (input) RV_CORE_IBEX_DBUS_ADDR_MATCHING_1_REG_OFFSET :: u32 where "RV_CORE_IBEX_DBUS_ADDR_MATCHING_1_REG_OFFSET \<equiv> 0x40"
abbreviation (input) RV_CORE_IBEX_DBUS_REMAP_ADDR_0_REG_OFFSET :: u32 where "RV_CORE_IBEX_DBUS_REMAP_ADDR_0_REG_OFFSET \<equiv> 0x44"
abbreviation (input) RV_CORE_IBEX_DBUS_REMAP_ADDR_1_REG_OFFSET :: u32 where "RV_CORE_IBEX_DBUS_REMAP_ADDR_1_REG_OFFSET \<equiv> 0x48"
abbreviation (input) RV_CORE_IBEX_RND_DATA_REG_OFFSET :: u32 where "RV_CORE_IBEX_RND_DATA_REG_OFFSET \<equiv> 0x58"
abbreviation (input) RV_CORE_IBEX_RND_STATUS_REG_OFFSET :: u32 where "RV_CORE_IBEX_RND_STATUS_REG_OFFSET \<equiv> 0x5c"
abbreviation (input) RV_CORE_IBEX_FPGA_INFO_REG_OFFSET :: u32 where "RV_CORE_IBEX_FPGA_INFO_REG_OFFSET \<equiv> 0x60"

section \<open>OTP controller\<close>

abbreviation (input) OTP_CTRL_CREATOR_SW_CFG_READ_LOCK_REG_OFFSET :: u32 where "OTP_CTRL_CREATOR_SW_CFG_READ_LOCK_REG_OFFSET \<equiv> 0x50"
abbreviation (input) OTP_CTRL_SW_CFG_WINDOW_REG_OFFSET :: u32 where "OTP_CTRL_SW_CFG_WINDOW_REG_OFFSET \<equiv> 0x1000"
abbreviation (input) OTP_CTRL_PARAM_CREATOR_SW_CFG_AST_INIT_EN_OFFSET :: u32 where "OTP_CTRL_PARAM_CREATOR_SW_CFG_AST_INIT_EN_OFFSET \<equiv> 0xdc"
abbreviation (input) OTP_CTRL_PARAM_CREATOR_SW_CFG_USE_SW_RSA_VERIFY_OFFSET :: u32 where "OTP_CTRL_PARAM_CREATOR_SW_CFG_USE_SW_RSA_VERIFY_OFFSET \<equiv> 0xe4"
abbreviation (input) OTP_CTRL_PARAM_CREATOR_SW_CFG_KEY_IS_VALID_OFFSET :: u32 where "OTP_CTRL_PARAM_CREATOR_SW_CFG_KEY_IS_VALID_OFFSET \<equiv> 0xe8"
abbreviation (input) OTP_CTRL_PARAM_CREATOR_SW_CFG_FLASH_DATA_DEFAULT_CFG_OFFSET :: u32 where "OTP_CTRL_PARAM_CREATOR_SW_CFG_FLASH_DATA_DEFAULT_CFG_OFFSET \<equiv> 0xf0"
abbreviation (input) OTP_CTRL_PARAM_CREATOR_SW_CFG_FLASH_INFO_BOOT_DATA_CFG_OFFSET :: u32 where "OTP_CTRL_PARAM_CREATOR_SW_CFG_FLASH_INFO_BOOT_DATA_CFG_OFFSET \<equiv> 0xf4"
abbreviation (input) OTP_CTRL_PARAM_CREATOR_SW_CFG_RNG_EN_OFFSET :: u32 where "OTP_CTRL_PARAM_CREATOR_SW_CFG_RNG_EN_OFFSET \<equiv> 0xf8"
abbreviation (input) OTP_CTRL_PARAM_CREATOR_SW_CFG_RET_RAM_RESET_MASK_OFFSET :: u32 where "OTP_CTRL_PARAM_CREATOR_SW_CFG_RET_RAM_RESET_MASK_OFFSET \<equiv> 0x100"
abbreviation (input) OTP_CTRL_PARAM_CREATOR_SW_CFG_MANUF_STATE_OFFSET :: u32 where "OTP_CTRL_PARAM_CREATOR_SW_CFG_MANUF_STATE_OFFSET \<equiv> 0x104"
abbreviation (input) OTP_CTRL_PARAM_CREATOR_SW_CFG_CPUCTRL_OFFSET :: u32 where "OTP_CTRL_PARAM_CREATOR_SW_CFG_CPUCTRL_OFFSET \<equiv> 0x10c"
abbreviation (input) OTP_CTRL_PARAM_CREATOR_SW_CFG_MIN_SEC_VER_ROM_EXT_OFFSET :: u32 where "OTP_CTRL_PARAM_CREATOR_SW_CFG_MIN_SEC_VER_ROM_EXT_OFFSET \<equiv> 0x110"
abbreviation (input) OTP_CTRL_PARAM_CREATOR_SW_CFG_MIN_SEC_VER_BL0_OFFSET :: u32 where "OTP_CTRL_PARAM_CREATOR_SW_CFG_MIN_SEC_VER_BL0_OFFSET \<equiv> 0x114"
abbreviation (input) OTP_CTRL_PARAM_CREATOR_SW_CFG_DEFAULT_BOOT_DATA_IN_PROD_EN_OFFSET :: u32 where "OTP_CTRL_PARAM_CREATOR_SW_CFG_DEFAULT_BOOT_DATA_IN_PROD_EN_OFFSET \<equiv> 0x118"
abbreviation (input) OTP_CTRL_PARAM_OWNER_SW_CFG_ROM_ERROR_REPORTING_OFFSET :: u32 where "OTP_CTRL_PARAM_OWNER_SW_CFG_ROM_ERROR_REPORTING_OFFSET \<equiv> 0x360"
abbreviation (input) OTP_CTRL_PARAM_OWNER_SW_CFG_ROM_BOOTSTRAP_EN_OFFSET :: u32 where "OTP_CTRL_PARAM_OWNER_SW_CFG_ROM_BOOTSTRAP_EN_OFFSET \<equiv> 0x364"
abbreviation (input) OTP_CTRL_PARAM_OWNER_SW_CFG_ROM_ALERT_CLASS_EN_OFFSET :: u32 where "OTP_CTRL_PARAM_OWNER_SW_CFG_ROM_ALERT_CLASS_EN_OFFSET \<equiv> 0x368"
abbreviation (input) OTP_CTRL_PARAM_OWNER_SW_CFG_ROM_ALERT_ESCALATION_OFFSET :: u32 where "OTP_CTRL_PARAM_OWNER_SW_CFG_ROM_ALERT_ESCALATION_OFFSET \<equiv> 0x36c"
abbreviation (input) OTP_CTRL_PARAM_OWNER_SW_CFG_ROM_ALERT_CLASSIFICATION_OFFSET :: u32 where "OTP_CTRL_PARAM_OWNER_SW_CFG_ROM_ALERT_CLASSIFICATION_OFFSET \<equiv> 0x370"
abbreviation (input) OTP_CTRL_PARAM_OWNER_SW_CFG_ROM_LOCAL_ALERT_CLASSIFICATION_OFFSET :: u32 where "OTP_CTRL_PARAM_OWNER_SW_CFG_ROM_LOCAL_ALERT_CLASSIFICATION_OFFSET \<equiv> 0x4b0"
abbreviation (input) OTP_CTRL_PARAM_OWNER_SW_CFG_ROM_ALERT_ACCUM_THRESH_OFFSET :: u32 where "OTP_CTRL_PARAM_OWNER_SW_CFG_ROM_ALERT_ACCUM_THRESH_OFFSET \<equiv> 0x4f0"
abbreviation (input) OTP_CTRL_PARAM_OWNER_SW_CFG_ROM_ALERT_TIMEOUT_CYCLES_OFFSET :: u32 where "OTP_CTRL_PARAM_OWNER_SW_CFG_ROM_ALERT_TIMEOUT_CYCLES_OFFSET \<equiv> 0x500"
abbreviation (input) OTP_CTRL_PARAM_OWNER_SW_CFG_ROM_ALERT_PHASE_CYCLES_OFFSET :: u32 where "OTP_CTRL_PARAM_OWNER_SW_CFG_ROM_ALERT_PHASE_CYCLES_OFFSET \<equiv> 0x510"
abbreviation (input) OTP_CTRL_PARAM_OWNER_SW_CFG_ROM_ALERT_DIGEST_PROD_OFFSET :: u32 where "OTP_CTRL_PARAM_OWNER_SW_CFG_ROM_ALERT_DIGEST_PROD_OFFSET \<equiv> 0x550"
abbreviation (input) OTP_CTRL_PARAM_OWNER_SW_CFG_ROM_ALERT_DIGEST_PROD_END_OFFSET :: u32 where "OTP_CTRL_PARAM_OWNER_SW_CFG_ROM_ALERT_DIGEST_PROD_END_OFFSET \<equiv> 0x554"
abbreviation (input) OTP_CTRL_PARAM_OWNER_SW_CFG_ROM_ALERT_DIGEST_DEV_OFFSET :: u32 where "OTP_CTRL_PARAM_OWNER_SW_CFG_ROM_ALERT_DIGEST_DEV_OFFSET \<equiv> 0x558"
abbreviation (input) OTP_CTRL_PARAM_OWNER_SW_CFG_ROM_ALERT_DIGEST_RMA_OFFSET :: u32 where "OTP_CTRL_PARAM_OWNER_SW_CFG_ROM_ALERT_DIGEST_RMA_OFFSET \<equiv> 0x55c"
abbreviation (input) OTP_CTRL_PARAM_OWNER_SW_CFG_ROM_WATCHDOG_BITE_THRESHOLD_CYCLES_OFFSET :: u32 where "OTP_CTRL_PARAM_OWNER_SW_CFG_ROM_WATCHDOG_BITE_THRESHOLD_CYCLES_OFFSET \<equiv> 0x560"
abbreviation (input) OTP_CTRL_PARAM_OWNER_SW_CFG_ROM_KEYMGR_ROM_EXT_MEAS_EN_OFFSET :: u32 where "OTP_CTRL_PARAM_OWNER_SW_CFG_ROM_KEYMGR_ROM_EXT_MEAS_EN_OFFSET \<equiv> 0x564"
abbreviation (input) OTP_CTRL_PARAM_OWNER_SW_CFG_MANUF_STATE_OFFSET :: u32 where "OTP_CTRL_PARAM_OWNER_SW_CFG_MANUF_STATE_OFFSET \<equiv> 0x568"

section \<open>Alert handler\<close>

abbreviation (input) ALERT_HANDLER_PING_TIMER_REGWEN_REG_OFFSET :: u32 where "ALERT_HANDLER_PING_TIMER_REGWEN_REG_OFFSET \<equiv> 0xc"
abbreviation (input) ALERT_HANDLER_PING_TIMER_EN_SHADOWED_REG_OFFSET :: u32 where "ALERT_HANDLER_PING_TIMER_EN_SHADOWED_REG_OFFSET \<equiv> 0x14"
abbreviation (input) ALERT_HANDLER_ALERT_REGWEN_0_REG_OFFSET :: u32 where "ALERT_HANDLER_ALERT_REGWEN_0_REG_OFFSET \<equiv> 0x18"
abbreviation (input) ALERT_HANDLER_ALERT_EN_SHADOWED_0_REG_OFFSET :: u32 where "ALERT_HANDLER_ALERT_EN_SHADOWED_0_REG_OFFSET \<equiv> 0x11c"
abbreviation (input) ALERT_HANDLER_ALERT_CLASS_SHADOWED_0_REG_OFFSET :: u32 where "ALERT_HANDLER_ALERT_CLASS_SHADOWED_0_REG_OFFSET \<equiv> 0x220"
abbreviation (input) ALERT_HANDLER_LOC_ALERT_REGWEN_0_REG_OFFSET :: u32 where "ALERT_HANDLER_LOC_ALERT_REGWEN_0_REG_OFFSET \<equiv> 0x428"
abbreviation (input) ALERT_HANDLER_LOC_ALERT_EN_SHADOWED_0_REG_OFFSET :: u32 where "ALERT_HANDLER_LOC_ALERT_EN_SHADOWED_0_REG_OFFSET \<equiv> 0x444"
abbreviation (input) ALERT_HANDLER_LOC_ALERT_CLASS_SHADOWED_0_REG_OFFSET :: u32 where "ALERT_HANDLER_LOC_ALERT_CLASS_SHADOWED_0_REG_OFFSET \<equiv> 0x460"
abbreviation (input) ALERT_HANDLER_CLASSA_REGWEN_REG_OFFSET :: u32 where "ALERT_HANDLER_CLASSA_REGWEN_REG_OFFSET \<equiv> 0x498"
abbreviation (input) ALERT_HANDLER_CLASSA_CTRL_SHADOWED_REG_OFFSET :: u32 where "ALERT_HANDLER_CLASSA_CTRL_SHADOWED_REG_OFFSET \<equiv> 0x49c"
abbreviation (input) ALERT_HANDLER_CLASSA_ACCUM_THRESH_SHADOWED_REG_OFFSET :: u32 where "ALERT_HANDLER_CLASSA_ACCUM_THRESH_SHADOWED_REG_OFFSET \<equiv> 0x4ac"
abbreviation (input) ALERT_HANDLER_CLASSA_TIMEOUT_CYC_SHADOWED_REG_OFFSET :: u32 where "ALERT_HANDLER_CLASSA_TIMEOUT_CYC_SHADOWED_REG_OFFSET \<equiv> 0x4b0"
abbreviation (input) ALERT_HANDLER_CLASSA_PHASE0_CYC_SHADOWED_REG_OFFSET :: u32 where "ALERT_HANDLER_CLASSA_PHASE0_CYC_SHADOWED_REG_OFFSET \<equiv> 0x4b8"
abbreviation (input) ALERT_HANDLER_CLASSB_REGWEN_REG_OFFSET :: u32 where "ALERT_HANDLER_CLASSB_REGWEN_REG_OFFSET \<equiv> 0x4d0"
abbreviation (input) ALERT_HANDLER_CLASSB_CTRL_SHADOWED_REG_OFFSET :: u32 where "ALERT_HANDLER_CLASSB_CTRL_SHADOWED_REG_OFFSET \<equiv> 0x4d4"
abbreviation (input) ALERT_HANDLER_CLASSC_CTRL_SHADOWED_REG_OFFSET :: u32 where "ALERT_HANDLER_CLASSC_CTRL_SHADOWED_REG_OFFSET \<equiv> 0x50c"
abbreviation (input) ALERT_HANDLER_CLASSD_CTRL_SHADOWED_REG_OFFSET :: u32 where "ALERT_HANDLER_CLASSD_CTRL_SHADOWED_REG_OFFSET \<equiv> 0x544"
abbreviation (input) ALERT_HANDLER_CLASSA_CTRL_SHADOWED_EN_BIT :: u32 where "ALERT_HANDLER_CLASSA_CTRL_SHADOWED_EN_BIT \<equiv> 0x0"
abbreviation (input) ALERT_HANDLER_CLASSA_CTRL_SHADOWED_LOCK_BIT :: u32 where "ALERT_HANDLER_CLASSA_CTRL_SHADOWED_LOCK_BIT \<equiv> 0x1"
abbreviation (input) ALERT_HANDLER_CLASSA_CTRL_SHADOWED_EN_E0_BIT :: u32 where "ALERT_HANDLER_CLASSA_CTRL_SHADOWED_EN_E0_BIT \<equiv> 0x2"
abbreviation (input) ALERT_HANDLER_CLASSA_CTRL_SHADOWED_EN_E1_BIT :: u32 where "ALERT_HANDLER_CLASSA_CTRL_SHADOWED_EN_E1_BIT \<equiv> 0x3"
abbreviation (input) ALERT_HANDLER_CLASSA_CTRL_SHADOWED_EN_E2_BIT :: u32 where "ALERT_HANDLER_CLASSA_CTRL_SHADOWED_EN_E2_BIT \<equiv> 0x4"
abbreviation (input) ALERT_HANDLER_CLASSA_CTRL_SHADOWED_EN_E3_BIT :: u32 where "ALERT_HANDLER_CLASSA_CTRL_SHADOWED_EN_E3_BIT \<equiv> 0x5"
abbreviation (input) ALERT_HANDLER_CLASSA_CTRL_SHADOWED_MAP_E0_FIELD :: bitfield_field32 where
  "ALERT_HANDLER_CLASSA_CTRL_SHADOWED_MAP_E0_FIELD \<equiv> \<lparr>bf_mask = 0x3, bf_index = 6\<rparr>"
abbreviation (input) ALERT_HANDLER_CLASSA_CTRL_SHADOWED_MAP_E1_FIELD :: bitfield_field32 where
  "ALERT_HANDLER_CLASSA_CTRL_SHADOWED_MAP_E1_FIELD \<equiv> \<lparr>bf_mask = 0x3, bf_index = 8\<rparr>"
abbreviation (input) ALERT_HANDLER_CLASSA_CTRL_SHADOWED_MAP_E2_FIELD :: bitfield_field32 where
  "ALERT_HANDLER_CLASSA_CTRL_SHADOWED_MAP_E2_FIELD \<equiv> \<lparr>bf_mask = 0x3, bf_index = 10\<rparr>"
abbreviation (input) ALERT_HANDLER_CLASSA_CTRL_SHADOWED_MAP_E3_FIELD :: bitfield_field32 where
  "ALERT_HANDLER_CLASSA_CTRL_SHADOWED_MAP_E3_FIELD \<equiv> \<lparr>bf_mask = 0x3, bf_index = 12\<rparr>"
abbreviation (input) ALERT_HANDLER_ALERT_CLASS_SHADOWED_MULTIREG_COUNT :: u32 where "ALERT_HANDLER_ALERT_CLASS_SHADOWED_MULTIREG_COUNT \<equiv> 0x41"
abbreviation (input) ALERT_HANDLER_LOC_ALERT_CLASS_SHADOWED_MULTIREG_COUNT :: u32 where "ALERT_HANDLER_LOC_ALERT_CLASS_SHADOWED_MULTIREG_COUNT \<equiv> 0x7"
abbreviation (input) ALERT_HANDLER_PARAM_N_CLASSES :: u32 where "ALERT_HANDLER_PARAM_N_CLASSES \<equiv> 0x4"
abbreviation (input) ALERT_HANDLER_PARAM_N_PHASES :: u32 where "ALERT_HANDLER_PARAM_N_PHASES \<equiv> 0x4"
abbreviation (input) ALERT_HANDLER_ALERT_CLASS_SHADOWED_0_CLASS_A_0_VALUE_CLASSA :: u32 where "ALERT_HANDLER_ALERT_CLASS_SHADOWED_0_CLASS_A_0_VALUE_CLASSA \<equiv> 0x0"
abbreviation (input) ALERT_HANDLER_ALERT_CLASS_SHADOWED_0_CLASS_A_0_VALUE_CLASSB :: u32 where "ALERT_HANDLER_ALERT_CLASS_SHADOWED_0_CLASS_A_0_VALUE_CLASSB \<equiv> 0x1"
abbreviation (input) ALERT_HANDLER_ALERT_CLASS_SHADOWED_0_CLASS_A_0_VALUE_CLASSC :: u32 where "ALERT_HANDLER_ALERT_CLASS_SHADOWED_0_CLASS_A_0_VALUE_CLASSC \<equiv> 0x2"
abbreviation (input) ALERT_HANDLER_ALERT_CLASS_SHADOWED_0_CLASS_A_0_VALUE_CLASSD :: u32 where "ALERT_HANDLER_ALERT_CLASS_SHADOWED_0_CLASS_A_0_VALUE_CLASSD \<equiv> 0x3"
abbreviation (input) ALERT_HANDLER_LOC_ALERT_CLASS_SHADOWED_0_CLASS_LA_0_VALUE_CLASSA :: u32 where "ALERT_HANDLER_LOC_ALERT_CLASS_SHADOWED_0_CLASS_LA_0_VALUE_CLASSA \<equiv> 0x0"
abbreviation (input) ALERT_HANDLER_LOC_ALERT_CLASS_SHADOWED_0_CLASS_LA_0_VALUE_CLASSB :: u32 where "ALERT_HANDLER_LOC_ALERT_CLASS_SHADOWED_0_CLASS_LA_0_VALUE_CLASSB \<equiv> 0x1"
abbreviation (input) ALERT_HANDLER_LOC_ALERT_CLASS_SHADOWED_0_CLASS_LA_0_VALUE_CLASSC :: u32 where "ALERT_HANDLER_LOC_ALERT_CLASS_SHADOWED_0_CLASS_LA_0_VALUE_CLASSC \<equiv> 0x2"
abbreviation (input) ALERT_HANDLER_LOC_ALERT_CLASS_SHADOWED_0_CLASS_LA_0_VALUE_CLASSD :: u32 where "ALERT_HANDLER_LOC_ALERT_CLASS_SHADOWED_0_CLASS_LA_0_VALUE_CLASSD \<equiv> 0x3"

section \<open>Pinmux\<close>

abbreviation (input) PINMUX_MIO_PERIPH_INSEL_0_REG_OFFSET :: u32 where "PINMUX_MIO_PERIPH_INSEL_0_REG_OFFSET \<equiv> 0xe8"
abbreviation (input) PINMUX_MIO_OUTSEL_0_REG_OFFSET :: u32 where "PINMUX_MIO_OUTSEL_0_REG_OFFSET \<equiv> 0x288"
abbreviation (input) PINMUX_MIO_PAD_ATTR_0_REG_OFFSET :: u32 where "PINMUX_MIO_PAD_ATTR_0_REG_OFFSET \<equiv> 0x400"
abbreviation (input) PINMUX_MIO_PAD_ATTR_0_PULL_EN_0_BIT :: u32 where "PINMUX_MIO_PAD_ATTR_0_PULL_EN_0_BIT \<equiv> 0x2"

section \<open>CSRs\<close>

abbreviation (input) CSR_REG_PMPCFG0 :: u32 where "CSR_REG_PMPCFG0 \<equiv> 0x3a0"
abbreviation (input) CSR_REG_PMPCFG1 :: u32 where "CSR_REG_PMPCFG1 \<equiv> 0x3a1"
abbreviation (input) CSR_REG_PMPCFG2 :: u32 where "CSR_REG_PMPCFG2 \<equiv> 0x3a2"
abbreviation (input) CSR_REG_PMPCFG3 :: u32 where "CSR_REG_PMPCFG3 \<equiv> 0x3a3"
abbreviation (input) CSR_REG_PMPADDR0 :: u32 where "CSR_REG_PMPADDR0 \<equiv> 0x3b0"
abbreviation (input) CSR_REG_MSECCFG :: u32 where "CSR_REG_MSECCFG \<equiv> 0x747"
abbreviation (input) CSR_REG_MSECCFGH :: u32 where "CSR_REG_MSECCFGH \<equiv> 0x757"
abbreviation (input) CSR_REG_MCYCLE :: u32 where "CSR_REG_MCYCLE \<equiv> 0xb00"
abbreviation (input) CSR_REG_MINSTRET :: u32 where "CSR_REG_MINSTRET \<equiv> 0xb02"
abbreviation (input) CSR_REG_MCOUNTINHIBIT :: u32 where "CSR_REG_MCOUNTINHIBIT \<equiv> 0x320"
abbreviation (input) CSR_REG_MSTATUS :: u32 where "CSR_REG_MSTATUS \<equiv> 0x300"
abbreviation (input) CSR_REG_MTVEC :: u32 where "CSR_REG_MTVEC \<equiv> 0x305"
abbreviation (input) CSR_REG_MEPC :: u32 where "CSR_REG_MEPC \<equiv> 0x341"
abbreviation (input) CSR_REG_MCAUSE :: u32 where "CSR_REG_MCAUSE \<equiv> 0x342"
abbreviation (input) CSR_REG_CPUCTRL :: u32 where "CSR_REG_CPUCTRL \<equiv> 0x7c0"
abbreviation (input) CSR_REG_SECURESEED :: u32 where "CSR_REG_SECURESEED \<equiv> 0x7c1"

section \<open>Error codes (lib/error.h)\<close>

abbreviation (input) kErrorOk :: u32 where "kErrorOk \<equiv> 0x739"
abbreviation (input) kErrorUnknown :: u32 where "kErrorUnknown \<equiv> 0xffffffff"
abbreviation (input) kErrorSigverifyBadEncodedMessage :: u32 where "kErrorSigverifyBadEncodedMessage \<equiv> 0x1535603"
abbreviation (input) kErrorSigverifyBadKey :: u32 where "kErrorSigverifyBadKey \<equiv> 0x2535603"
abbreviation (input) kErrorSigverifyBadSignature :: u32 where "kErrorSigverifyBadSignature \<equiv> 0x3535603"
abbreviation (input) kErrorKeymgrInternal :: u32 where "kErrorKeymgrInternal \<equiv> 0x14b4d0d"
abbreviation (input) kErrorManifestBadEntryPoint :: u32 where "kErrorManifestBadEntryPoint \<equiv> 0x14d410d"
abbreviation (input) kErrorManifestBadCodeRegion :: u32 where "kErrorManifestBadCodeRegion \<equiv> 0x24d410d"
abbreviation (input) kErrorAlertBadIndex :: u32 where "kErrorAlertBadIndex \<equiv> 0x1414803"
abbreviation (input) kErrorAlertBadClass :: u32 where "kErrorAlertBadClass \<equiv> 0x2414803"
abbreviation (input) kErrorAlertBadEnable :: u32 where "kErrorAlertBadEnable \<equiv> 0x3414803"
abbreviation (input) kErrorAlertBadEscalation :: u32 where "kErrorAlertBadEscalation \<equiv> 0x4414803"
abbreviation (input) kErrorAlertBadCrc32 :: u32 where "kErrorAlertBadCrc32 \<equiv> 0x5414803"
abbreviation (input) kErrorRomBootFailed :: u32 where "kErrorRomBootFailed \<equiv> 0x14d5209"
abbreviation (input) kErrorInterrupt :: u32 where "kErrorInterrupt \<equiv> 0x495202"
abbreviation (input) kErrorEpmpBadCheck :: u32 where "kErrorEpmpBadCheck \<equiv> 0x145500d"
abbreviation (input) kErrorOtbnInvalidArgument :: u32 where "kErrorOtbnInvalidArgument \<equiv> 0x1424e03"
abbreviation (input) kErrorOtbnBadOffsetLen :: u32 where "kErrorOtbnBadOffsetLen \<equiv> 0x2424e03"
abbreviation (input) kErrorOtbnExecutionFailed :: u32 where "kErrorOtbnExecutionFailed \<equiv> 0x3424e0d"
abbreviation (input) kErrorOtbnSecWipeImemFailed :: u32 where "kErrorOtbnSecWipeImemFailed \<equiv> 0x4424e0d"
abbreviation (input) kErrorOtbnSecWipeDmemFailed :: u32 where "kErrorOtbnSecWipeDmemFailed \<equiv> 0x5424e0d"
abbreviation (input) kErrorOtbnBadInsnCount :: u32 where "kErrorOtbnBadInsnCount \<equiv> 0x6424e0d"
abbreviation (input) kErrorOtbnUnavailable :: u32 where "kErrorOtbnUnavailable \<equiv> 0x7424e0d"
abbreviation (input) kErrorFlashCtrlDataRead :: u32 where "kErrorFlashCtrlDataRead \<equiv> 0x146430d"
abbreviation (input) kErrorFlashCtrlInfoRead :: u32 where "kErrorFlashCtrlInfoRead \<equiv> 0x246430d"
abbreviation (input) kErrorFlashCtrlDataWrite :: u32 where "kErrorFlashCtrlDataWrite \<equiv> 0x346430d"
abbreviation (input) kErrorFlashCtrlInfoWrite :: u32 where "kErrorFlashCtrlInfoWrite \<equiv> 0x446430d"
abbreviation (input) kErrorFlashCtrlDataErase :: u32 where "kErrorFlashCtrlDataErase \<equiv> 0x546430d"
abbreviation (input) kErrorFlashCtrlInfoErase :: u32 where "kErrorFlashCtrlInfoErase \<equiv> 0x646430d"
abbreviation (input) kErrorFlashCtrlDataEraseVerify :: u32 where "kErrorFlashCtrlDataEraseVerify \<equiv> 0x746430d"
abbreviation (input) kErrorBootPolicyBadIdentifier :: u32 where "kErrorBootPolicyBadIdentifier \<equiv> 0x142500d"
abbreviation (input) kErrorBootPolicyBadLength :: u32 where "kErrorBootPolicyBadLength \<equiv> 0x242500d"
abbreviation (input) kErrorBootPolicyRollback :: u32 where "kErrorBootPolicyRollback \<equiv> 0x342500d"
abbreviation (input) kErrorBootstrapEraseAddress :: u32 where "kErrorBootstrapEraseAddress \<equiv> 0x1425303"
abbreviation (input) kErrorBootstrapProgramAddress :: u32 where "kErrorBootstrapProgramAddress \<equiv> 0x2425303"
abbreviation (input) kErrorBootstrapInvalidState :: u32 where "kErrorBootstrapInvalidState \<equiv> 0x3425303"
abbreviation (input) kErrorBootstrapNotRequested :: u32 where "kErrorBootstrapNotRequested \<equiv> 0x442530d"
abbreviation (input) kErrorLogBadFormatSpecifier :: u32 where "kErrorLogBadFormatSpecifier \<equiv> 0x14c470d"
abbreviation (input) kErrorBootDataNotFound :: u32 where "kErrorBootDataNotFound \<equiv> 0x142440d"
abbreviation (input) kErrorBootDataWriteCheck :: u32 where "kErrorBootDataWriteCheck \<equiv> 0x242440d"
abbreviation (input) kErrorBootDataInvalid :: u32 where "kErrorBootDataInvalid \<equiv> 0x342440d"
abbreviation (input) kErrorSpiDevicePayloadOverflow :: u32 where "kErrorSpiDevicePayloadOverflow \<equiv> 0x153500d"
abbreviation (input) kErrorAstInitNotDone :: u32 where "kErrorAstInitNotDone \<equiv> 0x141530d"

section \<open>Hardened and multi-bit booleans\<close>

abbreviation (input) kHardenedBoolTrue :: u32 where "kHardenedBoolTrue \<equiv> 0x739"
abbreviation (input) kHardenedBoolFalse :: u32 where "kHardenedBoolFalse \<equiv> 0x1d4"
abbreviation (input) kHardenedByteBoolTrue :: u32 where "kHardenedByteBoolTrue \<equiv> 0xa5"
abbreviation (input) kHardenedByteBoolFalse :: u32 where "kHardenedByteBoolFalse \<equiv> 0x4b"
abbreviation (input) kMultiBitBool4True :: u32 where "kMultiBitBool4True \<equiv> 0x6"
abbreviation (input) kMultiBitBool4False :: u32 where "kMultiBitBool4False \<equiv> 0x9"

section \<open>Life cycle states (drivers/lifecycle.h)\<close>

abbreviation (input) kLcStateTest :: u32 where "kLcStateTest \<equiv> 0xb2865fbb"
abbreviation (input) kLcStateDev :: u32 where "kLcStateDev \<equiv> 0xb5a75e0"
abbreviation (input) kLcStateProd :: u32 where "kLcStateProd \<equiv> 0x65f2520f"
abbreviation (input) kLcStateProdEnd :: u32 where "kLcStateProdEnd \<equiv> 0x91b9b68a"
abbreviation (input) kLcStateRma :: u32 where "kLcStateRma \<equiv> 0xcf8cfaab"
abbreviation (input) UINT32_MAX :: u32 where "UINT32_MAX \<equiv> 0xffffffff"

end
