(* ===== verification/Machine.thy ===== *)
theory Machine
  imports Regs
begin

text \<open>The machine the boot code runs on.

  The platform is everything the code does not define: the devices behind the MMIO window, the
  control and status registers of the core, the memory-mapped flash, the linker symbols and the
  build-time constants declared \<open>extern\<close>. A device is an arbitrary function of the whole
  history of bus events, so that no theorem depends on how a peripheral behaves unless it says so.
  The machine adds the history (newest event first) and the global variables of the C code.\<close>

unbundle bit_operations_syntax

section \<open>Platform and state\<close>

text \<open>Bus and CSR events: a read records the value it returned.\<close>

datatype io_event =
    R32 u32 u32
  | W32 u32 u32
  | W8 u32 u8
  | CsrR u32 u32
  | CsrW u32 u32
  | CsrS u32 u32
  | CsrC u32 u32
  | Fence_I

record epmp_region =
  region_start :: u32
  region_end :: u32

record rsa_key_entry =
  key_modulus :: "u32 list"
  key_n0_inv :: "u32 list"
  key_type :: u32

record otbn_app =
  imem_start :: u32
  imem_end :: u32
  dmem_data_start :: u32
  dmem_data_end :: u32

record platform =
  mmio_resp :: "io_event list \<Rightarrow> u32 \<Rightarrow> u32"
  csr_resp :: "io_event list \<Rightarrow> u32 \<Rightarrow> u32"
  flash_mem :: "u32 \<Rightarrow> u8"
  poll_limit :: nat
  kUartNCOValue :: u32
  kUartTxFifoCpuCycles :: u32
  kAstCheckPollCpuCycles :: u32
  fpga_device :: bool
  rom_text :: epmp_region
  shutdown_hang_asm_region :: epmp_region
  stack_start :: u32
  rom_ext_virtual_start_address :: u32
  rom_ext_virtual_size :: u32
  kSigVerifyRsaKeys :: "rsa_key_entry list"
  kSigverifyRsaKeysStep :: nat
  const_word :: "u32 \<Rightarrow> u32"
  kOtbnAppRsa :: otbn_app
  kOtbnVarRsaOutBuf :: u32
  kOtbnVarRsaInMod :: u32
  kOtbnVarRsaInBuf :: u32
  kOtbnVarRsaM0Inv :: u32
  owner_virtual_start_address :: u32
  owner_virtual_size :: u32

text \<open>The structures of the C globals.\<close>

record sec_mmio_ctx =
  last_index :: u32
  write_count :: u32
  expected_write_count :: u32
  check_count :: u32
  reg_values :: "u32 list"
  reg_addrs :: "u32 list"

record epmp_state =
  pmpcfg :: "u32 list"
  pmpaddr :: "u32 list"
  mseccfg :: u32

record boot_data =
  bd_digest :: "u32 list"
  bd_is_valid :: u64
  bd_identifier :: u32
  bd_counter :: u32
  bd_min_security_version_rom_ext :: u32
  bd_min_security_version_bl0 :: u32
  bd_padding :: "u8 list"

record rstmgr_info =
  info_length :: u32
  info_words :: "u32 list"

record machine =
  plat :: platform
  io_log :: "io_event list"
  g_sec_mmio_ctx :: sec_mmio_ctx
  g_epmp_state :: epmp_state
  g_rom_counters :: "u32 list"
  g_lc_state :: u32
  g_boot_data :: boot_data
  g_boot_measurements_rom_ext :: "u32 list"
  g_rstmgr_alert_info :: rstmgr_info

type_synonym 'a rom = "('a, machine) prog"
type_synonym rom_error = u32

section \<open>Device access\<close>

definition abs_mmio_read32 :: "u32 \<Rightarrow> u32 rom" where
  "abs_mmio_read32 addr m =
     (let v = mmio_resp (plat m) (io_log m) addr in Done v (m\<lparr>io_log := R32 addr v # io_log m\<rparr>))"

definition abs_mmio_write32 :: "u32 \<Rightarrow> u32 \<Rightarrow> unit rom" where
  "abs_mmio_write32 addr v m = Done () (m\<lparr>io_log := W32 addr v # io_log m\<rparr>)"

definition abs_mmio_write8 :: "u32 \<Rightarrow> u8 \<Rightarrow> unit rom" where
  "abs_mmio_write8 addr v m = Done () (m\<lparr>io_log := W8 addr v # io_log m\<rparr>)"

definition abs_mmio_write32_shadowed :: "u32 \<Rightarrow> u32 \<Rightarrow> unit rom" where
  "abs_mmio_write32_shadowed addr v = (bindM (abs_mmio_write32 addr v) (\<lambda>_.
    abs_mmio_write32 addr v))"

definition CSR_READ :: "u32 \<Rightarrow> u32 rom" where
  "CSR_READ csr m =
     (let v = csr_resp (plat m) (io_log m) csr in Done v (m\<lparr>io_log := CsrR csr v # io_log m\<rparr>))"

definition CSR_WRITE :: "u32 \<Rightarrow> u32 \<Rightarrow> unit rom" where
  "CSR_WRITE csr v m = Done () (m\<lparr>io_log := CsrW csr v # io_log m\<rparr>)"

definition CSR_SET_BITS :: "u32 \<Rightarrow> u32 \<Rightarrow> unit rom" where
  "CSR_SET_BITS csr v m = Done () (m\<lparr>io_log := CsrS csr v # io_log m\<rparr>)"

definition CSR_CLEAR_BITS :: "u32 \<Rightarrow> u32 \<Rightarrow> unit rom" where
  "CSR_CLEAR_BITS csr v m = Done () (m\<lparr>io_log := CsrC csr v # io_log m\<rparr>)"

text \<open>The \<open>fence.i\<close> of \<open>icache_invalidate\<close>.\<close>

definition icache_invalidate :: "unit rom" where
  "icache_invalidate m = Done () (m\<lparr>io_log := Fence_I # io_log m\<rparr>)"

text \<open>A busy-wait on the device, for as many reads as the platform allows.\<close>

definition poll_until :: "'a rom \<Rightarrow> ('a \<Rightarrow> bool) \<Rightarrow> 'a rom" where
  "poll_until body ready m = poll (poll_limit (plat m)) body ready m"

text \<open>Words and their bytes, little endian.\<close>

definition le_word :: "u8 \<Rightarrow> u8 \<Rightarrow> u8 \<Rightarrow> u8 \<Rightarrow> u32" where
  "le_word b0 b1 b2 b3 =
     ucast b0 OR push_bit 8 (ucast b1) OR push_bit 16 (ucast b2) OR push_bit 24 (ucast b3)"

definition word_bytes :: "u32 \<Rightarrow> u8 list" where
  "word_bytes w = [ucast w, ucast (drop_bit 8 w), ucast (drop_bit 16 w), ucast (drop_bit 24 w)]"

text \<open>Plain loads from memory-mapped flash.\<close>

definition flash_word :: "(u32 \<Rightarrow> u8) \<Rightarrow> u32 \<Rightarrow> u32" where
  "flash_word mem a = le_word (mem a) (mem (a + 1)) (mem (a + 2)) (mem (a + 3))"

definition flash_words :: "(u32 \<Rightarrow> u8) \<Rightarrow> u32 \<Rightarrow> nat \<Rightarrow> u32 list" where
  "flash_words mem a n = map (\<lambda>i. flash_word mem (a + 4 * of_nat i)) [0..<n]"

definition flash_bytes :: "(u32 \<Rightarrow> u8) \<Rightarrow> u32 \<Rightarrow> nat \<Rightarrow> u8 list" where
  "flash_bytes mem a n = map (\<lambda>i. mem (a + of_nat i)) [0..<n]"

lemma word_bytes_le_word [simp]: "word_bytes (le_word a b c d) = [a, b, c, d]"
  unfolding word_bytes_def le_word_def
  by (auto simp: bit_eq_iff bit_simps dest: bit_imp_le_length)

lemma le_word_word_bytes [simp]:
  "le_word (ucast w) (ucast (drop_bit 8 w)) (ucast (drop_bit 16 w)) (ucast (drop_bit 24 w)) = w"
  unfolding le_word_def
  by (auto simp: bit_eq_iff bit_simps) (erule contrapos_np, simp)

lemma length_word_bytes [simp]: "length (word_bytes w) = 4"
  by (simp add: word_bytes_def)

section \<open>Hardened programming (lib/base/hardened.h)\<close>

text \<open>The barriers and \<open>launder32\<close> are the identity for the abstract machine: they only
  hide values from the optimiser, and are left out. A failed check runs into \<open>unimp\<close>.\<close>

definition HARDENED_CHECK_EQ :: "u32 \<Rightarrow> u32 \<Rightarrow> unit rom" where
  "HARDENED_CHECK_EQ a b = (if a = b then returnM () else stopM Trap)"

definition HARDENED_CHECK_NE :: "u32 \<Rightarrow> u32 \<Rightarrow> unit rom" where
  "HARDENED_CHECK_NE a b = (if a \<noteq> b then returnM () else stopM Trap)"

definition HARDENED_CHECK_LT :: "u32 \<Rightarrow> u32 \<Rightarrow> unit rom" where
  "HARDENED_CHECK_LT a b = (if a < b then returnM () else stopM Trap)"

definition HARDENED_CHECK_GT :: "u32 \<Rightarrow> u32 \<Rightarrow> unit rom" where
  "HARDENED_CHECK_GT a b = (if a > b then returnM () else stopM Trap)"

definition HARDENED_CHECK_LE :: "u32 \<Rightarrow> u32 \<Rightarrow> unit rom" where
  "HARDENED_CHECK_LE a b = (if a \<le> b then returnM () else stopM Trap)"

definition HARDENED_CHECK_GE :: "u32 \<Rightarrow> u32 \<Rightarrow> unit rom" where
  "HARDENED_CHECK_GE a b = (if a \<ge> b then returnM () else stopM Trap)"

definition HARDENED_UNREACHABLE :: "'a rom" where
  "HARDENED_UNREACHABLE = stopM Trap"

text \<open>The early returns of \<open>lib/error.h\<close>, with the rest of the function as an
  argument.\<close>

definition RETURN_IF_ERROR :: "rom_error rom \<Rightarrow> rom_error rom \<Rightarrow> rom_error rom" where
  "RETURN_IF_ERROR e rest = bindM e (\<lambda>err. if err \<noteq> kErrorOk then returnM err else rest)"

definition HARDENED_RETURN_IF_ERROR :: "rom_error rom \<Rightarrow> rom_error rom \<Rightarrow> rom_error rom" where
  "HARDENED_RETURN_IF_ERROR e rest = bindM e (\<lambda>err.
     if err \<noteq> kErrorOk then returnM err
     else bindM (HARDENED_CHECK_EQ err kErrorOk) (\<lambda>_. rest))"

section \<open>Bit fields (lib/base/bitfield.h)\<close>

definition bitfield_field32_read :: "u32 \<Rightarrow> bitfield_field32 \<Rightarrow> u32" where
  "bitfield_field32_read bitfield field = drop_bit (unat (bf_index field)) bitfield AND bf_mask field"

definition bitfield_field32_write :: "u32 \<Rightarrow> bitfield_field32 \<Rightarrow> u32 \<Rightarrow> u32" where
  "bitfield_field32_write bitfield field v =
     (bitfield AND NOT (push_bit (unat (bf_index field)) (bf_mask field)))
     OR push_bit (unat (bf_index field)) (v AND bf_mask field)"

definition bitfield_bit32_to_field32 :: "u32 \<Rightarrow> bitfield_field32" where
  "bitfield_bit32_to_field32 bit_index = \<lparr>bf_mask = 1, bf_index = bit_index\<rparr>"

definition bitfield_bit32_read :: "u32 \<Rightarrow> u32 \<Rightarrow> bool" where
  "bitfield_bit32_read bitfield bit_index =
     (bitfield_field32_read bitfield (bitfield_bit32_to_field32 bit_index) = 1)"

definition bitfield_bit32_write :: "u32 \<Rightarrow> u32 \<Rightarrow> bool \<Rightarrow> u32" where
  "bitfield_bit32_write bitfield bit_index v =
     bitfield_field32_write bitfield (bitfield_bit32_to_field32 bit_index) (if v then 1 else 0)"

definition bitfield_bit32_copy :: "u32 \<Rightarrow> u32 \<Rightarrow> u32 \<Rightarrow> u32 \<Rightarrow> u32" where
  "bitfield_bit32_copy dest dest_bit src src_bit =
     bitfield_bit32_write dest dest_bit (bitfield_bit32_read src src_bit)"

definition bitfield_is_power_of_two32 :: "u32 \<Rightarrow> bool" where
  "bitfield_is_power_of_two32 b \<longleftrightarrow> b \<noteq> 0 \<and> b AND (b - 1) = 0"

section \<open>Reading a field that was written\<close>

lemma field_read_write_same:
  "bf_mask f = mask n \<Longrightarrow> unat (bf_index f) + n \<le> 32 \<Longrightarrow>
   bitfield_field32_read (bitfield_field32_write w f v) f = v AND bf_mask f"
  unfolding bitfield_field32_read_def bitfield_field32_write_def
  by (rule bit_word_eqI) (auto simp: bit_simps)

lemma field_read_write_other:
  assumes "bf_mask f = mask n" "bf_mask g = mask k" "unat (bf_index f) + n \<le> 32"
    and "unat (bf_index f) + n \<le> unat (bf_index g) \<or> unat (bf_index g) + k \<le> unat (bf_index f)"
  shows "bitfield_field32_read (bitfield_field32_write w g v) f = bitfield_field32_read w f"
proof (rule bit_word_eqI)
  fix i assume "i < LENGTH(32)"
  then show "bit (bitfield_field32_read (bitfield_field32_write w g v) f) i = bit (bitfield_field32_read w f) i"
    using assms unfolding bitfield_field32_read_def bitfield_field32_write_def
    by (cases "i < n") (auto simp: bit_simps)
qed

text \<open>Rewriting a read over a write of a field with literal position.\<close>

definition field_width :: "u32 \<Rightarrow> nat" where
  "field_width k = (if k = 1 then 1 else if k = 3 then 2 else if k = 7 then 3 else if k = 0xf then 4 else if k = 0x3f then 6 else if k = 0xff then 8
     else if k = 0xfff then 12 else 32)"

lemma field_reads:
  "k = mask (field_width k) \<Longrightarrow> unat i + field_width k \<le> 32 \<Longrightarrow>
   bitfield_field32_read (bitfield_field32_write w \<lparr>bf_mask = k, bf_index = i\<rparr> v)
     \<lparr>bf_mask = k, bf_index = i\<rparr> = v AND k"
  "k = mask (field_width k) \<Longrightarrow> l = mask (field_width l) \<Longrightarrow> unat i + field_width k \<le> 32 \<Longrightarrow>
   unat i + field_width k \<le> unat j \<or> unat j + field_width l \<le> unat i \<Longrightarrow>
   bitfield_field32_read (bitfield_field32_write w \<lparr>bf_mask = l, bf_index = j\<rparr> v)
     \<lparr>bf_mask = k, bf_index = i\<rparr> = bitfield_field32_read w \<lparr>bf_mask = k, bf_index = i\<rparr>"
  by (rule field_read_write_same [THEN trans] field_read_write_other; simp)+

lemmas bitfield_simps = field_reads field_width_def mask_eq_exp_minus_1

section \<open>How the basic operations run\<close>

lemma mmio_run [simp, run_simps]:
  "abs_mmio_read32 a m = Done (mmio_resp (plat m) (io_log m) a)
     (m\<lparr>io_log := R32 a (mmio_resp (plat m) (io_log m) a) # io_log m\<rparr>)"
  "abs_mmio_write32 a v m = Done () (m\<lparr>io_log := W32 a v # io_log m\<rparr>)"
  "abs_mmio_write8 a b m = Done () (m\<lparr>io_log := W8 a b # io_log m\<rparr>)"
  "icache_invalidate m = Done () (m\<lparr>io_log := Fence_I # io_log m\<rparr>)"
  by (simp_all add: abs_mmio_read32_def abs_mmio_write32_def abs_mmio_write8_def
      icache_invalidate_def Let_def)

lemma csr_run [simp, run_simps]:
  "CSR_READ c m = Done (csr_resp (plat m) (io_log m) c)
     (m\<lparr>io_log := CsrR c (csr_resp (plat m) (io_log m) c) # io_log m\<rparr>)"
  "CSR_WRITE c v m = Done () (m\<lparr>io_log := CsrW c v # io_log m\<rparr>)"
  "CSR_SET_BITS c v m = Done () (m\<lparr>io_log := CsrS c v # io_log m\<rparr>)"
  "CSR_CLEAR_BITS c v m = Done () (m\<lparr>io_log := CsrC c v # io_log m\<rparr>)"
  by (simp_all add: CSR_READ_def CSR_WRITE_def CSR_SET_BITS_def CSR_CLEAR_BITS_def Let_def)

lemmas hardened_defs = HARDENED_CHECK_EQ_def HARDENED_CHECK_NE_def HARDENED_CHECK_LT_def
  HARDENED_CHECK_GT_def HARDENED_CHECK_LE_def HARDENED_CHECK_GE_def HARDENED_UNREACHABLE_def

lemma check_Done:
  "HARDENED_CHECK_EQ a b s = Done u t \<longleftrightarrow> a = b \<and> t = s"
  "HARDENED_CHECK_NE a b s = Done u t \<longleftrightarrow> a \<noteq> b \<and> t = s"
  "HARDENED_CHECK_LT a b s = Done u t \<longleftrightarrow> a < b \<and> t = s"
  "HARDENED_CHECK_GT a b s = Done u t \<longleftrightarrow> b < a \<and> t = s"
  "HARDENED_CHECK_LE a b s = Done u t \<longleftrightarrow> a \<le> b \<and> t = s"
  "HARDENED_CHECK_GE a b s = Done u t \<longleftrightarrow> b \<le> a \<and> t = s"
  by (auto simp: hardened_defs)

lemma check_refl [simp]:
  "HARDENED_CHECK_EQ a a = returnM ()"
  by (simp add: HARDENED_CHECK_EQ_def)

lemma unreachable_run [simp]: "HARDENED_UNREACHABLE s = Stop Trap s"
  by (simp add: HARDENED_UNREACHABLE_def)

lemma hardened_return_eq [simp]: "HARDENED_RETURN_IF_ERROR = RETURN_IF_ERROR"
  by (simp add: HARDENED_RETURN_IF_ERROR_def RETURN_IF_ERROR_def fun_eq_iff bindM_def
      HARDENED_CHECK_EQ_def split: outcome.splits)

lemma return_if_error_Ok:
  "RETURN_IF_ERROR e rest s = Done kErrorOk t \<longleftrightarrow>
     (\<exists>s'. e s = Done kErrorOk s' \<and> rest s' = Done kErrorOk t)"
  by (auto simp: RETURN_IF_ERROR_def bindM_Done_iff)

lemma return_if_error_Stop:
  "RETURN_IF_ERROR e rest s = Stop x t \<longleftrightarrow>
     e s = Stop x t \<or> (\<exists>s'. e s = Done kErrorOk s' \<and> rest s' = Stop x t)"
  by (auto simp: RETURN_IF_ERROR_def bindM_Stop_iff split: if_splits)

lemma return_if_error_Done:
  "RETURN_IF_ERROR e rest s = Done r t \<longleftrightarrow>
     (e s = Done r t \<and> r \<noteq> kErrorOk) \<or> (\<exists>s'. e s = Done kErrorOk s' \<and> rest s' = Done r t)"
  by (auto simp: RETURN_IF_ERROR_def bindM_Done_iff split: if_splits)

section \<open>The hardware frame\<close>

text \<open>Whatever the code does, it never changes the platform and only adds to the history:
  \<open>steady\<close>. All but the top-level functions of a boot stage moreover leave the life cycle
  state and the boot data of the boot alone, and never jump: \<open>quiet\<close>.\<close>

definition run_step :: "machine \<Rightarrow> machine \<Rightarrow> bool" where
  "run_step s t \<longleftrightarrow> plat t = plat s \<and> (\<exists>l. io_log t = l @ io_log s)"

definition hw_step :: "machine \<Rightarrow> machine \<Rightarrow> bool" where
  "hw_step s t \<longleftrightarrow> run_step s t \<and> g_lc_state t = g_lc_state s \<and> g_boot_data t = g_boot_data s"

fun no_jump :: "stop \<Rightarrow> bool" where
  "no_jump (Jump a) = False"
| "no_jump e = True"

abbreviation steady :: "'a rom \<Rightarrow> bool" where
  "steady m \<equiv> framed run_step (\<lambda>_. True) m"

abbreviation quiet :: "'a rom \<Rightarrow> bool" where
  "quiet m \<equiv> framed hw_step no_jump m"

interpretation run: frame run_step "\<lambda>_. True"
  by unfold_locales (auto simp: run_step_def)

interpretation hw: frame hw_step no_jump
proof
  fix s t u
  show "hw_step s s" by (simp add: hw_step_def run.frame_refl)
  show "hw_step s t \<Longrightarrow> hw_step t u \<Longrightarrow> hw_step s u"
    by (auto simp: hw_step_def dest: run.frame_trans)
qed auto

lemma quiet_steady: "quiet m \<Longrightarrow> steady m"
  by (auto simp: framed_def hw_step_def split: outcome.splits dest: spec)

lemma run_stepD: "run_step s t \<Longrightarrow> plat t = plat s"
  by (simp add: run_step_def)

lemma hw_run_step: "hw_step s t \<Longrightarrow> run_step s t"
  by (simp add: hw_step_def)

lemmas quiet_rules [framed_intros] = hw.framed_rules

lemma quiet_primitive [framed_intros]:
  "quiet (abs_mmio_read32 a)" "quiet (abs_mmio_write32 a v)" "quiet (abs_mmio_write8 a b)"
  "quiet (CSR_READ c)" "quiet (CSR_WRITE c v)" "quiet (CSR_SET_BITS c v)"
  "quiet (CSR_CLEAR_BITS c v)" "quiet icache_invalidate"
  by (auto simp: framed_def hw_step_def run_step_def)

lemma quiet_hang [framed_intros]: "quiet (stopM Hang)"
  by (simp add: hw.framed_stop)

lemma quiet_unreachable [framed_intros]: "quiet HARDENED_UNREACHABLE"
  by (simp add: HARDENED_UNREACHABLE_def hw.framed_trap)

lemma quiet_checks [framed_intros]:
  "quiet (HARDENED_CHECK_EQ a b)" "quiet (HARDENED_CHECK_NE a b)" "quiet (HARDENED_CHECK_LT a b)"
  "quiet (HARDENED_CHECK_GT a b)" "quiet (HARDENED_CHECK_LE a b)" "quiet (HARDENED_CHECK_GE a b)"
  unfolding hardened_defs by (intro framed_intros)+

lemma quiet_shadowed [framed_intros]: "quiet (abs_mmio_write32_shadowed a v)"
  unfolding abs_mmio_write32_shadowed_def by (intro framed_intros)

lemma quiet_poll_until [framed_intros]: "quiet body \<Longrightarrow> quiet (poll_until body ready)"
proof (rule framedI)
  fix s t :: machine and a assume q: "quiet body"
  have p: "quiet (poll (poll_limit (plat s)) body ready)" using q by (rule hw.framed_poll)
  show "hw_step s t" if "poll_until body ready s = Done a t"
    using p that unfolding poll_until_def by (rule framedD1)
next
  fix s t :: machine and e assume q: "quiet body"
  have p: "quiet (poll (poll_limit (plat s)) body ready)" using q by (rule hw.framed_poll)
  show "hw_step s t \<and> no_jump e" if "poll_until body ready s = Stop e t"
    using p that unfolding poll_until_def by (auto dest: framedD2 framedD3)
qed

lemma quiet_return_if_error [framed_intros]:
  "quiet e \<Longrightarrow> quiet rest \<Longrightarrow> quiet (RETURN_IF_ERROR e rest)"
  unfolding RETURN_IF_ERROR_def by (intro framed_intros)

lemma quiet_modify [framed_intros]:
  "(\<And>s. plat (f s) = plat s \<and> io_log (f s) = io_log s \<and> g_lc_state (f s) = g_lc_state s \<and>
     g_boot_data (f s) = g_boot_data s) \<Longrightarrow> quiet (modifyM f)"
  by (simp add: framed_def hw_step_def run_step_def)

lemma quiet_hardened_return [framed_intros]:
  "quiet e \<Longrightarrow> quiet rest \<Longrightarrow> quiet (HARDENED_RETURN_IF_ERROR e rest)"
  by (simp add: quiet_return_if_error)

lemma quiet_plat: "quiet m \<Longrightarrow> m s = Done a t \<Longrightarrow> plat t = plat s"
  by (drule (1) framedD1) (simp add: hw_step_def run_step_def)

lemma quiet_no_Jump: "quiet m \<Longrightarrow> m s \<noteq> Stop (Jump e) t"
  by (auto dest: framedD3)

text \<open>What was added to the history between two states.\<close>

definition new_events :: "machine \<Rightarrow> machine \<Rightarrow> io_event list" where
  "new_events s t = take (length (io_log t) - length (io_log s)) (io_log t)"

lemma new_events_append [simp]: "io_log t = l @ io_log s \<Longrightarrow> new_events s t = l"
  by (simp add: new_events_def)

lemma new_events_refl [simp]: "new_events s s = []"
  by (simp add: new_events_def)

lemma run_step_log: "run_step s t \<Longrightarrow> io_log t = new_events s t @ io_log s"
  by (auto simp: run_step_def)

lemma run_events_trans:
  "run_step s t \<Longrightarrow> run_step t u \<Longrightarrow> new_events s u = new_events t u @ new_events s t"
  by (auto simp: run_step_def)

lemma new_events_trans:
  "hw_step s t \<Longrightarrow> hw_step t u \<Longrightarrow> new_events s u = new_events t u @ new_events s t"
  by (simp add: hw_step_def run_events_trans)

lemma quiet_step: "quiet p \<Longrightarrow> p s = Done a t \<Longrightarrow> hw_step s t" "quiet p \<Longrightarrow> p s = Stop e t \<Longrightarrow> hw_step s t"
  by (auto dest: framedD1 framedD2)

lemma poll_last: "poll n p ready s = Done v s' \<Longrightarrow> \<exists>s1. p s1 = Done v s'"
  by (induction n arbitrary: s) (auto simp: bindM_Done_iff split: if_splits)

lemma poll_until_last: "poll_until p ready s = Done v s' \<Longrightarrow> ready v \<and> (\<exists>s1. p s1 = Done v s')"
  by (auto simp: poll_until_def dest: poll_ready poll_last)

text \<open>Programs that can only stop by waiting for the device for too long: the frame interface
  again, without the traps of hardened checks.\<close>

abbreviation only_polls :: "'a rom \<Rightarrow> bool" where
  "only_polls p \<equiv> framed (\<lambda>s t. True) (\<lambda>e. e = Out_of_polls) p"

interpretation polls: frame_base "\<lambda>s t :: machine. True" "\<lambda>e. e = Out_of_polls"
  by unfold_locales auto

lemma only_polls_rules [framed_intros]:
  "only_polls (modifyM f)" "only_polls (abs_mmio_read32 a)" "only_polls (abs_mmio_write32 a v)"
  "only_polls (abs_mmio_write8 a b)" "only_polls (CSR_READ c)" "only_polls (CSR_WRITE c v)"
  by (auto simp: framed_def)

lemmas polls_rules [framed_intros] = polls.base_rules

lemma only_polls_poll [framed_intros]: "only_polls p \<Longrightarrow> only_polls (poll_until p ready)"
  using polls.framed_poll [of p] unfolding poll_until_def framed_def by blast

section \<open>A sample machine\<close>

text \<open>A concrete machine at which the witnesses of the development apply its theorems: every
  device register reads zero, and one production key is built into the ROM.\<close>

definition sample_platform :: platform where
  "sample_platform = \<lparr>mmio_resp = \<lambda>l a. 0, csr_resp = \<lambda>l c. 0, flash_mem = \<lambda>a. 0, poll_limit = 2,
     kUartNCOValue = 1, kUartTxFifoCpuCycles = 0, kAstCheckPollCpuCycles = 0, fpga_device = False,
     rom_text = \<lparr>region_start = 0x8000, region_end = 0xf000\<rparr>,
     shutdown_hang_asm_region = \<lparr>region_start = 0xf000, region_end = 0xf100\<rparr>,
     stack_start = 0x1001c000, rom_ext_virtual_start_address = 0x90000000,
     rom_ext_virtual_size = 0x80000,
     kSigVerifyRsaKeys = [\<lparr>key_modulus = replicate 96 (- 1), key_n0_inv = 1 # replicate 7 0,
       key_type = 0x43a839ad\<rparr>],
     kSigverifyRsaKeysStep = 0, const_word = \<lambda>a. 0,
     kOtbnAppRsa = \<lparr>imem_start = 0, imem_end = 0, dmem_data_start = 0, dmem_data_end = 0\<rparr>,
     kOtbnVarRsaOutBuf = 0, kOtbnVarRsaInMod = 0, kOtbnVarRsaInBuf = 0, kOtbnVarRsaM0Inv = 0,
     owner_virtual_start_address = 0xa0000000, owner_virtual_size = 0x80000\<rparr>"

definition sample_ctx :: sec_mmio_ctx where
  "sample_ctx = \<lparr>last_index = 0, write_count = 0, expected_write_count = 0, check_count = 0,
     reg_values = replicate 1000 0, reg_addrs = replicate 1000 0\<rparr>"

definition sample_machine :: machine where
  "sample_machine = \<lparr>plat = sample_platform, io_log = [], g_sec_mmio_ctx = sample_ctx,
     g_epmp_state = \<lparr>pmpcfg = replicate 4 0, pmpaddr = replicate 16 0, mseccfg = 0\<rparr>,
     g_rom_counters = replicate 6 0, g_lc_state = 0,
     g_boot_data = \<lparr>bd_digest = replicate 8 0, bd_is_valid = 0, bd_identifier = 0, bd_counter = 0,
       bd_min_security_version_rom_ext = 0, bd_min_security_version_bl0 = 0,
       bd_padding = replicate 8 0\<rparr>,
     g_boot_measurements_rom_ext = replicate 8 0,
     g_rstmgr_alert_info = \<lparr>info_length = 0, info_words = []\<rparr>\<rparr>"

lemmas sample_defs = sample_machine_def sample_platform_def sample_ctx_def

section \<open>Programs that hand over control\<close>

text \<open>A boot stage ends by jumping to the next one. For such a program the precondition that
  makes every return satisfy \<open>Q\<close> and every jump satisfy \<open>J\<close>; other ways to stop promise
  nothing.\<close>

definition boots :: "'a rom \<Rightarrow> ('a \<Rightarrow> machine \<Rightarrow> bool) \<Rightarrow> (u32 \<Rightarrow> machine \<Rightarrow> bool) \<Rightarrow> machine \<Rightarrow> bool" where
  "boots p Q J s \<longleftrightarrow> (case p s of Done a t \<Rightarrow> Q a t | Stop e t \<Rightarrow> (\<forall>x. e = Jump x \<longrightarrow> J x t))"

text \<open>Programs of a boot stage that change its globals but never hand over control.\<close>

abbreviation calm :: "'a rom \<Rightarrow> bool" where
  "calm p \<equiv> framed run_step no_jump p"

interpretation calm: frame run_step no_jump
  by unfold_locales (auto simp: run_step_def)

lemmas calm_rules = calm.framed_rules

lemma quiet_calm: "quiet p \<Longrightarrow> calm p"
  by (auto simp: framed_def hw_step_def split: outcome.splits dest: spec)

lemma calm_modify: "(\<And>s. plat (f s) = plat s \<and> io_log (f s) = io_log s) \<Longrightarrow> calm (modifyM f)"
  by (simp add: framed_def run_step_def)

lemma calm_steps: "calm p \<Longrightarrow> p s = Done a t \<Longrightarrow> run_step s t" "calm p \<Longrightarrow> p s = Stop e t \<Longrightarrow> run_step s t"
  by (auto dest: framedD1 framedD2)

lemma boots_bind: "boots p (\<lambda>a t. boots (f a) Q J t) J s \<Longrightarrow> boots (bindM p f) Q J s"
  by (auto simp: boots_def bindM_def split: outcome.splits)

lemma boots_return: "Q a s \<Longrightarrow> boots (returnM a) Q J s"
  by (simp add: boots_def)

lemma boots_jump: "J x s \<Longrightarrow> boots (stopM (Jump x)) Q J s"
  by (simp add: boots_def)

lemma boots_if: "(b \<Longrightarrow> boots p Q J s) \<Longrightarrow> (\<not> b \<Longrightarrow> boots q Q J s) \<Longrightarrow> boots (if b then p else q) Q J s"
  by simp

lemma boots_calm:
  "calm p \<Longrightarrow> (\<And>a t. p s = Done a t \<Longrightarrow> run_step s t \<Longrightarrow> Q a t) \<Longrightarrow> boots p Q J s"
  by (auto simp: boots_def split: outcome.splits dest: framedD3 framedD1)

lemma boots_quiet:
  "quiet p \<Longrightarrow> (\<And>a t. p s = Done a t \<Longrightarrow> hw_step s t \<Longrightarrow> Q a t) \<Longrightarrow> boots p Q J s"
  by (auto simp: boots_def split: outcome.splits dest: framedD3 framedD1)

lemma boots_seq:
  "quiet p \<Longrightarrow> hw_step s0 s \<Longrightarrow>
   (\<And>a t. p s = Done a t \<Longrightarrow> hw_step s0 t \<Longrightarrow> boots (f a) Q J t) \<Longrightarrow> boots (bindM p f) Q J s"
  by (auto intro!: boots_bind elim!: boots_quiet intro: hw.frame_trans)

lemma boots_error:
  "quiet e \<Longrightarrow> hw_step s0 s \<Longrightarrow> (\<And>r t. r \<noteq> kErrorOk \<Longrightarrow> hw_step s0 t \<Longrightarrow> Q r t) \<Longrightarrow>
   (\<And>t. e s = Done kErrorOk t \<Longrightarrow> hw_step s0 t \<Longrightarrow> boots rest Q J t) \<Longrightarrow> boots (RETURN_IF_ERROR e rest) Q J s"
  unfolding RETURN_IF_ERROR_def
  by (rule boots_seq) (auto simp: boots_return)

lemma boots_mono:
  "boots p Q J s \<Longrightarrow> (\<And>a t. Q a t \<Longrightarrow> Q' a t) \<Longrightarrow> (\<And>x t. J x t \<Longrightarrow> J' x t) \<Longrightarrow> boots p Q' J' s"
  by (auto simp: boots_def split: outcome.splits)

lemma boots_never_returns:
  "boots p (\<lambda>a t. False) J s \<Longrightarrow>
   case p s of Done a t \<Rightarrow> False | Stop (Jump x) t \<Rightarrow> J x t | Stop e t \<Rightarrow> True"
  by (auto simp: boots_def split: outcome.splits stop.splits)

lemma new_events_later:
  "run_step s t \<Longrightarrow> run_step t u \<Longrightarrow> ev \<in> set (new_events s t) \<Longrightarrow> ev \<in> set (new_events s u)"
  by (simp add: run_events_trans)

lemma new_events_mono:
  "run_step r s \<Longrightarrow> run_step s t \<Longrightarrow> ev \<in> set (new_events s t) \<Longrightarrow> ev \<in> set (new_events r t)"
  by (simp add: run_events_trans)

lemma boots_stuck: "quiet p \<Longrightarrow> never_returns p \<Longrightarrow> boots p Q J s"
  by (auto simp: never_returns_def intro: boots_quiet)

text \<open>A machine whose registers read back what was last written to them (zero at reset).\<close>

fun last_write :: "io_event list \<Rightarrow> u32 \<Rightarrow> u32" where
  "last_write [] a = 0"
| "last_write (W32 b v # l) a = (if b = a then v else last_write l a)"
| "last_write (ev # l) a = last_write l a"

fun last_csr :: "io_event list \<Rightarrow> u32 \<Rightarrow> u32" where
  "last_csr [] c = 0"
| "last_csr (CsrW b v # l) c = (if b = c then v else last_csr l c)"
| "last_csr (CsrS b v # l) c = (if b = c then last_csr l c OR v else last_csr l c)"
| "last_csr (CsrC b v # l) c = (if b = c then last_csr l c AND NOT v else last_csr l c)"
| "last_csr (ev # l) c = last_csr l c"

definition echo_machine :: machine where
  "echo_machine = sample_machine\<lparr>plat := sample_platform\<lparr>mmio_resp := last_write, csr_resp := last_csr\<rparr>\<rparr>"

section \<open>What a program adds to the history\<close>

text \<open>Programs all of whose events satisfy a predicate: the frame interface for each
  predicate.\<close>

definition emit_step :: "(io_event \<Rightarrow> bool) \<Rightarrow> machine \<Rightarrow> machine \<Rightarrow> bool" where
  "emit_step P s t \<longleftrightarrow> plat t = plat s \<and> (\<exists>l. io_log t = l @ io_log s \<and> list_all P l)"

abbreviation emits :: "(io_event \<Rightarrow> bool) \<Rightarrow> 'a rom \<Rightarrow> bool" where
  "emits P p \<equiv> framed (emit_step P) (\<lambda>_. True) p"

interpretation emits: frame "emit_step P" "\<lambda>_. True" for P
proof
  fix s t u
  show "emit_step P s s" by (simp add: emit_step_def)
  show "emit_step P s t \<Longrightarrow> emit_step P t u \<Longrightarrow> emit_step P s u"
    unfolding emit_step_def by (elim conjE exE) (rule conjI, simp, rule_tac x = "la @ l" in exI, simp)
qed auto

named_theorems emits_intros "every event of an operation satisfies a predicate"

lemmas emits_rules [emits_intros] = emits.framed_rules

lemma emits_primitive [emits_intros]:
  "(\<And>v. P (R32 a v)) \<Longrightarrow> emits P (abs_mmio_read32 a)" "P (W32 a w) \<Longrightarrow> emits P (abs_mmio_write32 a w)"
  "P (W8 a b) \<Longrightarrow> emits P (abs_mmio_write8 a b)"
  "(\<And>v. P (CsrR c v)) \<Longrightarrow> emits P (CSR_READ c)" "P (CsrW c w) \<Longrightarrow> emits P (CSR_WRITE c w)"
  "P (CsrS c w) \<Longrightarrow> emits P (CSR_SET_BITS c w)" "P (CsrC c w) \<Longrightarrow> emits P (CSR_CLEAR_BITS c w)"
  "P Fence_I \<Longrightarrow> emits P icache_invalidate"
  "emits P (stopM e)" "emits P HARDENED_UNREACHABLE"
  by (auto simp: framed_def emit_step_def)

lemma emits_checks [emits_intros]:
  "emits P (HARDENED_CHECK_EQ a b)" "emits P (HARDENED_CHECK_NE a b)" "emits P (HARDENED_CHECK_LT a b)"
  "emits P (HARDENED_CHECK_GT a b)" "emits P (HARDENED_CHECK_LE a b)" "emits P (HARDENED_CHECK_GE a b)"
  unfolding hardened_defs by (intro emits_intros)+

lemma emits_modify [emits_intros]:
  "(\<And>s. plat (f s) = plat s \<and> io_log (f s) = io_log s) \<Longrightarrow> emits P (modifyM f)"
  by (simp add: framed_def emit_step_def)

lemma emits_poll [emits_intros]: "emits P body \<Longrightarrow> emits P (poll_until body ready)"
  using emits.framed_poll [of P body] unfolding poll_until_def framed_def by blast

lemma emits_returns [emits_intros]:
  "emits P e \<Longrightarrow> emits P rest \<Longrightarrow> emits P (RETURN_IF_ERROR e rest)"
  "emits P e \<Longrightarrow> emits P rest \<Longrightarrow> emits P (HARDENED_RETURN_IF_ERROR e rest)"
  unfolding hardened_return_eq RETURN_IF_ERROR_def by (intro emits_intros; assumption)+

lemma emits_new: "emits P p \<Longrightarrow> p s = Done a t \<Longrightarrow> list_all P (new_events s t)"
  by (drule (1) framedD1) (auto simp: emit_step_def)

lemma framed_mono: "framed R E p \<Longrightarrow> (\<And>s t. R s t \<Longrightarrow> R' s t) \<Longrightarrow> (\<And>e. E e \<Longrightarrow> E' e) \<Longrightarrow> framed R' E' p"
  by (auto simp: framed_def split: outcome.splits)

lemma framed_conj: "framed R E p \<Longrightarrow> framed R' E' p \<Longrightarrow> framed (\<lambda>s t. R s t \<and> R' s t) (\<lambda>e. E e \<and> E' e) p"
  by (auto simp: framed_def split: outcome.splits dest: spec)

end
