(* ===== verification/Sec_Mmio.thy ===== *)
theory Sec_Mmio
  imports Machine
begin

text \<open>\<open>lib/base/sec_mmio.c\<close>: device access that remembers, in a table of expected values,
  what every security-relevant register was last read as or set to, and counts the writes. The
  table is abstracted to a finite map from addresses to values; the operations refine map update,
  and the checks compare the whole map with the hardware.\<close>

abbreviation (input) kSecMmioMaskVal :: u32 where "kSecMmioMaskVal \<equiv> 0x21692436"
abbreviation (input) kSecMmioValZero :: u32 where "kSecMmioValZero \<equiv> 0x3ca5965a"
abbreviation (input) kSecMmioValOne :: u32 where "kSecMmioValOne \<equiv> 0xc35a69a5"
abbreviation (input) kSecMmioRegFileSize :: nat where "kSecMmioRegFileSize \<equiv> 1000"

section \<open>Operations\<close>

text \<open>The search loop of \<open>upsert_register\<close>: the index of the entry for \<open>addr\<close>, or
  \<open>cnt\<close> when there is none.\<close>

function upsert_scan :: "u32 list \<Rightarrow> u32 \<Rightarrow> nat \<Rightarrow> nat \<Rightarrow> nat" where
  "upsert_scan addrs addr cnt i =
     (if i < cnt then if addrs ! i = addr then i else upsert_scan addrs addr cnt (Suc i) else i)"
  by pat_completeness auto
termination by (relation "measure (\<lambda>(addrs, addr, cnt, i). cnt - i)") auto

declare upsert_scan.simps [simp del]

definition upsert_ctx :: "u32 \<Rightarrow> u32 \<Rightarrow> sec_mmio_ctx \<Rightarrow> sec_mmio_ctx" where
  "upsert_ctx addr v c =
     (let cnt = unat (last_index c); i = upsert_scan (reg_addrs c) addr cnt 0 in
      if i < cnt then c\<lparr>reg_values := (reg_values c)[i := v]\<rparr>
      else if i < kSecMmioRegFileSize
      then c\<lparr>reg_addrs := (reg_addrs c)[i := addr], reg_values := (reg_values c)[i := v],
              last_index := last_index c + 1\<rparr>
      else c)"

definition sec_update :: "(sec_mmio_ctx \<Rightarrow> sec_mmio_ctx) \<Rightarrow> unit rom" where
  "sec_update f = modifyM (\<lambda>m. m\<lparr>g_sec_mmio_ctx := f (g_sec_mmio_ctx m)\<rparr>)"

definition upsert_register :: "u32 \<Rightarrow> u32 \<Rightarrow> unit rom" where
  "upsert_register addr v = (bindM (getM g_sec_mmio_ctx) (\<lambda>c.
    let i = upsert_scan (reg_addrs c) addr (unat (last_index c)) 0 in
    bindM (sec_update (upsert_ctx addr v)) (\<lambda>_.
    HARDENED_CHECK_LT (of_nat i) (of_nat kSecMmioRegFileSize))))"

definition sec_mmio_init :: "unit rom" where
  "sec_mmio_init = (bindM (sec_update (\<lambda>c. c\<lparr>last_index := 0, write_count := 0, check_count := 0,
       expected_write_count := 0\<rparr>)) (\<lambda>_.
    bindM (sec_update (\<lambda>c. c\<lparr>reg_addrs := map (\<lambda>_. UINT32_MAX) (reg_addrs c),
       reg_values := map (\<lambda>_. UINT32_MAX) (reg_values c)\<rparr>)) (\<lambda>_.
    bindM (getM g_sec_mmio_ctx) (\<lambda>c.
    let check = kSecMmioValZero XOR last_index c XOR write_count c XOR check_count c
       XOR expected_write_count c in
    HARDENED_CHECK_EQ check kSecMmioValZero))))"

definition sec_mmio_next_stage_init :: "unit rom" where
  "sec_mmio_next_stage_init = (bindM (sec_update (\<lambda>c. c\<lparr>check_count := 0\<rparr>)) (\<lambda>_.
    bindM (sec_update (\<lambda>c. let n = unat (last_index c) in
       c\<lparr>reg_addrs := take n (reg_addrs c) @ map (\<lambda>_. UINT32_MAX) (drop n (reg_addrs c)),
          reg_values := take n (reg_values c) @ map (\<lambda>_. UINT32_MAX) (drop n (reg_values c))\<rparr>)) (\<lambda>_.
    bindM (getM g_sec_mmio_ctx) (\<lambda>c.
    HARDENED_CHECK_EQ (check_count c) 0))))"

definition sec_mmio_read32 :: "u32 \<Rightarrow> u32 rom" where
  "sec_mmio_read32 addr = (bindM (abs_mmio_read32 addr) (\<lambda>v.
    let masked_value = v XOR kSecMmioMaskVal in
    bindM (upsert_register addr masked_value) (\<lambda>_.
    bindM (abs_mmio_read32 addr) (\<lambda>again.
    bindM (HARDENED_CHECK_EQ (again XOR kSecMmioMaskVal) masked_value) (\<lambda>_.
    returnM v)))))"

definition sec_mmio_write32 :: "u32 \<Rightarrow> u32 \<Rightarrow> unit rom" where
  "sec_mmio_write32 addr v = (bindM (abs_mmio_write32 addr v) (\<lambda>_.
    let masked_value = v XOR kSecMmioMaskVal in
    bindM (upsert_register addr masked_value) (\<lambda>_.
    bindM (abs_mmio_read32 addr) (\<lambda>again.
    bindM (HARDENED_CHECK_EQ (again XOR kSecMmioMaskVal) masked_value) (\<lambda>_.
    sec_update (\<lambda>c. c\<lparr>write_count := write_count c + 1\<rparr>))))))"

definition sec_mmio_write32_shadowed :: "u32 \<Rightarrow> u32 \<Rightarrow> unit rom" where
  "sec_mmio_write32_shadowed addr v = (bindM (abs_mmio_write32 addr v) (\<lambda>_.
    bindM (abs_mmio_write32 addr v) (\<lambda>_.
    let masked_value = v XOR kSecMmioMaskVal in
    bindM (upsert_register addr masked_value) (\<lambda>_.
    bindM (abs_mmio_read32 addr) (\<lambda>again.
    bindM (HARDENED_CHECK_EQ (again XOR kSecMmioMaskVal) masked_value) (\<lambda>_.
    sec_update (\<lambda>c. c\<lparr>write_count := write_count c + 1\<rparr>)))))))"

text \<open>\<open>((uint64_t)rnd * (uint64_t)n) >> 32\<close>: a pseudo-random index below \<open>n\<close>.\<close>

definition random_start :: "u32 \<Rightarrow> u32 \<Rightarrow> u32" where
  "random_start rnd n = ucast (drop_bit 32 ((ucast rnd :: u64) * (ucast n :: u64)))"

text \<open>The loop of \<open>sec_mmio_check_values\<close>, with the number of registers still to check.\<close>

primrec check_values_loop :: "nat \<Rightarrow> u32 \<Rightarrow> u32 \<Rightarrow> unit rom" where
  "check_values_loop 0 offset cnt = returnM ()"
| "check_values_loop (Suc n) offset cnt = (bindM (getM g_sec_mmio_ctx) (\<lambda>c.
    bindM (abs_mmio_read32 (reg_addrs c ! unat offset)) (\<lambda>read_value.
    bindM (HARDENED_CHECK_EQ (read_value XOR kSecMmioMaskVal) (reg_values c ! unat offset)) (\<lambda>_.
    let offset' = offset + 1 in
    check_values_loop n (if offset' >= cnt then offset' - cnt else offset') cnt))))"

definition sec_mmio_check_values :: "u32 \<Rightarrow> unit rom" where
  "sec_mmio_check_values rnd_offset = (bindM (getM g_sec_mmio_ctx) (\<lambda>c.
    let cnt = last_index c in
    bindM (check_values_loop (unat cnt) (random_start rnd_offset cnt) cnt) (\<lambda>_.
    sec_update (\<lambda>c. c\<lparr>check_count := check_count c + 1\<rparr>))))"

definition sec_mmio_check_counters :: "u32 \<Rightarrow> unit rom" where
  "sec_mmio_check_counters expected_check_count = (bindM (getM g_sec_mmio_ctx) (\<lambda>c.
    let result = kSecMmioValZero XOR write_count c XOR expected_write_count c in
    bindM (HARDENED_CHECK_EQ result kSecMmioValZero) (\<lambda>_.
    let result2 = result XOR check_count c XOR expected_check_count in
    bindM (HARDENED_CHECK_EQ (NOT result2) kSecMmioValOne) (\<lambda>_.
    sec_update (\<lambda>c. c\<lparr>check_count := check_count c + 1\<rparr>)))))"

definition SEC_MMIO_WRITE_INCREMENT :: "u32 \<Rightarrow> unit rom" where
  "SEC_MMIO_WRITE_INCREMENT v = sec_update (\<lambda>c. c\<lparr>expected_write_count := expected_write_count c + v\<rparr>)"

section \<open>Frames\<close>

lemma quiet_sec_update [framed_intros]: "quiet (sec_update f)"
  unfolding sec_update_def by (intro framed_intros) simp

lemma quiet_upsert [framed_intros]: "quiet (upsert_register a v)"
  unfolding upsert_register_def Let_def by (intro framed_intros)

lemma quiet_sec_init [framed_intros]: "quiet sec_mmio_init" "quiet sec_mmio_next_stage_init"
  unfolding sec_mmio_init_def sec_mmio_next_stage_init_def Let_def
  by (intro framed_intros)+

lemma quiet_sec_access [framed_intros]:
  "quiet (sec_mmio_read32 a)" "quiet (sec_mmio_write32 a v)" "quiet (sec_mmio_write32_shadowed a v)"
  unfolding sec_mmio_read32_def sec_mmio_write32_def sec_mmio_write32_shadowed_def Let_def
  by (intro framed_intros)+

lemma quiet_check_loop [framed_intros]: "quiet (check_values_loop n off cnt)"
  by (induction n arbitrary: off) (auto simp: Let_def intro!: framed_intros)

lemma quiet_sec_checks [framed_intros]:
  "quiet (sec_mmio_check_values r)" "quiet (sec_mmio_check_counters k)"
  "quiet (SEC_MMIO_WRITE_INCREMENT v)"
  unfolding sec_mmio_check_values_def sec_mmio_check_counters_def SEC_MMIO_WRITE_INCREMENT_def Let_def
  by (intro framed_intros)+

section \<open>The table as a finite map\<close>

definition sec_ctx_ok :: "sec_mmio_ctx \<Rightarrow> bool" where
  "sec_ctx_ok c \<longleftrightarrow> length (reg_addrs c) = kSecMmioRegFileSize
     \<and> length (reg_values c) = kSecMmioRegFileSize
     \<and> unat (last_index c) \<le> kSecMmioRegFileSize
     \<and> distinct (take (unat (last_index c)) (reg_addrs c))"

text \<open>The expected (masked) value of a register.\<close>

definition expected_value :: "sec_mmio_ctx \<Rightarrow> u32 \<Rightarrow> u32 option" where
  "expected_value c = map_of (zip (take (unat (last_index c)) (reg_addrs c))
     (take (unat (last_index c)) (reg_values c)))"

lemma upsert_scan_le: "i \<le> cnt \<Longrightarrow> upsert_scan as a cnt i \<le> cnt"
  by (induction as a cnt i rule: upsert_scan.induct) (subst upsert_scan.simps, auto)

lemma upsert_scan_hit: "upsert_scan as a cnt i < cnt \<Longrightarrow> as ! upsert_scan as a cnt i = a"
  by (induction as a cnt i rule: upsert_scan.induct)
    (subst (asm) (2) upsert_scan.simps, subst upsert_scan.simps, auto split: if_splits)

lemma upsert_scan_miss:
  "i \<le> j \<Longrightarrow> j < upsert_scan as a cnt i \<Longrightarrow> as ! j \<noteq> a"
proof (induction as a cnt i rule: upsert_scan.induct)
  case (1 as a cnt i)
  from "1.prems" "1.IH" show ?case
    by (subst (asm) upsert_scan.simps) (cases "i = j"; fastforce split: if_splits)
qed

lemma upsert_scan_new:
  "cnt \<le> length as \<Longrightarrow> upsert_scan as a cnt 0 = cnt \<longleftrightarrow> a \<notin> set (take cnt as)"
proof
  assume "cnt \<le> length as" "upsert_scan as a cnt 0 = cnt"
  then show "a \<notin> set (take cnt as)"
    using upsert_scan_miss [of 0 _ as a cnt] by (fastforce simp: in_set_conv_nth)
next
  assume c: "cnt \<le> length as" and a: "a \<notin> set (take cnt as)"
  show "upsert_scan as a cnt 0 = cnt"
  proof (rule ccontr)
    assume "upsert_scan as a cnt 0 \<noteq> cnt"
    with upsert_scan_le [of 0 cnt as a] have l: "upsert_scan as a cnt 0 < cnt" by simp
    from upsert_scan_hit [OF l] l c a show False
      by (metis in_set_conv_nth length_take min.absorb2 nth_take)
  qed
qed

lemma sec_ctx_room:
  "sec_ctx_ok c \<Longrightarrow> upsert_scan (reg_addrs c) a (unat (last_index c)) 0 < kSecMmioRegFileSize \<longleftrightarrow>
     unat (last_index c) < kSecMmioRegFileSize \<or> expected_value c a \<noteq> None"
  using upsert_scan_le [of 0 "unat (last_index c)" "reg_addrs c" a]
    upsert_scan_new [of "unat (last_index c)" "reg_addrs c" a]
  by (auto simp: sec_ctx_ok_def expected_value_def map_of_zip_is_None)

lemma unat_Suc_1000: "unat (k :: u32) < 1000 \<Longrightarrow> unat (k + 1) = Suc (unat k)"
  by (subst unat_add_lem [THEN iffD1]) auto

lemma upsert_ctx_refines:
  assumes ok: "sec_ctx_ok c"
    and room: "unat (last_index c) < kSecMmioRegFileSize \<or> expected_value c a \<noteq> None"
  shows "sec_ctx_ok (upsert_ctx a v c)"
    and "expected_value (upsert_ctx a v c) = (expected_value c)(a \<mapsto> v)"
proof -
  define n where "n = unat (last_index c)"
  define i where "i = upsert_scan (reg_addrs c) a n 0"
  have len: "length (reg_addrs c) = 1000" "length (reg_values c) = 1000" "n \<le> 1000"
    and dist: "distinct (take n (reg_addrs c))"
    using ok by (simp_all add: sec_ctx_ok_def n_def)
  have i: "i \<le> n" "i < 1000"
    using upsert_scan_le [of 0 n] sec_ctx_room [OF ok] room by (simp_all add: i_def n_def)
  have both: "sec_ctx_ok (upsert_ctx a v c) \<and>
      expected_value (upsert_ctx a v c) = (expected_value c)(a \<mapsto> v)"
  proof (cases "i < n")
    case True
    have hit: "take n (reg_addrs c) ! i = a"
      using True upsert_scan_hit [of "reg_addrs c" a n 0] by (simp add: i_def)
    have u: "upsert_ctx a v c = c\<lparr>reg_values := (reg_values c)[i := v]\<rparr>"
      using True by (simp add: upsert_ctx_def i_def n_def Let_def)
    show ?thesis
      using map_of_zip_update [OF dist, of "take n (reg_values c)" i v] True len hit
      by (simp add: u sec_ctx_ok_def expected_value_def n_def [symmetric] dist
          take_update_swap)
  next
    case False
    with i have i_eq: "i = n" "n < 1000" by simp_all
    have new: "a \<notin> set (take n (reg_addrs c))"
      using i_eq upsert_scan_new [of n "reg_addrs c" a] len by (simp add: i_def)
    have suc: "unat (last_index c + 1) = Suc n"
      using i_eq by (simp add: n_def unat_Suc_1000)
    have u: "upsert_ctx a v c = c\<lparr>reg_addrs := (reg_addrs c)[n := a],
        reg_values := (reg_values c)[n := v], last_index := last_index c + 1\<rparr>"
      using i_eq by (simp add: upsert_ctx_def i_def n_def Let_def)
    have tk: "take (Suc n) (xs[n := x]) = take n xs @ [x]" if "n < length xs" for xs :: "u32 list" and x
      using that by (simp add: take_Suc_conv_app_nth)
    show ?thesis
      using new dist i_eq len
      by (simp add: u sec_ctx_ok_def expected_value_def suc tk n_def [symmetric]
          map_add_fresh)
  qed
  then show "sec_ctx_ok (upsert_ctx a v c)"
    and "expected_value (upsert_ctx a v c) = (expected_value c)(a \<mapsto> v)" by simp_all
qed


text \<open>What a table of expected register values promises to the accesses that rely on it.\<close>

locale expected_table =
  fixes ok :: "'c \<Rightarrow> bool"
    and expect :: "'c \<Rightarrow> u32 \<Rightarrow> u32 option"
    and room :: "u32 \<Rightarrow> 'c \<Rightarrow> bool"
    and put :: "u32 \<Rightarrow> u32 \<Rightarrow> 'c \<Rightarrow> 'c"
  assumes put_ok: "ok c \<Longrightarrow> room a c \<Longrightarrow> ok (put a v c)"
    and put_expect: "ok c \<Longrightarrow> room a c \<Longrightarrow> expect (put a v c) = (expect c)(a \<mapsto> v)"
    and room_known: "ok c \<Longrightarrow> expect c a \<noteq> None \<Longrightarrow> room a c"
begin

lemma put_same: "ok c \<Longrightarrow> room a c \<Longrightarrow> expect (put a v c) a = Some v"
  by (simp add: put_expect)

lemma put_other: "ok c \<Longrightarrow> room a c \<Longrightarrow> b \<noteq> a \<Longrightarrow> expect (put a v c) b = expect c b"
  by (simp add: put_expect)

text \<open>A register that was written can be written again, and the last value wins.\<close>

lemma put_again: "ok c \<Longrightarrow> room a c \<Longrightarrow> room a (put a v c)"
  by (simp add: room_known put_ok put_expect)

lemma put_twice:
  "ok c \<Longrightarrow> room a c \<Longrightarrow> expect (put a w (put a v c)) = (expect c)(a \<mapsto> w)"
  by (simp add: put_ok put_again put_expect)

lemma put_dom: "ok c \<Longrightarrow> room a c \<Longrightarrow> dom (expect (put a v c)) = insert a (dom (expect c))"
  by (simp add: put_expect)

end

text \<open>Whether the table can take the register.\<close>

definition sec_room :: "u32 \<Rightarrow> sec_mmio_ctx \<Rightarrow> bool" where
  "sec_room a c \<longleftrightarrow> upsert_scan (reg_addrs c) a (unat (last_index c)) 0 < kSecMmioRegFileSize"

interpretation table: expected_table sec_ctx_ok expected_value sec_room upsert_ctx
  by unfold_locales (auto simp: sec_room_def sec_ctx_room upsert_ctx_refines)

lemma upsert_ctx_counters [simp]:
  "write_count (upsert_ctx a v c) = write_count c"
  "expected_write_count (upsert_ctx a v c) = expected_write_count c"
  "check_count (upsert_ctx a v c) = check_count c"
  by (simp_all add: upsert_ctx_def Let_def)

section \<open>Secure accesses\<close>

lemma sec_update_run [simp]:
  "sec_update f m = Done () (m\<lparr>g_sec_mmio_ctx := f (g_sec_mmio_ctx m)\<rparr>)"
  by (simp add: sec_update_def)

lemma upsert_register_Done:
  assumes "unat (last_index (g_sec_mmio_ctx m)) \<le> kSecMmioRegFileSize"
  shows "upsert_register a v m = Done u m' \<longleftrightarrow>
    sec_room a (g_sec_mmio_ctx m) \<and>
    m' = m\<lparr>g_sec_mmio_ctx := upsert_ctx a v (g_sec_mmio_ctx m)\<rparr>"
proof -
  let ?i = "upsert_scan (reg_addrs (g_sec_mmio_ctx m)) a (unat (last_index (g_sec_mmio_ctx m))) 0"
  have "?i \<le> kSecMmioRegFileSize"
    using upsert_scan_le [of 0 "unat (last_index (g_sec_mmio_ctx m))"] assms le_trans by blast
  then have "(of_nat ?i :: u32) < 1000 \<longleftrightarrow> ?i < kSecMmioRegFileSize"
    by (simp add: word_less_nat_alt unat_of_nat)
  then show ?thesis
    by (auto simp: upsert_register_def Let_def bindM_Done_iff check_Done sec_room_def)
qed

text \<open>A secure write returns exactly when the table has room and the register reads back the
  value; it leaves the value in the table and counts itself.\<close>

lemma sec_write_Done:
  assumes "unat (last_index (g_sec_mmio_ctx m)) \<le> kSecMmioRegFileSize"
  shows "sec_mmio_write32 a v m = Done u m' \<longleftrightarrow>
    sec_room a (g_sec_mmio_ctx m) \<and> mmio_resp (plat m) (W32 a v # io_log m) a = v \<and>
    m' = m\<lparr>io_log := R32 a v # W32 a v # io_log m,
            g_sec_mmio_ctx := (upsert_ctx a (v XOR kSecMmioMaskVal) (g_sec_mmio_ctx m))
              \<lparr>write_count := write_count (g_sec_mmio_ctx m) + 1\<rparr>\<rparr>"
  using assms
  by (auto simp: sec_mmio_write32_def Let_def bindM_Done_iff check_Done upsert_register_Done
      xor_mask_eq)

lemma sec_write_shadowed_Done:
  assumes "unat (last_index (g_sec_mmio_ctx m)) \<le> kSecMmioRegFileSize"
  shows "sec_mmio_write32_shadowed a v m = Done u m' \<longleftrightarrow>
    sec_room a (g_sec_mmio_ctx m) \<and> mmio_resp (plat m) (W32 a v # W32 a v # io_log m) a = v \<and>
    m' = m\<lparr>io_log := R32 a v # W32 a v # W32 a v # io_log m,
            g_sec_mmio_ctx := (upsert_ctx a (v XOR kSecMmioMaskVal) (g_sec_mmio_ctx m))
              \<lparr>write_count := write_count (g_sec_mmio_ctx m) + 1\<rparr>\<rparr>"
  using assms
  by (auto simp: sec_mmio_write32_shadowed_def Let_def bindM_Done_iff check_Done
      upsert_register_Done xor_mask_eq)

text \<open>A secure read returns exactly when two reads in a row agree.\<close>

lemma sec_read_Done:
  assumes "unat (last_index (g_sec_mmio_ctx m)) \<le> kSecMmioRegFileSize"
  shows "sec_mmio_read32 a m = Done v m' \<longleftrightarrow>
    v = mmio_resp (plat m) (io_log m) a \<and> sec_room a (g_sec_mmio_ctx m) \<and>
    mmio_resp (plat m) (R32 a v # io_log m) a = v \<and>
    m' = m\<lparr>io_log := R32 a v # R32 a v # io_log m,
            g_sec_mmio_ctx := upsert_ctx a (v XOR kSecMmioMaskVal) (g_sec_mmio_ctx m)\<rparr>"
  using assms
  by (auto simp: sec_mmio_read32_def Let_def bindM_Done_iff check_Done upsert_register_Done
      xor_mask_eq)

section \<open>Checking the whole table\<close>

lemma random_start_less:
  assumes "0 < n" shows "random_start rnd n < n"
proof -
  have a: "unat rnd < 2 ^ 32" "unat n < 2 ^ 32"
    using unat_bound [of rnd] unat_bound [of n] by simp_all
  then have "unat rnd * unat n < 2 ^ 32 * 2 ^ 32"
    by (intro mult_strict_mono) auto
  then have p: "unat ((ucast rnd :: u64) * ucast n) = unat rnd * unat n"
    by (simp add: unat_mult_lem [THEN iffD1] unat_ucast_u64)
  have "unat rnd * unat n < 2 ^ 32 * unat n"
    using a(1) assms by (simp add: word_less_nat_alt)
  then have q: "unat rnd * unat n div 2 ^ 32 < unat n"
    by (simp add: less_mult_imp_div_less mult.commute)
  have "unat (random_start rnd n) = unat rnd * unat n div 2 ^ 32"
    using q a(2)
    by (simp add: random_start_def unsigned_ucast_eq unat_drop_bit64 p take_bit_nat_eq_self)
  with q show ?thesis by (simp add: word_less_nat_alt)
qed

text \<open>The registers in the order the loop visits them.\<close>

definition check_event :: "sec_mmio_ctx \<Rightarrow> nat \<Rightarrow> io_event" where
  "check_event c i = R32 (reg_addrs c ! i) (reg_values c ! i XOR kSecMmioMaskVal)"

lemma check_values_loop_log:
  assumes "check_values_loop n off cnt m = Done u m'" "off < cnt" "n \<le> unat cnt"
  shows "m' = m\<lparr>io_log := rev (map (\<lambda>k. check_event (g_sec_mmio_ctx m) ((unat off + k) mod unat cnt)) [0..<n])
            @ io_log m\<rparr>"
  using assms
proof (induction n arbitrary: off m)
  case (Suc n)
  let ?c = "g_sec_mmio_ctx m"
  let ?off = "if off + 1 >= cnt then off + 1 - cnt else off + 1"
  have o: "unat off < unat cnt" using Suc.prems by (simp add: word_less_nat_alt)
  then have o1: "unat (off + 1) = unat off + 1"
    using unat_bound [of cnt] by (subst unat_add_lem [THEN iffD1]) auto
  have off': "?off < cnt" "unat ?off = (unat off + 1) mod unat cnt"
    using o o1 by (auto simp: word_less_nat_alt word_le_nat_alt not_le mod_if unat_sub)
  define m1 where "m1 = m\<lparr>io_log := check_event ?c (unat off) # io_log m\<rparr>"
  have step: "check_values_loop n ?off cnt m1 = Done u m'"
    using Suc.prems(1)
    by (auto simp: bindM_Done_iff Let_def check_Done m1_def check_event_def xor_flip
        split: if_splits)
  have c1: "g_sec_mmio_ctx m1 = ?c" by (simp add: m1_def)
  have ih: "m' = m1\<lparr>io_log := rev (map (\<lambda>k. check_event ?c ((unat ?off + k) mod unat cnt)) [0..<n]) @ io_log m1\<rparr>"
    using Suc.IH [OF step off'(1)] Suc.prems(3) unfolding c1 by simp
  have shift: "map (\<lambda>k. check_event ?c ((unat off + k) mod unat cnt)) [0..<Suc n] =
      check_event ?c (unat off) # map (\<lambda>k. check_event ?c ((unat ?off + k) mod unat cnt)) [0..<n]"
    using o by (simp only: off'(2) map_upt_Suc) (simp add: mod_simps add.assoc)
  show ?case unfolding shift ih m1_def by simp
qed simp


text \<open>When the check returns, every register of the table was read once (from a start that
  depends on the random offset, wrapping around) and had its expected value.\<close>

lemma check_values_complete:
  assumes d: "sec_mmio_check_values rnd m = Done u m'"
  obtains evs where "io_log m' = evs @ io_log m"
    and "length evs = unat (last_index (g_sec_mmio_ctx m))"
    and "set evs = check_event (g_sec_mmio_ctx m) ` {..<unat (last_index (g_sec_mmio_ctx m))}"
    and "check_count (g_sec_mmio_ctx m') = check_count (g_sec_mmio_ctx m) + 1"
    and "expected_value (g_sec_mmio_ctx m') = expected_value (g_sec_mmio_ctx m)"
proof -
  let ?c = "g_sec_mmio_ctx m"
  let ?n = "unat (last_index ?c)"
  obtain m1 where l: "check_values_loop ?n (random_start rnd (last_index ?c)) (last_index ?c) m = Done () m1"
    and m': "m' = m1\<lparr>g_sec_mmio_ctx := (g_sec_mmio_ctx m1)\<lparr>check_count := check_count (g_sec_mmio_ctx m1) + 1\<rparr>\<rparr>"
    using d by (auto simp: sec_mmio_check_values_def Let_def bindM_Done_iff)
  show thesis
  proof (cases "last_index ?c = 0")
    case True
    then have "m1 = m" using l by simp
    with True show thesis by (intro that [of "[]"]) (simp_all add: m' expected_value_def)
  next
    case False
    then have pos: "0 < last_index ?c" by (simp add: word_neq_0_conv)
    define off where "off = unat (random_start rnd (last_index ?c))"
    define evs where "evs = rev (map (\<lambda>k. check_event ?c ((off + k) mod ?n)) [0..<?n])"
    have off: "off < ?n"
      using random_start_less [OF pos] by (simp add: off_def word_less_nat_alt)
    have m1: "m1 = m\<lparr>io_log := evs @ io_log m\<rparr>"
      using check_values_loop_log [OF l random_start_less [OF pos]] by (simp add: evs_def off_def)
    have "set evs = check_event ?c ` ((\<lambda>k. (off + k) mod ?n) ` {..<?n})"
      by (simp add: evs_def image_image lessThan_atLeast0)
    also have "... = check_event ?c ` {..<?n}"
      using bij_rotate [OF off] by (simp add: bij_betw_def)
    finally show thesis
      by (intro that [of evs]) (simp_all add: m' m1 evs_def expected_value_def)
  qed
qed

lemma not_valone: "NOT (kSecMmioValOne :: u32) = kSecMmioValZero"
  by code_simp

lemma check_counters_Done:
  "sec_mmio_check_counters k m = Done u m' \<longleftrightarrow>
     write_count (g_sec_mmio_ctx m) = expected_write_count (g_sec_mmio_ctx m) \<and>
     check_count (g_sec_mmio_ctx m) = k \<and>
     m' = m\<lparr>g_sec_mmio_ctx := (g_sec_mmio_ctx m)\<lparr>check_count := k + 1\<rparr>\<rparr>"
proof -
  have z: "NOT (kSecMmioValZero XOR a XOR b) = kSecMmioValOne \<longleftrightarrow> a = (b :: u32)" for a b
  proof -
    have "NOT x = kSecMmioValOne \<longleftrightarrow> x = kSecMmioValZero" for x :: u32
      using not_valone by (metis bit.double_compl)

    then show ?thesis by (simp add: xor_cancel_zero)
  qed
  show ?thesis
    by (auto simp: sec_mmio_check_counters_def Let_def bindM_Done_iff check_Done xor_cancel_zero z)
qed

section \<open>Counting secure writes\<close>

text \<open>How many secure writes a routine makes, and how many it announces, whenever it returns.\<close>

definition counts :: "'a rom \<Rightarrow> u32 \<Rightarrow> u32 \<Rightarrow> bool" where
  "counts p w e \<longleftrightarrow> (\<forall>m a m'. p m = Done a m' \<longrightarrow>
     write_count (g_sec_mmio_ctx m') = write_count (g_sec_mmio_ctx m) + w \<and>
     expected_write_count (g_sec_mmio_ctx m') = expected_write_count (g_sec_mmio_ctx m) + e)"

lemma countsD:
  "counts p w e \<Longrightarrow> p m = Done a m' \<Longrightarrow>
     write_count (g_sec_mmio_ctx m') = write_count (g_sec_mmio_ctx m) + w \<and>
     expected_write_count (g_sec_mmio_ctx m') = expected_write_count (g_sec_mmio_ctx m) + e"
  by (auto simp: counts_def)

lemma counts_cong: "counts p w e \<Longrightarrow> w = w' \<Longrightarrow> e = e' \<Longrightarrow> counts p w' e'"
  by simp

lemma counts_return [counts_intros]: "counts (returnM a) 0 0"
  by (simp add: counts_def)

lemma counts_stop [counts_intros]: "counts (stopM x) w e" "counts HARDENED_UNREACHABLE w e"
  by (simp_all add: counts_def)

lemma counts_bind [counts_intros]:
  assumes p: "counts p w e" and f: "\<And>a. counts (f a) w' e'"
  shows "counts (bindM p f) (w + w') (e + e')"
  unfolding counts_def
proof (intro allI impI)
  fix m b m'' assume "bindM p f m = Done b m''"
  then obtain a m' where "p m = Done a m'" "f a m' = Done b m''" by (rule bindM_DoneE)
  then show "write_count (g_sec_mmio_ctx m'') = write_count (g_sec_mmio_ctx m) + (w + w') \<and>
      expected_write_count (g_sec_mmio_ctx m'') = expected_write_count (g_sec_mmio_ctx m) + (e + e')"
    using p f [of a] by (simp add: counts_def add.assoc)
qed

lemma counts_if: "counts p w e \<Longrightarrow> counts q w e \<Longrightarrow> counts (if b then p else q) w e"
  by simp

lemma counts_for:
  "(\<And>x. counts (f x) w 0) \<Longrightarrow> counts (for_each xs f) (of_nat (length xs) * w) 0"
proof (induction xs)
  case (Cons x xs)
  from counts_bind [OF Cons.prems Cons.IH [OF Cons.prems], of x]
  show ?case by (simp add: algebra_simps)
qed (simp add: counts_return)

lemma counts_map:
  "(\<And>x. counts (f x) 0 0) \<Longrightarrow> counts (map_each xs f) 0 0"
proof (induction xs)
  case (Cons x xs)
  have "counts (map_each (x # xs) f) (0 + (0 + 0)) (0 + (0 + 0))"
    unfolding map_each.simps using Cons by (intro counts_bind counts_return) auto
  then show ?case by simp
qed (simp add: counts_return)

lemma counts_poll:
  assumes "counts p 0 0" shows "counts (poll_until p ready) 0 0"
proof -
  have "counts (poll n p ready) 0 0" for n
  proof (induction n)
    case (Suc n)
    have "counts (poll (Suc n) p ready) (0 + 0) (0 + 0)"
      unfolding poll.simps using assms Suc by (intro counts_bind counts_if counts_return) auto
    then show ?case by simp
  qed (simp only: poll.simps counts_stop)
  then show ?thesis unfolding poll_until_def counts_def by blast
qed

lemma counts_primitive [counts_intros]:
  "counts (getM g) 0 0"
  "counts (abs_mmio_read32 a) 0 0" "counts (abs_mmio_write32 a v) 0 0"
  "counts (abs_mmio_write8 a b) 0 0" "counts (CSR_READ c) 0 0" "counts (CSR_WRITE c v) 0 0"
  "counts (CSR_SET_BITS c v) 0 0" "counts (CSR_CLEAR_BITS c v) 0 0" "counts icache_invalidate 0 0"
  "counts (HARDENED_CHECK_EQ x y) 0 0" "counts (HARDENED_CHECK_NE x y) 0 0"
  "counts (HARDENED_CHECK_LT x y) 0 0" "counts (HARDENED_CHECK_GT x y) 0 0"
  "counts (HARDENED_CHECK_LE x y) 0 0" "counts (HARDENED_CHECK_GE x y) 0 0"
  by (auto simp: counts_def check_Done)

lemma counts_upsert: "counts (upsert_register a v) 0 0"
  by (auto simp: counts_def upsert_register_def Let_def bindM_Done_iff check_Done)

lemma counts_sec [counts_intros]:
  "counts (sec_mmio_read32 a) 0 0" "counts (sec_mmio_write32 a v) 1 0"
  "counts (sec_mmio_write32_shadowed a v) 1 0" "counts (SEC_MMIO_WRITE_INCREMENT v) 0 v"
  using counts_upsert
  by (auto simp: counts_def sec_mmio_read32_def sec_mmio_write32_def sec_mmio_write32_shadowed_def
      SEC_MMIO_WRITE_INCREMENT_def Let_def bindM_Done_iff check_Done)

lemma counts_sec_checks [counts_intros]:
  "counts (sec_mmio_check_counters k) 0 0" "counts (sec_mmio_check_values r) 0 0"
proof -
  show "counts (sec_mmio_check_counters k) 0 0"
    by (auto simp: counts_def check_counters_Done)
  have "g_sec_mmio_ctx m' = g_sec_mmio_ctx m" if "check_values_loop n off cnt m = Done u m'" for n off cnt m m' u
    using that by (induction n arbitrary: off m) (auto simp: Let_def bindM_Done_iff check_Done)
  then show "counts (sec_mmio_check_values r) 0 0"
    by (auto simp: counts_def sec_mmio_check_values_def Let_def bindM_Done_iff)
qed

lemma counts_modify:
  "(\<And>m. g_sec_mmio_ctx (f m) = g_sec_mmio_ctx m) \<Longrightarrow> counts (modifyM f) 0 0"
  by (simp add: counts_def)

section \<open>The table stays well formed\<close>

text \<open>Whatever runs, the table of expected values stays a map of at most
  \<open>kSecMmioRegFileSize\<close> registers, so that its arrays are never accessed out of bounds. It is
  an instance of the frame interface.\<close>

definition sec_keep :: "machine \<Rightarrow> machine \<Rightarrow> bool" where
  "sec_keep s t \<longleftrightarrow> (sec_ctx_ok (g_sec_mmio_ctx s) \<longrightarrow> sec_ctx_ok (g_sec_mmio_ctx t))"

abbreviation sec_safe :: "'a rom \<Rightarrow> bool" where
  "sec_safe p \<equiv> framed sec_keep (\<lambda>_. True) p"

interpretation sec: frame sec_keep "\<lambda>_. True"
  by unfold_locales (auto simp: sec_keep_def)

lemmas sec_safe_rules [framed_intros] = sec.framed_rules

lemma sec_safe_same:
  "(\<And>s a s'. p s = Done a s' \<Longrightarrow> g_sec_mmio_ctx s' = g_sec_mmio_ctx s) \<Longrightarrow>
   (\<And>s e s'. p s = Stop e s' \<Longrightarrow> g_sec_mmio_ctx s' = g_sec_mmio_ctx s) \<Longrightarrow> sec_safe p"
  by (auto simp: framed_def sec_keep_def split: outcome.split)

lemma sec_safe_primitive [framed_intros]:
  "sec_safe (abs_mmio_read32 a)" "sec_safe (abs_mmio_write32 a v)" "sec_safe (abs_mmio_write8 a b)"
  "sec_safe (CSR_READ c)" "sec_safe (CSR_WRITE c v)" "sec_safe (CSR_SET_BITS c v)"
  "sec_safe (CSR_CLEAR_BITS c v)" "sec_safe icache_invalidate" "sec_safe (stopM e)"
  "sec_safe HARDENED_UNREACHABLE"
  by (auto intro!: sec_safe_same)

lemma sec_safe_checks [framed_intros]:
  "sec_safe (HARDENED_CHECK_EQ a b)" "sec_safe (HARDENED_CHECK_NE a b)"
  "sec_safe (HARDENED_CHECK_LT a b)" "sec_safe (HARDENED_CHECK_GT a b)"
  "sec_safe (HARDENED_CHECK_LE a b)" "sec_safe (HARDENED_CHECK_GE a b)"
  unfolding hardened_defs by (intro framed_intros)+

lemma sec_safe_poll_until [framed_intros]: "sec_safe body \<Longrightarrow> sec_safe (poll_until body ready)"
  using sec.framed_poll [of body] unfolding poll_until_def framed_def by blast

lemma sec_safe_returns [framed_intros]:
  "sec_safe e \<Longrightarrow> sec_safe rest \<Longrightarrow> sec_safe (RETURN_IF_ERROR e rest)"
  "sec_safe e \<Longrightarrow> sec_safe rest \<Longrightarrow> sec_safe (HARDENED_RETURN_IF_ERROR e rest)"
  unfolding hardened_return_eq RETURN_IF_ERROR_def by (intro framed_intros; assumption)+

lemma sec_safe_modify [framed_intros]:
  "(\<And>s. g_sec_mmio_ctx (f s) = g_sec_mmio_ctx s) \<Longrightarrow> sec_safe (modifyM f)"
  by (auto intro!: sec_safe_same)


lemma upsert_ctx_ok: "sec_ctx_ok c \<Longrightarrow> sec_ctx_ok (upsert_ctx a v c)"
proof (cases "sec_room a c")
  case False
  assume ok: "sec_ctx_ok c"
  then have "upsert_ctx a v c = c"
    using False upsert_scan_le [of 0 "unat (last_index c)" "reg_addrs c" a]
    by (simp add: sec_room_def upsert_ctx_def Let_def sec_ctx_ok_def)
  with ok show ?thesis by simp
qed (rule table.put_ok)

lemma sec_ctx_ok_counters [simp]:
  "sec_ctx_ok (c\<lparr>write_count := w\<rparr>) = sec_ctx_ok c"
  "sec_ctx_ok (c\<lparr>expected_write_count := w\<rparr>) = sec_ctx_ok c"
  "sec_ctx_ok (c\<lparr>check_count := w\<rparr>) = sec_ctx_ok c"
  by (simp_all add: sec_ctx_ok_def)

lemma sec_safe_update: "(\<And>c. sec_ctx_ok c \<Longrightarrow> sec_ctx_ok (f c)) \<Longrightarrow> sec_safe (sec_update f)"
  by (auto simp: framed_def sec_keep_def)

lemma sec_safe_upsert: "sec_safe (upsert_register a v)"
  unfolding upsert_register_def Let_def by (intro framed_intros sec_safe_update upsert_ctx_ok)

lemma sec_safe_access [framed_intros]:
  "sec_safe (sec_mmio_read32 a)" "sec_safe (sec_mmio_write32 a v)"
  "sec_safe (sec_mmio_write32_shadowed a v)"
  unfolding sec_mmio_read32_def sec_mmio_write32_def sec_mmio_write32_shadowed_def Let_def
  by (intro framed_intros sec_safe_upsert sec_safe_update; simp)+

lemma sec_safe_check_loop: "sec_safe (check_values_loop n off cnt)"
  by (induction n arbitrary: off) (auto simp: Let_def intro!: framed_intros)

lemma sec_safe_checks_all [framed_intros]:
  "sec_safe (sec_mmio_check_values r)" "sec_safe (sec_mmio_check_counters k)"
  "sec_safe (SEC_MMIO_WRITE_INCREMENT v)"
  unfolding sec_mmio_check_values_def sec_mmio_check_counters_def SEC_MMIO_WRITE_INCREMENT_def Let_def
  by (intro framed_intros sec_safe_check_loop sec_safe_update; simp)+

section \<open>Properties\<close>

lemma check_values_loop_passes:
  assumes "\<And>i l. i < unat cnt \<Longrightarrow> mmio_resp (plat m) l (reg_addrs (g_sec_mmio_ctx m) ! i)
      = reg_values (g_sec_mmio_ctx m) ! i XOR kSecMmioMaskVal"
    and "off < cnt"
  shows "\<exists>m'. check_values_loop n off cnt m = Done () m'"
  using assms
proof (induction n arbitrary: off m)
  case (Suc n)
  let ?off = "if off + 1 >= cnt then off + 1 - cnt else off + 1"
  let ?m = "m\<lparr>io_log := check_event (g_sec_mmio_ctx m) (unat off) # io_log m\<rparr>"
  have o: "unat off < unat cnt" using Suc.prems(2) by (simp add: word_less_nat_alt)
  then have "unat (off + 1) = unat off + 1"
    using unat_bound [of cnt] by (subst unat_add_lem [THEN iffD1]) auto
  then have off': "?off < cnt"
    using o by (auto simp: word_less_nat_alt word_le_nat_alt not_le unat_sub)
  have "\<exists>m'. check_values_loop n ?off cnt ?m = Done () m'"
    using Suc.prems(1) off' by (intro Suc.IH) auto
  then obtain m' where "check_values_loop n ?off cnt ?m = Done () m'" ..
  then have "check_values_loop (Suc n) off cnt m = Done () m'"
    using Suc.prems(1) [OF o]
    by (simp add: Let_def check_event_def xor_flip bindM_def HARDENED_CHECK_EQ_def)
  then show ?case ..
qed simp

text \<open>C10: the table of expected register values refines a finite
  map: \<open>upsert_register\<close> keeps it well formed (no register twice, never past its 1000
  entries) and is exactly the update of the map at that register, whether the register was
  known or new.\<close>

theorem sec_mmio_table_refines_map:
  assumes "sec_ctx_ok c" "unat (last_index c) < kSecMmioRegFileSize \<or> expected_value c a \<noteq> None"
  shows "sec_ctx_ok (upsert_ctx a v c) \<and> expected_value (upsert_ctx a v c) = (expected_value c)(a \<mapsto> v)"
  using upsert_ctx_refines [OF assms] by simp

theorem sec_mmio_table_refines_map_witness:
  "sec_ctx_ok (upsert_ctx 4 7 sample_ctx) \<and> expected_value (upsert_ctx 4 7 sample_ctx) = [4 \<mapsto> 7]"
  using sec_mmio_table_refines_map [of sample_ctx 4 7]
  by (simp add: sec_ctx_ok_def sample_defs expected_value_def)

text \<open>C11: a secure write returns exactly when there is room in the
  table and the register reads back the value written; it then writes once, reads back once,
  records the masked value and counts one secure write.\<close>

theorem sec_mmio_write_checked:
  assumes "unat (last_index (g_sec_mmio_ctx m)) \<le> kSecMmioRegFileSize"
  shows "sec_mmio_write32 a v m = Done u m' \<longleftrightarrow>
    sec_room a (g_sec_mmio_ctx m) \<and> mmio_resp (plat m) (W32 a v # io_log m) a = v \<and>
    m' = m\<lparr>io_log := R32 a v # W32 a v # io_log m,
            g_sec_mmio_ctx := (upsert_ctx a (v XOR kSecMmioMaskVal) (g_sec_mmio_ctx m))
              \<lparr>write_count := write_count (g_sec_mmio_ctx m) + 1\<rparr>\<rparr>"
  using assms by (rule sec_write_Done)

theorem sec_mmio_write_checked_witness:
  "\<exists>m'. sec_mmio_write32 8 0 sample_machine = Done () m' \<and> write_count (g_sec_mmio_ctx m') = 1
     \<and> io_log m' = [R32 8 0, W32 8 0]"
  using sec_mmio_write_checked [of sample_machine 8 0 "()"]
  by (simp add: sample_defs sec_room_def upsert_scan.simps)

text \<open>C8: when \<open>sec_mmio_check_values\<close> returns, every register
  of the table was read, exactly once, in an order that starts at a random index, and had its
  expected value; the table is unchanged and one more check is counted. It never jumps or
  hangs: the only other outcome is a trap.\<close>

theorem sec_mmio_check_values_sound:
  "case sec_mmio_check_values rnd m of
     Done u m' \<Rightarrow> (\<exists>evs. io_log m' = evs @ io_log m \<and>
       length evs = unat (last_index (g_sec_mmio_ctx m)) \<and>
       set evs = check_event (g_sec_mmio_ctx m) ` {..<unat (last_index (g_sec_mmio_ctx m))} \<and>
       check_count (g_sec_mmio_ctx m') = check_count (g_sec_mmio_ctx m) + 1 \<and>
       expected_value (g_sec_mmio_ctx m') = expected_value (g_sec_mmio_ctx m))
   | Stop e m' \<Rightarrow> e = Trap"
proof (cases "sec_mmio_check_values rnd m")
  case (Done u m')
  from check_values_complete [OF Done] show ?thesis unfolding Done by simp metis
next
  case (Stop e m')
  have loop: "check_values_loop n off cnt s = Stop x t \<Longrightarrow> x = Trap" for n off cnt s x t
    by (induction n arbitrary: off s)
      (auto simp: Let_def bindM_Stop_iff HARDENED_CHECK_EQ_def split: if_splits)
  from Stop show ?thesis
    by (auto simp: sec_mmio_check_values_def Let_def bindM_Stop_iff sec_update_def dest: loop)
qed

text \<open>C9: on untampered hardware the check returns, whatever the
  random offset: if every register of the table reads its expected value, no check traps.\<close>

theorem sec_mmio_check_values_passes:
  assumes "\<And>i l. i < unat (last_index (g_sec_mmio_ctx m)) \<Longrightarrow>
      mmio_resp (plat m) l (reg_addrs (g_sec_mmio_ctx m) ! i)
        = reg_values (g_sec_mmio_ctx m) ! i XOR kSecMmioMaskVal"
  shows "\<exists>m'. sec_mmio_check_values rnd m = Done () m'"
proof (cases "last_index (g_sec_mmio_ctx m) = 0")
  case True
  then show ?thesis by (simp add: sec_mmio_check_values_def sec_update_def)
next
  case False
  then have "random_start rnd (last_index (g_sec_mmio_ctx m)) < last_index (g_sec_mmio_ctx m)"
    by (intro random_start_less) (simp add: word_neq_0_conv)
  from check_values_loop_passes [OF assms this, of "unat (last_index (g_sec_mmio_ctx m))"]
  obtain m1 where "check_values_loop (unat (last_index (g_sec_mmio_ctx m)))
      (random_start rnd (last_index (g_sec_mmio_ctx m))) (last_index (g_sec_mmio_ctx m)) m = Done () m1"
    by blast
  then show ?thesis by (simp add: sec_mmio_check_values_def Let_def sec_update_def)
qed

theorem sec_mmio_check_values_passes_witness:
  "\<exists>m'. sec_mmio_check_values 0xdeadbeef
     (sample_machine\<lparr>g_sec_mmio_ctx := upsert_ctx 8 kSecMmioMaskVal sample_ctx\<rparr>) = Done () m'"
  by (rule sec_mmio_check_values_passes)
    (simp add: sample_defs upsert_ctx_def upsert_scan.simps)

text \<open>C12: \<open>sec_mmio_check_counters\<close> returns exactly when as many
  secure writes were made as were announced and the number of checks is the expected one; it
  then counts itself. Any other state traps.\<close>

theorem sec_mmio_check_counters_iff:
  "sec_mmio_check_counters k m = Done u m' \<longleftrightarrow>
     write_count (g_sec_mmio_ctx m) = expected_write_count (g_sec_mmio_ctx m) \<and>
     check_count (g_sec_mmio_ctx m) = k \<and>
     m' = m\<lparr>g_sec_mmio_ctx := (g_sec_mmio_ctx m)\<lparr>check_count := k + 1\<rparr>\<rparr>"
  by (rule check_counters_Done)

section \<open>The events of the secure accesses\<close>

lemma emits_sec_update [emits_intros]: "emits P (sec_update f)" "emits P (upsert_register a v)"
  "emits P (SEC_MMIO_WRITE_INCREMENT n)"
  by (auto simp: framed_def emit_step_def sec_update_def upsert_register_def SEC_MMIO_WRITE_INCREMENT_def
      Let_def bindM_def hardened_defs split: outcome.splits)

lemma emits_sec [emits_intros]:
  "(\<And>v. P (R32 a v)) \<Longrightarrow> emits P (sec_mmio_read32 a)"
  "(\<And>v. P (R32 a v)) \<Longrightarrow> P (W32 a w) \<Longrightarrow> emits P (sec_mmio_write32 a w)"
  "(\<And>v. P (R32 a v)) \<Longrightarrow> P (W32 a w) \<Longrightarrow> emits P (sec_mmio_write32_shadowed a w)"
  unfolding sec_mmio_read32_def sec_mmio_write32_def sec_mmio_write32_shadowed_def Let_def
  by (intro emits_intros; assumption)+

end
