(* ===== verification/Drivers.thy ===== *)
theory Drivers
  imports Sec_Mmio
begin

text \<open>The small device drivers of \<open>lib/drivers\<close>: OTP, life cycle controller, entropy,
  reset manager, watchdog, retention SRAM, Ibex peripheral, AST, pinmux and UART, each in the
  order of its C file.\<close>

section \<open>OTP (otp.c)\<close>

definition otp_read32 :: "u32 \<Rightarrow> u32 rom" where
  "otp_read32 address =
     sec_mmio_read32 (TOP_EARLGREY_OTP_CTRL_CORE_BASE_ADDR + OTP_CTRL_SW_CFG_WINDOW_REG_OFFSET + address)"

definition otp_read64 :: "u32 \<Rightarrow> u64 rom" where
  "otp_read64 address = (let reg_offset = OTP_CTRL_SW_CFG_WINDOW_REG_OFFSET + address in
    bindM (sec_mmio_read32 (TOP_EARLGREY_OTP_CTRL_CORE_BASE_ADDR + reg_offset + 4)) (\<lambda>hi.
    bindM (sec_mmio_read32 (TOP_EARLGREY_OTP_CTRL_CORE_BASE_ADDR + reg_offset)) (\<lambda>lo.
    returnM (push_bit 32 (ucast hi) OR ucast lo))))"

definition otp_read :: "u32 \<Rightarrow> nat \<Rightarrow> u32 list rom" where
  "otp_read address num_words =
     map_each [0..<num_words] (\<lambda>i. sec_mmio_read32 (TOP_EARLGREY_OTP_CTRL_CORE_BASE_ADDR
       + (OTP_CTRL_SW_CFG_WINDOW_REG_OFFSET + address) + of_nat i * 4))"

definition otp_creator_sw_cfg_lockdown :: "unit rom" where
  "otp_creator_sw_cfg_lockdown = sec_mmio_write32
     (TOP_EARLGREY_OTP_CTRL_CORE_BASE_ADDR + OTP_CTRL_CREATOR_SW_CFG_READ_LOCK_REG_OFFSET) 0"

section \<open>Life cycle (lifecycle.c)\<close>

record lifecycle_hw_rev =
  chip_gen :: u16
  chip_rev :: u16

definition lifecycle_raw_state_get :: "u32 rom" where
  "lifecycle_raw_state_get = (bindM (sec_mmio_read32 (TOP_EARLGREY_LC_CTRL_BASE_ADDR + LC_CTRL_LC_STATE_REG_OFFSET)) (\<lambda>reg.
    returnM (bitfield_field32_read reg LC_CTRL_LC_STATE_STATE_FIELD)))"

text \<open>One case of the switch: a redundant check of the selector, then the result.\<close>

definition lc_case :: "u32 \<Rightarrow> u32 \<Rightarrow> u32 \<Rightarrow> u32 rom" where
  "lc_case raw_state v result = (bindM (HARDENED_CHECK_EQ raw_state v) (\<lambda>_.
    returnM result))"

definition lifecycle_state_get :: "u32 rom" where
  "lifecycle_state_get = (bindM lifecycle_raw_state_get (\<lambda>raw_state.
    if raw_state = LC_CTRL_LC_STATE_STATE_VALUE_TEST_UNLOCKED0
     then lc_case raw_state LC_CTRL_LC_STATE_STATE_VALUE_TEST_UNLOCKED0 kLcStateTest
     else if raw_state = LC_CTRL_LC_STATE_STATE_VALUE_TEST_UNLOCKED1
     then lc_case raw_state LC_CTRL_LC_STATE_STATE_VALUE_TEST_UNLOCKED1 kLcStateTest
     else if raw_state = LC_CTRL_LC_STATE_STATE_VALUE_TEST_UNLOCKED2
     then lc_case raw_state LC_CTRL_LC_STATE_STATE_VALUE_TEST_UNLOCKED2 kLcStateTest
     else if raw_state = LC_CTRL_LC_STATE_STATE_VALUE_TEST_UNLOCKED3
     then lc_case raw_state LC_CTRL_LC_STATE_STATE_VALUE_TEST_UNLOCKED3 kLcStateTest
     else if raw_state = LC_CTRL_LC_STATE_STATE_VALUE_TEST_UNLOCKED4
     then lc_case raw_state LC_CTRL_LC_STATE_STATE_VALUE_TEST_UNLOCKED4 kLcStateTest
     else if raw_state = LC_CTRL_LC_STATE_STATE_VALUE_TEST_UNLOCKED5
     then lc_case raw_state LC_CTRL_LC_STATE_STATE_VALUE_TEST_UNLOCKED5 kLcStateTest
     else if raw_state = LC_CTRL_LC_STATE_STATE_VALUE_TEST_UNLOCKED6
     then lc_case raw_state LC_CTRL_LC_STATE_STATE_VALUE_TEST_UNLOCKED6 kLcStateTest
     else if raw_state = LC_CTRL_LC_STATE_STATE_VALUE_TEST_UNLOCKED7
     then lc_case raw_state LC_CTRL_LC_STATE_STATE_VALUE_TEST_UNLOCKED7 kLcStateTest
     else if raw_state = LC_CTRL_LC_STATE_STATE_VALUE_DEV
     then lc_case raw_state LC_CTRL_LC_STATE_STATE_VALUE_DEV kLcStateDev
     else if raw_state = LC_CTRL_LC_STATE_STATE_VALUE_PROD
     then lc_case raw_state LC_CTRL_LC_STATE_STATE_VALUE_PROD kLcStateProd
     else if raw_state = LC_CTRL_LC_STATE_STATE_VALUE_PROD_END
     then lc_case raw_state LC_CTRL_LC_STATE_STATE_VALUE_PROD_END kLcStateProdEnd
     else if raw_state = LC_CTRL_LC_STATE_STATE_VALUE_RMA
     then lc_case raw_state LC_CTRL_LC_STATE_STATE_VALUE_RMA kLcStateRma
     else HARDENED_UNREACHABLE))"

definition lifecycle_device_id_get :: "u32 list rom" where
  "lifecycle_device_id_get = map_each [0..<8] (\<lambda>i. sec_mmio_read32
     (TOP_EARLGREY_LC_CTRL_BASE_ADDR + LC_CTRL_DEVICE_ID_0_REG_OFFSET + of_nat i * 4))"

definition lifecycle_hw_rev_get :: "lifecycle_hw_rev rom" where
  "lifecycle_hw_rev_get = (bindM (sec_mmio_read32 (TOP_EARLGREY_LC_CTRL_BASE_ADDR + LC_CTRL_HW_REV_REG_OFFSET)) (\<lambda>reg.
    returnM \<lparr>chip_gen = ucast (bitfield_field32_read reg LC_CTRL_HW_REV_CHIP_GEN_FIELD),
              chip_rev = ucast (bitfield_field32_read reg LC_CTRL_HW_REV_CHIP_REV_FIELD)\<rparr>))"

section \<open>Entropy (rnd.c)\<close>

definition rnd_uint32 :: "u32 rom" where
  "rnd_uint32 = (bindM (otp_read32 OTP_CTRL_PARAM_CREATOR_SW_CFG_RNG_EN_OFFSET) (\<lambda>en.
    bindM (whenM (en = kHardenedBoolTrue) (bindM (poll_until (abs_mmio_read32 (TOP_EARLGREY_RV_CORE_IBEX_CFG_BASE_ADDR
         + RV_CORE_IBEX_RND_STATUS_REG_OFFSET)) (\<lambda>v. v \<noteq> 0)) (\<lambda>_.
       returnM ()))) (\<lambda>_.
    bindM (CSR_READ CSR_REG_MCYCLE) (\<lambda>mcycle.
    bindM (abs_mmio_read32 (TOP_EARLGREY_RV_CORE_IBEX_CFG_BASE_ADDR + RV_CORE_IBEX_RND_DATA_REG_OFFSET)) (\<lambda>rnd.
    returnM (mcycle + rnd))))))"

section \<open>Reset manager (rstmgr.c)\<close>

abbreviation (input) kRstmgrReasonPowerOn :: nat where "kRstmgrReasonPowerOn \<equiv> 0"

definition rstmgr_alert_info_collect :: "unit rom" where
  "rstmgr_alert_info_collect = (bindM (abs_mmio_read32 (TOP_EARLGREY_RSTMGR_AON_BASE_ADDR + RSTMGR_ALERT_INFO_ATTR_REG_OFFSET)) (\<lambda>attr.
    let n = bitfield_field32_read attr RSTMGR_ALERT_INFO_ATTR_CNT_AVAIL_FIELD in
    bindM (modifyM (\<lambda>m. m\<lparr>g_rstmgr_alert_info := (g_rstmgr_alert_info m)\<lparr>info_length := n\<rparr>\<rparr>)) (\<lambda>_.
    for_each [0..<unat n] (\<lambda>i. (bindM (abs_mmio_write32 (TOP_EARLGREY_RSTMGR_AON_BASE_ADDR + RSTMGR_ALERT_INFO_CTRL_REG_OFFSET)
         (bitfield_field32_write 0 RSTMGR_ALERT_INFO_CTRL_INDEX_FIELD (of_nat i))) (\<lambda>_.
     bindM (abs_mmio_read32 (TOP_EARLGREY_RSTMGR_AON_BASE_ADDR + RSTMGR_ALERT_INFO_REG_OFFSET)) (\<lambda>v.
     modifyM (\<lambda>m. m\<lparr>g_rstmgr_alert_info := (g_rstmgr_alert_info m)
         \<lparr>info_words := (info_words (g_rstmgr_alert_info m))[i := v]\<rparr>\<rparr>))))))))"

definition rstmgr_reason_get :: "u32 rom" where
  "rstmgr_reason_get = (bindM rstmgr_alert_info_collect (\<lambda>_.
    abs_mmio_read32 (TOP_EARLGREY_RSTMGR_AON_BASE_ADDR + RSTMGR_RESET_INFO_REG_OFFSET)))"

definition rstmgr_reason_clear :: "u32 \<Rightarrow> unit rom" where
  "rstmgr_reason_clear reasons =
     abs_mmio_write32 (TOP_EARLGREY_RSTMGR_AON_BASE_ADDR + RSTMGR_RESET_INFO_REG_OFFSET) reasons"

definition rstmgr_alert_info_enable :: "unit rom" where
  "rstmgr_alert_info_enable =
     abs_mmio_write32 (TOP_EARLGREY_RSTMGR_AON_BASE_ADDR + RSTMGR_ALERT_INFO_CTRL_REG_OFFSET) 1"

text \<open>The request, then a wait for an interrupt that never comes.\<close>

definition rstmgr_reset :: "'a rom" where
  "rstmgr_reset = (bindM (abs_mmio_write32 (TOP_EARLGREY_RSTMGR_AON_BASE_ADDR + RSTMGR_RESET_REQ_REG_OFFSET) kMultiBitBool4True) (\<lambda>_.
    stopM Hang))"

section \<open>Watchdog (watchdog.c)\<close>

record watchdog_config =
  bark_threshold :: u32
  bite_threshold :: u32
  wdog_enable :: u32

abbreviation (input) kWatchdogMinThreshold :: u32 where "kWatchdogMinThreshold \<equiv> 1"
abbreviation (input) kWatchdogSecMmioConfigure :: u32 where "kWatchdogSecMmioConfigure \<equiv> 4"
abbreviation (input) kWatchdogSecMmioInit :: u32 where "kWatchdogSecMmioInit \<equiv> 4"
abbreviation (input) kWatchdogSecMmioDisable :: u32 where "kWatchdogSecMmioDisable \<equiv> 1"
abbreviation (input) kCtrlEnable :: u32 where "kCtrlEnable \<equiv> 1"
abbreviation (input) kCtrlDisable :: u32 where "kCtrlDisable \<equiv> 0"

definition watchdog_ctrl :: "u32 \<Rightarrow> u32 rom" where
  "watchdog_ctrl enable =
     (if enable = kHardenedBoolTrue
      then (bindM (HARDENED_CHECK_EQ enable kHardenedBoolTrue) (\<lambda>_.
    returnM kCtrlEnable))
      else if enable = kHardenedBoolFalse
      then (bindM (HARDENED_CHECK_EQ enable kHardenedBoolFalse) (\<lambda>_.
    returnM kCtrlDisable))
      else HARDENED_UNREACHABLE)"

definition watchdog_configure :: "watchdog_config \<Rightarrow> unit rom" where
  "watchdog_configure config = (bindM (sec_mmio_write32 (TOP_EARLGREY_PWRMGR_AON_BASE_ADDR + PWRMGR_RESET_EN_REG_OFFSET)
       (bitfield_bit32_write 0 1 True)) (\<lambda>_.
    bindM (abs_mmio_write32 (TOP_EARLGREY_PWRMGR_AON_BASE_ADDR + PWRMGR_CFG_CDC_SYNC_REG_OFFSET) 1) (\<lambda>_.
    bindM (sec_mmio_write32 (TOP_EARLGREY_AON_TIMER_AON_BASE_ADDR + AON_TIMER_WDOG_CTRL_REG_OFFSET) kCtrlDisable) (\<lambda>_.
    bindM (abs_mmio_write32 (TOP_EARLGREY_AON_TIMER_AON_BASE_ADDR + AON_TIMER_WDOG_COUNT_REG_OFFSET) 0) (\<lambda>_.
    bindM (abs_mmio_write32 (TOP_EARLGREY_AON_TIMER_AON_BASE_ADDR + AON_TIMER_WDOG_BARK_THOLD_REG_OFFSET)
       (bark_threshold config)) (\<lambda>_.
    bindM (sec_mmio_write32 (TOP_EARLGREY_AON_TIMER_AON_BASE_ADDR + AON_TIMER_WDOG_BITE_THOLD_REG_OFFSET)
       (bite_threshold config)) (\<lambda>_.
    bindM (watchdog_ctrl (wdog_enable config)) (\<lambda>ctrl.
    bindM (sec_mmio_write32 (TOP_EARLGREY_AON_TIMER_AON_BASE_ADDR + AON_TIMER_WDOG_CTRL_REG_OFFSET) ctrl) (\<lambda>_.
    abs_mmio_write32 (TOP_EARLGREY_PWRMGR_AON_BASE_ADDR + PWRMGR_CFG_CDC_SYNC_REG_OFFSET) 1)))))))))"

text \<open>The switch of \<open>watchdog_init\<close> on the life cycle state.\<close>

definition watchdog_lc_enable :: "u32 \<Rightarrow> u32 rom" where
  "watchdog_lc_enable lc_state =
     (if lc_state = kLcStateTest then lc_case lc_state kLcStateTest kHardenedBoolFalse
      else if lc_state = kLcStateDev then lc_case lc_state kLcStateDev kHardenedBoolTrue
      else if lc_state = kLcStateProd then lc_case lc_state kLcStateProd kHardenedBoolTrue
      else if lc_state = kLcStateProdEnd then lc_case lc_state kLcStateProdEnd kHardenedBoolTrue
      else if lc_state = kLcStateRma then lc_case lc_state kLcStateRma kHardenedBoolFalse
      else HARDENED_UNREACHABLE)"

definition watchdog_init :: "u32 \<Rightarrow> unit rom" where
  "watchdog_init lc_state = (bindM (watchdog_lc_enable lc_state) (\<lambda>enable.
    bindM (otp_read32 OTP_CTRL_PARAM_OWNER_SW_CFG_ROM_WATCHDOG_BITE_THRESHOLD_CYCLES_OFFSET) (\<lambda>threshold.
    bindM ((if threshold < kWatchdogMinThreshold
       then (bindM (HARDENED_CHECK_LT threshold kWatchdogMinThreshold) (\<lambda>_.
       returnM kHardenedBoolFalse))
       else returnM enable)) (\<lambda>enable'.
    watchdog_configure \<lparr>bark_threshold = (9 * threshold) div 8, bite_threshold = threshold,
       wdog_enable = enable'\<rparr>))))"

definition watchdog_disable :: "unit rom" where
  "watchdog_disable = sec_mmio_write32
     (TOP_EARLGREY_AON_TIMER_AON_BASE_ADDR + AON_TIMER_WDOG_CTRL_REG_OFFSET) kCtrlDisable"

definition watchdog_pet :: "unit rom" where
  "watchdog_pet = abs_mmio_write32
     (TOP_EARLGREY_AON_TIMER_AON_BASE_ADDR + AON_TIMER_WDOG_COUNT_REG_OFFSET) 0"

definition watchdog_get :: "u32 rom" where
  "watchdog_get = abs_mmio_read32
     (TOP_EARLGREY_AON_TIMER_AON_BASE_ADDR + AON_TIMER_WDOG_COUNT_REG_OFFSET)"

section \<open>Retention SRAM (retention\_sram.c)\<close>

text \<open>The \<open>memset\<close> is a store of every word of the memory.\<close>

definition retention_sram_clear :: "unit rom" where
  "retention_sram_clear = for_each [0..<unat (TOP_EARLGREY_SRAM_CTRL_RET_AON_RAM_SIZE_BYTES) div 4]
     (\<lambda>i. abs_mmio_write32 (TOP_EARLGREY_SRAM_CTRL_RET_AON_RAM_BASE_ADDR + of_nat i * 4) 0)"

definition retention_sram_init :: "unit rom" where
  "retention_sram_init = (let reg = bitfield_bit32_write 0 SRAM_CTRL_CTRL_INIT_BIT True in
    abs_mmio_write32 (TOP_EARLGREY_SRAM_CTRL_RET_AON_REGS_BASE_ADDR + SRAM_CTRL_CTRL_REG_OFFSET) reg)"

definition retention_sram_scramble :: "unit rom" where
  "retention_sram_scramble = (let ctrl = 0 in
    let ctrl = bitfield_bit32_write ctrl SRAM_CTRL_CTRL_RENEW_SCR_KEY_BIT True in
    let ctrl = bitfield_bit32_write ctrl SRAM_CTRL_CTRL_INIT_BIT True in
    abs_mmio_write32 (TOP_EARLGREY_SRAM_CTRL_RET_AON_REGS_BASE_ADDR + SRAM_CTRL_CTRL_REG_OFFSET) ctrl)"

definition retention_sram_set_reset_reasons :: "u32 \<Rightarrow> unit rom" where
  "retention_sram_set_reset_reasons v = abs_mmio_write32 TOP_EARLGREY_SRAM_CTRL_RET_AON_RAM_BASE_ADDR v"

section \<open>Ibex peripheral (ibex.c)\<close>

abbreviation (input) kAddressTranslationSecMmioConfigure :: u32 where
  "kAddressTranslationSecMmioConfigure \<equiv> 6"

definition ibex_fpga_version :: "u32 rom" where
  "ibex_fpga_version =
     abs_mmio_read32 (TOP_EARLGREY_RV_CORE_IBEX_CFG_BASE_ADDR + RV_CORE_IBEX_FPGA_INFO_REG_OFFSET)"

definition remap_mask :: "u32 \<Rightarrow> u32 \<Rightarrow> u32" where
  "remap_mask matching_addr sz = matching_addr OR drop_bit 1 (sz - 1)"

definition ibex_addr_remap_0_set :: "u32 \<Rightarrow> u32 \<Rightarrow> u32 \<Rightarrow> unit rom" where
  "ibex_addr_remap_0_set matching_addr remap_addr sz = (let mask = remap_mask matching_addr sz in
    bindM (sec_mmio_write32 (TOP_EARLGREY_RV_CORE_IBEX_CFG_BASE_ADDR + RV_CORE_IBEX_IBUS_ADDR_MATCHING_0_REG_OFFSET) mask) (\<lambda>_.
    bindM (sec_mmio_write32 (TOP_EARLGREY_RV_CORE_IBEX_CFG_BASE_ADDR + RV_CORE_IBEX_DBUS_ADDR_MATCHING_0_REG_OFFSET) mask) (\<lambda>_.
    bindM (sec_mmio_write32 (TOP_EARLGREY_RV_CORE_IBEX_CFG_BASE_ADDR + RV_CORE_IBEX_IBUS_REMAP_ADDR_0_REG_OFFSET) remap_addr) (\<lambda>_.
    bindM (sec_mmio_write32 (TOP_EARLGREY_RV_CORE_IBEX_CFG_BASE_ADDR + RV_CORE_IBEX_DBUS_REMAP_ADDR_0_REG_OFFSET) remap_addr) (\<lambda>_.
    bindM (sec_mmio_write32 (TOP_EARLGREY_RV_CORE_IBEX_CFG_BASE_ADDR + RV_CORE_IBEX_IBUS_ADDR_EN_0_REG_OFFSET) 1) (\<lambda>_.
    bindM (sec_mmio_write32 (TOP_EARLGREY_RV_CORE_IBEX_CFG_BASE_ADDR + RV_CORE_IBEX_DBUS_ADDR_EN_0_REG_OFFSET) 1) (\<lambda>_.
    icache_invalidate)))))))"

definition ibex_addr_remap_1_set :: "u32 \<Rightarrow> u32 \<Rightarrow> u32 \<Rightarrow> unit rom" where
  "ibex_addr_remap_1_set matching_addr remap_addr sz = (let mask = remap_mask matching_addr sz in
    bindM (sec_mmio_write32 (TOP_EARLGREY_RV_CORE_IBEX_CFG_BASE_ADDR + RV_CORE_IBEX_IBUS_ADDR_MATCHING_1_REG_OFFSET) mask) (\<lambda>_.
    bindM (sec_mmio_write32 (TOP_EARLGREY_RV_CORE_IBEX_CFG_BASE_ADDR + RV_CORE_IBEX_DBUS_ADDR_MATCHING_1_REG_OFFSET) mask) (\<lambda>_.
    bindM (sec_mmio_write32 (TOP_EARLGREY_RV_CORE_IBEX_CFG_BASE_ADDR + RV_CORE_IBEX_IBUS_REMAP_ADDR_1_REG_OFFSET) remap_addr) (\<lambda>_.
    bindM (sec_mmio_write32 (TOP_EARLGREY_RV_CORE_IBEX_CFG_BASE_ADDR + RV_CORE_IBEX_DBUS_REMAP_ADDR_1_REG_OFFSET) remap_addr) (\<lambda>_.
    bindM (sec_mmio_write32 (TOP_EARLGREY_RV_CORE_IBEX_CFG_BASE_ADDR + RV_CORE_IBEX_IBUS_ADDR_EN_1_REG_OFFSET) 1) (\<lambda>_.
    bindM (sec_mmio_write32 (TOP_EARLGREY_RV_CORE_IBEX_CFG_BASE_ADDR + RV_CORE_IBEX_DBUS_ADDR_EN_1_REG_OFFSET) 1) (\<lambda>_.
    icache_invalidate)))))))"

section \<open>Analog sensor top (ast.c)\<close>

definition done_bit_get :: "bool rom" where
  "done_bit_get = (bindM (abs_mmio_read32 (TOP_EARLGREY_SENSOR_CTRL_BASE_ADDR + SENSOR_CTRL_STATUS_REG_OFFSET)) (\<lambda>reg.
    returnM (bitfield_bit32_read reg SENSOR_CTRL_STATUS_AST_INIT_DONE_BIT)))"

definition ast_init_done :: "u32 rom" where
  "ast_init_done = (bindM done_bit_get (\<lambda>b1.
    bindM done_bit_get (\<lambda>b2.
    let res = 0x631 OR push_bit 3 (of_bool b1) OR push_bit 8 (of_bool b2) in
    if res \<noteq> kHardenedBoolTrue then returnM kHardenedBoolFalse else returnM res)))"

text \<open>The polling loop, at most \<open>n\<close> times round.\<close>

primrec ast_poll :: "nat \<Rightarrow> rom_error rom" where
  "ast_poll 0 = stopM Out_of_polls"
| "ast_poll (Suc n) = (bindM (CSR_READ CSR_REG_MCYCLE) (\<lambda>mcycle.
    bindM ast_init_done (\<lambda>init_done.
    bindM (getM (\<lambda>m. kAstCheckPollCpuCycles (plat m))) (\<lambda>limit.
    if init_done \<noteq> kHardenedBoolFalse then returnM init_done
     else if mcycle < limit then ast_poll n
     else returnM kErrorAstInitNotDone))))"

text \<open>The switch of \<open>ast_check\<close>: whether the life cycle state skips the check.\<close>

definition ast_lc_skip :: "u32 \<Rightarrow> bool rom" where
  "ast_lc_skip lc_state =
     (if lc_state = kLcStateTest then (bindM (HARDENED_CHECK_EQ lc_state kLcStateTest) (\<lambda>_.
    returnM True))
      else if lc_state = kLcStateRma then (bindM (HARDENED_CHECK_EQ lc_state kLcStateRma) (\<lambda>_.
    returnM True))
      else if lc_state = kLcStateDev then (bindM (HARDENED_CHECK_EQ lc_state kLcStateDev) (\<lambda>_.
    returnM False))
      else if lc_state = kLcStateProd then (bindM (HARDENED_CHECK_EQ lc_state kLcStateProd) (\<lambda>_.
    returnM False))
      else if lc_state = kLcStateProdEnd then (bindM (HARDENED_CHECK_EQ lc_state kLcStateProdEnd) (\<lambda>_.
    returnM False))
      else HARDENED_UNREACHABLE)"

definition ast_check :: "u32 \<Rightarrow> rom_error rom" where
  "ast_check lc_state = (bindM (ast_lc_skip lc_state) (\<lambda>skip.
    if skip then returnM kErrorOk else
    bindM (otp_read32 OTP_CTRL_PARAM_CREATOR_SW_CFG_AST_INIT_EN_OFFSET) (\<lambda>en.
    if en = kMultiBitBool4False then (bindM (HARDENED_CHECK_EQ en kMultiBitBool4False) (\<lambda>_.
       returnM kErrorOk)) else
    bindM (CSR_WRITE CSR_REG_MCYCLE 0) (\<lambda>_.
    bindM (getM (\<lambda>m. poll_limit (plat m))) (\<lambda>n.
    ast_poll n)))))"

section \<open>Pin multiplexer (pinmux.c)\<close>

record pinmux_input =
  in_periph :: u32
  in_insel :: u32
  in_pad :: u32

record pinmux_output =
  out_mio :: u32
  out_outsel :: u32
  out_pad :: u32

definition kInputUart0 :: pinmux_input where
  "kInputUart0 = \<lparr>in_periph = 42, in_insel = 27, in_pad = 25\<rparr>"

definition kOutputUart0 :: pinmux_output where
  "kOutputUart0 = \<lparr>out_mio = 26, out_outsel = 45, out_pad = 26\<rparr>"

definition kInputSwStrap0 :: pinmux_input where
  "kInputSwStrap0 = \<lparr>in_periph = 22, in_insel = 24, in_pad = 22\<rparr>"

definition kInputSwStrap1 :: pinmux_input where
  "kInputSwStrap1 = \<lparr>in_periph = 23, in_insel = 25, in_pad = 23\<rparr>"

definition kInputSwStrap2 :: pinmux_input where
  "kInputSwStrap2 = \<lparr>in_periph = 24, in_insel = 26, in_pad = 24\<rparr>"

definition configure_input :: "pinmux_input \<Rightarrow> unit rom" where
  "configure_input i = abs_mmio_write32
     (TOP_EARLGREY_PINMUX_AON_BASE_ADDR + PINMUX_MIO_PERIPH_INSEL_0_REG_OFFSET + in_periph i * 4)
     (in_insel i)"

definition enable_pull_down :: "u32 \<Rightarrow> unit rom" where
  "enable_pull_down pad = abs_mmio_write32
     (TOP_EARLGREY_PINMUX_AON_BASE_ADDR + PINMUX_MIO_PAD_ATTR_0_REG_OFFSET + pad * 4)
     (bitfield_bit32_write 0 PINMUX_MIO_PAD_ATTR_0_PULL_EN_0_BIT True)"

definition configure_output :: "pinmux_output \<Rightarrow> unit rom" where
  "configure_output out = abs_mmio_write32
     (TOP_EARLGREY_PINMUX_AON_BASE_ADDR + PINMUX_MIO_OUTSEL_0_REG_OFFSET + out_mio out * 4)
     (out_outsel out)"

definition pinmux_init :: "unit rom" where
  "pinmux_init = (bindM (otp_read32 OTP_CTRL_PARAM_OWNER_SW_CFG_ROM_BOOTSTRAP_EN_OFFSET) (\<lambda>bootstrap_en.
    bindM (whenM (bootstrap_en = kHardenedBoolTrue) (bindM (HARDENED_CHECK_EQ bootstrap_en kHardenedBoolTrue) (\<lambda>_.
       bindM (enable_pull_down (in_pad kInputSwStrap0)) (\<lambda>_.
       bindM (enable_pull_down (in_pad kInputSwStrap1)) (\<lambda>_.
       bindM (enable_pull_down (in_pad kInputSwStrap2)) (\<lambda>_.
       bindM (configure_input kInputSwStrap0) (\<lambda>_.
       bindM (configure_input kInputSwStrap1) (\<lambda>_.
       configure_input kInputSwStrap2)))))))) (\<lambda>_.
    bindM (configure_input kInputUart0) (\<lambda>_.
    configure_output kOutputUart0))))"

section \<open>UART (uart.c)\<close>

definition uart_reset :: "unit rom" where
  "uart_reset = (bindM (abs_mmio_write32 (TOP_EARLGREY_UART0_BASE_ADDR + UART_CTRL_REG_OFFSET) 0) (\<lambda>_.
    let reg = 0 in
    let reg = bitfield_bit32_write reg UART_FIFO_CTRL_RXRST_BIT True in
    let reg = bitfield_bit32_write reg UART_FIFO_CTRL_TXRST_BIT True in
    bindM (abs_mmio_write32 (TOP_EARLGREY_UART0_BASE_ADDR + UART_FIFO_CTRL_REG_OFFSET) reg) (\<lambda>_.
    bindM (abs_mmio_write32 (TOP_EARLGREY_UART0_BASE_ADDR + UART_OVRD_REG_OFFSET) 0) (\<lambda>_.
    bindM (abs_mmio_write32 (TOP_EARLGREY_UART0_BASE_ADDR + UART_TIMEOUT_CTRL_REG_OFFSET) 0) (\<lambda>_.
    bindM (abs_mmio_write32 (TOP_EARLGREY_UART0_BASE_ADDR + UART_INTR_ENABLE_REG_OFFSET) 0) (\<lambda>_.
    abs_mmio_write32 (TOP_EARLGREY_UART0_BASE_ADDR + UART_INTR_STATE_REG_OFFSET) UINT32_MAX))))))"

definition uart_init :: "u32 \<Rightarrow> rom_error rom" where
  "uart_init precalculated_nco = (bindM uart_reset (\<lambda>_.
    let reg = 0 in
    let reg = bitfield_field32_write reg UART_CTRL_NCO_FIELD precalculated_nco in
    let reg = bitfield_bit32_write reg UART_CTRL_TX_BIT True in
    let reg = bitfield_bit32_write reg UART_CTRL_PARITY_EN_BIT False in
    bindM (abs_mmio_write32 (TOP_EARLGREY_UART0_BASE_ADDR + UART_CTRL_REG_OFFSET) reg) (\<lambda>_.
    bindM (abs_mmio_write32 (TOP_EARLGREY_UART0_BASE_ADDR + UART_INTR_ENABLE_REG_OFFSET) 0) (\<lambda>_.
    returnM kErrorOk))))"

definition uart_tx_full :: "bool rom" where
  "uart_tx_full = (bindM (abs_mmio_read32 (TOP_EARLGREY_UART0_BASE_ADDR + UART_STATUS_REG_OFFSET)) (\<lambda>reg.
    returnM (bitfield_bit32_read reg UART_STATUS_TXFULL_BIT)))"

definition uart_tx_idle :: "bool rom" where
  "uart_tx_idle = (bindM (abs_mmio_read32 (TOP_EARLGREY_UART0_BASE_ADDR + UART_STATUS_REG_OFFSET)) (\<lambda>reg.
    returnM (bitfield_bit32_read reg UART_STATUS_TXIDLE_BIT)))"

definition uart_putchar :: "u8 \<Rightarrow> unit rom" where
  "uart_putchar byte = (bindM (poll_until uart_tx_full Not) (\<lambda>_.
    let reg = bitfield_field32_write 0 UART_WDATA_WDATA_FIELD (ucast byte) in
    bindM (abs_mmio_write32 (TOP_EARLGREY_UART0_BASE_ADDR + UART_WDATA_REG_OFFSET) reg) (\<lambda>_.
    bindM (poll_until uart_tx_idle (\<lambda>b. b)) (\<lambda>_.
    returnM ()))))"

primrec uart_write_loop :: "u8 list \<Rightarrow> unit rom" where
  "uart_write_loop [] = returnM ()"
| "uart_write_loop (b # bs) = (bindM (uart_putchar b) (\<lambda>_.
    uart_write_loop bs))"

definition uart_write :: "u8 list \<Rightarrow> nat rom" where
  "uart_write data = (let total = length data in
    bindM (uart_write_loop data) (\<lambda>_.
    returnM total))"

section \<open>Frames\<close>

lemma quiet_otp [framed_intros]:
  "quiet (otp_read32 a)" "quiet (otp_read64 a)" "quiet (otp_read a n)"
  "quiet otp_creator_sw_cfg_lockdown"
  unfolding otp_read32_def otp_read64_def otp_read_def otp_creator_sw_cfg_lockdown_def Let_def
  by (intro framed_intros)+

lemma sec_safe_otp [framed_intros]:
  "sec_safe (otp_read32 a)" "sec_safe (otp_read64 a)" "sec_safe (otp_read a n)"
  "sec_safe otp_creator_sw_cfg_lockdown"
  unfolding otp_read32_def otp_read64_def otp_read_def otp_creator_sw_cfg_lockdown_def Let_def
  by (intro framed_intros)+

lemmas lifecycle_defs = lifecycle_raw_state_get_def lifecycle_state_get_def lc_case_def
  lifecycle_device_id_get_def lifecycle_hw_rev_get_def

lemma quiet_lifecycle [framed_intros]:
  "quiet (lc_case a b c)" "quiet lifecycle_raw_state_get" "quiet lifecycle_state_get"
  "quiet lifecycle_device_id_get" "quiet lifecycle_hw_rev_get"
  unfolding lifecycle_defs by (intro framed_intros)+

lemma sec_safe_lifecycle [framed_intros]:
  "sec_safe (lc_case a b c)" "sec_safe lifecycle_raw_state_get" "sec_safe lifecycle_state_get"
  "sec_safe lifecycle_device_id_get" "sec_safe lifecycle_hw_rev_get"
  unfolding lifecycle_defs by (intro framed_intros)+

lemma quiet_rnd [framed_intros]: "quiet rnd_uint32"
  unfolding rnd_uint32_def by (intro framed_intros)

lemma sec_safe_rnd [framed_intros]: "sec_safe rnd_uint32"
  unfolding rnd_uint32_def by (intro framed_intros)

lemmas rstmgr_defs = rstmgr_alert_info_collect_def rstmgr_reason_get_def rstmgr_reason_clear_def
  rstmgr_alert_info_enable_def rstmgr_reset_def

lemma quiet_rstmgr [framed_intros]:
  "quiet rstmgr_reason_get" "quiet (rstmgr_reason_clear r)" "quiet rstmgr_alert_info_enable"
  "quiet rstmgr_reset"
  unfolding rstmgr_defs Let_def by (intro framed_intros; simp)+

lemma sec_safe_rstmgr [framed_intros]:
  "sec_safe rstmgr_reason_get" "sec_safe (rstmgr_reason_clear r)" "sec_safe rstmgr_alert_info_enable"
  "sec_safe rstmgr_reset"
  unfolding rstmgr_defs Let_def by (intro framed_intros; simp)+

lemmas watchdog_defs = watchdog_ctrl_def watchdog_configure_def watchdog_lc_enable_def
  watchdog_init_def watchdog_disable_def watchdog_pet_def watchdog_get_def

lemma quiet_watchdog [framed_intros]:
  "quiet (watchdog_configure c)" "quiet (watchdog_init lc)" "quiet watchdog_disable"
  "quiet watchdog_pet" "quiet watchdog_get"
  unfolding watchdog_defs by (intro framed_intros)+

lemma sec_safe_watchdog [framed_intros]:
  "sec_safe (watchdog_configure c)" "sec_safe (watchdog_init lc)" "sec_safe watchdog_disable"
  "sec_safe watchdog_pet" "sec_safe watchdog_get"
  unfolding watchdog_defs by (intro framed_intros)+

lemmas retention_sram_defs = retention_sram_clear_def retention_sram_init_def
  retention_sram_scramble_def retention_sram_set_reset_reasons_def

lemma quiet_retention_sram [framed_intros]:
  "quiet retention_sram_clear" "quiet retention_sram_init" "quiet retention_sram_scramble"
  "quiet (retention_sram_set_reset_reasons v)"
  unfolding retention_sram_defs Let_def by (intro framed_intros)+

lemma sec_safe_retention_sram [framed_intros]:
  "sec_safe retention_sram_clear" "sec_safe retention_sram_init" "sec_safe retention_sram_scramble"
  "sec_safe (retention_sram_set_reset_reasons v)"
  unfolding retention_sram_defs Let_def by (intro framed_intros)+

lemmas ibex_defs = ibex_fpga_version_def ibex_addr_remap_0_set_def ibex_addr_remap_1_set_def

lemma quiet_ibex [framed_intros]:
  "quiet ibex_fpga_version" "quiet (ibex_addr_remap_0_set a b n)" "quiet (ibex_addr_remap_1_set a b n)"
  unfolding ibex_defs Let_def by (intro framed_intros)+

lemma sec_safe_ibex [framed_intros]:
  "sec_safe ibex_fpga_version" "sec_safe (ibex_addr_remap_0_set a b n)"
  "sec_safe (ibex_addr_remap_1_set a b n)"
  unfolding ibex_defs Let_def by (intro framed_intros)+

lemma quiet_ast_init_done [framed_intros]: "quiet ast_init_done"
  unfolding ast_init_done_def done_bit_get_def Let_def by (intro framed_intros)

lemma sec_safe_ast_init_done [framed_intros]: "sec_safe ast_init_done"
  unfolding ast_init_done_def done_bit_get_def Let_def by (intro framed_intros)

lemma quiet_ast_poll [framed_intros]: "quiet (ast_poll n)"
  by (induction n) (simp_all only: ast_poll.simps, (intro framed_intros hw.framed_stop; simp)+)

lemma sec_safe_ast_poll [framed_intros]: "sec_safe (ast_poll n)"
  by (induction n) (simp_all only: ast_poll.simps, (intro framed_intros; assumption)+)

lemma quiet_ast_check [framed_intros]: "quiet (ast_check lc)"
  unfolding ast_check_def ast_lc_skip_def by (intro framed_intros)

lemma sec_safe_ast_check [framed_intros]: "sec_safe (ast_check lc)"
  unfolding ast_check_def ast_lc_skip_def by (intro framed_intros)

lemmas pinmux_defs = configure_input_def enable_pull_down_def configure_output_def pinmux_init_def

lemma quiet_pinmux [framed_intros]: "quiet pinmux_init"
  unfolding pinmux_defs by (intro framed_intros)

lemma sec_safe_pinmux [framed_intros]: "sec_safe pinmux_init"
  unfolding pinmux_defs by (intro framed_intros)

lemmas uart_defs = uart_reset_def uart_init_def uart_tx_full_def uart_tx_idle_def uart_putchar_def

lemma quiet_uart [framed_intros]: "quiet (uart_init n)" "quiet (uart_putchar b)"
  unfolding uart_defs Let_def by (intro framed_intros)+

lemma sec_safe_uart [framed_intros]: "sec_safe (uart_init n)" "sec_safe (uart_putchar b)"
  unfolding uart_defs Let_def by (intro framed_intros)+

lemma framed_uart_write_loop [framed_intros]:
  "quiet (uart_write_loop bs)" "sec_safe (uart_write_loop bs)"
  by (induction bs) (simp_all only: uart_write_loop.simps, (intro framed_intros; assumption)+)

lemma framed_uart_write [framed_intros]: "quiet (uart_write bs)" "sec_safe (uart_write bs)"
  unfolding uart_write_def Let_def by (intro framed_intros)+

section \<open>The writes a returning operation has made\<close>

definition writes :: "io_event \<Rightarrow> 'a rom \<Rightarrow> bool" where
  "writes ev p \<longleftrightarrow> (\<forall>s a t. p s = Done a t \<longrightarrow> ev \<in> set (new_events s t))"

lemma writes_now: "writes ev p \<Longrightarrow> (\<And>a. quiet (f a)) \<Longrightarrow> quiet p \<Longrightarrow> writes ev (bindM p f)"
  unfolding writes_def
  by (auto simp: bindM_Done_iff) (metis framedD1 new_events_trans set_append UnCI)

lemma writes_later: "quiet p \<Longrightarrow> (\<And>a. quiet (f a)) \<Longrightarrow> (\<And>a. writes ev (f a)) \<Longrightarrow> writes ev (bindM p f)"
  unfolding writes_def
  by (auto simp: bindM_Done_iff) (metis framedD1 new_events_trans set_append UnCI)

lemma upsert_register_log: "upsert_register a v s = Done u t \<Longrightarrow> io_log t = io_log s"
  by (auto simp: upsert_register_def Let_def bindM_Done_iff check_Done sec_update_def split: if_splits)

text \<open>A secure read leaves its value in the history.\<close>

lemma sec_read_new: "sec_mmio_read32 a m = Done v m' \<Longrightarrow> R32 a v \<in> set (new_events m m')"
  by (auto simp: sec_mmio_read32_def Let_def bindM_Done_iff check_Done new_events_def dest!: upsert_register_log)

lemma writes_sec: "writes (W32 a v) (sec_mmio_write32 a v)"
  unfolding writes_def
  by (auto simp: sec_mmio_write32_def Let_def bindM_Done_iff check_Done sec_update_def new_events_def
      dest!: upsert_register_log)

lemma remap_writes:
  "writes (W32 (TOP_EARLGREY_RV_CORE_IBEX_CFG_BASE_ADDR + RV_CORE_IBEX_IBUS_REMAP_ADDR_0_REG_OFFSET) b)
     (ibex_addr_remap_0_set a b n)"
  "writes (W32 (TOP_EARLGREY_RV_CORE_IBEX_CFG_BASE_ADDR + RV_CORE_IBEX_IBUS_REMAP_ADDR_1_REG_OFFSET) b)
     (ibex_addr_remap_1_set a b n)"
  unfolding ibex_defs Let_def
  by (rule writes_sec writes_now [OF writes_sec] | (rule writes_later, (intro framed_intros)+) | (intro framed_intros)+)+

end
