(* ===== verification/Crc32.thy ===== *)
theory Crc32
  imports Drivers
begin

text \<open>\<open>lib/crc32.c\<close>: the CRC-32 of zlib, byte by byte. The context is the running remainder.
  \<open>crc32_add\<close> walks a buffer in three loops (unaligned head, words, tail); it is the byte by
  byte computation whatever the alignment of the buffer.\<close>

abbreviation (input) kCrc32Poly :: u32 where "kCrc32Poly \<equiv> 0xedb88320"

definition crc32_init :: u32 where
  "crc32_init = UINT32_MAX"

text \<open>One round of the loop of \<open>crc32_add8\<close>, and the loop.\<close>

definition crc32_round :: "u32 \<Rightarrow> u32" where
  "crc32_round ctx = (let lsb = ctx AND 1; ctx' = drop_bit 1 ctx in
     if lsb \<noteq> 0 then ctx' XOR kCrc32Poly else ctx')"

primrec crc32_shift :: "nat \<Rightarrow> u32 \<Rightarrow> u32" where
  "crc32_shift 0 ctx = ctx"
| "crc32_shift (Suc n) ctx = crc32_shift n (crc32_round ctx)"

definition crc32_add8 :: "u32 \<Rightarrow> u8 \<Rightarrow> u32" where
  "crc32_add8 ctx byte = crc32_shift 8 (ctx XOR ucast byte)"

definition crc32_add32 :: "u32 \<Rightarrow> u32 \<Rightarrow> u32" where
  "crc32_add32 ctx w = foldl crc32_add8 ctx (word_bytes w)"

text \<open>The three loops over a buffer at address \<open>addr\<close>: each returns the context and what is
  left of the buffer.\<close>

fun crc32_head :: "u32 \<Rightarrow> u32 \<Rightarrow> u8 list \<Rightarrow> u32 * u8 list" where
  "crc32_head ctx addr [] = (ctx, [])"
| "crc32_head ctx addr (b # bs) =
     (if addr AND 3 \<noteq> 0 then crc32_head (crc32_add8 ctx b) (addr + 1) bs else (ctx, b # bs))"

fun crc32_body :: "u32 \<Rightarrow> u8 list \<Rightarrow> u32 * u8 list" where
  "crc32_body ctx (b0 # b1 # b2 # b3 # bs) = crc32_body (crc32_add32 ctx (le_word b0 b1 b2 b3)) bs"
| "crc32_body ctx bs = (ctx, bs)"

primrec crc32_tail :: "u32 \<Rightarrow> u8 list \<Rightarrow> u32" where
  "crc32_tail ctx [] = ctx"
| "crc32_tail ctx (b # bs) = crc32_tail (crc32_add8 ctx b) bs"

definition crc32_add :: "u32 \<Rightarrow> u32 \<Rightarrow> u8 list \<Rightarrow> u32" where
  "crc32_add ctx addr buf =
     (let (ctx1, rest1) = crc32_head ctx addr buf; (ctx2, rest2) = crc32_body ctx1 rest1
      in crc32_tail ctx2 rest2)"

definition crc32_finish :: "u32 \<Rightarrow> u32" where
  "crc32_finish ctx = ctx XOR UINT32_MAX"

definition crc32 :: "u32 \<Rightarrow> u8 list \<Rightarrow> u32" where
  "crc32 addr buf = crc32_finish (crc32_add crc32_init addr buf)"

section \<open>The buffer walk is the byte by byte computation\<close>

lemma crc32_head_foldl:
  "crc32_head ctx addr buf = (c, rest) \<Longrightarrow> foldl crc32_add8 c rest = foldl crc32_add8 ctx buf"
  by (induction ctx addr buf arbitrary: c rest rule: crc32_head.induct) (auto split: if_splits)

lemma crc32_body_foldl:
  "crc32_body ctx buf = (c, rest) \<Longrightarrow> foldl crc32_add8 c rest = foldl crc32_add8 ctx buf"
  by (induction ctx buf arbitrary: c rest rule: crc32_body.induct) (auto simp: crc32_add32_def)

lemma crc32_tail_foldl: "crc32_tail ctx buf = foldl crc32_add8 ctx buf"
  by (induction buf arbitrary: ctx) auto

lemma crc32_add_bytes: "crc32_add ctx addr buf = foldl crc32_add8 ctx buf"
  by (auto simp: crc32_add_def crc32_tail_foldl crc32_head_foldl crc32_body_foldl split: prod.split)

text \<open>Feeding a buffer in pieces, at any addresses, gives the checksum of the whole.\<close>

lemma crc32_add_append:
  "crc32_add (crc32_add ctx a xs) b ys = crc32_add ctx c (xs @ ys)"
  by (simp add: crc32_add_bytes)

section \<open>Each step is invertible\<close>

text \<open>The shift is a bijection of the remainder, so that two contexts that agree after the same
  bytes agreed before them; hence changing one byte always changes the checksum.\<close>

definition crc32_unshift1 :: "u32 \<Rightarrow> u32" where
  "crc32_unshift1 c = (if bit c 31 then push_bit 1 (c XOR kCrc32Poly) OR 1 else push_bit 1 c)"

lemma shift_restore:
  "bit c 0 \<Longrightarrow> push_bit 1 (drop_bit 1 c) OR 1 = (c :: u32)"
  "\<not> bit c 0 \<Longrightarrow> push_bit 1 (drop_bit 1 c) = (c :: u32)"
proof -
  have b: "bit (push_bit 1 (drop_bit 1 c)) n = (bit c n \<and> 0 < n)" if "n < 32" for n
    using that by (cases n) (simp_all only: bit_push_bit_iff bit_drop_bit_eq comp_def, auto)
  have len32: "LENGTH(32) = 32" by simp
  show "bit c 0 \<Longrightarrow> push_bit 1 (drop_bit 1 c) OR 1 = c"
    by (rule bit_word_eqI) (auto simp only: bit_or_iff b bit_1_iff len_bit0 len_num1)
  show "\<not> bit c 0 \<Longrightarrow> push_bit 1 (drop_bit 1 c) = c"
    by (rule bit_word_eqI) (metis b gr0I len32)
qed

lemma crc32_unround: "crc32_unshift1 (crc32_round c) = c"
proof (cases "bit c 0")
  case True
  then have l: "c AND 1 \<noteq> 0" by (simp add: and_one_eq bit_0 odd_iff_mod_2_eq_one)
  have "bit (drop_bit 1 c XOR kCrc32Poly) 31"
    using bit_imp_le_length [of c 32] by (auto simp: bit_xor_iff bit_drop_bit_eq)
  then show ?thesis using l shift_restore(1) [OF True]
    by (simp add: crc32_unshift1_def crc32_round_def xor.assoc)
next
  case False
  then have l: "c AND 1 = 0" by (simp add: and_one_eq bit_0 even_iff_mod_2_eq_zero)
  have "\<not> bit (drop_bit 1 c) 31"
    using bit_imp_le_length [of c 32] by (auto simp: bit_drop_bit_eq)
  then show ?thesis using l shift_restore(2) [OF False]
    by (simp add: crc32_unshift1_def crc32_round_def)
qed

lemma crc32_shift_inj: "crc32_shift n c = crc32_shift n c' \<Longrightarrow> c = c'"
proof (induction n arbitrary: c c')
  case (Suc n)
  then have "crc32_round c = crc32_round c'" using Suc.IH by simp
  then show ?case by (metis crc32_unround)
qed simp

lemma crc32_add8_inj_ctx: "crc32_add8 c b = crc32_add8 c' b \<Longrightarrow> c = c'"
  by (auto simp: crc32_add8_def xor_mask_eq dest: crc32_shift_inj)

lemma crc32_add8_inj_byte: "crc32_add8 c b = crc32_add8 c b' \<Longrightarrow> b = b'"
proof -
  assume "crc32_add8 c b = crc32_add8 c b'"
  then have "(ucast b :: u32) = ucast b'"
    using xor_mask_eq [of "ucast b" c "ucast b'"]
    by (auto simp: crc32_add8_def xor.commute dest!: crc32_shift_inj)
  then show ?thesis by (auto simp: bit_eq_iff bit_simps dest: bit_imp_le_length)
qed

lemma crc32_bytes_inj_ctx: "foldl crc32_add8 c bs = foldl crc32_add8 c' bs \<Longrightarrow> c = c'"
  by (induction bs arbitrary: c c') (auto dest: crc32_add8_inj_ctx)

text \<open>A single corrupted byte is always detected.\<close>

lemma crc32_detects_byte:
  assumes "crc32 a (xs @ b # ys) = crc32 a' (xs @ b' # ys)"
  shows "b = b'"
proof -
  have "foldl crc32_add8 (crc32_add8 (foldl crc32_add8 crc32_init xs) b) ys =
      foldl crc32_add8 (crc32_add8 (foldl crc32_add8 crc32_init xs) b') ys"
    using assms by (simp add: crc32_def crc32_finish_def crc32_add_bytes xor_mask_eq)
  then show ?thesis by (blast dest: crc32_bytes_inj_ctx crc32_add8_inj_byte)
qed

section \<open>Properties\<close>

text \<open>The CRC of a buffer does not depend on how it is split
  into unaligned head, aligned words and tail, nor on where in memory its parts are: adding two
  buffers one after the other is adding their concatenation byte by byte.\<close>

theorem crc32_word_path_is_byte_path:
  "crc32_add (crc32_add ctx a xs) b ys = foldl crc32_add8 ctx (xs @ ys)"
  by (simp add: crc32_add_bytes)

text \<open>C23: a corrupted byte always changes the CRC.\<close>

theorem crc32_detects_corrupted_byte:
  assumes "b \<noteq> b'"
  shows "crc32 a (xs @ b # ys) \<noteq> crc32 a' (xs @ b' # ys)"
  using assms crc32_detects_byte by blast

theorem crc32_detects_corrupted_byte_witness:
  "crc32 1 ([1] @ 2 # [3, 4, 5]) \<noteq> crc32 2 ([1] @ 0xff # [3, 4, 5])"
  by (rule crc32_detects_corrupted_byte) simp

end
