(* ===== verification/Flash_Ctrl.thy ===== *)
theory Flash_Ctrl
  imports Drivers
begin

text \<open>\<open>drivers/flash_ctrl.c\<close>: flash transactions, the configuration of the data and info
  partitions, and the write of the EXEC register that makes flash executable.\<close>

abbreviation (input) FLASH_CTRL_PARAM_BYTES_PER_BANK :: u32 where "FLASH_CTRL_PARAM_BYTES_PER_BANK \<equiv> 0x80000"
abbreviation (input) FLASH_CTRL_PARAM_BYTES_PER_PAGE :: u32 where "FLASH_CTRL_PARAM_BYTES_PER_PAGE \<equiv> 0x800"
abbreviation (input) FLASH_CTRL_PARAM_EXEC_EN :: u32 where "FLASH_CTRL_PARAM_EXEC_EN \<equiv> 0xa26a38f7"
abbreviation (input) kFlashCtrlErasedWord :: u32 where "kFlashCtrlErasedWord \<equiv> 0xffffffff"
abbreviation (input) kFlashCtrlEraseTypePage :: u32 where "kFlashCtrlEraseTypePage \<equiv> 0xaf0eab8b"
abbreviation (input) kFlashCtrlEraseTypeBank :: u32 where "kFlashCtrlEraseTypeBank \<equiv> 0x80329be9"
abbreviation (input) kFlashCtrlPartitionData :: u32 where "kFlashCtrlPartitionData \<equiv> 0"
abbreviation (input) kFlashCtrlPartitionInfo0 :: u32 where "kFlashCtrlPartitionInfo0 \<equiv> 1"
abbreviation (input) FLASH_CTRL_PARTITION_BIT_IS_INFO :: u32 where "FLASH_CTRL_PARTITION_BIT_IS_INFO \<equiv> 0"
abbreviation (input) FLASH_CTRL_PARTITION_FIELD_INFO_TYPE :: bitfield_field32 where
  "FLASH_CTRL_PARTITION_FIELD_INFO_TYPE \<equiv> \<lparr>bf_mask = 3, bf_index = 1\<rparr>"
abbreviation (input) FLASH_CTRL_OTP_FIELD_SCRAMBLING :: bitfield_field32 where
  "FLASH_CTRL_OTP_FIELD_SCRAMBLING \<equiv> \<lparr>bf_mask = 0xff, bf_index = 0\<rparr>"
abbreviation (input) FLASH_CTRL_OTP_FIELD_ECC :: bitfield_field32 where
  "FLASH_CTRL_OTP_FIELD_ECC \<equiv> \<lparr>bf_mask = 0xff, bf_index = 8\<rparr>"
abbreviation (input) FLASH_CTRL_OTP_FIELD_HE :: bitfield_field32 where
  "FLASH_CTRL_OTP_FIELD_HE \<equiv> \<lparr>bf_mask = 0xff, bf_index = 16\<rparr>"
abbreviation (input) kFlashCtrlInfoPageCreatorSecret :: u32 where "kFlashCtrlInfoPageCreatorSecret \<equiv> 0xf56af4bb"
abbreviation (input) kFlashCtrlInfoPageOwnerSecret :: u32 where "kFlashCtrlInfoPageOwnerSecret \<equiv> 0x10adc6aa"
abbreviation (input) kFlashCtrlInfoPageWaferAuthSecret :: u32 where "kFlashCtrlInfoPageWaferAuthSecret \<equiv> 0x118b5dbb"
abbreviation (input) kFlashCtrlInfoPageBootData0 :: u32 where "kFlashCtrlInfoPageBootData0 \<equiv> 0xfa38c9f6"
abbreviation (input) kFlashCtrlInfoPageBootData1 :: u32 where "kFlashCtrlInfoPageBootData1 \<equiv> 0x389c449e"
abbreviation (input) kFlashCtrlInfoPageOwnerSlot0 :: u32 where "kFlashCtrlInfoPageOwnerSlot0 \<equiv> 0x238cf15c"
abbreviation (input) kFlashCtrlInfoPageOwnerSlot1 :: u32 where "kFlashCtrlInfoPageOwnerSlot1 \<equiv> 0xad886d3b"
abbreviation (input) kFlashCtrlSecMmioCreatorInfoPagesLockdown :: u32 where
  "kFlashCtrlSecMmioCreatorInfoPagesLockdown \<equiv> 14"
abbreviation (input) kFlashCtrlSecMmioInit :: u32 where "kFlashCtrlSecMmioInit \<equiv> 3"
abbreviation (input) kFlashCtrlSecMmioExecSet :: u32 where "kFlashCtrlSecMmioExecSet \<equiv> 1"
abbreviation (input) kFlashCtrlSecMmioDataDefaultPermsSet :: u32 where "kFlashCtrlSecMmioDataDefaultPermsSet \<equiv> 1"
abbreviation (input) kFlashCtrlSecMmioBankErasePermsSet :: u32 where "kFlashCtrlSecMmioBankErasePermsSet \<equiv> 1"

text \<open>The table of info pages: value, bank and page of each.\<close>

definition flash_info_pages :: "(u32 * nat * nat) list" where
  "flash_info_pages =
    [(0x9dc41c33, 0, 0), (0xf56af4bb, 0, 1), (0x10adc6aa, 0, 2), (0x118b5dbb, 0, 3),
     (0xad3b5bee, 0, 4), (0xa4f6f6c3, 0, 5), (0xf646f11b, 0, 6), (0x6c86d980, 0, 7),
     (0xdd7f34dc, 0, 8), (0x5f07277e, 0, 9),
     (0xfa38c9f6, 1, 0), (0x389c449e, 1, 1), (0x238cf15c, 1, 2), (0xad886d3b, 1, 3),
     (0x7dfbdf9b, 1, 4), (0xad5dd31d, 1, 5), (0xe3ffac86, 1, 6), (0xf4f48c3d, 1, 7),
     (0x9fbb840e, 1, 8), (0xec309461, 1, 9)]"

section \<open>Transactions\<close>

record transaction_params =
  tp_addr :: u32
  tp_op_type :: u32
  tp_erase_type :: u32
  tp_partition :: u32
  tp_word_count :: u32

definition transaction_bank_erase :: "u32 \<Rightarrow> bool rom" where
  "transaction_bank_erase erase_type =
     (if erase_type = kFlashCtrlEraseTypeBank
      then (bindM (HARDENED_CHECK_EQ erase_type kFlashCtrlEraseTypeBank) (\<lambda>_.
    returnM True))
      else if erase_type = kFlashCtrlEraseTypePage
      then (bindM (HARDENED_CHECK_EQ erase_type kFlashCtrlEraseTypePage) (\<lambda>_.
    returnM False))
      else HARDENED_UNREACHABLE)"

definition transaction_control :: "transaction_params \<Rightarrow> bool \<Rightarrow> u32" where
  "transaction_control params bank_erase =
     (let is_info = bitfield_bit32_read (tp_partition params) FLASH_CTRL_PARTITION_BIT_IS_INFO;
          info_type = bitfield_field32_read (tp_partition params) FLASH_CTRL_PARTITION_FIELD_INFO_TYPE;
          reg = bitfield_bit32_write 0 FLASH_CTRL_CONTROL_START_BIT True;
          reg = bitfield_field32_write reg FLASH_CTRL_CONTROL_OP_FIELD (tp_op_type params);
          reg = bitfield_bit32_write reg FLASH_CTRL_CONTROL_PARTITION_SEL_BIT is_info;
          reg = bitfield_field32_write reg FLASH_CTRL_CONTROL_INFO_SEL_FIELD info_type;
          reg = bitfield_bit32_write reg FLASH_CTRL_CONTROL_ERASE_SEL_BIT bank_erase
      in bitfield_field32_write reg FLASH_CTRL_CONTROL_NUM_FIELD (tp_word_count params - 1))"

definition transaction_start :: "transaction_params \<Rightarrow> unit rom" where
  "transaction_start params = (bindM (abs_mmio_write32 (TOP_EARLGREY_FLASH_CTRL_CORE_BASE_ADDR + FLASH_CTRL_ADDR_REG_OFFSET) (tp_addr params)) (\<lambda>_.
    bindM (transaction_bank_erase (tp_erase_type params)) (\<lambda>bank_erase.
    abs_mmio_write32 (TOP_EARLGREY_FLASH_CTRL_CORE_BASE_ADDR + FLASH_CTRL_CONTROL_REG_OFFSET)
       (transaction_control params bank_erase))))"

definition fifo_read :: "nat \<Rightarrow> u32 list rom" where
  "fifo_read word_count = map_each [0..<word_count]
     (\<lambda>i. abs_mmio_read32 (TOP_EARLGREY_FLASH_CTRL_CORE_BASE_ADDR + FLASH_CTRL_RD_FIFO_REG_OFFSET))"

definition fifo_write :: "u32 list \<Rightarrow> unit rom" where
  "fifo_write data = for_each data
     (\<lambda>w. abs_mmio_write32 (TOP_EARLGREY_FLASH_CTRL_CORE_BASE_ADDR + FLASH_CTRL_PROG_FIFO_REG_OFFSET) w)"

definition wait_for_done :: "rom_error \<Rightarrow> rom_error rom" where
  "wait_for_done error = (bindM (poll_until
       (abs_mmio_read32 (TOP_EARLGREY_FLASH_CTRL_CORE_BASE_ADDR + FLASH_CTRL_OP_STATUS_REG_OFFSET))
       (\<lambda>s. bitfield_bit32_read s FLASH_CTRL_OP_STATUS_DONE_BIT)) (\<lambda>op_status.
    bindM (abs_mmio_write32 (TOP_EARLGREY_FLASH_CTRL_CORE_BASE_ADDR + FLASH_CTRL_OP_STATUS_REG_OFFSET) 0) (\<lambda>_.
    if bitfield_bit32_read op_status FLASH_CTRL_OP_STATUS_ERR_BIT
     then returnM error
     else returnM kErrorOk)))"

text \<open>Words per program window: \<open>FLASH_CTRL_PARAM_REG_BUS_PGM_RES_BYTES / sizeof(uint32_t)\<close>.\<close>

abbreviation (input) kWindowWordCount :: nat where "kWindowWordCount \<equiv> 16"

definition first_window :: "u32 \<Rightarrow> nat" where
  "first_window addr = kWindowWordCount - (unat (addr div 4) mod kWindowWordCount)"

text \<open>The loop of \<open>write\<close>, on the words that are left. An empty window would make no
  progress; \<open>first_window\<close> never is one.\<close>

function flash_write_loop ::
  "u32 \<Rightarrow> u32 \<Rightarrow> nat \<Rightarrow> u32 list \<Rightarrow> rom_error \<Rightarrow> rom_error rom" where
  "flash_write_loop addr part window_word_count data error =
     (if data = [] then returnM kErrorOk
      else if window_word_count = 0 then stopM Out_of_polls
      else let n = min (length data) window_word_count in (bindM (transaction_start \<lparr>tp_addr = addr, tp_op_type = FLASH_CTRL_CONTROL_OP_VALUE_PROG,
          tp_erase_type = kFlashCtrlEraseTypePage, tp_partition = part, tp_word_count = of_nat n\<rparr>) (\<lambda>_.
    bindM (fifo_write (take n data)) (\<lambda>_.
    RETURN_IF_ERROR (wait_for_done error) (
    flash_write_loop (addr + of_nat n * 4) part kWindowWordCount (drop n data) error)))))"
  by pat_completeness auto
termination by (relation "measure (\<lambda>(a, p, w, d, e). length d)") auto

declare flash_write_loop.simps [simp del]

definition flash_write :: "u32 \<Rightarrow> u32 \<Rightarrow> u32 list \<Rightarrow> rom_error \<Rightarrow> rom_error rom" where
  "flash_write addr part data error =
     flash_write_loop addr part (first_window addr) data error"

definition info_page_addr :: "u32 \<Rightarrow> u32 rom" where
  "info_page_addr info_page = (case map_of flash_info_pages info_page of
     Some (bank, page) \<Rightarrow> returnM (of_nat bank * FLASH_CTRL_PARAM_BYTES_PER_BANK
       + of_nat page * FLASH_CTRL_PARAM_BYTES_PER_PAGE)
   | None \<Rightarrow> HARDENED_UNREACHABLE)"

record info_cfg_regs =
  cfg_wen_addr :: u32
  cfg_addr :: u32

definition info_cfg_regs :: "u32 \<Rightarrow> info_cfg_regs rom" where
  "info_cfg_regs info_page = (case map_of flash_info_pages info_page of
     Some (bank, page) \<Rightarrow> returnM
       \<lparr>cfg_wen_addr = TOP_EARLGREY_FLASH_CTRL_CORE_BASE_ADDR + (if bank = 0 then 0x94 else 0xfc) + of_nat page * 4,
         cfg_addr = TOP_EARLGREY_FLASH_CTRL_CORE_BASE_ADDR + (if bank = 0 then 0xbc else 0x124) + of_nat page * 4\<rparr>
   | None \<Rightarrow> HARDENED_UNREACHABLE)"

definition page_lockdown :: "u32 \<Rightarrow> unit rom" where
  "page_lockdown info_page = (bindM (info_cfg_regs info_page) (\<lambda>regs.
    bindM (sec_mmio_write32 (cfg_addr regs) 0) (\<lambda>_.
    sec_mmio_write32 (cfg_wen_addr regs) 0)))"

section \<open>Configuration\<close>

record flash_ctrl_perms =
  perm_read :: u32
  perm_write :: u32
  perm_erase :: u32

record flash_ctrl_cfg =
  cfg_scrambling :: u32
  cfg_ecc :: u32
  cfg_he :: u32

definition flash_ctrl_data_default_cfg_set :: "flash_ctrl_cfg \<Rightarrow> unit rom" where
  "flash_ctrl_data_default_cfg_set cfg = (bindM (sec_mmio_read32 (TOP_EARLGREY_FLASH_CTRL_CORE_BASE_ADDR + FLASH_CTRL_DEFAULT_REGION_REG_OFFSET)) (\<lambda>reg.
    let reg = bitfield_field32_write reg FLASH_CTRL_DEFAULT_REGION_SCRAMBLE_EN_FIELD (cfg_scrambling cfg) in
    let reg = bitfield_field32_write reg FLASH_CTRL_DEFAULT_REGION_ECC_EN_FIELD (cfg_ecc cfg) in
    let reg = bitfield_field32_write reg FLASH_CTRL_DEFAULT_REGION_HE_EN_FIELD (cfg_he cfg) in
    sec_mmio_write32 (TOP_EARLGREY_FLASH_CTRL_CORE_BASE_ADDR + FLASH_CTRL_DEFAULT_REGION_REG_OFFSET) reg))"

definition flash_ctrl_info_cfg_set :: "u32 \<Rightarrow> flash_ctrl_cfg \<Rightarrow> unit rom" where
  "flash_ctrl_info_cfg_set info_page cfg = (bindM (info_cfg_regs info_page) (\<lambda>regs.
    bindM (sec_mmio_read32 (cfg_addr regs)) (\<lambda>reg.
    let reg = bitfield_field32_write reg FLASH_CTRL_BANK0_INFO0_PAGE_CFG_0_EN_0_FIELD kMultiBitBool4True in
    let reg = bitfield_field32_write reg FLASH_CTRL_BANK0_INFO0_PAGE_CFG_0_SCRAMBLE_EN_0_FIELD (cfg_scrambling cfg) in
    let reg = bitfield_field32_write reg FLASH_CTRL_BANK0_INFO0_PAGE_CFG_0_ECC_EN_0_FIELD (cfg_ecc cfg) in
    let reg = bitfield_field32_write reg FLASH_CTRL_BANK0_INFO0_PAGE_CFG_0_HE_EN_0_FIELD (cfg_he cfg) in
    sec_mmio_write32 (cfg_addr regs) reg)))"

definition otp_flash_cfg :: "u32 \<Rightarrow> flash_ctrl_cfg" where
  "otp_flash_cfg otp_val =
     \<lparr>cfg_scrambling = bitfield_field32_read otp_val FLASH_CTRL_OTP_FIELD_SCRAMBLING,
       cfg_ecc = bitfield_field32_read otp_val FLASH_CTRL_OTP_FIELD_ECC,
       cfg_he = bitfield_field32_read otp_val FLASH_CTRL_OTP_FIELD_HE\<rparr>"

definition flash_ctrl_init :: "unit rom" where
  "flash_ctrl_init = (bindM (abs_mmio_write32 (TOP_EARLGREY_FLASH_CTRL_CORE_BASE_ADDR + FLASH_CTRL_INIT_REG_OFFSET)
       (bitfield_bit32_write 0 FLASH_CTRL_INIT_VAL_BIT True)) (\<lambda>_.
    bindM (otp_read32 OTP_CTRL_PARAM_CREATOR_SW_CFG_FLASH_DATA_DEFAULT_CFG_OFFSET) (\<lambda>otp_val.
    bindM (flash_ctrl_data_default_cfg_set (otp_flash_cfg otp_val)) (\<lambda>_.
    bindM (otp_read32 OTP_CTRL_PARAM_CREATOR_SW_CFG_FLASH_INFO_BOOT_DATA_CFG_OFFSET) (\<lambda>otp_val2.
    bindM (flash_ctrl_info_cfg_set kFlashCtrlInfoPageBootData0 (otp_flash_cfg otp_val2)) (\<lambda>_.
    flash_ctrl_info_cfg_set kFlashCtrlInfoPageBootData1 (otp_flash_cfg otp_val2)))))))"

record flash_ctrl_status =
  st_rd_full :: bool
  st_rd_empty :: bool
  st_prog_full :: bool
  st_prog_empty :: bool
  st_init_wip :: bool

definition flash_ctrl_status_get :: "flash_ctrl_status rom" where
  "flash_ctrl_status_get = (bindM (abs_mmio_read32 (TOP_EARLGREY_FLASH_CTRL_CORE_BASE_ADDR + FLASH_CTRL_STATUS_REG_OFFSET)) (\<lambda>fc_status.
    returnM \<lparr>st_rd_full = bitfield_bit32_read fc_status FLASH_CTRL_STATUS_RD_FULL_BIT,
       st_rd_empty = bitfield_bit32_read fc_status FLASH_CTRL_STATUS_RD_EMPTY_BIT,
       st_prog_full = bitfield_bit32_read fc_status FLASH_CTRL_STATUS_PROG_FULL_BIT,
       st_prog_empty = bitfield_bit32_read fc_status FLASH_CTRL_STATUS_PROG_EMPTY_BIT,
       st_init_wip = bitfield_bit32_read fc_status FLASH_CTRL_STATUS_INIT_WIP_BIT\<rparr>))"

section \<open>Reading, writing, erasing\<close>

text \<open>The reads return the words and the error code.\<close>

definition flash_ctrl_data_read :: "u32 \<Rightarrow> u32 \<Rightarrow> (rom_error * u32 list) rom" where
  "flash_ctrl_data_read addr word_count = (bindM (transaction_start \<lparr>tp_addr = addr, tp_op_type = FLASH_CTRL_CONTROL_OP_VALUE_READ,
       tp_erase_type = kFlashCtrlEraseTypePage, tp_partition = kFlashCtrlPartitionData,
       tp_word_count = word_count\<rparr>) (\<lambda>_.
    bindM (fifo_read (unat word_count)) (\<lambda>data.
    bindM (wait_for_done kErrorFlashCtrlDataRead) (\<lambda>error.
    returnM (error, data)))))"

definition flash_ctrl_info_read :: "u32 \<Rightarrow> u32 \<Rightarrow> u32 \<Rightarrow> (rom_error * u32 list) rom" where
  "flash_ctrl_info_read info_page offset word_count = (bindM (info_page_addr info_page) (\<lambda>base.
    bindM (transaction_start \<lparr>tp_addr = base + offset, tp_op_type = FLASH_CTRL_CONTROL_OP_VALUE_READ,
       tp_erase_type = kFlashCtrlEraseTypePage, tp_partition = kFlashCtrlPartitionInfo0,
       tp_word_count = word_count\<rparr>) (\<lambda>_.
    bindM (fifo_read (unat word_count)) (\<lambda>data.
    bindM (wait_for_done kErrorFlashCtrlInfoRead) (\<lambda>error.
    returnM (error, data))))))"

definition flash_ctrl_data_write :: "u32 \<Rightarrow> u32 list \<Rightarrow> rom_error rom" where
  "flash_ctrl_data_write addr data =
     flash_write addr kFlashCtrlPartitionData data kErrorFlashCtrlDataWrite"

definition flash_ctrl_info_write :: "u32 \<Rightarrow> u32 \<Rightarrow> u32 list \<Rightarrow> rom_error rom" where
  "flash_ctrl_info_write info_page offset data = (bindM (info_page_addr info_page) (\<lambda>base.
    flash_write (base + offset) kFlashCtrlPartitionInfo0 data kErrorFlashCtrlInfoWrite))"

definition flash_ctrl_data_erase :: "u32 \<Rightarrow> u32 \<Rightarrow> rom_error rom" where
  "flash_ctrl_data_erase addr erase_type = (bindM (transaction_start \<lparr>tp_addr = addr, tp_op_type = FLASH_CTRL_CONTROL_OP_VALUE_ERASE,
       tp_erase_type = erase_type, tp_partition = kFlashCtrlPartitionData, tp_word_count = 1\<rparr>) (\<lambda>_.
    wait_for_done kErrorFlashCtrlDataErase))"

text \<open>The number of bytes \<open>flash_ctrl_data_erase_verify\<close> reads back.\<close>

definition erase_byte_count :: "u32 \<Rightarrow> u32 rom" where
  "erase_byte_count erase_type =
     (if erase_type = kFlashCtrlEraseTypeBank
      then (bindM (HARDENED_CHECK_EQ erase_type kFlashCtrlEraseTypeBank) (\<lambda>_.
    returnM FLASH_CTRL_PARAM_BYTES_PER_BANK))
      else if erase_type = kFlashCtrlEraseTypePage
      then (bindM (HARDENED_CHECK_EQ erase_type kFlashCtrlEraseTypePage) (\<lambda>_.
    returnM FLASH_CTRL_PARAM_BYTES_PER_PAGE))
      else HARDENED_UNREACHABLE)"

text \<open>The loop keeps the conjunction of the words read in \<open>mask\<close> and in \<open>error\<close>.\<close>

definition erase_verify_words :: "u32 \<Rightarrow> nat \<Rightarrow> u32 * u32 \<Rightarrow> (u32 * u32) rom" where
  "erase_verify_words addr words acc = fold_each [0..<words] acc (\<lambda>i (mask, error). (bindM (abs_mmio_read32 (TOP_EARLGREY_FLASH_CTRL_MEM_BASE_ADDR + addr + of_nat i * 4)) (\<lambda>w.
    returnM (mask AND w, error AND w))))"

definition flash_ctrl_data_erase_verify :: "u32 \<Rightarrow> u32 \<Rightarrow> rom_error rom" where
  "flash_ctrl_data_erase_verify addr erase_type = (bindM (erase_byte_count erase_type) (\<lambda>byte_count.
    let error = kErrorOk XOR (byte_count - 1) in
    let addr' = addr AND (NOT byte_count + 1) in
    bindM (erase_verify_words addr' (unat byte_count div 4) (kFlashCtrlErasedWord, error)) (\<lambda>(mask, error').
    if mask = kFlashCtrlErasedWord
     then (bindM (HARDENED_CHECK_EQ mask kFlashCtrlErasedWord) (\<lambda>_.
     returnM (error' XOR (byte_count - 1))))
     else returnM kErrorFlashCtrlDataEraseVerify)))"

definition flash_ctrl_info_erase :: "u32 \<Rightarrow> u32 \<Rightarrow> rom_error rom" where
  "flash_ctrl_info_erase info_page erase_type = (bindM (info_page_addr info_page) (\<lambda>addr.
    bindM (transaction_start \<lparr>tp_addr = addr, tp_op_type = FLASH_CTRL_CONTROL_OP_VALUE_ERASE,
       tp_erase_type = erase_type, tp_partition = kFlashCtrlPartitionInfo0, tp_word_count = 1\<rparr>) (\<lambda>_.
    wait_for_done kErrorFlashCtrlInfoErase)))"

definition flash_ctrl_exec_set :: "u32 \<Rightarrow> unit rom" where
  "flash_ctrl_exec_set exec_val =
     sec_mmio_write32 (TOP_EARLGREY_FLASH_CTRL_CORE_BASE_ADDR + FLASH_CTRL_EXEC_REG_OFFSET) exec_val"

section \<open>Permissions and lockdown\<close>

definition flash_ctrl_data_default_perms_set :: "flash_ctrl_perms \<Rightarrow> unit rom" where
  "flash_ctrl_data_default_perms_set perms = (bindM (sec_mmio_read32 (TOP_EARLGREY_FLASH_CTRL_CORE_BASE_ADDR + FLASH_CTRL_DEFAULT_REGION_REG_OFFSET)) (\<lambda>reg.
    let reg = bitfield_field32_write reg FLASH_CTRL_DEFAULT_REGION_RD_EN_FIELD (perm_read perms) in
    let reg = bitfield_field32_write reg FLASH_CTRL_DEFAULT_REGION_PROG_EN_FIELD (perm_write perms) in
    let reg = bitfield_field32_write reg FLASH_CTRL_DEFAULT_REGION_ERASE_EN_FIELD (perm_erase perms) in
    sec_mmio_write32 (TOP_EARLGREY_FLASH_CTRL_CORE_BASE_ADDR + FLASH_CTRL_DEFAULT_REGION_REG_OFFSET) reg))"

definition flash_ctrl_info_perms_set :: "u32 \<Rightarrow> flash_ctrl_perms \<Rightarrow> unit rom" where
  "flash_ctrl_info_perms_set info_page perms = (bindM (info_cfg_regs info_page) (\<lambda>regs.
    bindM (sec_mmio_read32 (cfg_addr regs)) (\<lambda>reg.
    let reg = bitfield_field32_write reg FLASH_CTRL_BANK0_INFO0_PAGE_CFG_0_EN_0_FIELD kMultiBitBool4True in
    let reg = bitfield_field32_write reg FLASH_CTRL_BANK0_INFO0_PAGE_CFG_0_RD_EN_0_FIELD (perm_read perms) in
    let reg = bitfield_field32_write reg FLASH_CTRL_BANK0_INFO0_PAGE_CFG_0_PROG_EN_0_FIELD (perm_write perms) in
    let reg = bitfield_field32_write reg FLASH_CTRL_BANK0_INFO0_PAGE_CFG_0_ERASE_EN_0_FIELD (perm_erase perms) in
    sec_mmio_write32 (cfg_addr regs) reg)))"

definition bank_erase_reg :: "u32 \<Rightarrow> u32 rom" where
  "bank_erase_reg enable =
     (if enable = kHardenedBoolTrue
      then (bindM (HARDENED_CHECK_EQ enable kHardenedBoolTrue) (\<lambda>_.
    let reg = bitfield_bit32_write 0 FLASH_CTRL_MP_BANK_CFG_SHADOWED_ERASE_EN_0_BIT True in
    returnM (bitfield_bit32_write reg FLASH_CTRL_MP_BANK_CFG_SHADOWED_ERASE_EN_1_BIT True)))
      else if enable = kHardenedBoolFalse
      then (bindM (HARDENED_CHECK_EQ enable kHardenedBoolFalse) (\<lambda>_.
    returnM 0))
      else HARDENED_UNREACHABLE)"

definition flash_ctrl_bank_erase_perms_set :: "u32 \<Rightarrow> unit rom" where
  "flash_ctrl_bank_erase_perms_set enable = (bindM (bank_erase_reg enable) (\<lambda>reg.
    sec_mmio_write32_shadowed
       (TOP_EARLGREY_FLASH_CTRL_CORE_BASE_ADDR + FLASH_CTRL_MP_BANK_CFG_SHADOWED_REG_OFFSET) reg))"

definition kInfoPagesNoOwnerAccess :: "u32 list" where
  "kInfoPagesNoOwnerAccess =
     [kFlashCtrlInfoPageCreatorSecret, kFlashCtrlInfoPageOwnerSecret,
      kFlashCtrlInfoPageWaferAuthSecret, kFlashCtrlInfoPageBootData0,
      kFlashCtrlInfoPageBootData1, kFlashCtrlInfoPageOwnerSlot0, kFlashCtrlInfoPageOwnerSlot1]"

definition flash_ctrl_creator_info_pages_lockdown :: "unit rom" where
  "flash_ctrl_creator_info_pages_lockdown = for_each kInfoPagesNoOwnerAccess page_lockdown"

section \<open>Frames\<close>

lemma framed_info_tables [framed_intros]:
  "quiet (info_page_addr p)" "sec_safe (info_page_addr p)"
  "quiet (info_cfg_regs p)" "sec_safe (info_cfg_regs p)"
  unfolding info_page_addr_def info_cfg_regs_def
  by (auto split: option.split intro!: framed_intros)

lemma framed_transactions [framed_intros]:
  "quiet (transaction_start p)" "sec_safe (transaction_start p)"
  "quiet (fifo_read n)" "sec_safe (fifo_read n)"
  "quiet (fifo_write ws)" "sec_safe (fifo_write ws)"
  "quiet (wait_for_done e)" "sec_safe (wait_for_done e)"
  unfolding transaction_start_def transaction_bank_erase_def fifo_read_def fifo_write_def wait_for_done_def Let_def
  by (intro framed_intros; (assumption | (simp; fail))?)+

lemma framed_write_loop [framed_intros]:
  "quiet (flash_write_loop a p w ds e)" "sec_safe (flash_write_loop a p w ds e)"
proof -
  have "quiet (flash_write_loop a p w ds e) \<and> sec_safe (flash_write_loop a p w ds e)"
  proof (induction a p w ds e rule: flash_write_loop.induct)
    case (1 a p w ds e)
    show ?case
      using 1 by (subst (1 2) flash_write_loop.simps)
        (auto simp: Let_def intro!: framed_intros hw.framed_stop)
  qed
  then show "quiet (flash_write_loop a p w ds e)" "sec_safe (flash_write_loop a p w ds e)" by simp_all
qed

lemma framed_flash_config [framed_intros]:
  "quiet (page_lockdown p)" "sec_safe (page_lockdown p)"
  "quiet (flash_ctrl_data_default_cfg_set c)" "sec_safe (flash_ctrl_data_default_cfg_set c)"
  "quiet (flash_ctrl_info_cfg_set p c)" "sec_safe (flash_ctrl_info_cfg_set p c)"
  "quiet flash_ctrl_init" "sec_safe flash_ctrl_init"
  "quiet flash_ctrl_status_get" "sec_safe flash_ctrl_status_get"
  unfolding page_lockdown_def flash_ctrl_data_default_cfg_set_def flash_ctrl_info_cfg_set_def flash_ctrl_init_def flash_ctrl_status_get_def Let_def
  by (intro framed_intros; (assumption | (simp; fail))?)+

lemma framed_flash_rwe [framed_intros]:
  "quiet (flash_write a p d e)" "sec_safe (flash_write a p d e)"
  "quiet (flash_ctrl_data_read a n)" "sec_safe (flash_ctrl_data_read a n)"
  "quiet (flash_ctrl_info_read p off n)" "sec_safe (flash_ctrl_info_read p off n)"
  "quiet (flash_ctrl_data_write a d)" "sec_safe (flash_ctrl_data_write a d)"
  "quiet (flash_ctrl_info_write p off d)" "sec_safe (flash_ctrl_info_write p off d)"
  "quiet (flash_ctrl_data_erase a t)" "sec_safe (flash_ctrl_data_erase a t)"
  "quiet (flash_ctrl_info_erase p t)" "sec_safe (flash_ctrl_info_erase p t)"
  "quiet (flash_ctrl_exec_set v)" "sec_safe (flash_ctrl_exec_set v)"
  unfolding flash_write_def flash_ctrl_data_read_def flash_ctrl_info_read_def flash_ctrl_data_write_def flash_ctrl_info_write_def flash_ctrl_data_erase_def flash_ctrl_info_erase_def flash_ctrl_exec_set_def Let_def
  by (intro framed_intros; (assumption | (simp; fail))?)+

lemma framed_erase_words [framed_intros]:
  "quiet (erase_verify_words a n acc)" "sec_safe (erase_verify_words a n acc)"
  unfolding erase_verify_words_def
  by (auto simp: split_beta intro!: framed_intros)

lemma framed_erase_verify [framed_intros]:
  "quiet (flash_ctrl_data_erase_verify a t)" "sec_safe (flash_ctrl_data_erase_verify a t)"
  unfolding flash_ctrl_data_erase_verify_def erase_byte_count_def Let_def split_beta
  by (intro framed_intros)+

lemma framed_flash_perms [framed_intros]:
  "quiet (flash_ctrl_data_default_perms_set p)" "sec_safe (flash_ctrl_data_default_perms_set p)"
  "quiet (flash_ctrl_info_perms_set g p)" "sec_safe (flash_ctrl_info_perms_set g p)"
  "quiet (flash_ctrl_bank_erase_perms_set b)" "sec_safe (flash_ctrl_bank_erase_perms_set b)"
  "quiet flash_ctrl_creator_info_pages_lockdown" "sec_safe flash_ctrl_creator_info_pages_lockdown"
  unfolding flash_ctrl_data_default_perms_set_def flash_ctrl_info_perms_set_def bank_erase_reg_def flash_ctrl_bank_erase_perms_set_def flash_ctrl_creator_info_pages_lockdown_def Let_def
  by (intro framed_intros; (assumption | (simp; fail))?)+

section \<open>Results of the reads\<close>

lemma info_read_length:
  "flash_ctrl_info_read page off n m = Done (e, ws) t \<Longrightarrow> length ws = unat n"
  unfolding flash_ctrl_info_read_def fifo_read_def
  by (auto simp: bindM_Done_iff dest!: map_each_length)

section \<open>Erase verification\<close>

lemma erase_words_run:
  "fold_each xs (a, b) (\<lambda>i (mask, error). (bindM (abs_mmio_read32 (f i)) (\<lambda>w.
    returnM (mask AND w, error AND w)))) m = Done (a', b') t \<Longrightarrow>
   \<exists>ws. length ws = length xs \<and> a' = fold (AND) ws a \<and> b' = fold (AND) ws b \<and>
     new_events m t = rev (map2 R32 (map f xs) ws) \<and> run_step m t"
proof (induction xs arbitrary: a b m)
  case (Cons x xs)
  define w where "w = mmio_resp (plat m) (io_log m) (f x)"
  let ?m = "m\<lparr>io_log := R32 (f x) w # io_log m\<rparr>"
  have "fold_each xs (a AND w, b AND w) (\<lambda>i (mask, error). (bindM (abs_mmio_read32 (f i)) (\<lambda>w.
    returnM (mask AND w, error AND w)))) ?m = Done (a', b') t"
    using Cons.prems unfolding fold_each.simps by (rule bindM_DoneE) (auto simp: w_def)
  from Cons.IH [OF this] obtain ws where ws: "length ws = length xs" "a' = fold (AND) ws (a AND w)"
    "b' = fold (AND) ws (b AND w)" "new_events ?m t = rev (map2 R32 (map f xs) ws)" "run_step ?m t" by blast
  have s: "run_step m ?m" "new_events m ?m = [R32 (f x) w]" by (simp_all add: run_step_def new_events_def)
  show ?case
    by (rule exI [of _ "w # ws"])
      (use ws s run_events_trans [OF s(1) ws(5)] run.frame_trans [OF s(1) ws(5)] in \<open>simp add: and.commute\<close>)
qed (simp add: run.frame_refl)

lemma bit_fold_and: "bit (fold (AND) ws (a :: u32)) n \<longleftrightarrow> bit a n \<and> list_all (\<lambda>w. bit w n) ws"
  by (induction ws arbitrary: a) (auto simp: bit_and_iff)

lemma fold_and_ones: "fold (AND) ws (- 1 :: u32) = - 1 \<longleftrightarrow> list_all (\<lambda>w. w = - 1) ws"
proof
  assume ones: "fold (AND) ws (- 1 :: u32) = - 1"
  have "bit w n" if "w \<in> set ws" "n < 32" for w n
    using bit_fold_and [of ws "- 1" n] ones that by (simp add: list_all_iff)
  then show "list_all (\<lambda>w. w = - 1) ws" by (auto simp: list_all_iff intro!: bit_word_eqI)
qed (induction ws, simp_all)

lemma fold_and_same: "list_all (\<lambda>w. w = - 1) ws \<Longrightarrow> fold (AND) ws (a :: u32) = a"
  by (induction ws) simp_all

lemma erased_word: "kFlashCtrlErasedWord = - 1"
  by simp

lemma erase_verify_result:
  assumes "flash_ctrl_data_erase_verify addr ty m = Done r t"
  shows "\<exists>n ws. n = (if ty = kFlashCtrlEraseTypeBank then 0x20000 else 0x200) \<and> length ws = n \<and>
    new_events m t = rev (map2 R32 (map (\<lambda>i. TOP_EARLGREY_FLASH_CTRL_MEM_BASE_ADDR +
      (addr AND (NOT (of_nat (4 * n)) + 1)) + of_nat i * 4) [0..<n]) ws) \<and>
    r = (if list_all (\<lambda>w. w = kFlashCtrlErasedWord) ws then kErrorOk else kErrorFlashCtrlDataEraseVerify)"
proof -
  let ?n = "if ty = kFlashCtrlEraseTypeBank then 0x20000 else 0x200 :: nat"
  let ?c = "of_nat (4 * ?n) :: u32"
  have bc: "erase_byte_count ty m = Done ?c m"
    using assms unfolding flash_ctrl_data_erase_verify_def
    by (rule bindM_DoneE) (auto simp: erase_byte_count_def split: if_splits)
  have n: "unat ?c div 4 = ?n" by simp
  define a where "a = (addr AND (NOT ?c + 1))"
  obtain a' b' where w: "erase_verify_words a ?n (kFlashCtrlErasedWord, kErrorOk XOR (?c - 1)) m = Done (a', b') t"
    and r: "r = (if a' = kFlashCtrlErasedWord then b' XOR (?c - 1) else kErrorFlashCtrlDataEraseVerify)"
    using assms bc unfolding flash_ctrl_data_erase_verify_def Let_def a_def
    by (auto simp: bindM_Done_iff split: prod.splits if_splits)
  obtain ws where ws: "length ws = ?n" "a' = fold (AND) ws kFlashCtrlErasedWord" "b' = fold (AND) ws (kErrorOk XOR (?c - 1))"
    "new_events m t = rev (map2 R32 (map (\<lambda>i. TOP_EARLGREY_FLASH_CTRL_MEM_BASE_ADDR + a + of_nat i * 4) [0..<?n]) ws)"
    using erase_words_run [OF w [unfolded erase_verify_words_def]] by auto
  have "r = (if list_all (\<lambda>w. w = kFlashCtrlErasedWord) ws then kErrorOk else kErrorFlashCtrlDataEraseVerify)"
    using r ws(2,3) fold_and_ones [of ws] fold_and_same [of ws] unfolding erased_word by (auto simp: xor.assoc)
  then show ?thesis using ws unfolding a_def by blast
qed

section \<open>Program transactions\<close>

text \<open>The event that starts a program transaction.\<close>

fun starts_program :: "io_event \<Rightarrow> bool" where
  "starts_program (W32 a v) =
     (a = TOP_EARLGREY_FLASH_CTRL_CORE_BASE_ADDR + FLASH_CTRL_CONTROL_REG_OFFSET \<and>
      bitfield_field32_read v FLASH_CTRL_CONTROL_OP_FIELD = FLASH_CTRL_CONTROL_OP_VALUE_PROG)"
| "starts_program ev = False"

abbreviation programs_nothing :: "'a rom \<Rightarrow> bool" where
  "programs_nothing p \<equiv> emits (\<lambda>ev. \<not> starts_program ev) p"

lemma erase_control:
  "bitfield_field32_read (transaction_control \<lparr>tp_addr = a, tp_op_type = FLASH_CTRL_CONTROL_OP_VALUE_ERASE,
     tp_erase_type = ty, tp_partition = kFlashCtrlPartitionData, tp_word_count = 1\<rparr> b)
     FLASH_CTRL_CONTROL_OP_FIELD = FLASH_CTRL_CONTROL_OP_VALUE_ERASE"
  by (cases b) (simp_all add: transaction_control_def bitfield_field32_read_def bitfield_field32_write_def
      bitfield_bit32_write_def bitfield_bit32_to_field32_def bitfield_bit32_read_def)

lemma programs_nothing_erase [emits_intros]: "programs_nothing (flash_ctrl_data_erase a ty)"
  unfolding flash_ctrl_data_erase_def transaction_start_def transaction_bank_erase_def wait_for_done_def
  by (intro emits_intros; simp add: erase_control)+

lemma programs_nothing_erase_verify [emits_intros]: "programs_nothing (flash_ctrl_data_erase_verify a ty)"
  unfolding flash_ctrl_data_erase_verify_def erase_byte_count_def erase_verify_words_def Let_def split_beta
  by (intro emits_intros; simp)+

lemma programs_nothing_bank_perms [emits_intros]: "programs_nothing (flash_ctrl_bank_erase_perms_set e)"
  unfolding flash_ctrl_bank_erase_perms_set_def bank_erase_reg_def Let_def
  by (intro emits_intros; simp)+

end
