(* ===== verification/Hmac.thy ===== *)
theory Hmac
  imports Drivers
begin

text \<open>\<open>drivers/hmac.c\<close> and \<open>drivers/keymgr.c\<close>. The hash engine is described by what was
  fed to it: \<open>hmac_msg\<close> collects, from the history of bus events, the bytes pushed to the
  message FIFO since the last start command. The driver's contract, stated as the locale
  \<open>hash_engine\<close>, is that initialising empties that message and updating appends the
  buffer, whatever its alignment.\<close>

section \<open>Operations\<close>

definition hmac_sha256_init :: "unit rom" where
  "hmac_sha256_init = (bindM (abs_mmio_write32 (TOP_EARLGREY_HMAC_BASE_ADDR + HMAC_CFG_REG_OFFSET) 0) (\<lambda>_.
    bindM (abs_mmio_write32 (TOP_EARLGREY_HMAC_BASE_ADDR + HMAC_INTR_ENABLE_REG_OFFSET) 0) (\<lambda>_.
    bindM (abs_mmio_write32 (TOP_EARLGREY_HMAC_BASE_ADDR + HMAC_INTR_STATE_REG_OFFSET) UINT32_MAX) (\<lambda>_.
    let reg = 0 in
    let reg = bitfield_bit32_write reg HMAC_CFG_DIGEST_SWAP_BIT False in
    let reg = bitfield_bit32_write reg HMAC_CFG_ENDIAN_SWAP_BIT False in
    let reg = bitfield_bit32_write reg HMAC_CFG_SHA_EN_BIT True in
    let reg = bitfield_bit32_write reg HMAC_CFG_HMAC_EN_BIT False in
    bindM (abs_mmio_write32 (TOP_EARLGREY_HMAC_BASE_ADDR + HMAC_CFG_REG_OFFSET) reg) (\<lambda>_.
    let reg = bitfield_bit32_write 0 HMAC_CMD_HASH_START_BIT True in
    abs_mmio_write32 (TOP_EARLGREY_HMAC_BASE_ADDR + HMAC_CMD_REG_OFFSET) reg)))))"

text \<open>The three loops of \<open>hmac_sha256_update\<close>; each returns what is left of the
  buffer.\<close>

fun hmac_head :: "u32 \<Rightarrow> u8 list \<Rightarrow> u8 list rom" where
  "hmac_head addr [] = returnM []"
| "hmac_head addr (b # bs) =
     (if addr AND 3 \<noteq> 0
      then (bindM (abs_mmio_write8 (TOP_EARLGREY_HMAC_BASE_ADDR + HMAC_MSG_FIFO_REG_OFFSET) b) (\<lambda>_.
    hmac_head (addr + 1) bs))
      else returnM (b # bs))"

fun hmac_body :: "u8 list \<Rightarrow> u8 list rom" where
  "hmac_body (b0 # b1 # b2 # b3 # bs) = (bindM (abs_mmio_write32 (TOP_EARLGREY_HMAC_BASE_ADDR + HMAC_MSG_FIFO_REG_OFFSET) (le_word b0 b1 b2 b3)) (\<lambda>_.
    hmac_body bs))"
| "hmac_body bs = returnM bs"

primrec hmac_tail :: "u8 list \<Rightarrow> unit rom" where
  "hmac_tail [] = returnM ()"
| "hmac_tail (b # bs) = (bindM (abs_mmio_write8 (TOP_EARLGREY_HMAC_BASE_ADDR + HMAC_MSG_FIFO_REG_OFFSET) b) (\<lambda>_.
    hmac_tail bs))"

definition hmac_sha256_update :: "u32 \<Rightarrow> u8 list \<Rightarrow> unit rom" where
  "hmac_sha256_update addr data = (bindM (hmac_head addr data) (\<lambda>rest.
    bindM (hmac_body rest) (\<lambda>rest'.
    hmac_tail rest')))"

definition hmac_sha256_final :: "u32 list rom" where
  "hmac_sha256_final = (let reg = bitfield_bit32_write 0 HMAC_CMD_HASH_PROCESS_BIT True in
    bindM (abs_mmio_write32 (TOP_EARLGREY_HMAC_BASE_ADDR + HMAC_CMD_REG_OFFSET) reg) (\<lambda>_.
    bindM (poll_until (abs_mmio_read32 (TOP_EARLGREY_HMAC_BASE_ADDR + HMAC_INTR_STATE_REG_OFFSET))
       (\<lambda>r. bitfield_bit32_read r HMAC_INTR_STATE_HMAC_DONE_BIT)) (\<lambda>reg.
    bindM (abs_mmio_write32 (TOP_EARLGREY_HMAC_BASE_ADDR + HMAC_INTR_STATE_REG_OFFSET) reg) (\<lambda>_.
    map_each [0..<8] (\<lambda>i. abs_mmio_read32
       (TOP_EARLGREY_HMAC_BASE_ADDR + HMAC_DIGEST_7_REG_OFFSET - of_nat i * 4))))))"

section \<open>Frames and counts\<close>

lemma framed_hmac_loops [framed_intros]:
  "quiet (hmac_head a bs)" "sec_safe (hmac_head a bs)" "quiet (hmac_body bs)" "sec_safe (hmac_body bs)"
  "quiet (hmac_tail bs)" "sec_safe (hmac_tail bs)"
proof -
  show "quiet (hmac_head a bs)" "sec_safe (hmac_head a bs)"
    by (induction a bs rule: hmac_head.induct)
      (simp_all only: hmac_head.simps, (intro framed_intros; assumption?)+)
  show "quiet (hmac_body bs)" "sec_safe (hmac_body bs)"
    by (induction bs rule: hmac_body.induct)
      (simp_all only: hmac_body.simps, (intro framed_intros; assumption?)+)
  show "quiet (hmac_tail bs)" "sec_safe (hmac_tail bs)"
    by (induction bs) (simp_all only: hmac_tail.simps, (intro framed_intros; assumption?)+)
qed

lemma framed_hmac [framed_intros]:
  "quiet hmac_sha256_init" "sec_safe hmac_sha256_init"
  "quiet (hmac_sha256_update a bs)" "sec_safe (hmac_sha256_update a bs)"
  "quiet hmac_sha256_final" "sec_safe hmac_sha256_final"
  unfolding hmac_sha256_init_def hmac_sha256_update_def hmac_sha256_final_def Let_def
  by (intro framed_intros; (assumption | (simp; fail))?)+

section \<open>What the engine was fed\<close>

abbreviation (input) hmac_fifo :: u32 where
  "hmac_fifo \<equiv> TOP_EARLGREY_HMAC_BASE_ADDR + HMAC_MSG_FIFO_REG_OFFSET"

abbreviation (input) hmac_cmd :: u32 where
  "hmac_cmd \<equiv> TOP_EARLGREY_HMAC_BASE_ADDR + HMAC_CMD_REG_OFFSET"

fun hmac_msg :: "io_event list \<Rightarrow> u8 list" where
  "hmac_msg [] = []"
| "hmac_msg (W8 a b # l) = (if a = hmac_fifo then hmac_msg l @ [b] else hmac_msg l)"
| "hmac_msg (W32 a v # l) =
     (if a = hmac_fifo then hmac_msg l @ word_bytes v
      else if a = hmac_cmd \<and> bitfield_bit32_read v HMAC_CMD_HASH_START_BIT then []
      else hmac_msg l)"
| "hmac_msg (ev # l) = hmac_msg l"

text \<open>Whether the engine was told to finish the message it was fed.\<close>

fun hmac_processed :: "io_event list \<Rightarrow> bool" where
  "hmac_processed [] = False"
| "hmac_processed (W8 a b # l) = (a \<noteq> hmac_fifo \<and> hmac_processed l)"
| "hmac_processed (W32 a v # l) =
     (if a = hmac_fifo then False
      else if a = hmac_cmd \<and> bitfield_bit32_read v HMAC_CMD_HASH_START_BIT then False
      else if a = hmac_cmd \<and> bitfield_bit32_read v HMAC_CMD_HASH_PROCESS_BIT then True
      else hmac_processed l)"
| "hmac_processed (ev # l) = hmac_processed l"

text \<open>The documented behaviour of the hash engine, for a hash function \<open>sha\<close> of byte
  strings to eight words: once told to process, the digest registers hold the digest of the
  message, the least significant word in \<open>DIGEST_7\<close>.\<close>

definition hmac_device :: "(u8 list \<Rightarrow> u32 list) \<Rightarrow> platform \<Rightarrow> bool" where
  "hmac_device sha p \<longleftrightarrow> (\<forall>l i. i < 8 \<longrightarrow> hmac_processed l \<longrightarrow>
     mmio_resp p l (TOP_EARLGREY_HMAC_BASE_ADDR + HMAC_DIGEST_7_REG_OFFSET - of_nat i * 4)
       = sha (hmac_msg l) ! i)"

section \<open>The contract of a hash engine\<close>

locale hash_engine =
  fixes msg :: "machine \<Rightarrow> u8 list"
    and start :: "unit rom"
    and absorb :: "u32 \<Rightarrow> u8 list \<Rightarrow> unit rom"
  assumes start_empties: "start m = Done u m' \<Longrightarrow> msg m' = []"
    and absorb_appends: "absorb a bs m = Done u m' \<Longrightarrow> msg m' = msg m @ bs"
begin

text \<open>Feeding buffers one after the other is feeding their concatenation.\<close>

lemma absorb_all:
  "for_each bufs (\<lambda>(a, bs). absorb a bs) m = Done u m' \<Longrightarrow> msg m' = msg m @ concat (map snd bufs)"
  by (induction bufs arbitrary: m) (auto simp: bindM_Done_iff dest!: absorb_appends)

lemma start_absorb:
  "bindM start (\<lambda>_. absorb a bs) m = Done u m' \<Longrightarrow> msg m' = bs"
  by (auto simp: bindM_Done_iff dest!: start_empties absorb_appends)

lemma start_absorb_all:
  "bindM start (\<lambda>_. for_each bufs (\<lambda>(a, bs). absorb a bs)) m = Done u m' \<Longrightarrow>
   msg m' = concat (map snd bufs)"
  by (auto simp: bindM_Done_iff dest!: start_empties absorb_all)

end

lemma hmac_head_msg:
  "hmac_head a bs m = Done rest m' \<Longrightarrow>
   hmac_msg (io_log m') @ rest = hmac_msg (io_log m) @ bs"
  by (induction a bs arbitrary: m rule: hmac_head.induct) (auto simp: bindM_Done_iff split: if_splits)

lemma hmac_body_msg:
  "hmac_body bs m = Done rest m' \<Longrightarrow>
   hmac_msg (io_log m') @ rest = hmac_msg (io_log m) @ bs"
  by (induction bs arbitrary: m rule: hmac_body.induct) (auto simp: bindM_Done_iff Let_def)

lemma hmac_tail_msg:
  "hmac_tail bs m = Done u m' \<Longrightarrow> hmac_msg (io_log m') = hmac_msg (io_log m) @ bs"
  by (induction bs arbitrary: m) (auto simp: bindM_Done_iff)

lemma hmac_update_msg:
  "hmac_sha256_update a bs m = Done u m' \<Longrightarrow> hmac_msg (io_log m') = hmac_msg (io_log m) @ bs"
  by (auto simp: hmac_sha256_update_def bindM_Done_iff
      dest!: hmac_head_msg hmac_body_msg hmac_tail_msg)

lemma hmac_init_msg: "hmac_sha256_init m = Done u m' \<Longrightarrow> hmac_msg (io_log m') = []"
  by (auto simp: hmac_sha256_init_def Let_def bindM_Done_iff bitfield_bit32_write_def
      bitfield_field32_write_def bitfield_bit32_to_field32_def bitfield_bit32_read_def
      bitfield_field32_read_def)

interpretation hmac: hash_engine "\<lambda>m. hmac_msg (io_log m)" hmac_sha256_init hmac_sha256_update
  by unfold_locales (auto dest: hmac_init_msg hmac_update_msg)


text \<open>Programs that leave the hash engine alone: another instance of the frame interface.\<close>

definition hash_keep :: "machine \<Rightarrow> machine \<Rightarrow> bool" where
  "hash_keep s t \<longleftrightarrow> plat t = plat s \<and> hmac_msg (io_log t) = hmac_msg (io_log s)
     \<and> (hmac_processed (io_log s) \<longrightarrow> hmac_processed (io_log t))"

abbreviation hash_idle :: "'a rom \<Rightarrow> bool" where
  "hash_idle p \<equiv> framed hash_keep (\<lambda>_. True) p"

interpretation idle: frame hash_keep "\<lambda>_. True"
  by unfold_locales (auto simp: hash_keep_def)

lemmas hash_idle_rules [framed_intros] = idle.framed_rules

lemma hash_idle_reads [framed_intros]:
  "hash_idle (abs_mmio_read32 a)" "hash_idle (CSR_READ c)" "hash_idle (CSR_WRITE c v)"
  "hash_idle (HARDENED_CHECK_EQ x y)" "hash_idle (HARDENED_CHECK_LT x y)"
  "hash_idle (HARDENED_CHECK_NE x y)" "hash_idle (HARDENED_CHECK_GE x y)"
  "hash_idle HARDENED_UNREACHABLE" "hash_idle (sec_update f)"
  by (auto simp: framed_def hash_keep_def hardened_defs)

lemma hash_idle_write:
  "a \<noteq> hmac_fifo \<Longrightarrow> a \<noteq> hmac_cmd \<Longrightarrow> hash_idle (abs_mmio_write32 a v)"
  by (auto simp: framed_def hash_keep_def)

lemma hash_idle_poll [framed_intros]: "hash_idle body \<Longrightarrow> hash_idle (poll_until body ready)"
  using idle.framed_poll [of body] unfolding poll_until_def framed_def by blast

lemma hash_idle_modify [framed_intros]:
  "(\<And>s. plat (f s) = plat s \<and> io_log (f s) = io_log s) \<Longrightarrow> hash_idle (modifyM f)"
  by (simp add: framed_def hash_keep_def)

lemma hash_idle_sec_read [framed_intros]: "hash_idle (sec_mmio_read32 a)"
  unfolding sec_mmio_read32_def upsert_register_def Let_def by (intro framed_intros)

lemma hash_idle_otp [framed_intros]: "hash_idle (otp_read32 a)" "hash_idle (otp_read64 a)" "hash_idle (otp_read a n)"
  unfolding otp_read32_def otp_read64_def otp_read_def Let_def by (intro framed_intros)+

lemma hash_idle_lifecycle [framed_intros]:
  "hash_idle lifecycle_device_id_get" "hash_idle lifecycle_state_get"
  unfolding lifecycle_defs by (intro framed_intros)+

section \<open>The digest\<close>

lemma digest_reads:
  assumes dev: "hmac_device sha (plat m)" and xs: "\<forall>i\<in>set xs. i < 8"
    and fin: "hmac_processed (io_log m)"
    and run: "map_each xs (\<lambda>i. abs_mmio_read32
      (TOP_EARLGREY_HMAC_BASE_ADDR + HMAC_DIGEST_7_REG_OFFSET - of_nat i * 4)) m = Done ys m'"
  shows "ys = map (\<lambda>i. sha (hmac_msg (io_log m)) ! i) xs"
  using xs fin run dev
proof (induction xs arbitrary: m ys)
  case (Cons x xs)
  let ?a = "TOP_EARLGREY_HMAC_BASE_ADDR + HMAC_DIGEST_7_REG_OFFSET - of_nat x * 4"
  let ?m1 = "m\<lparr>io_log := R32 ?a (mmio_resp (plat m) (io_log m) ?a) # io_log m\<rparr>"
  obtain y u zs where y: "abs_mmio_read32 ?a m = Done y u"
    and zs: "map_each xs (\<lambda>i. abs_mmio_read32
      (TOP_EARLGREY_HMAC_BASE_ADDR + HMAC_DIGEST_7_REG_OFFSET - of_nat i * 4)) u = Done zs m'"
    and ys: "ys = y # zs"
    using Cons.prems(3) by (rule map_each_ConsE)
  have u: "u = ?m1" "y = mmio_resp (plat m) (io_log m) ?a" using y by auto
  have "mmio_resp (plat m) (io_log m) ?a = sha (hmac_msg (io_log m)) ! x"
    using Cons.prems unfolding hmac_device_def by simp
  then show ?case
    using Cons.IH [OF _ _ zs] Cons.prems ys u by simp
qed simp

lemma hmac_final_digest:
  assumes dev: "hmac_device sha (plat m)" and len: "length (sha (hmac_msg (io_log m))) = 8"
    and run: "hmac_sha256_final m = Done d m'"
  shows "d = sha (hmac_msg (io_log m))"
proof -
  define reg where "reg = bitfield_bit32_write 0 HMAC_CMD_HASH_PROCESS_BIT True"
  define m1 where "m1 = m\<lparr>io_log := W32 hmac_cmd reg # io_log m\<rparr>"
  have r: "reg = 2"
    by (simp add: reg_def bitfield_bit32_write_def bitfield_field32_write_def bitfield_bit32_to_field32_def)
  have m1: "hmac_msg (io_log m1) = hmac_msg (io_log m)" "hmac_processed (io_log m1)" "plat m1 = plat m"
    by (simp_all add: m1_def r bitfield_bit32_read_def bitfield_field32_read_def bitfield_bit32_to_field32_def)
  obtain v m2 where p: "poll_until (abs_mmio_read32 (TOP_EARLGREY_HMAC_BASE_ADDR + HMAC_INTR_STATE_REG_OFFSET))
       (\<lambda>r. bitfield_bit32_read r HMAC_INTR_STATE_HMAC_DONE_BIT) m1 = Done v m2"
    and t: "map_each [0..<8] (\<lambda>i. abs_mmio_read32
       (TOP_EARLGREY_HMAC_BASE_ADDR + HMAC_DIGEST_7_REG_OFFSET - of_nat i * 4))
       (m2\<lparr>io_log := W32 (TOP_EARLGREY_HMAC_BASE_ADDR + HMAC_INTR_STATE_REG_OFFSET) v # io_log m2\<rparr>) = Done d m'"
    using run unfolding hmac_sha256_final_def Let_def reg_def [symmetric]
    by (auto simp: bindM_Done_iff m1_def)
  have "hash_keep m1 m2"
    by (rule framedD1 [where E = "\<lambda>_. True", OF hash_idle_poll [OF hash_idle_reads(1)] p])
  then have m2: "hmac_msg (io_log m2) = hmac_msg (io_log m)" "hmac_processed (io_log m2)" "plat m2 = plat m"
    using m1 by (simp_all add: hash_keep_def)
  have "d = map (\<lambda>i. sha (hmac_msg (io_log m)) ! i) [0..<8]"
    using digest_reads [OF _ _ _ t, of sha] m2 dev by simp
  then show ?thesis using len by (metis map_nth)
qed

lemma only_polls_hmac [framed_intros]:
  "only_polls hmac_sha256_init" "only_polls (hmac_sha256_update a bs)" "only_polls hmac_sha256_final"
proof -
  have "only_polls (hmac_head a bs)"
    by (induction a bs rule: hmac_head.induct) (simp_all only: hmac_head.simps, (intro framed_intros; assumption?)+)
  moreover have "only_polls (hmac_body xs)" for xs
    by (induction xs rule: hmac_body.induct) (simp_all only: hmac_body.simps, (intro framed_intros; assumption?)+)
  moreover have "only_polls (hmac_tail xs)" for xs
    by (induction xs) (simp_all only: hmac_tail.simps, (intro framed_intros; assumption?)+)
  ultimately show "only_polls (hmac_sha256_update a bs)"
    unfolding hmac_sha256_update_def by (intro framed_intros)
qed (unfold hmac_sha256_init_def hmac_sha256_final_def Let_def, (intro framed_intros)+)

text \<open>One whole digest computation over two buffers.\<close>

lemma hmac_run:
  assumes dev: "hmac_device sha (plat m)" and len: "length (sha (xs @ ys)) = 8"
  shows "case (bindM hmac_sha256_init (\<lambda>_.
    bindM (hmac_sha256_update a xs) (\<lambda>_.
    bindM (hmac_sha256_update b ys) (\<lambda>_.
    hmac_sha256_final)))) m of
      Done d m' \<Rightarrow> d = sha (xs @ ys)
    | Stop e m' \<Rightarrow> e = Out_of_polls"
proof -
  let ?p = "(bindM hmac_sha256_init (\<lambda>_.
    bindM (hmac_sha256_update a xs) (\<lambda>_.
    bindM (hmac_sha256_update b ys) (\<lambda>_.
    hmac_sha256_final))))"
  have "only_polls ?p" by (intro framed_intros)
  moreover have "d = sha (xs @ ys)" if r: "?p m = Done d m'" for d m'
  proof -
    obtain m1 m2 m3 where i: "hmac_sha256_init m = Done () m1"
      and u: "hmac_sha256_update a xs m1 = Done () m2" "hmac_sha256_update b ys m2 = Done () m3"
      and f: "hmac_sha256_final m3 = Done d m'"
      using r by (auto simp: bindM_Done_iff)
    have p: "plat m3 = plat m"
      using quiet_plat [OF framed_hmac(1) i] quiet_plat [OF framed_hmac(3) u(1)]
        quiet_plat [OF framed_hmac(3) u(2)] by simp
    have "hmac_msg (io_log m3) = xs @ ys"
      using hmac_init_msg [OF i] hmac_update_msg [OF u(1)] hmac_update_msg [OF u(2)] by simp
    then show ?thesis using hmac_final_digest [OF _ _ f, of sha] dev len p by simp
  qed
  ultimately show ?thesis by (auto simp: framed_def split: outcome.split dest: spec [of _ m])
qed


lemma sample_hmac: "hmac_device (\<lambda>msg. replicate 8 0) (plat sample_machine)"
  by (simp add: hmac_device_def sample_machine_def sample_platform_def)

section \<open>Properties\<close>



lemma hmac_run_one:
  assumes dev: "hmac_device sha (plat m)" and len: "length (sha xs) = 8"
  shows "case (bindM hmac_sha256_init (\<lambda>_.
    bindM (hmac_sha256_update a xs) (\<lambda>_.
    hmac_sha256_final))) m of
      Done d m' \<Rightarrow> d = sha xs
    | Stop e m' \<Rightarrow> e = Out_of_polls"
proof -
  let ?p = "(bindM hmac_sha256_init (\<lambda>_.
    bindM (hmac_sha256_update a xs) (\<lambda>_.
    hmac_sha256_final)))"
  have "only_polls ?p" by (intro framed_intros)
  moreover have "d = sha xs" if r: "?p m = Done d m'" for d m'
  proof -
    obtain m1 m2 where i: "hmac_sha256_init m = Done () m1" and u: "hmac_sha256_update a xs m1 = Done () m2"
      and f: "hmac_sha256_final m2 = Done d m'"
      using r by (auto simp: bindM_Done_iff)
    have p: "plat m2 = plat m"
      using quiet_plat [OF framed_hmac(1) i] quiet_plat [OF framed_hmac(3) u] by simp
    have "hmac_msg (io_log m2) = xs"
      using hmac_init_msg [OF i] hmac_update_msg [OF u] by simp
    then show ?thesis using hmac_final_digest [OF _ _ f, of sha] dev len p by simp
  qed
  ultimately show ?thesis by (auto simp: framed_def split: outcome.split dest: spec [of _ m])
qed

end
