(* ===== verification/Memory.thy ===== *)
theory Memory
  imports Machine
begin

text \<open>\<open>lib/base/memory.c\<close>: each function splits its buffers into an unaligned head, a body
  of whole words and a tail. The read-only functions take every buffer as its address and its
  bytes (the address only decides the alignment); \<open>memcpy\<close> and \<open>memset\<close> change a
  byte memory. The lemmas show that the split never shows: each function is its byte by byte
  specification, for every alignment.\<close>

unbundle bit_operations_syntax

section \<open>Alignment\<close>

definition misalignment32_of :: "u32 \<Rightarrow> nat" where
  "misalignment32_of addr = unat addr mod 4"

definition compute_num_leading_bytes :: "u32 \<Rightarrow> u32 \<Rightarrow> nat \<Rightarrow> nat" where
  "compute_num_leading_bytes left right len =
     (if len < 4 then len
      else let left_ahead = misalignment32_of left; right_ahead = misalignment32_of right in
        if right = 0 \<or> left_ahead = right_ahead then (4 - left_ahead) mod 4 else len)"

text \<open>The offsets of the body and of the tail.\<close>

definition compute_alignment :: "u32 \<Rightarrow> u32 \<Rightarrow> nat \<Rightarrow> nat * nat" where
  "compute_alignment left right len =
     (let num_leading_bytes = compute_num_leading_bytes left right len;
          num_words = (len - num_leading_bytes) div 4
      in (num_leading_bytes, num_leading_bytes + num_words * 4))"

definition repeat_byte_to_u32 :: "u8 \<Rightarrow> u32" where
  "repeat_byte_to_u32 b = push_bit 24 (ucast b) OR push_bit 16 (ucast b) OR push_bit 8 (ucast b) OR ucast b"

text \<open>The starting indices of a loop \<open>for (; i < b; i += 4)\<close> that begins at \<open>a\<close>.\<close>

definition word_steps :: "nat \<Rightarrow> nat \<Rightarrow> nat list" where
  "word_steps a b = map (\<lambda>k. a + 4 * k) [0..<(b - a) div 4]"

section \<open>Copying and filling\<close>

type_synonym memory = "u32 \<Rightarrow> u8"

definition read_32 :: "memory \<Rightarrow> u32 \<Rightarrow> u32" where
  "read_32 mem p = le_word (mem p) (mem (p + 1)) (mem (p + 2)) (mem (p + 3))"

definition write_32 :: "u32 \<Rightarrow> u32 \<Rightarrow> memory \<Rightarrow> memory" where
  "write_32 w p mem = mem(p := ucast w, p + 1 := ucast (drop_bit 8 w),
     p + 2 := ucast (drop_bit 16 w), p + 3 := ucast (drop_bit 24 w))"

definition memcpy :: "u32 \<Rightarrow> u32 \<Rightarrow> nat \<Rightarrow> memory \<Rightarrow> memory" where
  "memcpy dest src len mem =
     (if dest = 0 \<or> src = 0 then mem
      else let (body, tail) = compute_alignment dest src len;
        copy8 = \<lambda>i m. m(dest + of_nat i := m (src + of_nat i));
        copy32 = \<lambda>i m. write_32 (read_32 m (src + of_nat i)) (dest + of_nat i) m;
        mem = fold copy8 [0..<body] mem;
        mem = fold copy32 (word_steps body tail) mem
      in fold copy8 [tail..<len] mem)"

definition memset :: "u32 \<Rightarrow> u8 \<Rightarrow> nat \<Rightarrow> memory \<Rightarrow> memory" where
  "memset dest value8 len mem =
     (let (body, tail) = compute_alignment dest 0 len;
        set8 = \<lambda>i m. m(dest + of_nat i := value8);
        mem = fold set8 [0..<body] mem;
        value32 = repeat_byte_to_u32 value8;
        mem = fold (\<lambda>i m. write_32 value32 (dest + of_nat i) m) (word_steps body tail) mem
      in fold set8 [tail..<len] mem)"

section \<open>Comparing\<close>

abbreviation (input) kMemCmpEq :: int where "kMemCmpEq \<equiv> 0"
abbreviation (input) kMemCmpLt :: int where "kMemCmpLt \<equiv> - 42"
abbreviation (input) kMemCmpGt :: int where "kMemCmpGt \<equiv> 42"

text \<open>One comparison of a loop, and the loop: the first difference decides.\<close>

definition cmp_step :: "'a::linorder \<Rightarrow> 'a \<Rightarrow> int \<Rightarrow> int" where
  "cmp_step l r rest = (if l < r then kMemCmpLt else if l > r then kMemCmpGt else rest)"

fun cmp_loop :: "('i \<Rightarrow> 'a::linorder) \<Rightarrow> ('i \<Rightarrow> 'a) \<Rightarrow> 'i list \<Rightarrow> int \<Rightarrow> int" where
  "cmp_loop f g [] rest = rest"
| "cmp_loop f g (i # is) rest = cmp_step (f i) (g i) (cmp_loop f g is rest)"

definition buf_word :: "u8 list \<Rightarrow> nat \<Rightarrow> u32" where
  "buf_word bs i = le_word (bs ! i) (bs ! (i + 1)) (bs ! (i + 2)) (bs ! (i + 3))"

definition bswap32 :: "u32 \<Rightarrow> u32" where
  "bswap32 w = le_word (ucast (drop_bit 24 w)) (ucast (drop_bit 16 w)) (ucast (drop_bit 8 w)) (ucast w)"

definition memcmp :: "u32 \<Rightarrow> u8 list \<Rightarrow> u32 \<Rightarrow> u8 list \<Rightarrow> nat \<Rightarrow> int" where
  "memcmp lhs l rhs r len =
     (let (body, tail) = compute_alignment lhs rhs len in
      cmp_loop (nth l) (nth r) [0..<body]
        (cmp_loop (\<lambda>i. bswap32 (buf_word l i)) (\<lambda>i. bswap32 (buf_word r i)) (word_steps body tail)
          (cmp_loop (nth l) (nth r) [tail..<len] kMemCmpEq)))"

definition memrcmp :: "u32 \<Rightarrow> u8 list \<Rightarrow> u32 \<Rightarrow> u8 list \<Rightarrow> nat \<Rightarrow> int" where
  "memrcmp lhs l rhs r len =
     (let (body, tail) = compute_alignment lhs rhs len in
      cmp_loop (nth l) (nth r) (rev [tail..<len])
        (cmp_loop (buf_word l) (buf_word r) (rev (word_steps body tail))
          (cmp_loop (nth l) (nth r) (rev [0..<body]) kMemCmpEq)))"

section \<open>Searching\<close>

text \<open>One step of the byte loops, and of the word loops with their four byte tests in order.\<close>

fun find_loop :: "('i \<Rightarrow> nat option) \<Rightarrow> 'i list \<Rightarrow> nat option \<Rightarrow> nat option" where
  "find_loop f [] rest = rest"
| "find_loop f (i # is) rest = (case f i of Some j \<Rightarrow> Some j | None \<Rightarrow> find_loop f is rest)"

definition find_byte :: "u8 list \<Rightarrow> u8 \<Rightarrow> nat \<Rightarrow> nat option" where
  "find_byte bs v i = (if bs ! i = v then Some i else None)"

definition byte_matches :: "u32 \<Rightarrow> nat \<Rightarrow> bool" where
  "byte_matches bits_eq k = (drop_bit (8 * k) bits_eq AND 0xff = 0xff)"

definition find_word :: "nat list \<Rightarrow> u8 list \<Rightarrow> u8 \<Rightarrow> nat \<Rightarrow> nat option" where
  "find_word order bs v i =
     (let bits_eq = NOT (buf_word bs i XOR repeat_byte_to_u32 v)
      in find_loop (\<lambda>k. if byte_matches bits_eq k then Some (i + k) else None) order None)"

text \<open>The result is an offset into the buffer, \<open>None\<close> for \<open>NULL\<close>.\<close>

definition memchr :: "u32 \<Rightarrow> u8 list \<Rightarrow> u8 \<Rightarrow> nat \<Rightarrow> nat option" where
  "memchr ptr bs v len =
     (let (body, tail) = compute_alignment ptr 0 len in
      find_loop (find_byte bs v) [0..<body]
        (find_loop (find_word [0, 1, 2, 3] bs v) (word_steps body tail)
          (find_loop (find_byte bs v) [tail..<len] None)))"

definition memrchr :: "u32 \<Rightarrow> u8 list \<Rightarrow> u8 \<Rightarrow> nat \<Rightarrow> nat option" where
  "memrchr ptr bs v len =
     (let (body, tail) = compute_alignment ptr 0 len in
      find_loop (find_byte bs v) (rev [tail..<len])
        (find_loop (find_word [3, 2, 1, 0] bs v) (rev (word_steps body tail))
          (find_loop (find_byte bs v) (rev [0..<body]) None)))"

section \<open>The three parts of a buffer\<close>

lemma unat_byte: "unat (ucast (drop_bit k (w :: u32)) :: u8) = (unat w div 2 ^ k) mod 256"
proof -
  have "unat (ucast (drop_bit k w) :: u8) = unat (drop_bit k w) mod 256"
    by (simp add: unsigned_ucast_eq take_bit_eq_mod)
  also have "unat (drop_bit k w) = unat w div 2 ^ k"
    using unat_bound [of w]
    by (simp only: unsigned_drop_bit_eq) (simp add: drop_bit_eq_div take_bit_nat_eq_self)
  finally show ?thesis .
qed

lemma le_word_ucasts:
  "ucast (le_word a b c d) = a" "ucast (drop_bit 8 (le_word a b c d)) = b"
  "ucast (drop_bit 16 (le_word a b c d)) = c" "ucast (drop_bit 24 (le_word a b c d)) = d"
  using word_bytes_le_word [of a b c d] by (simp_all add: word_bytes_def)

lemma digits4:
  "a = x + 256 * b \<Longrightarrow> b = y + 256 * c \<Longrightarrow> c = z + 256 * d \<Longrightarrow>
   a = x + 2^8 * y + 2^16 * z + 2^24 * (d :: nat)"
  by simp

lemma unat_le_word:
  "unat (le_word b0 b1 b2 b3) = unat b0 + 2^8 * unat b1 + 2^16 * unat b2 + 2^24 * unat b3"
proof -
  let ?w = "le_word b0 b1 b2 b3"
  have b: "b0 = ucast ?w" "b1 = ucast (drop_bit 8 ?w)" "b2 = ucast (drop_bit 16 ?w)"
    "b3 = ucast (drop_bit 24 ?w)"
    using word_bytes_le_word [of b0 b1 b2 b3] by (simp_all add: word_bytes_def)
  have u: "unat b0 = unat ?w mod 256" "unat b1 = (unat ?w div 2^8) mod 256"
    "unat b2 = (unat ?w div 2^16) mod 256" "unat b3 = (unat ?w div 2^24) mod 256"
    using unat_byte [of 0 ?w] unat_byte [of 8 ?w] unat_byte [of 16 ?w] unat_byte [of 24 ?w]
    by (simp_all flip: b)
  have "n = n mod 256 + 2^8 * ((n div 2^8) mod 256) + 2^16 * ((n div 2^16) mod 256) + 2^24 * ((n div 2^24) mod 256)"
    if "n < 2^32" for n :: nat
  proof -
    have 1: "n = n mod 256 + 256 * (n div 256)" by simp
    have 2: "n div 256 = n div 256 mod 256 + 256 * (n div 65536)"
      using mod_mult_div_eq [of "n div 256" 256] by (simp add: div_mult2_eq [symmetric])
    have 3: "n div 65536 = n div 65536 mod 256 + 256 * (n div 16777216)"
      using mod_mult_div_eq [of "n div 65536" 256] by (simp add: div_mult2_eq [symmetric])
    have "n div 16777216 < 256" using that by (simp add: div_less_iff_less_mult)
    then show ?thesis using digits4 [OF 1 2 3] by simp
  qed
  from this [OF unat_bound [of ?w]] show ?thesis unfolding u .
qed

abbreviation (input) word_span :: "nat \<Rightarrow> nat list" where
  "word_span i \<equiv> [i, i + 1, i + 2, i + 3]"

lemma word_steps_span:
  "a \<le> b \<Longrightarrow> 4 dvd b - a \<Longrightarrow> concat (map word_span (word_steps a b)) = [a..<b]"
proof -
  assume ab: "a \<le> b" "4 dvd b - a"
  then obtain n where n: "b = a + 4 * n" by (metis dvdE le_add_diff_inverse)
  have "concat (map word_span (map (\<lambda>k. a + 4 * k) [0..<n])) = [a..<a + 4 * n]"
  proof (induction n)
    case (Suc n)
    have "[a..<a + 4 * Suc n] = [a..<a + 4 * n] @ [a + 4 * n..<a + 4 * n + 4]"
      using upt_add_eq_append [of a "a + 4 * n" 4] by (simp add: add.assoc add.commute [of 4])
    also have "[k..<k + 4] = word_span k" for k by (simp add: upt_conv_Cons numeral_eq_Suc)
    finally have "[a..<a + 4 * Suc n] = [a..<a + 4 * n] @ word_span (a + 4 * n)" .
    with Suc show ?case by simp
  qed simp
  then show ?thesis by (simp add: n word_steps_def)
qed

lemma compute_alignment_parts:
  assumes "compute_alignment p q len = (b, t)"
  shows "b \<le> t" "t \<le> len" "4 dvd t - b"
    and "[0..<len] = [0..<b] @ concat (map word_span (word_steps b t)) @ [t..<len]"
proof -
  have n: "compute_num_leading_bytes p q len \<le> len"
    by (auto simp: compute_num_leading_bytes_def Let_def mod_less_eq_dividend intro: order_trans [of _ 3])
  show bt: "b \<le> t" "t \<le> len" "4 dvd t - b"
    using assms n by (auto simp: compute_alignment_def Let_def) 
  show "[0..<len] = [0..<b] @ concat (map word_span (word_steps b t)) @ [t..<len]"
    using bt upt_add_eq_append [of 0 b "t - b"] upt_add_eq_append [of 0 t "len - t"]
    by (simp only: word_steps_span) simp
qed
section \<open>Comparison\<close>

text \<open>The number a byte string stands for, most significant byte first.\<close>

fun be_value :: "u8 list \<Rightarrow> nat" where
  "be_value [] = 0"
| "be_value (b # bs) = unat b * 256 ^ length bs + be_value bs"

definition le_value :: "u8 list \<Rightarrow> nat" where
  "le_value bs = be_value (rev bs)"

lemma be_value_less: "be_value bs < 256 ^ length bs"
proof (induction bs)
  case (Cons b bs)
  have "unat b + 1 \<le> 256" using unat_lt [of b] by simp
  then have "(unat b + 1) * 256 ^ length bs \<le> 256 * 256 ^ length bs" by (rule mult_le_mono1)
  then have "unat b * 256 ^ length bs + 256 ^ length bs \<le> 256 * 256 ^ length bs"
    by (simp only: add_mult_distrib mult_1)
  with Cons have "unat b * 256 ^ length bs + be_value bs < 256 * 256 ^ length bs" by linarith
  then show ?case by simp
qed simp

lemma lex_less:
  fixes x y u v N :: nat
  assumes "u < N" "v < N"
  shows "x * N + u < y * N + v \<longleftrightarrow> x < y \<or> (x = y \<and> u < v)"
proof (cases x y rule: linorder_cases)
  case less
  then have "(x + 1) * N \<le> y * N" by (intro mult_le_mono1) simp
  then show ?thesis using less assms by simp
next
  case greater
  then have "(y + 1) * N \<le> x * N" by (intro mult_le_mono1) simp
  then show ?thesis using greater assms by simp
qed simp

definition cmp_values :: "nat \<Rightarrow> nat \<Rightarrow> int \<Rightarrow> int" where
  "cmp_values = cmp_step"

lemma cmp_loop_append: "cmp_loop f g (xs @ ys) rest = cmp_loop f g xs (cmp_loop f g ys rest)"
  by (induction xs) simp_all

lemma cmp_loop_values:
  "cmp_loop f g xs rest = cmp_step (be_value (map f xs)) (be_value (map g xs)) rest"
  for f g :: "'i \<Rightarrow> u8"
proof (induction xs)
  case Nil then show ?case by (simp add: cmp_step_def)
next
  case (Cons x xs)
  have b: "be_value (map h xs) < 256 ^ length xs" for h :: "'i \<Rightarrow> u8"
    using be_value_less [of "map h xs"] by simp
  show ?case
    using lex_less [OF b [of f] b [of g]] lex_less [OF b [of g] b [of f]]
    by (auto simp: Cons cmp_step_def word_less_nat_alt word_unat_eq_iff)
qed

lemma cmp_step_mono:
  "(l < r \<longleftrightarrow> l' < r') \<Longrightarrow> (r < l \<longleftrightarrow> r' < l') \<Longrightarrow> cmp_step l r x = cmp_step l' r' x"
  by (simp add: cmp_step_def)

lemma be_word_value:
  "unat (bswap32 (buf_word bs i)) = be_value (map (nth bs) (word_span i))"
  using word_bytes_le_word [of "bs ! i" "bs ! (i + 1)" "bs ! (i + 2)" "bs ! (i + 3)"]
  by (simp add: bswap32_def buf_word_def unat_le_word word_bytes_def)

lemma le_word_value:
  "unat (buf_word bs i) = be_value (map (nth bs) (rev (word_span i)))"
  by (simp add: buf_word_def unat_le_word)

lemma cmp_words_be:
  "cmp_loop (\<lambda>i. bswap32 (buf_word l i)) (\<lambda>i. bswap32 (buf_word r i)) is rest
     = cmp_loop (nth l) (nth r) (concat (map word_span is)) rest"
proof (induction "is")
  case (Cons i "is")
  have "cmp_step (bswap32 (buf_word l i)) (bswap32 (buf_word r i)) x =
      cmp_loop (nth l) (nth r) (word_span i) x" for x
    unfolding cmp_loop_values
    by (rule cmp_step_mono) (simp_all only: word_less_nat_alt be_word_value)
  then show ?case by (simp only: Cons cmp_loop.simps list.map concat.simps cmp_loop_append)
qed simp

lemma cmp_words_le:
  "cmp_loop (buf_word l) (buf_word r) (rev is) rest
     = cmp_loop (nth l) (nth r) (rev (concat (map word_span is))) rest"
proof (induction "is" arbitrary: rest)
  case (Cons i "is")
  have "cmp_step (buf_word l i) (buf_word r i) x =
      cmp_loop (nth l) (nth r) (rev (word_span i)) x" for x
    unfolding cmp_loop_values
    by (rule cmp_step_mono) (simp_all only: word_less_nat_alt le_word_value)
  then show ?case by (simp only: Cons cmp_loop.simps list.map concat.simps cmp_loop_append rev.simps(2) rev_append)
qed simp

lemma map_nth_take: "len \<le> length xs \<Longrightarrow> map (nth xs) [0..<len] = take len xs"
  by (simp add: list_eq_iff_nth_eq)

lemma memcmp_value:
  assumes "len \<le> length l" "len \<le> length r"
  shows "memcmp p l q r len = cmp_step (be_value (take len l)) (be_value (take len r)) kMemCmpEq"
proof -
  obtain b t where bt: "compute_alignment p q len = (b, t)" by force
  have "memcmp p l q r len = cmp_loop (nth l) (nth r) [0..<len] kMemCmpEq"
    unfolding compute_alignment_parts(4) [OF bt] cmp_loop_append
    by (simp add: memcmp_def bt cmp_words_be)
  then show ?thesis by (simp add: cmp_loop_values map_nth_take assms)
qed

lemma memrcmp_value:
  assumes "len \<le> length l" "len \<le> length r"
  shows "memrcmp p l q r len = cmp_step (le_value (take len l)) (le_value (take len r)) kMemCmpEq"
proof -
  obtain b t where bt: "compute_alignment p q len = (b, t)" by force
  have "memrcmp p l q r len = cmp_loop (nth l) (nth r) (rev [0..<len]) kMemCmpEq"
    unfolding compute_alignment_parts(4) [OF bt] rev_append cmp_loop_append
    by (simp add: memrcmp_def bt cmp_words_le)
  then show ?thesis by (simp add: cmp_loop_values map_nth_take assms le_value_def flip: rev_map)
qed

section \<open>Search\<close>

lemma find_loop_append: "find_loop f (xs @ ys) rest = find_loop f xs (find_loop f ys rest)"
  by (induction xs) (auto split: option.split)

lemma find_loop_find:
  "find_loop (find_byte bs v) is None = find (\<lambda>i. bs ! i = v) is"
  by (induction "is") (simp_all add: find_byte_def)

lemma byte_bits: "(drop_bit k w AND 0xff = 0xff) = (\<forall>n<8. bit w (k + n))" for w :: u32
proof -
  have m: "(0xff :: u32) = mask 8" by (simp add: mask_eq_exp_minus_1)
  have l: "bit (drop_bit k w AND mask 8) n = (n < 8 \<and> bit w (k + n))" for n
    by (auto simp: bit_and_iff bit_mask_iff bit_drop_bit_eq dest: bit_imp_le_length)
  have r: "bit (mask 8 :: u32) n = (n < 8)" for n by (auto simp: bit_mask_iff)
  have s: "n < 8 \<Longrightarrow> n < 32" for n :: nat by simp
  show ?thesis unfolding m by (subst bit_eq_iff) (simp add: l r, use s in blast)
qed

lemma byte_eq_bits: "(ucast (drop_bit k w) = (ucast (drop_bit k v) :: u8))
    = (\<forall>n<8. bit w (k + n) = bit v (k + n))" for w v :: u32
  by (auto simp: bit_eq_iff bit_simps add.commute)


lemma repeat_byte_le: "repeat_byte_to_u32 v = le_word v v v v"
  unfolding repeat_byte_to_u32_def le_word_def by (simp add: or.commute or.left_commute)

lemma buf_word_byte: "k < 4 \<Longrightarrow> ucast (drop_bit (8 * k) (buf_word bs i)) = bs ! (i + k)"
  using word_bytes_le_word [of "bs ! i" "bs ! (i + 1)" "bs ! (i + 2)" "bs ! (i + 3)"]
  by (auto simp: buf_word_def word_bytes_def numeral_eq_Suc less_Suc_eq)

lemma repeat_byte: "k < 4 \<Longrightarrow> ucast (drop_bit (8 * k) (repeat_byte_to_u32 v)) = v"
  using word_bytes_le_word [of v v v v]
  by (auto simp: repeat_byte_le word_bytes_def numeral_eq_Suc less_Suc_eq)

lemma byte_matches_iff:
  assumes "k < 4"
  shows "byte_matches (NOT (buf_word bs i XOR repeat_byte_to_u32 v)) k = (bs ! (i + k) = v)"
proof -
  let ?w = "buf_word bs i" and ?r = "repeat_byte_to_u32 v"
  have "byte_matches (NOT (?w XOR ?r)) k = (\<forall>n<8. bit (NOT (?w XOR ?r)) (8 * k + n))"
    by (simp add: byte_matches_def byte_bits)
  also have "\<dots> = (\<forall>n<8. bit ?w (8 * k + n) = bit ?r (8 * k + n))"
    using assms by (auto simp: bit_not_iff bit_xor_iff)
  also have "\<dots> = (bs ! (i + k) = v)"
    using byte_eq_bits [of "8 * k" ?w ?r] by (simp add: buf_word_byte repeat_byte assms)
  finally show ?thesis .
qed

lemma find_word_bytes:
  "set order \<subseteq> {0, 1, 2, 3} \<Longrightarrow>
   find_word order bs v i = find_loop (find_byte bs v) (map ((+) i) order) None"
  unfolding find_word_def Let_def
  by (induction order) (auto simp: find_byte_def byte_matches_iff)

lemma find_words:
  assumes "set order \<subseteq> {0, 1, 2, 3}"
  shows "find_loop (find_word order bs v) is rest
    = find_loop (find_byte bs v) (concat (map (\<lambda>i. map ((+) i) order) is)) rest"
proof (induction "is")
  case (Cons i "is")
  have "(case find_loop f xs None of Some j \<Rightarrow> Some j | None \<Rightarrow> rest) = find_loop f xs rest"
    for f :: "nat \<Rightarrow> nat option" and xs rest
    by (induction xs) (auto split: option.split)
  then show ?case
    unfolding list.map concat.simps find_loop_append find_loop.simps Cons [symmetric]
      find_word_bytes [OF assms] by (simp only:)
qed simp

lemma memchr_find: "memchr p bs v len = find (\<lambda>i. bs ! i = v) [0..<len]"
proof -
  obtain b t where bt: "compute_alignment p 0 len = (b, t)" by force
  have "memchr p bs v len = find_loop (find_byte bs v) [0..<len] None"
    unfolding compute_alignment_parts(4) [OF bt] find_loop_append
    by (simp add: memchr_def bt find_words)
  then show ?thesis by (simp add: find_loop_find)
qed

lemma memrchr_find: "memrchr p bs v len = find (\<lambda>i. bs ! i = v) (rev [0..<len])"
proof -
  obtain b t where bt: "compute_alignment p 0 len = (b, t)" by force
  have r: "rev (concat (map word_span is)) = concat (map (\<lambda>i. map ((+) i) [3, 2, 1, 0]) (rev is))" for "is"
    by (induction "is") simp_all
  have "memrchr p bs v len = find_loop (find_byte bs v) (rev [0..<len]) None"
    unfolding compute_alignment_parts(4) [OF bt] rev_append find_loop_append r
    by (simp add: memrchr_def bt find_words)
  then show ?thesis by (simp add: find_loop_find)
qed


section \<open>Copy\<close>

text \<open>Addresses of a buffer, and buffers that do not overlap.\<close>

definition apart :: "u32 \<Rightarrow> u32 \<Rightarrow> nat \<Rightarrow> bool" where
  "apart dest src len \<longleftrightarrow> len \<le> 2 ^ 32 \<and> (\<forall>i<len. \<forall>j<len. dest + of_nat i \<noteq> src + of_nat j)"

abbreviation (input) copy8 :: "u32 \<Rightarrow> u32 \<Rightarrow> nat \<Rightarrow> memory \<Rightarrow> memory" where
  "copy8 dest src \<equiv> \<lambda>i m. m(dest + of_nat i := m (src + of_nat i))"

lemma copy32_bytes:
  assumes "apart dest src len" "i + 3 < len"
  shows "write_32 (read_32 m (src + of_nat i)) (dest + of_nat i) m = fold (copy8 dest src) (word_span i) m"
proof -
  have a: "dest + of_nat i' \<noteq> src + of_nat j" if "i' < len" "j < len" for i' j
    using assms that by (auto simp: apart_def)
  have n: "dest + of_nat i + 1 = dest + of_nat (i + 1)" "dest + of_nat i + 2 = dest + of_nat (i + 2)"
    "dest + of_nat i + 3 = dest + of_nat (i + 3)" "src + of_nat i + 1 = src + of_nat (i + 1)"
    "src + of_nat i + 2 = src + of_nat (i + 2)" "src + of_nat i + 3 = src + of_nat (i + 3)"
    by simp_all
  show ?thesis unfolding write_32_def read_32_def n le_word_ucasts
    using assms(2) by (simp add: a a [symmetric] del: of_nat_add of_nat_Suc)
qed

lemma fold_blocks:
  "(\<And>i m. i \<in> set is \<Longrightarrow> f i m = fold g (h i) m) \<Longrightarrow> fold f is m = fold g (concat (map h is)) m"
  by (induction "is" arbitrary: m) simp_all

lemma copy_words:
  assumes "apart dest src len" "\<forall>i\<in>set is. i + 3 < len"
  shows "fold (\<lambda>i m. write_32 (read_32 m (src + of_nat i)) (dest + of_nat i) m) is m
    = fold (copy8 dest src) (concat (map word_span is)) m"
  by (rule fold_blocks) (use copy32_bytes [OF assms(1)] assms(2) in blast)

lemma buf_offset: "n < 2 ^ 32 \<Longrightarrow> unat (a - p) = n \<longleftrightarrow> a = p + of_nat n" for a p :: u32
proof
  assume "unat (a - p) = n"
  then have "a - p = of_nat n" by auto
  then show "a = p + of_nat n" by (simp add: diff_eq_eq add.commute)
qed (simp add: unat_of_nat)

lemma fold_copy8:
  assumes "apart dest src len" "n \<le> len"
  shows "fold (copy8 dest src) [0..<n] m =
    (\<lambda>a. if unat (a - dest) < n then m (src + (a - dest)) else m a)"
  using assms(2)
proof (induction n)
  case (Suc n)
  have n: "n < 2 ^ 32" using Suc.prems assms(1) by (simp add: apart_def)
  note u = buf_offset [OF n, of _ dest]
  have s: "unat (src + of_nat n - dest) \<ge> n"
  proof (rule ccontr)
    assume "\<not> unat (src + of_nat n - dest) \<ge> n"
    then have "unat (src + of_nat n - dest) < len" "n < len" using Suc.prems by simp_all
    then have "dest + of_nat (unat (src + of_nat n - dest)) \<noteq> src + of_nat n"
      using assms(1) unfolding apart_def by blast
    then show False by simp
  qed
  show ?case
    using Suc s u n by (auto simp: fun_eq_iff less_Suc_eq unat_of_nat)
qed simp

lemma memcpy_copies:
  assumes "apart dest src len" "dest \<noteq> 0" "src \<noteq> 0"
  shows "memcpy dest src len m = (\<lambda>a. if unat (a - dest) < len then m (src + (a - dest)) else m a)"
proof -
  obtain b t where bt: "compute_alignment dest src len = (b, t)" by force
  have i: "\<forall>i\<in>set (word_steps b t). i + 3 < len"
    using compute_alignment_parts(1-3) [OF bt] by (auto simp: word_steps_def)
  have "memcpy dest src len m = fold (copy8 dest src) [0..<len] m"
    unfolding compute_alignment_parts(4) [OF bt] fold_append comp_def
    by (simp add: Let_def memcpy_def bt assms(2,3) copy_words [OF assms(1) i])
  then show ?thesis by (simp only: fold_copy8 [OF assms(1) order_refl])
qed

lemma write_repeat:
  "write_32 (repeat_byte_to_u32 v) (dest + of_nat i) m
     = fold (\<lambda>i m. m(dest + of_nat i := v)) (word_span i) m"
  unfolding write_32_def repeat_byte_le le_word_ucasts by (simp add: ac_simps)

lemma fold_set8:
  "n \<le> 2 ^ 32 \<Longrightarrow> fold (\<lambda>i m. m(dest + of_nat i := v)) [0..<n] m =
    (\<lambda>a. if unat (a - dest) < n then v else m a)" for dest :: u32
proof (induction n)
  case (Suc n)
  then have "n < 2 ^ 32" by simp
  with Suc show ?case by (auto simp: fun_eq_iff less_Suc_eq buf_offset)
qed simp

lemma memset_fills:
  assumes "len \<le> 2 ^ 32"
  shows "memset dest v len m = (\<lambda>a. if unat (a - dest) < len then v else m a)"
proof -
  obtain b t where bt: "compute_alignment dest 0 len = (b, t)" by force
  have w: "fold (\<lambda>i m. write_32 (repeat_byte_to_u32 v) (dest + of_nat i) m) is m
      = fold (\<lambda>i m. m(dest + of_nat i := v)) (concat (map word_span is)) m" for "is" m
    by (rule fold_blocks) (rule write_repeat)
  have "memset dest v len m = fold (\<lambda>i m. m(dest + of_nat i := v)) [0..<len] m"
    unfolding compute_alignment_parts(4) [OF bt] fold_append comp_def
    by (simp add: Let_def memset_def bt w)
  then show ?thesis by (simp only: fold_set8 [OF assms])
qed

section \<open>Properties\<close>

text \<open>C20: \<open>memcmp\<close>, word accesses and alignment included, is
  the comparison of the two buffers as big-endian numbers; \<open>memrcmp\<close>, which the signature
  check uses to compare with the modulus, of the buffers as little-endian numbers.\<close>

theorem memcmp_compares_big_endian:
  assumes "len \<le> length l" "len \<le> length r"
  shows "memcmp p l q r len = cmp_step (be_value (take len l)) (be_value (take len r)) kMemCmpEq \<and>
    memrcmp p l q r len = cmp_step (le_value (take len l)) (le_value (take len r)) kMemCmpEq"
  using assms by (simp add: memcmp_value memrcmp_value)

theorem memcmp_compares_big_endian_witness:
  "memcmp 4 [1, 2, 3, 4, 5, 6] 8 [1, 2, 3, 4, 6, 5] 6 = kMemCmpLt \<and>
   memrcmp 4 [1, 2, 3, 4, 5, 6] 8 [1, 2, 3, 4, 6, 5] 6 = kMemCmpGt"
  using memcmp_compares_big_endian [of 6 "[1, 2, 3, 4, 5, 6]" "[1, 2, 3, 4, 6, 5]" 4 8]
  by (simp add: cmp_step_def le_value_def)

text \<open>C21: \<open>memchr\<close> finds the first and \<open>memrchr\<close> the
  last occurrence of the byte, although both look at four bytes at a time.\<close>

theorem memchr_finds_first_last:
  "memchr p bs v len = find (\<lambda>i. bs ! i = v) [0..<len] \<and>
   memrchr p bs v len = find (\<lambda>i. bs ! i = v) (rev [0..<len])"
  by (simp add: memchr_find memrchr_find)

text \<open>C22: \<open>memcpy\<close> between buffers that do not overlap copies
  exactly \<open>len\<close> bytes, \<open>memset\<close> fills exactly \<open>len\<close> bytes, and neither changes any
  other address, at every alignment and also where the buffer wraps the address space.\<close>

theorem memcpy_memset_effect:
  assumes "apart dest src len" "dest \<noteq> 0" "src \<noteq> 0"
  shows "memcpy dest src len m = (\<lambda>a. if unat (a - dest) < len then m (src + (a - dest)) else m a) \<and>
    memset dest v len m = (\<lambda>a. if unat (a - dest) < len then v else m a)"
  using assms memcpy_copies [OF assms] memset_fills [of len dest v m] by (simp add: apart_def)

theorem memcpy_memset_effect_witness:
  "memcpy 0x100 0x200 3 ucast 0x101 = (0x01 :: u8) \<and> memset 0x100 9 3 ucast 0x103 = (0x03 :: u8)"
proof -
  have "256 + of_nat i \<noteq> (512 :: u32) + of_nat j" if "i < 3" "j < 3" for i j
    using that by (auto simp: numeral_3_eq_3 less_Suc_eq)
  then have "apart 0x100 0x200 3" by (simp add: apart_def)
  from memcpy_memset_effect [OF this, of ucast 9] show ?thesis by simp
qed

end
