(* ===== verification/Boot_Data.thy ===== *)
theory Boot_Data
  imports Flash_Ctrl Hmac Memory
begin

text \<open>\<open>lib/boot_data.c\<close>: the boot data log kept in two flash info pages. Each page holds 32
  entries of 16 words; a new entry is appended to the active page, or to the erased other page
  when the active one is full, and only then is the old entry invalidated. The results of the C
  functions and their out parameters are returned together; every structure is word aligned, so
  that buffer addresses are given as their offset in it.\<close>

unbundle bit_operations_syntax

abbreviation (input) kBootDataIdentifier :: u32 where "kBootDataIdentifier \<equiv> 0x41444f42"
abbreviation (input) kBootDataValidEntry :: u64 where "kBootDataValidEntry \<equiv> 0xffffffffffffffff"
abbreviation (input) kBootDataInvalidEntry :: u64 where "kBootDataInvalidEntry \<equiv> 0"
abbreviation (input) kBootDataDefaultCounterVal :: u32 where "kBootDataDefaultCounterVal \<equiv> 5"
abbreviation (input) kBootDataNumWords :: nat where "kBootDataNumWords \<equiv> 16"
abbreviation (input) kBootDataEntriesPerPage :: nat where "kBootDataEntriesPerPage \<equiv> 32"
abbreviation (input) kHmacDigestNumWords :: nat where "kHmacDigestNumWords \<equiv> 8"
abbreviation (input) kFlashCtrlSecMmioInfoPermsSet :: u32 where "kFlashCtrlSecMmioInfoPermsSet \<equiv> 1"
abbreviation (input) sizeof_boot_data :: u32 where "sizeof_boot_data \<equiv> 64"
abbreviation (input) kDigestRegionOffset :: nat where "kDigestRegionOffset \<equiv> 32"
abbreviation (input) kIsValidOffset :: u32 where "kIsValidOffset \<equiv> 32"
abbreviation (input) kSecondWriteOffsetBytes :: u32 where "kSecondWriteOffsetBytes \<equiv> 40"
abbreviation (input) kSecondWriteOffsetWords :: nat where "kSecondWriteOffsetWords \<equiv> 10"

definition kPages :: "u32 list" where
  "kPages = [kFlashCtrlInfoPageBootData0, kFlashCtrlInfoPageBootData1]"

section \<open>The layout of an entry\<close>

definition boot_data_words :: "boot_data \<Rightarrow> u32 list" where
  "boot_data_words b = bd_digest b
     @ [ucast (bd_is_valid b), ucast (drop_bit 32 (bd_is_valid b)), bd_identifier b, bd_counter b,
        bd_min_security_version_rom_ext b, bd_min_security_version_bl0 b]
     @ [buf_word (bd_padding b) 0, buf_word (bd_padding b) 4]"

definition boot_data_of_words :: "u32 list \<Rightarrow> boot_data" where
  "boot_data_of_words ws =
     \<lparr>bd_digest = take 8 ws, bd_is_valid = push_bit 32 (ucast (ws ! 9)) OR ucast (ws ! 8),
       bd_identifier = ws ! 10, bd_counter = ws ! 11, bd_min_security_version_rom_ext = ws ! 12,
       bd_min_security_version_bl0 = ws ! 13,
       bd_padding = word_bytes (ws ! 14) @ word_bytes (ws ! 15)\<rparr>"

definition boot_data_bytes :: "boot_data \<Rightarrow> u8 list" where
  "boot_data_bytes b = concat (map word_bytes (boot_data_words b))"

section \<open>Digest, empty entries\<close>

definition boot_data_digest_compute :: "boot_data \<Rightarrow> u32 list rom" where
  "boot_data_digest_compute boot_data = (bindM hmac_sha256_init (\<lambda>_.
    bindM (hmac_sha256_update (of_nat kDigestRegionOffset)
       (drop kDigestRegionOffset (boot_data_bytes boot_data))) (\<lambda>_.
    hmac_sha256_final)))"

definition boot_data_is_empty :: "u32 list \<Rightarrow> u32 rom" where
  "boot_data_is_empty ws = (let res = fold (AND) (take kBootDataNumWords ws) kFlashCtrlErasedWord in
    let is_empty = fold (AND) (take kBootDataNumWords ws) kHardenedBoolTrue in
    if res = kFlashCtrlErasedWord
     then (bindM (HARDENED_CHECK_EQ res kFlashCtrlErasedWord) (\<lambda>_.
     returnM is_empty))
     else returnM kHardenedBoolFalse)"

section \<open>Access to one entry\<close>

definition entry_offset :: "u32 \<Rightarrow> u32" where
  "entry_offset index = index * sizeof_boot_data"

definition boot_data_sniff :: "u32 \<Rightarrow> u32 \<Rightarrow> (rom_error * u32) rom" where
  "boot_data_sniff page index = (bindM (flash_ctrl_info_read page (entry_offset index + kIsValidOffset) 3) (\<lambda>(error, buf).
    if error \<noteq> kErrorOk then returnM (error, 0)
     else (bindM (HARDENED_CHECK_EQ error kErrorOk) (\<lambda>_.
     returnM (kErrorOk, buf ! 0 AND buf ! 1 AND buf ! 2)))))"

definition boot_data_entry_read :: "u32 \<Rightarrow> u32 \<Rightarrow> (rom_error * u32 list) rom" where
  "boot_data_entry_read page index =
     flash_ctrl_info_read page (entry_offset index) (of_nat kBootDataNumWords)"

definition boot_data_entry_write_impl :: "u32 \<Rightarrow> u32 \<Rightarrow> boot_data \<Rightarrow> u32 \<Rightarrow> rom_error rom" where
  "boot_data_entry_write_impl page index boot_data erase = (RETURN_IF_ERROR ((if erase = kHardenedBoolTrue
       then flash_ctrl_info_erase page kFlashCtrlEraseTypePage else returnM kErrorOk)) (
    let offset = entry_offset index in
    RETURN_IF_ERROR ((flash_ctrl_info_write page offset
       (take kHmacDigestNumWords (boot_data_words boot_data)))) (
    RETURN_IF_ERROR ((flash_ctrl_info_write page (offset + kSecondWriteOffsetBytes)
       (drop kSecondWriteOffsetWords (boot_data_words boot_data)))) (
    bindM (flash_ctrl_info_read page offset (of_nat kBootDataNumWords)) (\<lambda>(error, written).
    if error \<noteq> kErrorOk then returnM error else
    if memcmp 0 (concat (map word_bytes written)) 0 (boot_data_bytes boot_data)
          (unat sizeof_boot_data) \<noteq> 0
     then returnM kErrorBootDataWriteCheck
     else returnM kErrorOk)))))"

definition perms :: "u32 \<Rightarrow> u32 \<Rightarrow> u32 \<Rightarrow> flash_ctrl_perms" where
  "perms rd wr er = \<lparr>perm_read = rd, perm_write = wr, perm_erase = er\<rparr>"

definition boot_data_entry_write :: "u32 \<Rightarrow> u32 \<Rightarrow> boot_data \<Rightarrow> u32 \<Rightarrow> rom_error rom" where
  "boot_data_entry_write page index boot_data erase = (bindM (flash_ctrl_info_perms_set page (perms kMultiBitBool4True kMultiBitBool4True
       (if erase = kHardenedBoolTrue then kMultiBitBool4True else kMultiBitBool4False))) (\<lambda>_.
    bindM (boot_data_entry_write_impl page index boot_data erase) (\<lambda>error.
    bindM (flash_ctrl_info_perms_set page (perms kMultiBitBool4False kMultiBitBool4False kMultiBitBool4False)) (\<lambda>_.
    bindM (SEC_MMIO_WRITE_INCREMENT (2 * kFlashCtrlSecMmioInfoPermsSet)) (\<lambda>_.
    returnM error)))))"

definition boot_data_entry_invalidate :: "u32 \<Rightarrow> u32 \<Rightarrow> rom_error rom" where
  "boot_data_entry_invalidate page index = (let offset = entry_offset index + kIsValidOffset in
    bindM (flash_ctrl_info_perms_set page (perms kMultiBitBool4False kMultiBitBool4True kMultiBitBool4False)) (\<lambda>_.
    bindM (flash_ctrl_info_write page offset [0, 0]) (\<lambda>error.
    bindM (flash_ctrl_info_perms_set page (perms kMultiBitBool4False kMultiBitBool4False kMultiBitBool4False)) (\<lambda>_.
    bindM (SEC_MMIO_WRITE_INCREMENT (2 * kFlashCtrlSecMmioInfoPermsSet)) (\<lambda>_.
    returnM error)))))"

section \<open>Checking the digest\<close>

definition kCheckShares :: "u32 list" where
  "kCheckShares = [0xe021e1a9, 0xf81e8365, 0xbf8322db, 0xc7a37080, 0x271a933f,
     0xdd8ce33f, 0x7585d574, 0x951777af, 0x381dee3a]"

definition check_error :: "u32 list \<Rightarrow> u32 list \<Rightarrow> u32 \<Rightarrow> u32" where
  "check_error digest act_digest ident =
     (let error = fold (\<lambda>i e. e XOR (digest ! i XOR act_digest ! i XOR kCheckShares ! i))
        [0..<kHmacDigestNumWords] kErrorBootDataInvalid
      in error XOR (ident XOR kCheckShares ! kHmacDigestNumWords))"

definition boot_data_check :: "boot_data \<Rightarrow> rom_error rom" where
  "boot_data_check boot_data = (bindM (boot_data_digest_compute boot_data) (\<lambda>act_digest.
    let error = check_error (bd_digest boot_data) act_digest (bd_identifier boot_data) in
    if error = kErrorOk
     then (bindM (HARDENED_CHECK_EQ error kErrorOk) (\<lambda>_.
     returnM error))
     else returnM kErrorBootDataInvalid))"

section \<open>The active page\<close>

record active_page_info =
  ap_page :: u32
  ap_has_empty_entry :: u32
  ap_first_empty_index :: u32
  ap_has_valid_entry :: u32
  ap_last_valid_index :: u32

text \<open>The forward search, over the indices that are left: the error code, the cached
  identifiers, whether there is an empty entry and its index.\<close>

fun find_empty :: "u32 \<Rightarrow> nat list \<Rightarrow> u32 list \<Rightarrow> u32 \<Rightarrow> (rom_error * u32 list * u32 * nat) rom" where
  "find_empty page [] sniffs has_empty = returnM (kErrorOk, sniffs, has_empty, kBootDataEntriesPerPage)"
| "find_empty page (i # ix) sniffs has_empty = (bindM (boot_data_sniff page (of_nat i)) (\<lambda>(error, s).
    if error \<noteq> kErrorOk then returnM (error, sniffs, has_empty, i) else
    bindM (HARDENED_CHECK_EQ error kErrorOk) (\<lambda>_.
    if s = kFlashCtrlErasedWord
     then (bindM (boot_data_entry_read page (of_nat i)) (\<lambda>(error, buf).
     if error \<noteq> kErrorOk then returnM (error, sniffs @ [s], has_empty, i) else
     bindM (HARDENED_CHECK_EQ error kErrorOk) (\<lambda>_.
     bindM (boot_data_is_empty buf) (\<lambda>empty.
     if empty = kHardenedBoolTrue
       then (bindM (HARDENED_CHECK_EQ empty kHardenedBoolTrue) (\<lambda>_.
      returnM (kErrorOk, sniffs @ [s], empty, i)))
       else (bindM (HARDENED_CHECK_EQ empty kHardenedBoolFalse) (\<lambda>_.
      find_empty page ix (sniffs @ [s]) empty))))))
     else find_empty page ix (sniffs @ [s]) has_empty)))"

text \<open>The backward search, over the indices that are left: the error code, whether there is a
  valid entry, its index and the entry.\<close>

fun find_valid :: "u32 \<Rightarrow> nat list \<Rightarrow> u32 list \<Rightarrow> boot_data \<Rightarrow> (rom_error * u32 * u32 * boot_data) rom" where
  "find_valid page [] sniffs buf = returnM (kErrorOk, kHardenedBoolFalse, UINT32_MAX, buf)"
| "find_valid page (i # ix) sniffs buf =
     (if sniffs ! i = kBootDataIdentifier
      then (bindM (boot_data_entry_read page (of_nat i)) (\<lambda>(error, ws).
    let buf' = boot_data_of_words ws in
    if error \<noteq> kErrorOk then returnM (error, kHardenedBoolFalse, of_nat i, buf') else
    bindM (HARDENED_CHECK_EQ error kErrorOk) (\<lambda>_.
    bindM (boot_data_check buf') (\<lambda>is_valid.
    if is_valid = kErrorOk
        then (bindM (HARDENED_CHECK_EQ is_valid kErrorOk) (\<lambda>_.
     returnM (kErrorOk, is_valid, of_nat i, buf')))
        else (bindM (HARDENED_CHECK_EQ is_valid kErrorBootDataInvalid) (\<lambda>_.
     find_valid page ix sniffs buf'))))))
      else find_valid page ix sniffs buf)"

text \<open>The last step of the update: the entry found in this page against the newest so far.\<close>

definition page_info_merge ::
  "active_page_info \<Rightarrow> boot_data \<Rightarrow> active_page_info \<Rightarrow> boot_data \<Rightarrow> (active_page_info * boot_data) rom" where
  "page_info_merge new buf page_info boot_data =
     (if ap_has_valid_entry new = kHardenedBoolTrue
      then (bindM (HARDENED_CHECK_EQ (ap_has_valid_entry new) kHardenedBoolTrue) (\<lambda>_.
    if ap_has_valid_entry page_info = kHardenedBoolFalse
        then (bindM (HARDENED_CHECK_EQ (ap_has_valid_entry page_info) kHardenedBoolFalse) (\<lambda>_.
     returnM (new, buf)))
        else if ap_has_valid_entry page_info = kHardenedBoolTrue \<and> bd_counter buf > bd_counter boot_data
        then (bindM (HARDENED_CHECK_EQ (ap_has_valid_entry page_info) kHardenedBoolTrue) (\<lambda>_.
     bindM (HARDENED_CHECK_GT (bd_counter buf) (bd_counter boot_data)) (\<lambda>_.
     returnM (new, buf))))
        else (bindM (HARDENED_CHECK_EQ (ap_has_valid_entry page_info) kHardenedBoolTrue) (\<lambda>_.
     bindM (HARDENED_CHECK_LT (bd_counter buf) (bd_counter boot_data)) (\<lambda>_.
     returnM (page_info, boot_data))))))
      else returnM (page_info, boot_data))"

text \<open>The two searches of a page; the entry buffer starts as whatever is on the stack, here
  the entry passed in, and is not read unless an entry was found.\<close>

definition boot_data_page_scan :: "u32 \<Rightarrow> boot_data \<Rightarrow> (rom_error * active_page_info * boot_data) rom" where
  "boot_data_page_scan page buf = (bindM (find_empty page [0..<kBootDataEntriesPerPage] [] kHardenedBoolFalse) (\<lambda>(error, sniffs, has_empty, i).
    if error \<noteq> kErrorOk then returnM (error, \<lparr>ap_page = page, ap_has_empty_entry = has_empty,
       ap_first_empty_index = of_nat i, ap_has_valid_entry = kHardenedBoolFalse,
       ap_last_valid_index = UINT32_MAX\<rparr>, buf) else
    bindM (HARDENED_CHECK_LE (of_nat i) (of_nat kBootDataEntriesPerPage)) (\<lambda>_.
    bindM (find_valid page (rev [0..<i]) sniffs buf) (\<lambda>(error, has_valid, k, buf').
    returnM (error, \<lparr>ap_page = page, ap_has_empty_entry = has_empty, ap_first_empty_index = of_nat i,
       ap_has_valid_entry = has_valid, ap_last_valid_index = k\<rparr>, buf')))))"

definition boot_data_page_info_update_impl ::
  "u32 \<Rightarrow> active_page_info \<Rightarrow> boot_data \<Rightarrow> (rom_error * active_page_info * boot_data) rom" where
  "boot_data_page_info_update_impl page page_info boot_data = (bindM (boot_data_page_scan page boot_data) (\<lambda>(error, new, buf).
    if error \<noteq> kErrorOk then returnM (error, page_info, boot_data) else
    bindM (page_info_merge new buf page_info boot_data) (\<lambda>(info', data').
    returnM (kErrorOk, info', data'))))"

definition boot_data_page_info_update ::
  "u32 \<Rightarrow> active_page_info \<Rightarrow> boot_data \<Rightarrow> (rom_error * active_page_info * boot_data) rom" where
  "boot_data_page_info_update page page_info boot_data = (bindM (flash_ctrl_info_perms_set page (perms kMultiBitBool4True kMultiBitBool4False kMultiBitBool4False)) (\<lambda>_.
    bindM (boot_data_page_info_update_impl page page_info boot_data) (\<lambda>r.
    bindM (flash_ctrl_info_perms_set page (perms kMultiBitBool4False kMultiBitBool4False kMultiBitBool4False)) (\<lambda>_.
    bindM (SEC_MMIO_WRITE_INCREMENT (2 * kFlashCtrlSecMmioInfoPermsSet)) (\<lambda>_.
    returnM r)))))"

definition no_active_page :: active_page_info where
  "no_active_page = \<lparr>ap_page = 0, ap_has_empty_entry = kHardenedBoolFalse,
     ap_first_empty_index = of_nat kBootDataEntriesPerPage, ap_has_valid_entry = kHardenedBoolFalse,
     ap_last_valid_index = of_nat kBootDataEntriesPerPage\<rparr>"

fun active_page_loop ::
  "u32 list \<Rightarrow> active_page_info \<Rightarrow> boot_data \<Rightarrow> (rom_error * active_page_info * boot_data) rom" where
  "active_page_loop [] info bd = returnM (kErrorOk, info, bd)"
| "active_page_loop (p # ps) info bd = (bindM (boot_data_page_info_update p info bd) (\<lambda>(error, info', bd').
    if error \<noteq> kErrorOk then returnM (error, info', bd') else
    bindM (HARDENED_CHECK_EQ error kErrorOk) (\<lambda>_.
    active_page_loop ps info' bd')))"

definition boot_data_active_page_find :: "boot_data \<Rightarrow> (rom_error * active_page_info * boot_data) rom" where
  "boot_data_active_page_find boot_data = active_page_loop kPages no_active_page boot_data"

section \<open>Reading and writing boot data\<close>

definition default_get_result :: "u32 \<Rightarrow> u32 \<Rightarrow> rom_error rom" where
  "default_get_result allowed_in_prod lc_state = (let res = lc_state XOR kErrorBootDataNotFound in
    if lc_state = kLcStateTest
     then (bindM (HARDENED_CHECK_EQ lc_state kLcStateTest) (\<lambda>_.
     returnM (res XOR (kLcStateTest XOR kErrorBootDataNotFound XOR kErrorOk))))
     else if lc_state = kLcStateDev
     then (bindM (HARDENED_CHECK_EQ lc_state kLcStateDev) (\<lambda>_.
     returnM (res XOR (kLcStateDev XOR kErrorBootDataNotFound XOR kErrorOk))))
     else if lc_state = kLcStateProd
     then (bindM (HARDENED_CHECK_EQ lc_state kLcStateProd) (\<lambda>_.
     let res = res XOR kLcStateProd in
     if allowed_in_prod = kHardenedBoolTrue
       then (bindM (HARDENED_CHECK_EQ allowed_in_prod kHardenedBoolTrue) (\<lambda>_.
      returnM (res XOR (kErrorBootDataNotFound XOR kErrorOk))))
       else returnM res))
     else if lc_state = kLcStateProdEnd
     then (bindM (HARDENED_CHECK_EQ lc_state kLcStateProdEnd) (\<lambda>_.
     let res = res XOR kLcStateProdEnd in
     if allowed_in_prod = kHardenedBoolTrue
       then (bindM (HARDENED_CHECK_EQ allowed_in_prod kHardenedBoolTrue) (\<lambda>_.
      returnM (res XOR (kErrorBootDataNotFound XOR kErrorOk))))
       else returnM res))
     else if lc_state = kLcStateRma
     then (bindM (HARDENED_CHECK_EQ lc_state kLcStateRma) (\<lambda>_.
     returnM (res XOR (kLcStateRma XOR kErrorBootDataNotFound XOR kErrorOk))))
     else HARDENED_UNREACHABLE)"

definition boot_data_default_get :: "u32 \<Rightarrow> boot_data \<Rightarrow> (rom_error * boot_data) rom" where
  "boot_data_default_get lc_state boot_data = (bindM (otp_read32 OTP_CTRL_PARAM_CREATOR_SW_CFG_DEFAULT_BOOT_DATA_IN_PROD_EN_OFFSET) (\<lambda>allowed_in_prod.
    bindM (default_get_result allowed_in_prod lc_state) (\<lambda>res.
    if res \<noteq> kErrorOk then returnM (res, boot_data) else
    bindM (HARDENED_CHECK_EQ res kErrorOk) (\<lambda>_.
    bindM (otp_read32 OTP_CTRL_PARAM_CREATOR_SW_CFG_MIN_SEC_VER_ROM_EXT_OFFSET) (\<lambda>rom_ext.
    bindM (otp_read32 OTP_CTRL_PARAM_CREATOR_SW_CFG_MIN_SEC_VER_BL0_OFFSET) (\<lambda>bl0.
    let b = boot_data\<lparr>bd_is_valid := kBootDataValidEntry, bd_identifier := kBootDataIdentifier,
       bd_counter := kBootDataDefaultCounterVal, bd_min_security_version_rom_ext := rom_ext,
       bd_min_security_version_bl0 := bl0\<rparr> in
    bindM (boot_data_digest_compute b) (\<lambda>digest.
    returnM (res, b\<lparr>bd_digest := digest\<rparr>))))))))"

definition boot_data_read :: "u32 \<Rightarrow> boot_data \<Rightarrow> (rom_error * boot_data) rom" where
  "boot_data_read lc_state boot_data = (bindM (boot_data_active_page_find boot_data) (\<lambda>(error, active_page, bd).
    if error \<noteq> kErrorOk then returnM (error, bd) else
    bindM (HARDENED_CHECK_EQ error kErrorOk) (\<lambda>_.
    if ap_has_valid_entry active_page = kHardenedBoolTrue
     then (bindM (HARDENED_CHECK_EQ (ap_has_valid_entry active_page) kHardenedBoolTrue) (\<lambda>_.
     returnM (kErrorOk, bd)))
     else if ap_has_valid_entry active_page = kHardenedBoolFalse
     then (bindM (HARDENED_CHECK_EQ (ap_has_valid_entry active_page) kHardenedBoolFalse) (\<lambda>_.
     boot_data_default_get lc_state bd))
     else HARDENED_UNREACHABLE)))"

definition boot_data_write :: "boot_data \<Rightarrow> boot_data \<Rightarrow> rom_error rom" where
  "boot_data_write stack boot_data = (let new_entry = boot_data\<lparr>bd_is_valid := kBootDataValidEntry, bd_identifier := kBootDataIdentifier\<rparr> in
    bindM (boot_data_active_page_find stack) (\<lambda>(error, active_page, last_entry).
    if error \<noteq> kErrorOk then returnM error else
    if ap_has_valid_entry active_page = kHardenedBoolTrue
     then (let new_entry = new_entry\<lparr>bd_counter := bd_counter last_entry + 1\<rparr> in
     bindM (boot_data_digest_compute new_entry) (\<lambda>digest.
     let new_entry = new_entry\<lparr>bd_digest := digest\<rparr> in
     RETURN_IF_ERROR ((if ap_has_empty_entry active_page = kHardenedBoolTrue
         then boot_data_entry_write (ap_page active_page) (ap_first_empty_index active_page)
           new_entry kHardenedBoolFalse
         else boot_data_entry_write
           (if ap_page active_page = kPages ! 0 then kPages ! 1 else kPages ! 0) 0
           new_entry kHardenedBoolTrue)) (
     RETURN_IF_ERROR ((boot_data_entry_invalidate (ap_page active_page) (ap_last_valid_index active_page))) (
     returnM kErrorOk))))
     else (let new_entry = new_entry\<lparr>bd_counter := kBootDataDefaultCounterVal + 1\<rparr> in
     bindM (boot_data_digest_compute new_entry) (\<lambda>digest.
     let new_entry = new_entry\<lparr>bd_digest := digest\<rparr> in
     RETURN_IF_ERROR ((boot_data_entry_write (kPages ! 0) 0 new_entry kHardenedBoolTrue)) (
     returnM kErrorOk)))))"

section \<open>Frames\<close>

lemma framed_boot_data_entry [framed_intros]:
  "quiet (boot_data_digest_compute b)" "sec_safe (boot_data_digest_compute b)"
  "quiet (boot_data_is_empty ws)" "sec_safe (boot_data_is_empty ws)"
  "quiet (boot_data_entry_read p i)" "sec_safe (boot_data_entry_read p i)"
  "quiet (boot_data_entry_write_impl p i b e)" "sec_safe (boot_data_entry_write_impl p i b e)"
  "quiet (boot_data_entry_write p i b e)" "sec_safe (boot_data_entry_write p i b e)"
  "quiet (boot_data_entry_invalidate p i)" "sec_safe (boot_data_entry_invalidate p i)"
  "quiet (boot_data_check b)" "sec_safe (boot_data_check b)"
  unfolding boot_data_digest_compute_def boot_data_is_empty_def boot_data_entry_read_def boot_data_entry_write_impl_def boot_data_entry_write_def boot_data_entry_invalidate_def boot_data_check_def split_beta Let_def
  by (intro framed_intros; (assumption | (simp; fail))?)+

lemma framed_boot_data_sniff [framed_intros]:
  "quiet (boot_data_sniff p i)" "sec_safe (boot_data_sniff p i)"
  unfolding boot_data_sniff_def split_beta Let_def
  by (intro framed_intros; (assumption | (simp; fail))?)+

lemma framed_find_empty [framed_intros]:
  "quiet (find_empty p ix ss h)" "sec_safe (find_empty p ix ss h)"
  by (induction p ix ss h rule: find_empty.induct)
    (auto simp: split_beta intro!: framed_intros)

lemma framed_find_valid [framed_intros]:
  "quiet (find_valid p ix ss b)" "sec_safe (find_valid p ix ss b)"
  by (induction p ix ss b rule: find_valid.induct)
    (auto simp: split_beta Let_def intro!: framed_intros)

lemma framed_page_update [framed_intros]:
  "quiet (page_info_merge n b i d)" "sec_safe (page_info_merge n b i d)"
  "quiet (boot_data_page_scan p b)" "sec_safe (boot_data_page_scan p b)"
  "quiet (boot_data_page_info_update_impl p i d)" "sec_safe (boot_data_page_info_update_impl p i d)"
  "quiet (boot_data_page_info_update p i d)" "sec_safe (boot_data_page_info_update p i d)"
  unfolding page_info_merge_def boot_data_page_scan_def boot_data_page_info_update_impl_def boot_data_page_info_update_def split_beta Let_def
  by (intro framed_intros; (assumption | (simp; fail))?)+

lemma framed_active_page_loop [framed_intros]:
  "quiet (active_page_loop ps i b)" "sec_safe (active_page_loop ps i b)"
  by (induction ps i b rule: active_page_loop.induct)
    (auto simp: split_beta intro!: framed_intros)

lemma framed_boot_data_api [framed_intros]:
  "quiet (boot_data_active_page_find b)" "sec_safe (boot_data_active_page_find b)"
  "quiet (default_get_result a s)" "sec_safe (default_get_result a s)"
  "quiet (boot_data_default_get s b)" "sec_safe (boot_data_default_get s b)"
  "quiet (boot_data_read s b)" "sec_safe (boot_data_read s b)"
  "quiet (boot_data_write st b)" "sec_safe (boot_data_write st b)"
  unfolding boot_data_active_page_find_def default_get_result_def boot_data_default_get_def boot_data_read_def boot_data_write_def split_beta Let_def
  by (intro framed_intros; (assumption | (simp; fail))?)+

section \<open>What the integrity check accepts\<close>

definition xor_words :: "u32 list \<Rightarrow> u32" where
  "xor_words ws = foldr (XOR) ws 0"

text \<open>The digest region of an entry, and the relation the check establishes.\<close>

definition entry_digest :: "(u8 list \<Rightarrow> u32 list) \<Rightarrow> boot_data \<Rightarrow> u32 list" where
  "entry_digest sha b = sha (drop kDigestRegionOffset (boot_data_bytes b))"

definition entry_accepted :: "(u8 list \<Rightarrow> u32 list) \<Rightarrow> boot_data \<Rightarrow> bool" where
  "entry_accepted sha b \<longleftrightarrow>
     xor_words (bd_digest b) XOR xor_words (entry_digest sha b) XOR bd_identifier b = kBootDataIdentifier"

lemma xor_words_simps [simp]:
  "xor_words [] = 0" "xor_words (w # ws) = w XOR xor_words ws"
  by (simp_all add: xor_words_def)

lemma fold_shares:
  "fold (\<lambda>i e. e XOR (f i XOR g i XOR h i)) is e =
     e XOR xor_words (map f is) XOR xor_words (map g is) XOR xor_words (map h is)" for f g h :: "nat \<Rightarrow> u32"
  by (induction "is" arbitrary: e) (simp_all add: xor.assoc xor.left_commute xor.commute)

lemma check_error_Ok:
  assumes "length d = 8" "length a = 8"
  shows "check_error d a ident = kErrorOk \<longleftrightarrow> xor_words d XOR xor_words a XOR ident = kBootDataIdentifier"
proof -
  have m: "map (nth ws) [0..<kHmacDigestNumWords] = ws" if "length ws = 8" for ws :: "u32 list"
    using map_nth [of ws] that by simp
  have s: "kErrorBootDataInvalid XOR xor_words (map (nth kCheckShares) [0..<kHmacDigestNumWords])
      XOR kCheckShares ! kHmacDigestNumWords = kErrorOk XOR kBootDataIdentifier"
    by code_simp
  have "check_error d a ident = (xor_words d XOR xor_words a XOR ident) XOR
      (kErrorBootDataInvalid XOR xor_words (map (nth kCheckShares) [0..<kHmacDigestNumWords])
        XOR kCheckShares ! kHmacDigestNumWords)"
    unfolding check_error_def Let_def fold_shares m [OF assms(1)] m [OF assms(2)]
    by (simp only: ac_simps)
  also have "... = (xor_words d XOR xor_words a XOR ident) XOR (kBootDataIdentifier XOR kErrorOk)"
    unfolding s by (simp only: xor.commute)
  finally show ?thesis
    by (simp only: xor_flip xor.assoc [symmetric]) (simp add: xor_flip)
qed

lemma boot_data_digest_run:
  assumes "hmac_device sha (plat m)" "\<forall>msg. length (sha msg) = 8"
  shows "case boot_data_digest_compute b m of Done d t \<Rightarrow> d = entry_digest sha b | Stop e t \<Rightarrow> e = Out_of_polls"
  unfolding boot_data_digest_compute_def entry_digest_def using assms by (intro hmac_run_one) simp_all

lemma boot_data_check_run:
  assumes dev: "hmac_device sha (plat m)" and len: "\<forall>msg. length (sha msg) = 8" "length (bd_digest b) = 8"
  shows "case boot_data_check b m of
      Done r t \<Rightarrow> r = (if entry_accepted sha b then kErrorOk else kErrorBootDataInvalid)
    | Stop e t \<Rightarrow> e = Out_of_polls"
proof -
  note d = boot_data_digest_run [OF dev len(1), of b]
  have "length (entry_digest sha b) = 8" using len by (simp add: entry_digest_def)
  then have c: "check_error (bd_digest b) (entry_digest sha b) (bd_identifier b) = kErrorOk \<longleftrightarrow> entry_accepted sha b"
    using len by (simp add: check_error_Ok entry_accepted_def)
  show ?thesis
    using d c by (cases "boot_data_digest_compute b m") (auto simp: boot_data_check_def Let_def)
qed

lemma xor_words_update:
  "i < length ws \<Longrightarrow> xor_words (ws[i := ws ! i XOR x]) = xor_words ws XOR x"
  by (induction ws arbitrary: i) (auto simp: nth_Cons' xor.assoc xor.left_commute xor.commute split: nat.split)

lemma entry_digest_same: "length (bd_digest b) = 8 \<Longrightarrow> length d = 8 \<Longrightarrow>
   entry_digest sha (b\<lparr>bd_digest := d\<rparr>) = entry_digest sha b"
  unfolding entry_digest_def boot_data_bytes_def boot_data_words_def
  by (simp add: drop_append comp_def length_concat sum_list_triv)

text \<open>The default entry: when it may be used, and that it passes the check.\<close>

definition default_allowed :: "u32 \<Rightarrow> u32 \<Rightarrow> bool" where
  "default_allowed allowed_in_prod lc \<longleftrightarrow>
     lc \<in> {kLcStateTest, kLcStateDev, kLcStateRma} \<or> allowed_in_prod = kHardenedBoolTrue"

lemma default_get_result_run:
  "default_get_result allowed lc m =
     (if lc \<in> {kLcStateTest, kLcStateDev, kLcStateProd, kLcStateProdEnd, kLcStateRma}
      then Done (if default_allowed allowed lc then kErrorOk else kErrorBootDataNotFound) m
      else Stop Trap m)"
  by (simp add: default_get_result_def default_allowed_def Let_def)

text \<open>An entry with the identifier and its own digest, as the code writes them.\<close>

definition signed_entry :: "(u8 list \<Rightarrow> u32 list) \<Rightarrow> boot_data \<Rightarrow> boot_data" where
  "signed_entry sha b =
     (let b' = b\<lparr>bd_identifier := kBootDataIdentifier\<rparr> in b'\<lparr>bd_digest := entry_digest sha b'\<rparr>)"

lemma signed_entry_accepted:
  assumes "\<forall>msg. length (sha msg) = 8" "length (bd_digest b) = 8"
  shows "entry_accepted sha (signed_entry sha b)"
proof -
  let ?b = "b\<lparr>bd_identifier := kBootDataIdentifier\<rparr>"
  have "length (entry_digest sha ?b) = 8" using assms(1) by (simp add: entry_digest_def)
  then show ?thesis
    using entry_digest_same [of ?b "entry_digest sha ?b" sha] assms(2)
    by (simp add: entry_accepted_def signed_entry_def Let_def xor.assoc [symmetric])
qed

section \<open>Properties\<close>

text \<open>C28: for a hash engine that behaves as documented, the integrity
  check accepts an entry exactly when the exclusive or of its eight digest words, of the eight words
  of the digest of its body and of its identifier is the boot data identifier, and answers
  \<open>kErrorBootDataInvalid\<close> otherwise. The entry that carries its own digest and the identifier is
  accepted.\<close>

theorem boot_data_check_exact:
  assumes "hmac_device sha (plat m)" "\<forall>msg. length (sha msg) = 8" "length (bd_digest b) = 8"
  shows "(case boot_data_check b m of
      Done r t \<Rightarrow> r = (if entry_accepted sha b then kErrorOk else kErrorBootDataInvalid)
    | Stop e t \<Rightarrow> e = Out_of_polls) \<and>
   entry_accepted sha (signed_entry sha b)"
proof
  show "case boot_data_check b m of
      Done r t \<Rightarrow> r = (if entry_accepted sha b then kErrorOk else kErrorBootDataInvalid)
    | Stop e t \<Rightarrow> e = Out_of_polls"
    using assms by (rule boot_data_check_run)
  show "entry_accepted sha (signed_entry sha b)" using assms(2,3) by (simp add: signed_entry_accepted)
qed

theorem boot_data_check_exact_witness:
  "case boot_data_check (signed_entry (\<lambda>msg. replicate 8 0) (g_boot_data sample_machine)) sample_machine of
      Done r t \<Rightarrow> r = kErrorOk
    | Stop e t \<Rightarrow> e = Out_of_polls"
proof -
  let ?b = "signed_entry (\<lambda>msg. replicate 8 0) (g_boot_data sample_machine)"
  note exact = boot_data_check_exact [OF sample_hmac, of ?b] boot_data_check_exact [OF sample_hmac, of "g_boot_data sample_machine"]
  have "length (bd_digest (g_boot_data sample_machine)) = 8" "length (bd_digest ?b) = 8"
    by (simp_all add: sample_machine_def signed_entry_def Let_def entry_digest_def)
  with exact show ?thesis by (auto split: outcome.split)
qed

text \<open>C29: because all comparisons are folded into one word, changing
  two words of the digest by the same difference never changes the answer: an entry whose digest is
  wrong is accepted. A change of a single word is always noticed.\<close>

theorem boot_data_check_blind_spot:
  assumes "hmac_device sha (plat m)" "\<forall>msg. length (sha msg) = 8" "length (bd_digest b) = 8"
    and "i < 8" "j < 8" "i \<noteq> j"
  shows "case boot_data_check (b\<lparr>bd_digest := (bd_digest b)[i := bd_digest b ! i XOR x,
        j := bd_digest b ! j XOR y]\<rparr>) m of
      Done r t \<Rightarrow> (if x = y then r = (if entry_accepted sha b then kErrorOk else kErrorBootDataInvalid)
        else \<not> (r = kErrorOk \<and> entry_accepted sha b))
    | Stop e t \<Rightarrow> e = Out_of_polls"
proof -
  let ?b = "b\<lparr>bd_digest := (bd_digest b)[i := bd_digest b ! i XOR x, j := bd_digest b ! j XOR y]\<rparr>"
  have "xor_words (bd_digest ?b) = xor_words (bd_digest b) XOR x XOR y"
    using assms(3-6) xor_words_update [of j "(bd_digest b)[i := bd_digest b ! i XOR x]" y]
      xor_words_update [of i "bd_digest b" x] by (simp add: xor.assoc)
  then have e: "entry_accepted sha ?b \<longleftrightarrow> (xor_words (bd_digest b) XOR xor_words (entry_digest sha b)
      XOR bd_identifier b) XOR x XOR y = kBootDataIdentifier"
    using assms(3) by (simp add: entry_accepted_def entry_digest_same ac_simps)
  have "entry_accepted sha ?b = entry_accepted sha b" if "x = y"
    unfolding e entry_accepted_def [of sha b] using that by (simp add: xor.assoc)
  moreover have "\<not> entry_accepted sha ?b" if "entry_accepted sha b" "x \<noteq> y"
    using that(2) unfolding e that(1) [unfolded entry_accepted_def] xor_cancel_zero .
  moreover have "length (bd_digest ?b) = 8" using assms(3) by simp
  ultimately show ?thesis
    using boot_data_check_run [OF assms(1,2), of ?b]
    by (cases "boot_data_check ?b m") (auto simp del: boot_data.update_convs)
qed

theorem boot_data_check_blind_spot_witness:
  "case boot_data_check ((g_boot_data sample_machine)\<lparr>bd_identifier := kBootDataIdentifier,
      bd_digest := [7, 7, 0, 0, 0, 0, 0, 0]\<rparr>) sample_machine of
      Done r t \<Rightarrow> r = kErrorOk
    | Stop e t \<Rightarrow> e = Out_of_polls"
proof -
  let ?b = "(g_boot_data sample_machine)\<lparr>bd_identifier := kBootDataIdentifier\<rparr>"
  have d: "bd_digest ?b = replicate 8 0" by (simp add: sample_machine_def)
  have replicate_8: "replicate 8 (0 :: u32) = [0, 0, 0, 0, 0, 0, 0, 0]" by (simp add: eval_nat_numeral)
  note dev = sample_hmac
  have "entry_accepted (\<lambda>msg. replicate 8 0) ?b"
    by (simp add: entry_accepted_def entry_digest_def d xor_words_def)
  then show ?thesis
    using boot_data_check_blind_spot [where m = sample_machine and b = ?b and i = 0 and j = 1 and x = 7 and y = 7,
        OF dev] d by (auto simp: replicate_8 split: outcome.splits)
qed

section \<open>What is read back has been checked\<close>

abbreviation digest_shaped :: "boot_data \<Rightarrow> bool" where
  "digest_shaped b \<equiv> length (bd_digest b) = 8"

lemma entry_read_shaped:
  "boot_data_entry_read page i m = Done (e, ws) t \<Longrightarrow> digest_shaped (boot_data_of_words ws)"
  unfolding boot_data_entry_read_def boot_data_of_words_def by (drule info_read_length) simp

lemma find_valid_sound:
  assumes dev: "hmac_device sha p" "\<forall>msg. length (sha msg) = 8"
  shows "find_valid page ix ss buf m = Done (kErrorOk, has, k, b) t \<Longrightarrow> plat m = p \<Longrightarrow> digest_shaped buf \<Longrightarrow>
    digest_shaped b \<and> (has = kHardenedBoolFalse \<or> has = kHardenedBoolTrue \<and> entry_accepted sha b)"
proof (induction ix arbitrary: buf m)
  case (Cons i ix)
  show ?case
  proof (cases "ss ! i = kBootDataIdentifier")
    case True
    obtain e ws m1 where r: "boot_data_entry_read page (of_nat i) m = Done (e, ws) m1"
      and rest: "(if e \<noteq> kErrorOk then returnM (e, kHardenedBoolFalse, of_nat i, boot_data_of_words ws) else (bindM (HARDENED_CHECK_EQ e kErrorOk) (\<lambda>_.
    bindM (boot_data_check (boot_data_of_words ws)) (\<lambda>is_valid.
    if is_valid = kErrorOk
        then (bindM (HARDENED_CHECK_EQ is_valid kErrorOk) (\<lambda>_.
     returnM (kErrorOk, is_valid, of_nat i, boot_data_of_words ws)))
        else (bindM (HARDENED_CHECK_EQ is_valid kErrorBootDataInvalid) (\<lambda>_.
     find_valid page ix ss (boot_data_of_words ws))))))) m1 = Done (kErrorOk, has, k, b) t"
      using Cons.prems(1) True by (auto simp: Let_def bindM_def split: outcome.splits)
    have e: "e = kErrorOk" using rest by (auto split: if_splits)
    obtain v m2 where v: "boot_data_check (boot_data_of_words ws) m1 = Done v m2"
      and rest2: "(if v = kErrorOk then (bindM (HARDENED_CHECK_EQ v kErrorOk) (\<lambda>_.
    returnM (kErrorOk, v, of_nat i, boot_data_of_words ws)))
        else (bindM (HARDENED_CHECK_EQ v kErrorBootDataInvalid) (\<lambda>_.
    find_valid page ix ss (boot_data_of_words ws)))) m2 = Done (kErrorOk, has, k, b) t"
      using rest e by (auto simp: bindM_Done_iff)
    have sh: "digest_shaped (boot_data_of_words ws)" by (rule entry_read_shaped [OF r])
    have p1: "plat m1 = p" using quiet_plat [OF framed_boot_data_entry(5) r] Cons.prems(2) by simp
    have p2: "plat m2 = p" using quiet_plat [OF framed_boot_data_entry(13) v] p1 by simp
    have acc: "v = (if entry_accepted sha (boot_data_of_words ws) then kErrorOk else kErrorBootDataInvalid)"
      using boot_data_check_run [of sha m1 "boot_data_of_words ws"] dev p1 sh v by simp
    show ?thesis
      using rest2 acc sh Cons.IH [OF _ p2 sh] by (auto simp: bindM_Done_iff check_Done split: if_splits)
  next
    case False
    then show ?thesis using Cons by simp
  qed
qed auto

definition found_ok :: "(u8 list \<Rightarrow> u32 list) \<Rightarrow> active_page_info \<Rightarrow> boot_data \<Rightarrow> bool" where
  "found_ok sha info b \<longleftrightarrow> digest_shaped b \<and>
     (ap_has_valid_entry info = kHardenedBoolFalse \<or>
      ap_has_valid_entry info = kHardenedBoolTrue \<and> entry_accepted sha b)"

lemma page_update_sound:
  assumes dev: "hmac_device sha (plat m)" "\<forall>msg. length (sha msg) = 8"
    and run: "boot_data_page_info_update page info b m = Done (kErrorOk, info', b') t"
    and ok: "found_ok sha info b"
  shows "found_ok sha info' b'"
proof -
  obtain m1 t1 where p1: "flash_ctrl_info_perms_set page (perms kMultiBitBool4True kMultiBitBool4False kMultiBitBool4False) m
      = Done () m1" and u: "boot_data_page_info_update_impl page info b m1 = Done (kErrorOk, info', b') t1"
    using run unfolding boot_data_page_info_update_def by (auto simp: bindM_Done_iff)
  obtain new buf m2 where s: "boot_data_page_scan page b m1 = Done (kErrorOk, new, buf) m2"
    and mg: "page_info_merge new buf info b m2 = Done (info', b') t1"
    using u unfolding boot_data_page_info_update_impl_def
    by (auto simp: bindM_Done_iff split: if_splits prod.splits)
  have "plat m1 = plat m" by (rule quiet_plat [OF framed_flash_perms(3) p1])
  obtain sn he i m3 has k where f: "find_empty page [0..<kBootDataEntriesPerPage] [] kHardenedBoolFalse m1 = Done (kErrorOk, sn, he, i) m3"
    and v: "find_valid page (rev [0..<i]) sn b m3 = Done (kErrorOk, has, k, buf) m2"
    and new: "ap_has_valid_entry new = has"
    using s unfolding boot_data_page_scan_def
    by (auto simp: bindM_Done_iff check_Done split: if_splits prod.splits)
  have "plat m3 = plat m" using quiet_plat [OF framed_find_empty(1) f] \<open>plat m1 = plat m\<close> by simp
  then have "found_ok sha new buf"
    using find_valid_sound [OF _ dev(2) v] dev(1) ok new by (auto simp: found_ok_def)
  then show ?thesis
    using mg ok unfolding page_info_merge_def by (auto simp: bindM_Done_iff check_Done split: if_splits)
qed

lemma active_page_sound:
  assumes dev: "hmac_device sha p" "\<forall>msg. length (sha msg) = 8"
  shows "active_page_loop ps info b m = Done (kErrorOk, info', b') t \<Longrightarrow> plat m = p \<Longrightarrow> found_ok sha info b \<Longrightarrow>
    found_ok sha info' b'"
proof (induction ps arbitrary: info b m)
  case (Cons page ps)
  obtain i1 b1 m1 where u: "boot_data_page_info_update page info b m = Done (kErrorOk, i1, b1) m1"
    and rest: "active_page_loop ps i1 b1 m1 = Done (kErrorOk, info', b') t"
    using Cons.prems(1) by (auto simp: bindM_Done_iff split: if_splits prod.splits)
  have p: "plat m1 = p" using quiet_plat [OF framed_page_update(7) u] Cons.prems(2) by simp
  have "found_ok sha i1 b1" using page_update_sound [OF _ dev(2) u Cons.prems(3)] dev(1) Cons.prems(2) by simp
  then show ?case by (rule Cons.IH [OF rest p])
qed simp

lemma signed_entry_id:
  "bd_identifier b = kBootDataIdentifier \<Longrightarrow> signed_entry sha b = b\<lparr>bd_digest := entry_digest sha b\<rparr>"
  by (cases b) (simp add: signed_entry_def)

definition default_entry :: "boot_data \<Rightarrow> u32 \<Rightarrow> u32 \<Rightarrow> boot_data" where
  "default_entry b rom_ext bl0 = b\<lparr>bd_is_valid := kBootDataValidEntry, bd_identifier := kBootDataIdentifier,
     bd_counter := kBootDataDefaultCounterVal, bd_min_security_version_rom_ext := rom_ext,
     bd_min_security_version_bl0 := bl0\<rparr>"

lemma default_get_sound:
  assumes dev: "hmac_device sha (plat m)" "\<forall>msg. length (sha msg) = 8" and b: "digest_shaped b"
    and run: "boot_data_default_get lc b m = Done (r, b') t"
  shows "(\<exists>v. R32 (TOP_EARLGREY_OTP_CTRL_CORE_BASE_ADDR + OTP_CTRL_SW_CFG_WINDOW_REG_OFFSET +
        OTP_CTRL_PARAM_CREATOR_SW_CFG_DEFAULT_BOOT_DATA_IN_PROD_EN_OFFSET) v \<in> set (new_events m t) \<and>
      r = (if default_allowed v lc then kErrorOk else kErrorBootDataNotFound)) \<and>
    (if r = kErrorOk then entry_accepted sha b' \<and> digest_shaped b' \<and> bd_counter b' = kBootDataDefaultCounterVal \<and>
       bd_is_valid b' = kBootDataValidEntry \<and> bd_identifier b' = kBootDataIdentifier
     else b' = b)"
proof -
  let ?a = "OTP_CTRL_PARAM_CREATOR_SW_CFG_DEFAULT_BOOT_DATA_IN_PROD_EN_OFFSET"
  obtain v m1 where v: "otp_read32 ?a m = Done v m1"
    and rest: "((bindM (default_get_result v lc) (\<lambda>res.
    if res \<noteq> kErrorOk then returnM (res, b) else
    bindM (HARDENED_CHECK_EQ res kErrorOk) (\<lambda>_.
    bindM (otp_read32 OTP_CTRL_PARAM_CREATOR_SW_CFG_MIN_SEC_VER_ROM_EXT_OFFSET) (\<lambda>rom_ext.
    bindM (otp_read32 OTP_CTRL_PARAM_CREATOR_SW_CFG_MIN_SEC_VER_BL0_OFFSET) (\<lambda>bl0.
    let b2 = b\<lparr>bd_is_valid := kBootDataValidEntry, bd_identifier := kBootDataIdentifier,
       bd_counter := kBootDataDefaultCounterVal, bd_min_security_version_rom_ext := rom_ext,
       bd_min_security_version_bl0 := bl0\<rparr> in
    bindM (boot_data_digest_compute b2) (\<lambda>digest.
    returnM (res, b2\<lparr>bd_digest := digest\<rparr>)))))))) m1 = Done (r, b') t"
    using run unfolding boot_data_default_get_def by (rule bindM_DoneE)
  have s1: "hw_step m m1" by (rule quiet_step(1) [OF quiet_otp(1) v])
  have s2: "hw_step m1 t" using rest by (rule quiet_step(1) [rotated]) (unfold Let_def, (intro framed_intros)+)
  have ev: "R32 (TOP_EARLGREY_OTP_CTRL_CORE_BASE_ADDR + OTP_CTRL_SW_CFG_WINDOW_REG_OFFSET + ?a) v
      \<in> set (new_events m t)"
    using new_events_later [OF hw_run_step [OF s1] hw_run_step [OF s2] sec_read_new [OF v [unfolded otp_read32_def]]] .
  have res: "default_get_result v lc m1 = Done (if default_allowed v lc then kErrorOk else kErrorBootDataNotFound) m1"
    using rest by (rule bindM_DoneE) (auto simp: default_get_result_run split: if_splits)
  show ?thesis
  proof (cases "default_allowed v lc")
    case False
    then show ?thesis using ev res rest by (auto simp: bindM_def)
  next
    case True
    obtain b2 m2 d where d: "boot_data_digest_compute b2 m2 = Done d t" "r = kErrorOk" "b' = b2\<lparr>bd_digest := d\<rparr>"
      and b2: "bd_digest b2 = bd_digest b" "bd_is_valid b2 = kBootDataValidEntry" "bd_identifier b2 = kBootDataIdentifier"
        "bd_counter b2 = kBootDataDefaultCounterVal" and p: "plat m2 = plat m"
    proof -
      obtain x m3 y m4 where o: "otp_read32 OTP_CTRL_PARAM_CREATOR_SW_CFG_MIN_SEC_VER_ROM_EXT_OFFSET m1 = Done x m3"
        "otp_read32 OTP_CTRL_PARAM_CREATOR_SW_CFG_MIN_SEC_VER_BL0_OFFSET m3 = Done y m4"
        and dg: "((bindM (boot_data_digest_compute (default_entry b x y)) (\<lambda>digest.
    returnM (kErrorOk, (default_entry b x y)\<lparr>bd_digest := digest\<rparr>)))) m4 = Done (r, b') t"
        using rest res True by (auto simp: bindM_Done_iff Let_def default_entry_def)
      have "plat m4 = plat m"
        using s1 quiet_plat [OF quiet_otp(1) o(1)] quiet_plat [OF quiet_otp(1) o(2)] by (simp add: hw_step_def run_stepD)
      with dg show thesis
        by (elim bindM_DoneE) (rule that [of "default_entry b x y" m4], auto simp: default_entry_def)
    qed
    have "d = entry_digest sha b2"
      using boot_data_digest_run [of sha m2 b2] dev p d(1) by simp
    then have "b' = signed_entry sha b2" "bd_counter b' = kBootDataDefaultCounterVal" "digest_shaped b'"
      using d(3) b2 dev(2) by (simp_all add: signed_entry_id entry_digest_def)
    then show ?thesis
      using signed_entry_accepted [OF dev(2), of b2] b b2 d ev True by (auto simp: signed_entry_id)
  qed
qed

lemma boot_data_read_sound:
  assumes dev: "hmac_device sha (plat m)" "\<forall>msg. length (sha msg) = 8" and b: "digest_shaped b"
    and run: "boot_data_read lc b m = Done (kErrorOk, b') t"
  shows "digest_shaped b' \<and> entry_accepted sha b'"
proof -
  obtain e info bd m1 where f: "boot_data_active_page_find b m = Done (e, info, bd) m1"
    and rest: "(if e \<noteq> kErrorOk then returnM (e, bd) else (bindM (HARDENED_CHECK_EQ e kErrorOk) (\<lambda>_.
    if ap_has_valid_entry info = kHardenedBoolTrue
     then (bindM (HARDENED_CHECK_EQ (ap_has_valid_entry info) kHardenedBoolTrue) (\<lambda>_.
     returnM (kErrorOk, bd)))
     else if ap_has_valid_entry info = kHardenedBoolFalse
     then (bindM (HARDENED_CHECK_EQ (ap_has_valid_entry info) kHardenedBoolFalse) (\<lambda>_.
     boot_data_default_get lc bd))
     else HARDENED_UNREACHABLE))) m1 = Done (kErrorOk, b') t"
    using run unfolding boot_data_read_def by (rule bindM_DoneE) (auto split: prod.splits)
  have e: "e = kErrorOk" using rest by (auto split: if_splits)
  have "found_ok sha no_active_page b" using b by (simp add: found_ok_def no_active_page_def)
  moreover have "active_page_loop kPages no_active_page b m = Done (kErrorOk, info, bd) m1"
    using f e unfolding boot_data_active_page_find_def by simp
  ultimately have ok: "found_ok sha info bd" using active_page_sound [OF dev _ refl] by blast
  have p: "plat m1 = plat m" by (rule quiet_plat [OF framed_boot_data_api(1) f])
  show ?thesis
  proof (cases "ap_has_valid_entry info = kHardenedBoolTrue")
    case True
    then show ?thesis using rest e ok by (auto simp: found_ok_def)
  next
    case False
    then have "boot_data_default_get lc bd m1 = Done (kErrorOk, b') t" "digest_shaped bd"
      using rest e ok by (auto simp: found_ok_def)
    then show ?thesis using default_get_sound [of sha m1 bd lc kErrorOk b' t] dev p by simp
  qed
qed

text \<open>C26: boot data are used only after the integrity check accepted
  them, whether they come from the log in flash or from the defaults in OTP.\<close>

theorem boot_data_read_checked:
  assumes "hmac_device sha (plat m)" "\<forall>msg. length (sha msg) = 8" "length (bd_digest b) = 8"
  shows "case boot_data_read lc b m of
      Done (r, b') t \<Rightarrow> if r = kErrorOk then length (bd_digest b') = 8 \<and> entry_accepted sha b' else True
    | Stop e t \<Rightarrow> no_jump e"
proof (cases "boot_data_read lc b m")
  case (Done r t)
  then show ?thesis using boot_data_read_sound [OF assms, of lc "snd r" t] by (cases r) auto
next
  case (Stop e t)
  then show ?thesis using framedD3 [OF framed_boot_data_api(7)] by simp
qed

theorem boot_data_read_checked_witness:
  "case boot_data_read kLcStateRma (g_boot_data sample_machine) sample_machine of
      Done (r, b') t \<Rightarrow> if r = kErrorOk then length (bd_digest b') = 8 \<and> entry_accepted (\<lambda>msg. replicate 8 0) b' else True
    | Stop e t \<Rightarrow> no_jump e"
  by (rule boot_data_read_checked) (simp_all add: sample_hmac, simp add: sample_machine_def)

text \<open>C27: without a valid entry, the default boot data are given out in
  the Test, Dev and RMA states, and in the production states exactly when the OTP word that allows
  it was read as true; they carry the default counter, and pass the integrity check.\<close>

theorem boot_data_default_policy:
  assumes "hmac_device sha (plat m)" "\<forall>msg. length (sha msg) = 8" "length (bd_digest b) = 8"
  shows "case boot_data_default_get lc b m of
      Done (r, b') t \<Rightarrow>
        (\<exists>v. R32 (TOP_EARLGREY_OTP_CTRL_CORE_BASE_ADDR + OTP_CTRL_SW_CFG_WINDOW_REG_OFFSET +
            OTP_CTRL_PARAM_CREATOR_SW_CFG_DEFAULT_BOOT_DATA_IN_PROD_EN_OFFSET) v \<in> set (new_events m t) \<and>
          r = (if lc \<in> {kLcStateTest, kLcStateDev, kLcStateRma} \<or> v = kHardenedBoolTrue then kErrorOk
            else kErrorBootDataNotFound)) \<and>
        (if r = kErrorOk then entry_accepted sha b' \<and> bd_counter b' = kBootDataDefaultCounterVal \<and>
           bd_identifier b' = kBootDataIdentifier else b' = b)
    | Stop e t \<Rightarrow> no_jump e"
proof (cases "boot_data_default_get lc b m")
  case (Done r t)
  then show ?thesis
    using default_get_sound [OF assms, of lc "fst r" "snd r" t] unfolding default_allowed_def
    by (cases r) (auto split: if_splits)
next
  case (Stop e t)
  then show ?thesis using framedD3 [OF framed_boot_data_api(5)] by simp
qed

theorem boot_data_default_policy_witness:
  "case boot_data_default_get kLcStateRma (g_boot_data sample_machine) sample_machine of
      Done (r, b') t \<Rightarrow> r = kErrorOk \<and> bd_counter b' = kBootDataDefaultCounterVal
    | Stop e t \<Rightarrow> no_jump e"
  using boot_data_default_policy [OF sample_hmac, of "g_boot_data sample_machine" kLcStateRma]
  by (auto simp: sample_machine_def split: outcome.splits)

end
