(* ===== verification/Spi_Device.thy ===== *)
theory Spi_Device
  imports Flash_Ctrl
begin

text \<open>\<open>drivers/spi_device.c\<close>: the SPI flash emulation the bootstrap host talks to. The SFDP
  table is built from the same lists of bit fields as the C macros; the commands uploaded by the
  host are read from the FIFOs and the payload area.\<close>

unbundle bit_operations_syntax

abbreviation (input) kSpiBase :: u32 where "kSpiBase \<equiv> TOP_EARLGREY_SPI_DEVICE_BASE_ADDR"
abbreviation (input) SPI_DEVICE_DEV_ID_CHIP_REV_FIELD :: bitfield_field32 where
  "SPI_DEVICE_DEV_ID_CHIP_REV_FIELD \<equiv> \<lparr>bf_mask = 0x7, bf_index = 0\<rparr>"
abbreviation (input) SPI_DEVICE_DEV_ID_ROM_BOOTSTRAP_BIT :: u32 where "SPI_DEVICE_DEV_ID_ROM_BOOTSTRAP_BIT \<equiv> 3"
abbreviation (input) SPI_DEVICE_DEV_ID_CHIP_GEN_FIELD :: bitfield_field32 where
  "SPI_DEVICE_DEV_ID_CHIP_GEN_FIELD \<equiv> \<lparr>bf_mask = 0xf, bf_index = 4\<rparr>"
abbreviation (input) SPI_DEVICE_DEV_ID_DENSITY_FIELD :: bitfield_field32 where
  "SPI_DEVICE_DEV_ID_DENSITY_FIELD \<equiv> \<lparr>bf_mask = 0xff, bf_index = 8\<rparr>"
abbreviation (input) kSpiDeviceJedecContCode :: u32 where "kSpiDeviceJedecContCode \<equiv> 0x7f"
abbreviation (input) kSpiDeviceJedecContCodeCount :: u32 where "kSpiDeviceJedecContCodeCount \<equiv> 12"
abbreviation (input) kSpiDeviceJedecManufId :: u32 where "kSpiDeviceJedecManufId \<equiv> 0xef"
abbreviation (input) kSpiDeviceJedecDensity :: u32 where "kSpiDeviceJedecDensity \<equiv> 20"
abbreviation (input) kSpiDeviceBfptNumWords :: nat where "kSpiDeviceBfptNumWords \<equiv> 23"
abbreviation (input) kSpiDeviceSfdpTableNumWords :: nat where "kSpiDeviceSfdpTableNumWords \<equiv> 27"
abbreviation (input) kSpiDeviceNoAddress :: u32 where "kSpiDeviceNoAddress \<equiv> UINT32_MAX"
abbreviation (input) kSpiDeviceSfdpAreaNumBytes :: nat where "kSpiDeviceSfdpAreaNumBytes \<equiv> 256"
abbreviation (input) kSpiDeviceSfdpAreaOffset :: u32 where "kSpiDeviceSfdpAreaOffset \<equiv> 0xc00"
abbreviation (input) kSpiDevicePayloadAreaOffset :: u32 where "kSpiDevicePayloadAreaOffset \<equiv> 0xd00"
abbreviation (input) kSpiDevicePayloadAreaNumBytes :: nat where "kSpiDevicePayloadAreaNumBytes \<equiv> 256"
abbreviation (input) kSpiDeviceWelBit :: u32 where "kSpiDeviceWelBit \<equiv> 1"
abbreviation (input) kSpiDeviceOpcodeReadStatus :: u32 where "kSpiDeviceOpcodeReadStatus \<equiv> 0x05"
abbreviation (input) kSpiDeviceOpcodeReadJedecId :: u32 where "kSpiDeviceOpcodeReadJedecId \<equiv> 0x9f"
abbreviation (input) kSpiDeviceOpcodeReadSfdp :: u32 where "kSpiDeviceOpcodeReadSfdp \<equiv> 0x5a"
abbreviation (input) kSpiDeviceOpcodeChipErase :: u32 where "kSpiDeviceOpcodeChipErase \<equiv> 0xc7"
abbreviation (input) kSpiDeviceOpcodeSectorErase :: u32 where "kSpiDeviceOpcodeSectorErase \<equiv> 0x20"
abbreviation (input) kSpiDeviceOpcodePageProgram :: u32 where "kSpiDeviceOpcodePageProgram \<equiv> 0x02"
abbreviation (input) kSpiDeviceOpcodeReset :: u32 where "kSpiDeviceOpcodeReset \<equiv> 0x99"
abbreviation (input) kSpiDeviceOpcodeWriteEnable :: u32 where "kSpiDeviceOpcodeWriteEnable \<equiv> 0x06"
abbreviation (input) kSpiDeviceOpcodeWriteDisable :: u32 where "kSpiDeviceOpcodeWriteDisable \<equiv> 0x04"
abbreviation (input) kSfdpSignature :: u32 where "kSfdpSignature \<equiv> 0x50444653"
abbreviation (input) kBfptNotSupported :: u32 where "kBfptNotSupported \<equiv> 0"
abbreviation (input) kFlashBitCount :: u32 where "kFlashBitCount \<equiv> 2 * FLASH_CTRL_PARAM_BYTES_PER_BANK * 8"

section \<open>The SFDP table\<close>

text \<open>A field of a BFPT word: its upper bit, its lower bit and its value.\<close>

definition BFPT_FIELD_WIDTH :: "nat \<Rightarrow> nat \<Rightarrow> nat" where
  "BFPT_FIELD_WIDTH upper lower = upper - lower + 1"

definition BFPT_FIELD_MASK :: "nat \<Rightarrow> nat \<Rightarrow> u32" where
  "BFPT_FIELD_MASK upper lower = push_bit lower (mask (BFPT_FIELD_WIDTH upper lower))"

definition BFPT_FIELD_VALUE :: "nat * nat * u32 \<Rightarrow> u32" where
  "BFPT_FIELD_VALUE f = (case f of (upper, lower, v) \<Rightarrow>
     NOT (BFPT_FIELD_MASK upper lower) OR (BFPT_FIELD_MASK upper lower AND push_bit lower v))"

definition kBfptFields :: "(nat * nat * u32) list list" where
  "kBfptFields =
    [[(22, 19, kBfptNotSupported), (18, 17, 0), (16, 16, kBfptNotSupported),
      (15, 8, kSpiDeviceOpcodeSectorErase), (4, 4, 1), (3, 3, 1), (2, 2, 1), (1, 0, 1)],
     [(31, 31, 0), (30, 0, kFlashBitCount - 1)],
     [(31, 0, kBfptNotSupported)],
     [(31, 0, kBfptNotSupported)],
     [(4, 4, kBfptNotSupported), (0, 0, kBfptNotSupported)],
     [(31, 16, kBfptNotSupported)],
     [(31, 16, kBfptNotSupported)],
     [(31, 16, kBfptNotSupported), (15, 8, kSpiDeviceOpcodeSectorErase), (7, 0, 0x0c)],
     [(31, 0, kBfptNotSupported)],
     [(31, 11, kBfptNotSupported), (10, 9, 1), (8, 4, 8), (3, 0, 0)],
     [(30, 29, 0), (28, 24, 0xb), (23, 23, 1), (22, 19, 5), (18, 18, 1), (17, 14, 5), (13, 13, 1),
      (12, 8, 0xb), (7, 4, 8), (3, 0, 0)],
     [(31, 31, 1), (30, 9, kBfptNotSupported), (7, 0, kBfptNotSupported)],
     [(31, 0, kBfptNotSupported)],
     [(31, 31, 1), (30, 8, kBfptNotSupported), (7, 2, 1)],
     [(23, 0, kBfptNotSupported)],
     [(31, 14, kBfptNotSupported), (13, 8, 0x10), (6, 0, 0)],
     [(31, 0, kBfptNotSupported)],
     [(31, 0, kBfptNotSupported)],
     [(31, 0, kBfptNotSupported)],
     [(31, 0, UINT32_MAX)],
     [(31, 0, kBfptNotSupported)],
     [(31, 0, kBfptNotSupported)],
     [(31, 0, kBfptNotSupported)]]"

definition bfpt_word :: "(nat * nat * u32) list \<Rightarrow> u32" where
  "bfpt_word fs = fold (\<lambda>f w. w AND BFPT_FIELD_VALUE f) fs (- 1)"

text \<open>The words of the table: the two headers (byte by byte) and the parameters.\<close>

definition kSpiDeviceSfdpTable :: "u32 list" where
  "kSpiDeviceSfdpTable =
    [kSfdpSignature, le_word 0x0a 0x01 0 0xff, le_word 0x00 0x07 0x01 (of_nat kSpiDeviceBfptNumWords),
     le_word 16 0 0 0xff] @ map bfpt_word kBfptFields"

section \<open>Initialization\<close>

record cmd_info =
  reg_offset :: u32
  op_code :: u32
  addr_3b :: bool
  dummy_cycles :: u32
  handled_in_sw :: bool

definition cmd_info_reg :: "cmd_info \<Rightarrow> u32" where
  "cmd_info_reg c =
     (let reg = bitfield_field32_write 0 SPI_DEVICE_CMD_INFO_0_OPCODE_0_FIELD (op_code c);
          reg = bitfield_field32_write reg SPI_DEVICE_CMD_INFO_0_ADDR_MODE_0_FIELD
            (if addr_3b c then SPI_DEVICE_CMD_INFO_0_ADDR_MODE_0_VALUE_ADDR3B
             else SPI_DEVICE_CMD_INFO_0_ADDR_MODE_0_VALUE_ADDRDISABLED);
          reg = (if dummy_cycles c > 0
            then bitfield_bit32_write
              (bitfield_field32_write reg SPI_DEVICE_CMD_INFO_0_DUMMY_SIZE_0_FIELD (dummy_cycles c - 1))
              SPI_DEVICE_CMD_INFO_0_DUMMY_EN_0_BIT True
            else reg);
          reg = bitfield_bit32_write reg SPI_DEVICE_CMD_INFO_0_UPLOAD_0_BIT (handled_in_sw c);
          reg = bitfield_bit32_write reg SPI_DEVICE_CMD_INFO_0_BUSY_0_BIT (handled_in_sw c)
      in bitfield_bit32_write reg SPI_DEVICE_CMD_INFO_0_VALID_0_BIT True)"

definition cmd_info_set :: "cmd_info \<Rightarrow> unit rom" where
  "cmd_info_set c = abs_mmio_write32 (kSpiBase + reg_offset c) (cmd_info_reg c)"

text \<open>The commands of the emulated flash, in the order they are configured.\<close>

definition kSpiCommands :: "cmd_info list" where
  "kSpiCommands = map (\<lambda>(off, op, a, d, sw). \<lparr>reg_offset = off, op_code = op, addr_3b = a,
       dummy_cycles = d, handled_in_sw = sw\<rparr>)
    [(SPI_DEVICE_CMD_INFO_0_REG_OFFSET, kSpiDeviceOpcodeReadStatus, False, 0, False),
     (SPI_DEVICE_CMD_INFO_3_REG_OFFSET, kSpiDeviceOpcodeReadJedecId, False, 0, False),
     (SPI_DEVICE_CMD_INFO_4_REG_OFFSET, kSpiDeviceOpcodeReadSfdp, True, 8, False),
     (SPI_DEVICE_CMD_INFO_11_REG_OFFSET, kSpiDeviceOpcodeChipErase, False, 0, True),
     (SPI_DEVICE_CMD_INFO_12_REG_OFFSET, kSpiDeviceOpcodeSectorErase, True, 0, True),
     (SPI_DEVICE_CMD_INFO_13_REG_OFFSET, kSpiDeviceOpcodePageProgram, True, 0, True),
     (SPI_DEVICE_CMD_INFO_14_REG_OFFSET, kSpiDeviceOpcodeReset, False, 0, True)]"

definition spi_cfg_reg :: u32 where
  "spi_cfg_reg =
     (let reg = bitfield_bit32_write 0 SPI_DEVICE_CFG_CPOL_BIT False;
          reg = bitfield_bit32_write reg SPI_DEVICE_CFG_CPHA_BIT False;
          reg = bitfield_bit32_write reg SPI_DEVICE_CFG_TX_ORDER_BIT False;
          reg = bitfield_bit32_write reg SPI_DEVICE_CFG_RX_ORDER_BIT False;
          reg = bitfield_field32_write reg SPI_DEVICE_CFG_TIMER_V_FIELD 0x7f;
          reg = bitfield_bit32_write reg SPI_DEVICE_CFG_ADDR_4B_EN_BIT False
      in bitfield_bit32_write reg SPI_DEVICE_CFG_MAILBOX_EN_BIT False)"

definition jedec_id_reg :: "lifecycle_hw_rev \<Rightarrow> u32" where
  "jedec_id_reg hw_rev =
     (let reg = bitfield_field32_write 0 SPI_DEVICE_DEV_ID_CHIP_REV_FIELD (ucast (chip_rev hw_rev));
          reg = bitfield_bit32_write reg SPI_DEVICE_DEV_ID_ROM_BOOTSTRAP_BIT True;
          reg = bitfield_field32_write reg SPI_DEVICE_DEV_ID_CHIP_GEN_FIELD (ucast (chip_gen hw_rev));
          reg = bitfield_field32_write reg SPI_DEVICE_DEV_ID_DENSITY_FIELD kSpiDeviceJedecDensity
      in bitfield_field32_write reg SPI_DEVICE_JEDEC_ID_MF_FIELD kSpiDeviceJedecManufId)"

definition spi_device_init :: "unit rom" where
  "spi_device_init = (bindM (abs_mmio_write32 (kSpiBase + SPI_DEVICE_CFG_REG_OFFSET) spi_cfg_reg) (\<lambda>_.
    let reg = bitfield_field32_write 0 SPI_DEVICE_JEDEC_CC_CC_FIELD kSpiDeviceJedecContCode in
    let reg = bitfield_field32_write reg SPI_DEVICE_JEDEC_CC_NUM_CC_FIELD kSpiDeviceJedecContCodeCount in
    bindM (abs_mmio_write32 (kSpiBase + SPI_DEVICE_JEDEC_CC_REG_OFFSET) reg) (\<lambda>_.
    bindM lifecycle_hw_rev_get (\<lambda>hw_rev.
    bindM (abs_mmio_write32 (kSpiBase + SPI_DEVICE_JEDEC_ID_REG_OFFSET) (jedec_id_reg hw_rev)) (\<lambda>_.
    bindM (for_each [0..<kSpiDeviceSfdpTableNumWords] (\<lambda>i. abs_mmio_write32
       (kSpiBase + SPI_DEVICE_BUFFER_REG_OFFSET + kSpiDeviceSfdpAreaOffset + of_nat i * 4)
       (kSpiDeviceSfdpTable ! i))) (\<lambda>_.
    bindM (for_each [kSpiDeviceSfdpTableNumWords..<kSpiDeviceSfdpAreaNumBytes div 4] (\<lambda>i. abs_mmio_write32
       (kSpiBase + SPI_DEVICE_BUFFER_REG_OFFSET + kSpiDeviceSfdpAreaOffset + of_nat i * 4) UINT32_MAX)) (\<lambda>_.
    bindM (for_each [0..<kSpiDevicePayloadAreaNumBytes div 4] (\<lambda>i. abs_mmio_write32
       (kSpiBase + SPI_DEVICE_BUFFER_REG_OFFSET + kSpiDevicePayloadAreaOffset + of_nat i * 4) 0)) (\<lambda>_.
    bindM (abs_mmio_write32 (kSpiBase + SPI_DEVICE_FLASH_STATUS_REG_OFFSET) 0) (\<lambda>_.
    bindM (for_each kSpiCommands cmd_info_set) (\<lambda>_.
    let reg = bitfield_field32_write 0 SPI_DEVICE_CMD_INFO_WREN_OPCODE_FIELD kSpiDeviceOpcodeWriteEnable in
    let reg = bitfield_bit32_write reg SPI_DEVICE_CMD_INFO_WREN_VALID_BIT True in
    bindM (abs_mmio_write32 (kSpiBase + SPI_DEVICE_CMD_INFO_WREN_REG_OFFSET) reg) (\<lambda>_.
    let reg = bitfield_field32_write reg SPI_DEVICE_CMD_INFO_WRDI_OPCODE_FIELD kSpiDeviceOpcodeWriteDisable in
    abs_mmio_write32 (kSpiBase + SPI_DEVICE_CMD_INFO_WRDI_REG_OFFSET) reg)))))))))))"

section \<open>Commands\<close>

text \<open>The payload holds the bytes that were read, a whole number of words.\<close>

record spi_device_cmd =
  cmd_opcode :: u32
  cmd_address :: u32
  cmd_payload_byte_count :: u32
  cmd_payload :: "u8 list"

definition no_cmd :: spi_device_cmd where
  "no_cmd = \<lparr>cmd_opcode = 0, cmd_address = 0, cmd_payload_byte_count = 0, cmd_payload = []\<rparr>"

definition spi_device_cmd_get :: "(rom_error * spi_device_cmd) rom" where
  "spi_device_cmd_get = (bindM (poll_until (abs_mmio_read32 (kSpiBase + SPI_DEVICE_INTR_STATE_REG_OFFSET))
       (\<lambda>r. bitfield_bit32_read r SPI_DEVICE_INTR_COMMON_UPLOAD_CMDFIFO_NOT_EMPTY_BIT)) (\<lambda>reg.
    bindM (abs_mmio_write32 (kSpiBase + SPI_DEVICE_INTR_STATE_REG_OFFSET) UINT32_MAX) (\<lambda>_.
    if bitfield_bit32_read reg SPI_DEVICE_INTR_COMMON_UPLOAD_PAYLOAD_OVERFLOW_BIT then returnM (kErrorSpiDevicePayloadOverflow, no_cmd) else
    bindM (abs_mmio_read32 (kSpiBase + SPI_DEVICE_UPLOAD_CMDFIFO_REG_OFFSET)) (\<lambda>opcode.
    bindM (abs_mmio_read32 (kSpiBase + SPI_DEVICE_UPLOAD_STATUS_REG_OFFSET)) (\<lambda>reg.
    bindM ((if bitfield_bit32_read reg SPI_DEVICE_UPLOAD_STATUS_ADDRFIFO_NOTEMPTY_BIT
       then abs_mmio_read32 (kSpiBase + SPI_DEVICE_UPLOAD_ADDRFIFO_REG_OFFSET)
       else returnM kSpiDeviceNoAddress)) (\<lambda>address.
    bindM (abs_mmio_read32 (kSpiBase + SPI_DEVICE_UPLOAD_STATUS2_REG_OFFSET)) (\<lambda>reg.
    let n = bitfield_field32_read reg SPI_DEVICE_UPLOAD_STATUS2_PAYLOAD_DEPTH_FIELD in
    bindM (HARDENED_CHECK_LE n (of_nat kSpiDevicePayloadAreaNumBytes)) (\<lambda>_.
    bindM (map_each [0..<(unat n + 3) div 4] (\<lambda>i. abs_mmio_read32
       (kSpiBase + SPI_DEVICE_BUFFER_REG_OFFSET + kSpiDevicePayloadAreaOffset + of_nat i * 4))) (\<lambda>ws.
    returnM (kErrorOk, \<lparr>cmd_opcode = opcode, cmd_address = address, cmd_payload_byte_count = n,
       cmd_payload = concat (map word_bytes ws)\<rparr>))))))))))"

definition spi_device_flash_status_clear :: "unit rom" where
  "spi_device_flash_status_clear = abs_mmio_write32 (kSpiBase + SPI_DEVICE_FLASH_STATUS_REG_OFFSET) 0"

definition spi_device_flash_status_get :: "u32 rom" where
  "spi_device_flash_status_get = abs_mmio_read32 (kSpiBase + SPI_DEVICE_FLASH_STATUS_REG_OFFSET)"

section \<open>Frames\<close>

lemma framed_spi_device [framed_intros]:
  "quiet (cmd_info_set c)" "sec_safe (cmd_info_set c)"
  "quiet spi_device_init" "sec_safe spi_device_init"
  "quiet spi_device_cmd_get" "sec_safe spi_device_cmd_get"
  "quiet spi_device_flash_status_clear" "sec_safe spi_device_flash_status_clear"
  "quiet spi_device_flash_status_get" "sec_safe spi_device_flash_status_get"
  unfolding cmd_info_set_def spi_device_init_def spi_device_cmd_get_def spi_device_flash_status_clear_def spi_device_flash_status_get_def Let_def
  by (intro framed_intros; (assumption | (simp; fail))?)+

section \<open>The table reads back\<close>

text \<open>Every field of the table has the value it was given: the fields of a word do not
  overlap and their values fit.\<close>

definition field_reads_back :: "u32 \<Rightarrow> nat * nat * u32 \<Rightarrow> bool" where
  "field_reads_back w f = (case f of (upper, lower, v) \<Rightarrow>
     bitfield_field32_read w \<lparr>bf_mask = mask (BFPT_FIELD_WIDTH upper lower), bf_index = of_nat lower\<rparr> = v)"

lemma bfpt_reads_back: "list_all (\<lambda>fs. list_all (field_reads_back (bfpt_word fs)) fs) kBfptFields"
  by code_simp

lemma sfdp_table_length: "length kSpiDeviceSfdpTable = kSpiDeviceSfdpTableNumWords"
  by code_simp

section \<open>Properties\<close>


lemma index_times_4: "i < 65536 \<Longrightarrow> 262144 \<le> unat c \<Longrightarrow> of_nat i * 4 \<noteq> (c :: u32)"
  by (auto simp: unat_word_ariths unat_of_nat dest!: arg_cong [where f = unat])

lemma programs_nothing_sfdp:
  "list_all (\<lambda>i. i < 65536) xs \<Longrightarrow>
   programs_nothing (for_each xs (\<lambda>i. abs_mmio_write32 (kSpiBase + SPI_DEVICE_BUFFER_REG_OFFSET + off + of_nat i * 4) (f i)))"
  if "off \<in> {kSpiDeviceSfdpAreaOffset, kSpiDevicePayloadAreaOffset}"
  using that by (induction xs) (auto intro!: emits_intros simp: index_times_4)

lemma programs_nothing_spi [emits_intros]:
  "programs_nothing spi_device_init" "programs_nothing spi_device_cmd_get"
  "programs_nothing spi_device_flash_status_clear" "programs_nothing spi_device_flash_status_get"
proof -
  have "programs_nothing (for_each kSpiCommands cmd_info_set)"
    unfolding kSpiCommands_def cmd_info_set_def by (simp del: bindM_assoc) (intro emits_intros; simp)+
  then show "programs_nothing spi_device_init"
    unfolding spi_device_init_def lifecycle_hw_rev_get_def Let_def
    by (intro emits_rules(2,3,4) emits_primitive(1,2) emits_sec(1) programs_nothing_sfdp; simp add: list_all_iff)+
qed (unfold spi_device_cmd_get_def spi_device_flash_status_clear_def
    spi_device_flash_status_get_def Let_def, (intro emits_intros; simp)+)

end
