(* ===== verification/Bootstrap.thy ===== *)
theory Bootstrap
  imports Spi_Device Memory
begin

text \<open>\<open>rom/bootstrap.c\<close>: programming of the flash over the emulated SPI flash, as a state
  machine that erases, verifies the erasure and then programs. The messages printed with
  \<open>base_printf\<close> go to the null sink, the ROM never sets an output, and are left out.\<close>

unbundle bit_operations_syntax

abbreviation (input) kMaxAddress :: u32 where "kMaxAddress \<equiv> FLASH_CTRL_PARAM_BYTES_PER_BANK * 2"
abbreviation (input) kBootstrapStateErase :: u32 where "kBootstrapStateErase \<equiv> 0xd4576543"
abbreviation (input) kBootstrapStateEraseVerify :: u32 where "kBootstrapStateEraseVerify \<equiv> 0xf3c71bac"
abbreviation (input) kBootstrapStateProgram :: u32 where "kBootstrapStateProgram \<equiv> 0xbdd8ca60"
abbreviation (input) kPageAddrMask :: u32 where "kPageAddrMask \<equiv> NOT 4096 + 1"
abbreviation (input) kFlashWordBytes :: nat where "kFlashWordBytes \<equiv> 8"
abbreviation (input) kFlashWordMask :: u32 where "kFlashWordMask \<equiv> 7"
abbreviation (input) kFlashProgPageSize :: nat where "kFlashProgPageSize \<equiv> 256"
abbreviation (input) kFlashProgPageMask :: u32 where "kFlashProgPageMask \<equiv> 255"
abbreviation (input) SW_STRAP_MASK :: u32 where "SW_STRAP_MASK \<equiv> 0x1c00000"
abbreviation (input) SW_STRAP_BOOTSTRAP :: u32 where "SW_STRAP_BOOTSTRAP \<equiv> 0x1c00000"

definition data_perms :: "u32 \<Rightarrow> u32 \<Rightarrow> u32 \<Rightarrow> flash_ctrl_perms" where
  "data_perms rd wr er = \<lparr>perm_read = rd, perm_write = wr, perm_erase = er\<rparr>"

section \<open>Erasing and programming\<close>

definition bootstrap_chip_erase :: "rom_error rom" where
  "bootstrap_chip_erase = (bindM (flash_ctrl_bank_erase_perms_set kHardenedBoolTrue) (\<lambda>_.
    bindM (flash_ctrl_data_erase 0 kFlashCtrlEraseTypeBank) (\<lambda>err_0.
    bindM (flash_ctrl_data_erase FLASH_CTRL_PARAM_BYTES_PER_BANK kFlashCtrlEraseTypeBank) (\<lambda>err_1.
    bindM (flash_ctrl_bank_erase_perms_set kHardenedBoolFalse) (\<lambda>_.
    HARDENED_RETURN_IF_ERROR (returnM err_0) (
    returnM err_1))))))"

definition bootstrap_sector_erase :: "u32 \<Rightarrow> rom_error rom" where
  "bootstrap_sector_erase addr =
     (if addr \<ge> kMaxAddress then returnM kErrorBootstrapEraseAddress
      else let addr = addr AND kPageAddrMask in (bindM (flash_ctrl_data_default_perms_set
          (data_perms kMultiBitBool4False kMultiBitBool4False kMultiBitBool4True)) (\<lambda>_.
    bindM (flash_ctrl_data_erase addr kFlashCtrlEraseTypePage) (\<lambda>err_0.
    bindM (flash_ctrl_data_erase (addr + FLASH_CTRL_PARAM_BYTES_PER_PAGE) kFlashCtrlEraseTypePage) (\<lambda>err_1.
    bindM (flash_ctrl_data_default_perms_set
          (data_perms kMultiBitBool4False kMultiBitBool4False kMultiBitBool4False)) (\<lambda>_.
    HARDENED_RETURN_IF_ERROR (returnM err_0) (
    returnM err_1)))))))"

text \<open>The data, rounded up to flash words with \<open>0xff\<close>, as bus words.\<close>

definition program_words :: "u32 \<Rightarrow> u8 list \<Rightarrow> u32 list" where
  "program_words byte_count data =
     (let n = unat byte_count;
          misalignment = n mod kFlashWordBytes;
          bytes = take n data @ (if misalignment > 0
            then replicate (kFlashWordBytes - misalignment) 0xff else [])
      in map (\<lambda>i. buf_word bytes (4 * i)) [0..<length bytes div 4])"

text \<open>The two writes: a first one up to the end of the 256-byte page when the address is not
  page aligned, and one from the start of the page with what is left.\<close>

definition page_program_split :: "u32 \<Rightarrow> u32 list \<Rightarrow> (u32 * u32 list) option * u32 * u32 list" where
  "page_program_split addr words =
     (let misalignment = unat (addr AND kFlashProgPageMask) in
      if misalignment > 0
      then let word_count = min ((kFlashProgPageSize - misalignment) div 4) (length words)
           in (Some (addr, take word_count words), addr AND NOT kFlashProgPageMask, drop word_count words)
      else (None, addr, words))"

definition bootstrap_page_program :: "u32 \<Rightarrow> u32 \<Rightarrow> u8 list \<Rightarrow> rom_error rom" where
  "bootstrap_page_program addr byte_count data =
     (if addr AND kFlashWordMask \<noteq> 0 \<or> addr \<ge> kMaxAddress
      then returnM kErrorBootstrapProgramAddress
      else let (first, addr', rest) = page_program_split addr (program_words byte_count data) in (bindM (flash_ctrl_data_default_perms_set
          (data_perms kMultiBitBool4False kMultiBitBool4True kMultiBitBool4False)) (\<lambda>_.
    bindM ((case first of None \<Rightarrow> returnM kErrorOk | Some (a, ws) \<Rightarrow> flash_ctrl_data_write a ws)) (\<lambda>err_0.
    bindM ((if rest \<noteq> [] then flash_ctrl_data_write addr' rest else returnM kErrorOk)) (\<lambda>err_1.
    bindM (flash_ctrl_data_default_perms_set
          (data_perms kMultiBitBool4False kMultiBitBool4False kMultiBitBool4False)) (\<lambda>_.
    HARDENED_RETURN_IF_ERROR (returnM err_0) (
    returnM err_1)))))))"

section \<open>The states\<close>

text \<open>A handler returns the error code and the next state.\<close>

definition bootstrap_handle_erase :: "u32 \<Rightarrow> (rom_error * u32) rom" where
  "bootstrap_handle_erase state = (bindM (HARDENED_CHECK_EQ state kBootstrapStateErase) (\<lambda>_.
    bindM spi_device_cmd_get (\<lambda>(err, cmd).
    if err \<noteq> kErrorOk then returnM (err, state) else
    bindM spi_device_flash_status_get (\<lambda>status.
    if \<not> bitfield_bit32_read status kSpiDeviceWelBit then returnM (kErrorOk, state) else
    if cmd_opcode cmd = kSpiDeviceOpcodeChipErase \<or> cmd_opcode cmd = kSpiDeviceOpcodeSectorErase
     then (bindM bootstrap_chip_erase (\<lambda>error.
     if error \<noteq> kErrorOk then returnM (error, state) else
     bindM (HARDENED_CHECK_EQ error kErrorOk) (\<lambda>_.
     returnM (error, kBootstrapStateEraseVerify))))
     else (bindM spi_device_flash_status_clear (\<lambda>_.
     returnM (kErrorOk, state)))))))"

definition bootstrap_handle_erase_verify :: "u32 \<Rightarrow> (rom_error * u32) rom" where
  "bootstrap_handle_erase_verify state = (bindM (HARDENED_CHECK_EQ state kBootstrapStateEraseVerify) (\<lambda>_.
    bindM (flash_ctrl_data_erase_verify 0 kFlashCtrlEraseTypeBank) (\<lambda>err_0.
    bindM (flash_ctrl_data_erase_verify FLASH_CTRL_PARAM_BYTES_PER_BANK kFlashCtrlEraseTypeBank) (\<lambda>err_1.
    if err_0 \<noteq> kErrorOk then returnM (err_0, state) else
    bindM (HARDENED_CHECK_EQ err_0 kErrorOk) (\<lambda>_.
    if err_1 \<noteq> kErrorOk then returnM (err_1, state) else
    bindM (HARDENED_CHECK_EQ err_1 kErrorOk) (\<lambda>_.
    bindM spi_device_flash_status_clear (\<lambda>_.
    returnM (err_0, kBootstrapStateProgram))))))))"

definition program_command :: "spi_device_cmd \<Rightarrow> rom_error rom" where
  "program_command cmd =
     (if cmd_opcode cmd = kSpiDeviceOpcodeChipErase then bootstrap_chip_erase
      else if cmd_opcode cmd = kSpiDeviceOpcodeSectorErase then bootstrap_sector_erase (cmd_address cmd)
      else if cmd_opcode cmd = kSpiDeviceOpcodePageProgram
      then bootstrap_page_program (cmd_address cmd) (cmd_payload_byte_count cmd) (cmd_payload cmd)
      else if cmd_opcode cmd = kSpiDeviceOpcodeReset then rstmgr_reset
      else returnM kErrorOk)"

definition bootstrap_handle_program :: "u32 \<Rightarrow> (rom_error * u32) rom" where
  "bootstrap_handle_program state = (bindM (HARDENED_CHECK_EQ state kBootstrapStateProgram) (\<lambda>_.
    bindM spi_device_cmd_get (\<lambda>(err, cmd).
    if err \<noteq> kErrorOk then returnM (err, state) else
    bindM ((if cmd_opcode cmd \<noteq> kSpiDeviceOpcodeReset
       then (bindM spi_device_flash_status_get (\<lambda>status.
       returnM (bitfield_bit32_read status kSpiDeviceWelBit)))
       else returnM True)) (\<lambda>enabled.
    if \<not> enabled then returnM (kErrorOk, state) else
    bindM (program_command cmd) (\<lambda>error.
    if error \<noteq> kErrorOk then returnM (error, state) else
    bindM (HARDENED_CHECK_EQ error kErrorOk) (\<lambda>_.
    bindM spi_device_flash_status_clear (\<lambda>_.
    returnM (error, state))))))))"

section \<open>The request\<close>

text \<open>The \<open>mstatus\<close> accesses of \<open>bootstrap_requested\<close>: bit 4 is set, bits 4 and 5
  are set twice, and bit 4 is cleared.\<close>

definition mstatus_sequence :: "unit rom" where
  "mstatus_sequence = (bindM (CSR_READ CSR_REG_MSTATUS) (\<lambda>v.
    bindM (CSR_WRITE CSR_REG_MSTATUS (v OR 16)) (\<lambda>_.
    bindM (CSR_READ CSR_REG_MSTATUS) (\<lambda>v.
    bindM (CSR_WRITE CSR_REG_MSTATUS (v OR 48)) (\<lambda>_.
    bindM (CSR_READ CSR_REG_MSTATUS) (\<lambda>v.
    bindM (CSR_WRITE CSR_REG_MSTATUS (v OR 48)) (\<lambda>_.
    bindM (CSR_READ CSR_REG_MSTATUS) (\<lambda>_.
    bindM (CSR_READ CSR_REG_MSTATUS) (\<lambda>v.
    CSR_WRITE CSR_REG_MSTATUS (v AND - 17))))))))))"

definition bootstrap_requested :: "u32 rom" where
  "bootstrap_requested = (bindM (otp_read32 OTP_CTRL_PARAM_OWNER_SW_CFG_ROM_BOOTSTRAP_EN_OFFSET) (\<lambda>res.
    if res \<noteq> kHardenedBoolTrue then returnM kHardenedBoolFalse else
    bindM (HARDENED_CHECK_EQ res kHardenedBoolTrue) (\<lambda>_.
    let res = res XOR SW_STRAP_BOOTSTRAP in
    bindM (abs_mmio_read32 (TOP_EARLGREY_GPIO_BASE_ADDR + GPIO_DATA_IN_REG_OFFSET)) (\<lambda>pins.
    let res = res XOR (pins AND SW_STRAP_MASK) in
    bindM mstatus_sequence (\<lambda>_.
    if res \<noteq> kHardenedBoolTrue then returnM kHardenedBoolFalse else
    bindM (HARDENED_CHECK_EQ res kHardenedBoolTrue) (\<lambda>_.
    returnM res))))))"

section \<open>The event loop\<close>

definition bootstrap_handle :: "u32 \<Rightarrow> (rom_error * u32) rom" where
  "bootstrap_handle state =
     (if state = kBootstrapStateErase then (bindM (HARDENED_CHECK_EQ state kBootstrapStateErase) (\<lambda>_.
    bootstrap_handle_erase state))
      else if state = kBootstrapStateEraseVerify then (bindM (HARDENED_CHECK_EQ state kBootstrapStateEraseVerify) (\<lambda>_.
    bootstrap_handle_erase_verify state))
      else if state = kBootstrapStateProgram then (bindM (HARDENED_CHECK_EQ state kBootstrapStateProgram) (\<lambda>_.
    bootstrap_handle_program state))
      else returnM (kErrorBootstrapInvalidState, state))"

text \<open>The loop ends only with an error, a reset or a failed check; it is observed for as many
  commands as the platform allows reads of a busy register.\<close>

primrec bootstrap_loop :: "nat \<Rightarrow> u32 \<Rightarrow> rom_error rom" where
  "bootstrap_loop 0 state = stopM Out_of_polls"
| "bootstrap_loop (Suc n) state = (bindM (bootstrap_handle state) (\<lambda>(error, state').
    if error \<noteq> kErrorOk then returnM error else
    bindM (HARDENED_CHECK_EQ error kErrorOk) (\<lambda>_.
    bootstrap_loop n state')))"

definition bootstrap :: "rom_error rom" where
  "bootstrap = (bindM bootstrap_requested (\<lambda>requested.
    if requested \<noteq> kHardenedBoolTrue then returnM kErrorBootstrapNotRequested else
    bindM (HARDENED_CHECK_EQ requested kHardenedBoolTrue) (\<lambda>_.
    bindM spi_device_init (\<lambda>_.
    bindM (getM (\<lambda>m. poll_limit (plat m))) (\<lambda>limit.
    bootstrap_loop limit kBootstrapStateErase)))))"

section \<open>Frames\<close>

lemma framed_bootstrap_erase [framed_intros]:
  "quiet bootstrap_chip_erase" "sec_safe bootstrap_chip_erase"
  "quiet (bootstrap_sector_erase a)" "sec_safe (bootstrap_sector_erase a)"
  unfolding bootstrap_chip_erase_def bootstrap_sector_erase_def Let_def
  by (intro framed_intros; (assumption | (simp; fail))?)+

lemma framed_page_program [framed_intros]:
  "quiet (bootstrap_page_program a n d)" "sec_safe (bootstrap_page_program a n d)"
  unfolding bootstrap_page_program_def Let_def split_beta
  by (auto split: option.split intro!: framed_intros)

lemma framed_program_command [framed_intros]:
  "quiet (program_command c)" "sec_safe (program_command c)"
  unfolding program_command_def by (intro framed_intros)+

lemma framed_bootstrap_handle [framed_intros]:
  "quiet (bootstrap_handle s)" "sec_safe (bootstrap_handle s)"
  unfolding bootstrap_handle_def bootstrap_handle_erase_def bootstrap_handle_erase_verify_def
    bootstrap_handle_program_def split_beta
  by (intro framed_intros)+

lemma framed_bootstrap_loop [framed_intros]:
  "quiet (bootstrap_loop n s)" "sec_safe (bootstrap_loop n s)"
  by (induction n arbitrary: s)
    (auto simp: split_beta intro!: framed_intros hw.framed_stop sec.framed_stop)

lemma framed_bootstrap [framed_intros]:
  "quiet mstatus_sequence" "sec_safe mstatus_sequence"
  "quiet bootstrap_requested" "sec_safe bootstrap_requested"
  "quiet bootstrap" "sec_safe bootstrap"
  unfolding mstatus_sequence_def bootstrap_requested_def bootstrap_def Let_def
  by (intro framed_intros; (assumption | (simp; fail))?)+

section \<open>Erase before program\<close>

text \<open>All words of both banks were read back as erased.\<close>

definition verified_erased :: "io_event list \<Rightarrow> bool" where
  "verified_erased l \<longleftrightarrow> list_all (\<lambda>i.
     R32 (TOP_EARLGREY_FLASH_CTRL_MEM_BASE_ADDR + of_nat i * 4) kFlashCtrlErasedWord \<in> set l) [0..<0x40000]"

text \<open>Every program transaction of a history is preceded by a verified erasure.\<close>

fun guarded :: "io_event list \<Rightarrow> bool" where
  "guarded [] = True"
| "guarded (ev # l) = ((starts_program ev \<longrightarrow> verified_erased l) \<and> guarded l)"

lemma guarded_append:
  "guarded l \<Longrightarrow> list_all (\<lambda>ev. \<not> starts_program ev) l' \<Longrightarrow> guarded (l' @ l)"
  by (induction l') auto

lemma verified_append: "verified_erased l \<Longrightarrow> verified_erased (l' @ l)"
  by (auto simp: verified_erased_def list_all_iff)

lemma guarded_verified: "guarded l \<Longrightarrow> verified_erased l \<Longrightarrow> guarded (l' @ l)"
  by (induction l') (auto intro: verified_append)

lemma programs_nothing_chip_erase [emits_intros]: "programs_nothing bootstrap_chip_erase"
  unfolding bootstrap_chip_erase_def by (intro emits_intros)

lemma programs_nothing_handlers [emits_intros]:
  "programs_nothing (bootstrap_handle_erase k)" "programs_nothing (bootstrap_handle_erase_verify k)"
  unfolding bootstrap_handle_erase_def bootstrap_handle_erase_verify_def split_beta
  by (intro emits_intros)+

lemma programs_nothing_requested [emits_intros]: "programs_nothing bootstrap_requested"
  unfolding bootstrap_requested_def mstatus_sequence_def otp_read32_def Let_def
  by (intro emits_intros; simp)+

lemma verified_before: "verified_erased l \<Longrightarrow> verified_erased (l @ l')"
  by (auto simp: verified_erased_def list_all_iff)

text \<open>What the verification step establishes.\<close>

lemma erase_verify_events:
  assumes "flash_ctrl_data_erase_verify addr kFlashCtrlEraseTypeBank m = Done kErrorOk t" "i < 0x20000"
  shows "R32 (TOP_EARLGREY_FLASH_CTRL_MEM_BASE_ADDR + (addr AND - 0x80000) + of_nat i * 4) kFlashCtrlErasedWord
    \<in> set (new_events m t)"
proof -
  obtain ws where ws: "length ws = 0x20000" "list_all (\<lambda>w. w = kFlashCtrlErasedWord) ws"
    "new_events m t = rev (map2 R32 (map (\<lambda>i. TOP_EARLGREY_FLASH_CTRL_MEM_BASE_ADDR + (addr AND - 0x80000)
      + of_nat i * 4) [0..<0x20000]) ws)"
    using erase_verify_result [OF assms(1)] by (auto split: if_splits)
  have "(TOP_EARLGREY_FLASH_CTRL_MEM_BASE_ADDR + (addr AND - 0x80000) + of_nat i * 4, kFlashCtrlErasedWord) \<in> set (zip
      (map (\<lambda>i. TOP_EARLGREY_FLASH_CTRL_MEM_BASE_ADDR + (addr AND - 0x80000) + of_nat i * 4) [0..<0x20000]) ws)"
    using ws(1,2) assms(2) unfolding in_set_zip by (intro exI [of _ i]) (simp add: list_all_length)
  then show ?thesis unfolding ws(3) set_rev set_map by (rule rev_image_eqI) simp
qed

lemma erase_verify_done:
  assumes "bootstrap_handle_erase_verify k m = Done (kErrorOk, k') t"
  shows "k' = kBootstrapStateProgram \<and> verified_erased (new_events m t)"
proof -
  obtain m1 m2 where v: "flash_ctrl_data_erase_verify 0 kFlashCtrlEraseTypeBank m = Done kErrorOk m1"
    "flash_ctrl_data_erase_verify FLASH_CTRL_PARAM_BYTES_PER_BANK kFlashCtrlEraseTypeBank m1 = Done kErrorOk m2"
    and c: "spi_device_flash_status_clear m2 = Done () t" and k: "k' = kBootstrapStateProgram"
    using assms unfolding bootstrap_handle_erase_verify_def
    by (auto simp: bindM_Done_iff check_Done split: if_splits)
  have s: "run_step m m1" "run_step m1 m2" "run_step m2 t"
    using quiet_step(1) [OF framed_erase_verify(1) v(1)] quiet_step(1) [OF framed_erase_verify(1) v(2)]
      quiet_step(1) [OF framed_spi_device(7) c] by (simp_all add: hw_run_step)
  have ev: "new_events m t = new_events m2 t @ new_events m1 m2 @ new_events m m1"
    using run_events_trans [OF s(1) run.frame_trans [OF s(2,3)]] run_events_trans [OF s(2,3)] by simp
  have "R32 (TOP_EARLGREY_FLASH_CTRL_MEM_BASE_ADDR + of_nat i * 4) kFlashCtrlErasedWord \<in> set (new_events m t)"
    if "i < 0x40000" for i
  proof (cases "i < 0x20000")
    case True
    then show ?thesis using erase_verify_events [OF v(1) True] by (simp add: ev)
  next
    case False
    then have "i - 0x20000 < 0x20000" "of_nat i = (0x20000 + of_nat (i - 0x20000) :: u32)" using that by simp_all
    then show ?thesis using erase_verify_events [OF v(2), of "i - 0x20000"] by (simp add: ev)
  qed
  then show ?thesis using k by (simp add: verified_erased_def list_all_iff)
qed

lemma emit_step_guarded:
  assumes "guarded (new_events s m)" "run_step s m" "emit_step (\<lambda>ev. \<not> starts_program ev) m t"
  shows "guarded (new_events s t)"
proof -
  obtain l where l: "io_log t = l @ io_log m" "list_all (\<lambda>ev. \<not> starts_program ev) l"
    using assms(3) by (auto simp: emit_step_def)
  then have "new_events s t = l @ new_events s m" using assms(2) by (auto simp: run_step_def)
  then show ?thesis using guarded_append [OF assms(1) l(2)] by simp
qed

text \<open>Where the state machine is when it has seen a guarded history: only in the state
  \<open>Program\<close> does it program, and it gets there by a successful verification only.\<close>

definition loop_inv :: "machine \<Rightarrow> u32 \<Rightarrow> machine \<Rightarrow> bool" where
  "loop_inv s k m \<longleftrightarrow> run_step s m \<and> guarded (new_events s m) \<and>
     (k \<in> {kBootstrapStateErase, kBootstrapStateEraseVerify} \<or>
      k = kBootstrapStateProgram \<and> verified_erased (new_events s m))"

lemma handle_quiet_or_verified:
  assumes "loop_inv s k m" and "hw_step m t"
    and "k \<noteq> kBootstrapStateProgram \<Longrightarrow> emit_step (\<lambda>ev. \<not> starts_program ev) m t"
  shows "run_step s t \<and> guarded (new_events s t)"
proof -
  have r: "run_step s m" "run_step m t" using assms(1,2) by (simp_all add: loop_inv_def hw_run_step)
  show ?thesis
  proof (cases "k = kBootstrapStateProgram")
    case True
    then have "guarded (new_events s m)" "verified_erased (new_events s m)"
      using assms(1) by (simp_all add: loop_inv_def)
    then show ?thesis
      using run_events_trans [OF r] run.frame_trans [OF r] by (simp add: guarded_verified)
  next
    case False
    then show ?thesis
      using assms emit_step_guarded [of s m t] run.frame_trans [OF r] by (simp add: loop_inv_def)
  qed
qed

lemma handle_framed: "framed (\<lambda>m t. hw_step m t \<and> (k \<noteq> kBootstrapStateProgram \<longrightarrow>
    emit_step (\<lambda>ev. \<not> starts_program ev) m t)) (\<lambda>_. True) (bootstrap_handle k)"
proof (cases "k = kBootstrapStateProgram")
  case True
  then show ?thesis using framed_bootstrap_handle(1) by (rule_tac framed_mono) simp_all
next
  case False
  then have "programs_nothing (bootstrap_handle k)"
    unfolding bootstrap_handle_def by (auto intro!: emits_intros)
  from framed_conj [OF framed_bootstrap_handle(1) this] show ?thesis by (rule framed_mono) simp_all
qed

lemma handle_keeps_inv:
  assumes inv: "loop_inv s k m" and run: "bootstrap_handle k m = Done (kErrorOk, k') t"
  shows "loop_inv s k' t"
proof -
  have f: "hw_step m t" "k \<noteq> kBootstrapStateProgram \<Longrightarrow> emit_step (\<lambda>ev. \<not> starts_program ev) m t"
    using framedD1 [OF handle_framed run] by simp_all
  note gd = handle_quiet_or_verified [OF inv f]
  have r: "run_step s m" "run_step m t" using inv f(1) by (simp_all add: loop_inv_def hw_run_step)
  have "k' \<in> {kBootstrapStateErase, kBootstrapStateEraseVerify} \<or>
      k' = kBootstrapStateProgram \<and> verified_erased (new_events s t)"
  proof -
    consider "k = kBootstrapStateErase" | "k = kBootstrapStateEraseVerify"
      | "k = kBootstrapStateProgram" "verified_erased (new_events s m)"
      using inv by (auto simp: loop_inv_def)
    then show ?thesis
    proof cases
      case 1
      then have "bootstrap_handle_erase k m = Done (kErrorOk, k') t" using run by (simp add: bootstrap_handle_def)
      then show ?thesis using 1 unfolding bootstrap_handle_erase_def
        by (auto simp: bindM_Done_iff check_Done split: if_splits prod.splits)
    next
      case 2
      then have "bootstrap_handle_erase_verify k m = Done (kErrorOk, k') t" using run by (simp add: bootstrap_handle_def)
      then show ?thesis using erase_verify_done [of k m k' t] run_events_trans [OF r] by (simp add: verified_before)
    next
      case 3
      then have "bootstrap_handle_program k m = Done (kErrorOk, k') t" using run by (simp add: bootstrap_handle_def)
      then have "k' = k" unfolding bootstrap_handle_program_def
        by (auto simp: bindM_Done_iff check_Done split: if_splits prod.splits)
      then show ?thesis using 3 run_events_trans [OF r] by (simp add: verified_append)
    qed
  qed
  with gd show ?thesis by (simp add: loop_inv_def)
qed

lemma bootstrap_loop_guarded:
  "loop_inv s k m \<Longrightarrow> case bootstrap_loop n k m of
      Done r t \<Rightarrow> guarded (new_events s t) \<and> r \<noteq> kErrorOk
    | Stop e t \<Rightarrow> guarded (new_events s t)"
proof (induction n arbitrary: k m)
  case 0
  then show ?case by (simp add: loop_inv_def)
next
  case (Suc n)
  show ?case
  proof (cases "bootstrap_handle k m")
    case (Stop e t)
    then show ?thesis
      using handle_quiet_or_verified [OF Suc.prems] framedD2 [OF handle_framed Stop] by simp
  next
    case (Done r t)
    obtain e k' where r: "r = (e, k')" by (cases r)
    show ?thesis
    proof (cases "e = kErrorOk")
      case True
      have "loop_inv s k' t" using handle_keeps_inv [OF Suc.prems] Done r True by simp
      from Suc.IH [OF this] show ?thesis using Done r True by simp
    next
      case False
      then show ?thesis
        using handle_quiet_or_verified [OF Suc.prems] framedD1 [OF handle_framed Done] Done r by simp
    qed
  qed
qed

section \<open>Properties\<close>

text \<open>C30: whatever commands the SPI host sends, the
  bootstrap never starts a program transaction before all words of both flash banks have been read
  back as erased, and it returns only with an error.\<close>

theorem bootstrap_erases_before_programming:
  "case bootstrap m of
      Done r t \<Rightarrow> guarded (new_events m t) \<and> r \<noteq> kErrorOk
    | Stop e t \<Rightarrow> guarded (new_events m t) \<and> no_jump e"
proof -
  have pre: "loop_inv m kBootstrapStateErase t" if "emit_step (\<lambda>ev. \<not> starts_program ev) m t" for t
    using that emit_step_guarded [of m m t] by (auto simp: loop_inv_def run.frame_refl emit_step_def run_step_def)
  have g: "guarded (new_events m t)" if "emit_step (\<lambda>ev. \<not> starts_program ev) m t" for t
    using pre [OF that] by (simp add: loop_inv_def)
  have nj: "no_jump e" if "bootstrap m = Stop e t" for e t
    using that by (rule framedD3 [OF framed_bootstrap(5)])
  have "wp bootstrap (\<lambda>r t. guarded (new_events m t) \<and> r \<noteq> kErrorOk) (\<lambda>e t. guarded (new_events m t)) m"
    unfolding bootstrap_def
  proof (rule wp_bind, rule wp_framed [OF programs_nothing_requested])
    fix req t assume t: "emit_step (\<lambda>ev. \<not> starts_program ev) m t"
    show "wp (if req \<noteq> kHardenedBoolTrue then returnM kErrorBootstrapNotRequested
        else (bindM (HARDENED_CHECK_EQ req kHardenedBoolTrue) (\<lambda>_.
    bindM spi_device_init (\<lambda>_.
    bindM (getM (\<lambda>m. poll_limit (plat m))) (\<lambda>limit.
    bootstrap_loop limit kBootstrapStateErase))))) (\<lambda>r t. guarded (new_events m t) \<and> r \<noteq> kErrorOk)
        (\<lambda>e t. guarded (new_events m t)) t"
    proof (cases "req = kHardenedBoolTrue")
      case True
      show ?thesis
        unfolding True check_refl bind_returnM simp_thms if_False
      proof (rule wp_bind, rule wp_framed [OF programs_nothing_spi(1)])
        fix u v assume v: "emit_step (\<lambda>ev. \<not> starts_program ev) t v"
        have "loop_inv m kBootstrapStateErase v" by (rule pre [OF emits.frame_trans [OF t v]])
        then show "wp (bindM (getM (\<lambda>m. poll_limit (plat m))) (\<lambda>limit.
    bootstrap_loop limit kBootstrapStateErase))
            (\<lambda>r t. guarded (new_events m t) \<and> r \<noteq> kErrorOk) (\<lambda>e t. guarded (new_events m t)) v"
          using bootstrap_loop_guarded by (simp add: wp_def bindM_def)
      qed (rule g [OF emits.frame_trans [OF t]])
    qed (use g [OF t] in \<open>simp add: wp_def\<close>)
  qed (rule g)
  then show ?thesis using nj by (auto simp: wp_def split: outcome.splits)
qed

text \<open>Where the words of a buffer go.\<close>

definition placed :: "u32 \<Rightarrow> u32 list \<Rightarrow> (u32 * u32) list" where
  "placed a ws = map (\<lambda>i. (a + of_nat (4 * i), ws ! i)) [0..<length ws]"

lemma page_parts: "(addr AND NOT 255) + of_nat (unat (addr AND 255)) = (addr :: u32)"
proof -
  have "(addr AND NOT 255) + (addr AND 255) = (addr AND NOT 255) OR (addr AND 255)"
    by (rule disjunctive_add) (auto simp: bit_simps)
  also have "... = addr" by (simp add: bit_eq_iff bit_simps) blast
  finally show ?thesis by simp
qed

lemma page_offset: "unat (addr AND 255 :: u32) = unat addr mod 256"
proof -
  have "addr AND 255 = take_bit 8 addr" by (simp add: take_bit_eq_mask mask_eq_exp_minus_1)
  then show ?thesis by (simp only: unsigned_take_bit_eq) (simp add: take_bit_eq_mod)
qed

lemma offset_dvd: "addr AND 3 = 0 \<Longrightarrow> 4 dvd unat (addr AND 255 :: u32)"
  by (simp add: and3_dvd page_offset dvd_mod)



end
