(* ===== verification/Alert.thy ===== *)
theory Alert
  imports Crc32
begin

text \<open>\<open>drivers/alert.c\<close>: configuration of the alert handler, and the CRC-32 of that
  configuration, which OTP commits to for every life cycle state.\<close>

abbreviation (input) kAlertClassX :: u32 where "kAlertClassX \<equiv> 0x94"
abbreviation (input) kAlertClassA :: u32 where "kAlertClassA \<equiv> 0xee"
abbreviation (input) kAlertClassB :: u32 where "kAlertClassB \<equiv> 0x64"
abbreviation (input) kAlertClassC :: u32 where "kAlertClassC \<equiv> 0xa7"
abbreviation (input) kAlertClassD :: u32 where "kAlertClassD \<equiv> 0x32"
abbreviation (input) kAlertEnableNone :: u32 where "kAlertEnableNone \<equiv> 0xa9"
abbreviation (input) kAlertEnableEnabled :: u32 where "kAlertEnableEnabled \<equiv> 0x07"
abbreviation (input) kAlertEnableLocked :: u32 where "kAlertEnableLocked \<equiv> 0xd2"
abbreviation (input) kAlertEscalateNone :: u32 where "kAlertEscalateNone \<equiv> 0xd1"
abbreviation (input) kAlertEscalatePhase0 :: u32 where "kAlertEscalatePhase0 \<equiv> 0xb9"
abbreviation (input) kAlertEscalatePhase1 :: u32 where "kAlertEscalatePhase1 \<equiv> 0xcb"
abbreviation (input) kAlertEscalatePhase2 :: u32 where "kAlertEscalatePhase2 \<equiv> 0x25"
abbreviation (input) kAlertEscalatePhase3 :: u32 where "kAlertEscalatePhase3 \<equiv> 0x76"
abbreviation (input) kAlertBase :: u32 where "kAlertBase \<equiv> TOP_EARLGREY_ALERT_HANDLER_BASE_ADDR"

record alert_class_config =
  acc_enabled :: u32
  acc_escalation :: u32
  acc_accum_threshold :: u32
  acc_timeout_cycles :: u32
  acc_phase_cycles :: "u32 list"

section \<open>Single alerts\<close>

text \<open>The switches of the two single-alert functions, for the register block of the alerts
  (or local alerts): the class of the alert, then its enable and lock registers.\<close>

definition alert_enable_switch :: "u32 \<Rightarrow> u32 \<Rightarrow> u32 \<Rightarrow> u32 \<Rightarrow> rom_error rom" where
  "alert_enable_switch en_reg regwen_reg index enabled =
     (if enabled = kAlertEnableNone then returnM kErrorOk
      else if enabled = kAlertEnableLocked then (bindM (abs_mmio_write32_shadowed (kAlertBase + en_reg + index) 1) (\<lambda>_.
    bindM (abs_mmio_write32 (kAlertBase + regwen_reg + index) 0) (\<lambda>_.
    returnM kErrorOk)))
      else if enabled = kAlertEnableEnabled then (bindM (abs_mmio_write32_shadowed (kAlertBase + en_reg + index) 1) (\<lambda>_.
    returnM kErrorOk))
      else returnM kErrorAlertBadEnable)"

definition alert_configure :: "u32 \<Rightarrow> u32 \<Rightarrow> u32 \<Rightarrow> rom_error rom" where
  "alert_configure i cls enabled =
     (if i >= ALERT_HANDLER_ALERT_CLASS_SHADOWED_MULTIREG_COUNT then returnM kErrorAlertBadIndex
      else let index = i * 4;
               enable = alert_enable_switch ALERT_HANDLER_ALERT_EN_SHADOWED_0_REG_OFFSET
                 ALERT_HANDLER_ALERT_REGWEN_0_REG_OFFSET index enabled in
      if cls = kAlertClassA then (bindM (abs_mmio_write32_shadowed (kAlertBase + ALERT_HANDLER_ALERT_CLASS_SHADOWED_0_REG_OFFSET + index)
          ALERT_HANDLER_ALERT_CLASS_SHADOWED_0_CLASS_A_0_VALUE_CLASSA) (\<lambda>_.
    enable))
      else if cls = kAlertClassB then (bindM (abs_mmio_write32_shadowed (kAlertBase + ALERT_HANDLER_ALERT_CLASS_SHADOWED_0_REG_OFFSET + index)
          ALERT_HANDLER_ALERT_CLASS_SHADOWED_0_CLASS_A_0_VALUE_CLASSB) (\<lambda>_.
    enable))
      else if cls = kAlertClassC then (bindM (abs_mmio_write32_shadowed (kAlertBase + ALERT_HANDLER_ALERT_CLASS_SHADOWED_0_REG_OFFSET + index)
          ALERT_HANDLER_ALERT_CLASS_SHADOWED_0_CLASS_A_0_VALUE_CLASSC) (\<lambda>_.
    enable))
      else if cls = kAlertClassD then (bindM (abs_mmio_write32_shadowed (kAlertBase + ALERT_HANDLER_ALERT_CLASS_SHADOWED_0_REG_OFFSET + index)
          ALERT_HANDLER_ALERT_CLASS_SHADOWED_0_CLASS_A_0_VALUE_CLASSD) (\<lambda>_.
    enable))
      else if cls = kAlertClassX then returnM kErrorOk
      else returnM kErrorAlertBadClass)"

definition alert_local_configure :: "u32 \<Rightarrow> u32 \<Rightarrow> u32 \<Rightarrow> rom_error rom" where
  "alert_local_configure i cls enabled =
     (if i >= ALERT_HANDLER_LOC_ALERT_CLASS_SHADOWED_MULTIREG_COUNT then returnM kErrorAlertBadIndex
      else let index = i * 4;
               enable = alert_enable_switch ALERT_HANDLER_LOC_ALERT_EN_SHADOWED_0_REG_OFFSET
                 ALERT_HANDLER_LOC_ALERT_REGWEN_0_REG_OFFSET index enabled in
      if cls = kAlertClassA then (bindM (abs_mmio_write32_shadowed (kAlertBase + ALERT_HANDLER_LOC_ALERT_CLASS_SHADOWED_0_REG_OFFSET + index)
          ALERT_HANDLER_LOC_ALERT_CLASS_SHADOWED_0_CLASS_LA_0_VALUE_CLASSA) (\<lambda>_.
    enable))
      else if cls = kAlertClassB then (bindM (abs_mmio_write32_shadowed (kAlertBase + ALERT_HANDLER_LOC_ALERT_CLASS_SHADOWED_0_REG_OFFSET + index)
          ALERT_HANDLER_LOC_ALERT_CLASS_SHADOWED_0_CLASS_LA_0_VALUE_CLASSB) (\<lambda>_.
    enable))
      else if cls = kAlertClassC then (bindM (abs_mmio_write32_shadowed (kAlertBase + ALERT_HANDLER_LOC_ALERT_CLASS_SHADOWED_0_REG_OFFSET + index)
          ALERT_HANDLER_LOC_ALERT_CLASS_SHADOWED_0_CLASS_LA_0_VALUE_CLASSC) (\<lambda>_.
    enable))
      else if cls = kAlertClassD then (bindM (abs_mmio_write32_shadowed (kAlertBase + ALERT_HANDLER_LOC_ALERT_CLASS_SHADOWED_0_REG_OFFSET + index)
          ALERT_HANDLER_LOC_ALERT_CLASS_SHADOWED_0_CLASS_LA_0_VALUE_CLASSD) (\<lambda>_.
    enable))
      else if cls = kAlertClassX then returnM kErrorOk
      else returnM kErrorAlertBadClass)"

section \<open>Alert classes\<close>

text \<open>The three switches of \<open>alert_class_configure\<close>: the offset of the register block, and
  the control register with the enable and escalation bits (whose cases fall through).\<close>

definition alert_class_offset :: "u32 \<Rightarrow> u32 option" where
  "alert_class_offset cls =
     (if cls = kAlertClassA
      then Some (ALERT_HANDLER_CLASSA_CTRL_SHADOWED_REG_OFFSET - ALERT_HANDLER_CLASSA_CTRL_SHADOWED_REG_OFFSET)
      else if cls = kAlertClassB
      then Some (ALERT_HANDLER_CLASSB_CTRL_SHADOWED_REG_OFFSET - ALERT_HANDLER_CLASSA_CTRL_SHADOWED_REG_OFFSET)
      else if cls = kAlertClassC
      then Some (ALERT_HANDLER_CLASSC_CTRL_SHADOWED_REG_OFFSET - ALERT_HANDLER_CLASSA_CTRL_SHADOWED_REG_OFFSET)
      else if cls = kAlertClassD
      then Some (ALERT_HANDLER_CLASSD_CTRL_SHADOWED_REG_OFFSET - ALERT_HANDLER_CLASSA_CTRL_SHADOWED_REG_OFFSET)
      else None)"

definition alert_map_reg :: u32 where
  "alert_map_reg =
     (let reg = bitfield_field32_write 0 ALERT_HANDLER_CLASSA_CTRL_SHADOWED_MAP_E0_FIELD 0;
          reg = bitfield_field32_write reg ALERT_HANDLER_CLASSA_CTRL_SHADOWED_MAP_E1_FIELD 1;
          reg = bitfield_field32_write reg ALERT_HANDLER_CLASSA_CTRL_SHADOWED_MAP_E2_FIELD 2
      in bitfield_field32_write reg ALERT_HANDLER_CLASSA_CTRL_SHADOWED_MAP_E3_FIELD 3)"

definition alert_enable_bits :: "u32 \<Rightarrow> u32 \<Rightarrow> u32 option" where
  "alert_enable_bits reg enabled =
     (let en = \<lambda>r. bitfield_bit32_write r ALERT_HANDLER_CLASSA_CTRL_SHADOWED_EN_BIT True;
          locked = \<lambda>r. en (bitfield_bit32_write r ALERT_HANDLER_CLASSA_CTRL_SHADOWED_LOCK_BIT True) in
      if enabled = kAlertEnableLocked then Some (locked reg)
      else if enabled = kAlertEnableEnabled then Some (en reg)
      else if enabled = kAlertEnableNone then Some reg
      else None)"

definition alert_escalation_bits :: "u32 \<Rightarrow> u32 \<Rightarrow> u32 option" where
  "alert_escalation_bits reg escalation =
     (let e0 = \<lambda>r. bitfield_bit32_write r ALERT_HANDLER_CLASSA_CTRL_SHADOWED_EN_E0_BIT True;
          e1 = \<lambda>r. e0 (bitfield_bit32_write r ALERT_HANDLER_CLASSA_CTRL_SHADOWED_EN_E1_BIT True);
          e2 = \<lambda>r. e1 (bitfield_bit32_write r ALERT_HANDLER_CLASSA_CTRL_SHADOWED_EN_E2_BIT True);
          e3 = \<lambda>r. e2 (bitfield_bit32_write r ALERT_HANDLER_CLASSA_CTRL_SHADOWED_EN_E3_BIT True) in
      if escalation = kAlertEscalatePhase3 then Some (e3 reg)
      else if escalation = kAlertEscalatePhase2 then Some (e2 reg)
      else if escalation = kAlertEscalatePhase1 then Some (e1 reg)
      else if escalation = kAlertEscalatePhase0 then Some (e0 reg)
      else if escalation = kAlertEscalateNone then Some reg
      else None)"

definition alert_class_configure :: "u32 \<Rightarrow> alert_class_config \<Rightarrow> rom_error rom" where
  "alert_class_configure cls config =
     (case alert_class_offset cls of
        None \<Rightarrow> returnM kErrorAlertBadClass
      | Some offset \<Rightarrow>
     (case alert_enable_bits alert_map_reg (acc_enabled config) of
        None \<Rightarrow> returnM kErrorAlertBadEnable
      | Some reg \<Rightarrow>
     (case alert_escalation_bits reg (acc_escalation config) of
        None \<Rightarrow> returnM kErrorAlertBadEscalation
      | Some reg \<Rightarrow> (bindM (abs_mmio_write32_shadowed (kAlertBase + ALERT_HANDLER_CLASSA_CTRL_SHADOWED_REG_OFFSET + offset) reg) (\<lambda>_.
    bindM (abs_mmio_write32_shadowed (kAlertBase + ALERT_HANDLER_CLASSA_ACCUM_THRESH_SHADOWED_REG_OFFSET + offset)
            (acc_accum_threshold config)) (\<lambda>_.
    bindM (abs_mmio_write32_shadowed (kAlertBase + ALERT_HANDLER_CLASSA_TIMEOUT_CYC_SHADOWED_REG_OFFSET + offset)
            (acc_timeout_cycles config)) (\<lambda>_.
    bindM (for_each [0..<4] (\<lambda>i. abs_mmio_write32_shadowed
            (kAlertBase + ALERT_HANDLER_CLASSA_PHASE0_CYC_SHADOWED_REG_OFFSET + offset + of_nat i * 4)
            (acc_phase_cycles config ! i))) (\<lambda>_.
    bindM (whenM (acc_enabled config = kAlertEnableLocked)
            (abs_mmio_write32 (kAlertBase + ALERT_HANDLER_CLASSA_REGWEN_REG_OFFSET + offset) 0)) (\<lambda>_.
    returnM kErrorOk)))))))))"

definition alert_ping_enable :: "rom_error rom" where
  "alert_ping_enable = (bindM (abs_mmio_write32_shadowed (kAlertBase + ALERT_HANDLER_PING_TIMER_EN_SHADOWED_REG_OFFSET) 1) (\<lambda>_.
    bindM (abs_mmio_write32 (kAlertBase + ALERT_HANDLER_PING_TIMER_REGWEN_REG_OFFSET) 0) (\<lambda>_.
    returnM kErrorOk)))"

section \<open>The checksum of the configuration\<close>

definition crc32_add_reg :: "u32 \<Rightarrow> u32 \<Rightarrow> u32 rom" where
  "crc32_add_reg ctx offset = (bindM (abs_mmio_read32 (kAlertBase + offset)) (\<lambda>v.
    returnM (crc32_add32 ctx v)))"

definition crc32_add_regs :: "u32 \<Rightarrow> u32 \<Rightarrow> nat \<Rightarrow> u32 rom" where
  "crc32_add_regs ctx offset num_regs =
     fold_each [0..<num_regs] ctx (\<lambda>i c. crc32_add_reg c (offset + of_nat i * 4))"

abbreviation (input) kClassStep :: u32 where
  "kClassStep \<equiv> ALERT_HANDLER_CLASSB_REGWEN_REG_OFFSET - ALERT_HANDLER_CLASSA_REGWEN_REG_OFFSET"

definition crc32_add_class :: "nat \<Rightarrow> u32 \<Rightarrow> u32 rom" where
  "crc32_add_class cls ctx = (let classOffset = kClassStep * of_nat cls in
    bindM (crc32_add_reg ctx (classOffset + ALERT_HANDLER_CLASSA_REGWEN_REG_OFFSET)) (\<lambda>ctx1.
    bindM (crc32_add_reg ctx1 (classOffset + ALERT_HANDLER_CLASSA_CTRL_SHADOWED_REG_OFFSET)) (\<lambda>ctx2.
    bindM (crc32_add_reg ctx2 (classOffset + ALERT_HANDLER_CLASSA_ACCUM_THRESH_SHADOWED_REG_OFFSET)) (\<lambda>ctx3.
    bindM (crc32_add_reg ctx3 (classOffset + ALERT_HANDLER_CLASSA_TIMEOUT_CYC_SHADOWED_REG_OFFSET)) (\<lambda>ctx4.
    crc32_add_regs ctx4 (classOffset + ALERT_HANDLER_CLASSA_PHASE0_CYC_SHADOWED_REG_OFFSET) 4)))))"

definition alert_config_crc32 :: "u32 rom" where
  "alert_config_crc32 = (bindM (crc32_add_regs crc32_init ALERT_HANDLER_ALERT_REGWEN_0_REG_OFFSET 65) (\<lambda>ctx1.
    bindM (crc32_add_regs ctx1 ALERT_HANDLER_ALERT_EN_SHADOWED_0_REG_OFFSET 65) (\<lambda>ctx2.
    bindM (crc32_add_regs ctx2 ALERT_HANDLER_ALERT_CLASS_SHADOWED_0_REG_OFFSET 65) (\<lambda>ctx3.
    bindM (crc32_add_regs ctx3 ALERT_HANDLER_LOC_ALERT_REGWEN_0_REG_OFFSET 7) (\<lambda>ctx4.
    bindM (crc32_add_regs ctx4 ALERT_HANDLER_LOC_ALERT_EN_SHADOWED_0_REG_OFFSET 7) (\<lambda>ctx5.
    bindM (crc32_add_regs ctx5 ALERT_HANDLER_LOC_ALERT_CLASS_SHADOWED_0_REG_OFFSET 7) (\<lambda>ctx6.
    bindM (fold_each [0..<4] ctx6 crc32_add_class) (\<lambda>ctx7.
    returnM (crc32_finish ctx7)))))))))"

text \<open>The switch of \<open>alert_config_check\<close>: what the life cycle state mixes into the
  result.\<close>

definition alert_config_mix :: "u32 \<Rightarrow> u32 \<Rightarrow> u32 rom" where
  "alert_config_mix lc_state crc =
     (if lc_state = kLcStateTest then (bindM (HARDENED_CHECK_EQ lc_state kLcStateTest) (\<lambda>_.
    returnM (crc XOR (kLcStateTest XOR kErrorOk))))
      else if lc_state = kLcStateProd then (bindM (HARDENED_CHECK_EQ lc_state kLcStateProd) (\<lambda>_.
    otp_read32 OTP_CTRL_PARAM_OWNER_SW_CFG_ROM_ALERT_DIGEST_PROD_OFFSET))
      else if lc_state = kLcStateProdEnd then (bindM (HARDENED_CHECK_EQ lc_state kLcStateProdEnd) (\<lambda>_.
    otp_read32 OTP_CTRL_PARAM_OWNER_SW_CFG_ROM_ALERT_DIGEST_PROD_END_OFFSET))
      else if lc_state = kLcStateDev then (bindM (HARDENED_CHECK_EQ lc_state kLcStateDev) (\<lambda>_.
    otp_read32 OTP_CTRL_PARAM_OWNER_SW_CFG_ROM_ALERT_DIGEST_DEV_OFFSET))
      else if lc_state = kLcStateRma then (bindM (HARDENED_CHECK_EQ lc_state kLcStateRma) (\<lambda>_.
    otp_read32 OTP_CTRL_PARAM_OWNER_SW_CFG_ROM_ALERT_DIGEST_RMA_OFFSET))
      else HARDENED_UNREACHABLE)"

definition alert_config_check :: "u32 \<Rightarrow> rom_error rom" where
  "alert_config_check lc_state = (bindM alert_config_crc32 (\<lambda>crc.
    bindM (alert_config_mix lc_state crc) (\<lambda>mix.
    let res = lc_state XOR crc XOR mix in
    if res \<noteq> kErrorOk then returnM kErrorAlertBadCrc32
     else (bindM (HARDENED_CHECK_EQ res kErrorOk) (\<lambda>_.
     returnM res)))))"

section \<open>Frames\<close>

lemma sec_safe_shadowed [framed_intros]: "sec_safe (abs_mmio_write32_shadowed a v)"
  unfolding abs_mmio_write32_shadowed_def by (intro framed_intros)

lemma framed_alert_single [framed_intros]:
  "quiet (alert_enable_switch a b i e)" "sec_safe (alert_enable_switch a b i e)"
  "quiet (alert_configure i c e)" "sec_safe (alert_configure i c e)"
  "quiet (alert_local_configure i c e)" "sec_safe (alert_local_configure i c e)"
  "quiet alert_ping_enable" "sec_safe alert_ping_enable"
  unfolding alert_enable_switch_def alert_configure_def alert_local_configure_def alert_ping_enable_def Let_def
  by (intro framed_intros; (assumption | (simp; fail))?)+

lemma framed_alert_class [framed_intros]:
  "quiet (alert_class_configure c g)" "sec_safe (alert_class_configure c g)"
  unfolding alert_class_configure_def by (auto split: option.split intro!: framed_intros)

lemma framed_alert_crc [framed_intros]:
  "quiet (crc32_add_reg c off)" "sec_safe (crc32_add_reg c off)"
  "quiet (crc32_add_regs c off n)" "sec_safe (crc32_add_regs c off n)"
  "quiet (crc32_add_class k c)" "sec_safe (crc32_add_class k c)"
  "quiet alert_config_crc32" "sec_safe alert_config_crc32"
  "quiet (alert_config_mix s c)" "sec_safe (alert_config_mix s c)"
  "quiet (alert_config_check s)" "sec_safe (alert_config_check s)"
  unfolding crc32_add_reg_def crc32_add_regs_def crc32_add_class_def alert_config_crc32_def alert_config_mix_def alert_config_check_def Let_def
  by (intro framed_intros; (assumption | (simp; fail))?)+

end
