(* ===== verification/Shutdown.thy ===== *)
theory Shutdown
  imports Alert
begin

text \<open>\<open>lib/shutdown.c\<close>: the alert configuration taken from OTP, and the shutdown path:
  report the (redacted) error on the UART, escalate, disable the key manager, request a reset,
  disable flash and hang.\<close>

abbreviation (input) kShutdownErrorRedactNone :: u32 where "kShutdownErrorRedactNone \<equiv> 0xe2290aa5"
abbreviation (input) kShutdownErrorRedactError :: u32 where "kShutdownErrorRedactError \<equiv> 0x3367d3d4"
abbreviation (input) kShutdownErrorRedactModule :: u32 where "kShutdownErrorRedactModule \<equiv> 0x1e791123"
abbreviation (input) kShutdownErrorRedactAll :: u32 where "kShutdownErrorRedactAll \<equiv> 0x48eb4bd9"
abbreviation (input) kShutdownLogPrefixBootFault :: u32 where "kShutdownLogPrefixBootFault \<equiv> 0x3a564642"
abbreviation (input) kShutdownLogPrefixLifecycle :: u32 where "kShutdownLogPrefixLifecycle \<equiv> 0x3a56434c"
abbreviation (input) ROM_ERROR_FIELD_ERROR :: bitfield_field32 where
  "ROM_ERROR_FIELD_ERROR \<equiv> \<lparr>bf_mask = 0xff, bf_index = 24\<rparr>"
abbreviation (input) ROM_ERROR_FIELD_MODULE :: bitfield_field32 where
  "ROM_ERROR_FIELD_MODULE \<equiv> \<lparr>bf_mask = 0xffff, bf_index = 8\<rparr>"
abbreviation (input) SRAM_CTRL_EXEC_REG_OFFSET :: u32 where "SRAM_CTRL_EXEC_REG_OFFSET \<equiv> 0xc"
abbreviation (input) EPMP_CFG_A_TOR :: u32 where "EPMP_CFG_A_TOR \<equiv> 0x08"
abbreviation (input) EPMP_CFG_A_NA4 :: u32 where "EPMP_CFG_A_NA4 \<equiv> 0x10"
abbreviation (input) EPMP_CFG_A_NAPOT :: u32 where "EPMP_CFG_A_NAPOT \<equiv> 0x18"
abbreviation (input) EPMP_CFG_L :: u32 where "EPMP_CFG_L \<equiv> 0x80"
abbreviation (input) EPMP_CFG_LRX :: u32 where "EPMP_CFG_LRX \<equiv> 0x85"
abbreviation (input) EPMP_MSECCFG_MMWP :: u32 where "EPMP_MSECCFG_MMWP \<equiv> 2"

section \<open>Alert configuration\<close>

definition clsindex :: "u32 \<Rightarrow> nat" where
  "clsindex cls =
     (if cls = kAlertClassA then 0
      else if cls = kAlertClassB then 1
      else if cls = kAlertClassC then 2
      else if cls = kAlertClassD then 3
      else 0)"

text \<open>The byte of an OTP word that starts at bit \<open>index\<close>.\<close>

definition otp_byte :: "u32 \<Rightarrow> u32 \<Rightarrow> u32" where
  "otp_byte w index = bitfield_field32_read w \<lparr>bf_mask = 0xff, bf_index = index\<rparr>"

text \<open>The switch on the life cycle state: the shift and the masked shift, or \<open>None\<close> where
  alerts are not configured.\<close>

definition shutdown_lc_shift :: "u32 \<Rightarrow> (u32 * u32) option rom" where
  "shutdown_lc_shift lc_state =
     (if lc_state = kLcStateTest then (bindM (HARDENED_CHECK_EQ lc_state kLcStateTest) (\<lambda>_.
    returnM None))
      else if lc_state = kLcStateProd then (bindM (HARDENED_CHECK_EQ lc_state kLcStateProd) (\<lambda>_.
    returnM (Some (0, 0 XOR kLcStateProd))))
      else if lc_state = kLcStateProdEnd then (bindM (HARDENED_CHECK_EQ lc_state kLcStateProdEnd) (\<lambda>_.
    returnM (Some (8, 8 XOR kLcStateProdEnd))))
      else if lc_state = kLcStateDev then (bindM (HARDENED_CHECK_EQ lc_state kLcStateDev) (\<lambda>_.
    returnM (Some (16, 16 XOR kLcStateDev))))
      else if lc_state = kLcStateRma then (bindM (HARDENED_CHECK_EQ lc_state kLcStateRma) (\<lambda>_.
    returnM (Some (24, 24 XOR kLcStateRma))))
      else HARDENED_UNREACHABLE)"

text \<open>The bodies of the three loops. An error does not end the loop: the last one is kept.\<close>

definition keep_error :: "rom_error \<Rightarrow> rom_error \<Rightarrow> rom_error" where
  "keep_error error e = (if e \<noteq> kErrorOk then e else error)"

definition shutdown_alert_step :: "u32 \<Rightarrow> u32 list \<Rightarrow> nat \<Rightarrow> rom_error \<Rightarrow> rom_error rom" where
  "shutdown_alert_step lc_shift enable i error = (bindM (otp_read32 (OTP_CTRL_PARAM_OWNER_SW_CFG_ROM_ALERT_CLASSIFICATION_OFFSET + of_nat i * 4)) (\<lambda>v.
    let cls = otp_byte v lc_shift in
    bindM (alert_configure (of_nat i) cls (enable ! clsindex cls)) (\<lambda>e.
    returnM (keep_error error e))))"

definition shutdown_local_step :: "u32 \<Rightarrow> u32 list \<Rightarrow> nat \<Rightarrow> rom_error \<Rightarrow> rom_error rom" where
  "shutdown_local_step lc_shift enable i error = (bindM (otp_read32 (OTP_CTRL_PARAM_OWNER_SW_CFG_ROM_LOCAL_ALERT_CLASSIFICATION_OFFSET + of_nat i * 4)) (\<lambda>v.
    let cls = otp_byte v lc_shift in
    bindM (alert_local_configure (of_nat i) cls (enable ! clsindex cls)) (\<lambda>e.
    returnM (keep_error error e))))"

definition kClasses :: "u32 list" where
  "kClasses = [kAlertClassA, kAlertClassB, kAlertClassC, kAlertClassD]"

definition shutdown_class_step :: "u32 list \<Rightarrow> u32 list \<Rightarrow> nat \<Rightarrow> rom_error \<Rightarrow> rom_error rom" where
  "shutdown_class_step enable escalate i error = (bindM (otp_read32 (OTP_CTRL_PARAM_OWNER_SW_CFG_ROM_ALERT_ACCUM_THRESH_OFFSET + of_nat i * 4)) (\<lambda>thresh.
    bindM (otp_read32 (OTP_CTRL_PARAM_OWNER_SW_CFG_ROM_ALERT_TIMEOUT_CYCLES_OFFSET + of_nat i * 4)) (\<lambda>timeout.
    bindM (map_each [0..<4] (\<lambda>phase. otp_read32
       (OTP_CTRL_PARAM_OWNER_SW_CFG_ROM_ALERT_PHASE_CYCLES_OFFSET + (of_nat i * 4 + of_nat phase) * 4))) (\<lambda>phases.
    bindM (alert_class_configure (kClasses ! i)
       \<lparr>acc_enabled = enable ! i, acc_escalation = escalate ! i, acc_accum_threshold = thresh,
         acc_timeout_cycles = timeout, acc_phase_cycles = phases\<rparr>) (\<lambda>e.
    returnM (keep_error error e))))))"

text \<open>The checks of a loop counter after its loop hold by construction and are left out.\<close>

definition shutdown_init :: "u32 \<Rightarrow> rom_error rom" where
  "shutdown_init lc_state = (bindM (shutdown_lc_shift lc_state) (\<lambda>shift.
    (case shift of None \<Rightarrow> returnM kErrorOk | Some (lc_shift, lc_shift_masked) \<Rightarrow> (bindM (otp_read32 OTP_CTRL_PARAM_OWNER_SW_CFG_ROM_ALERT_CLASS_EN_OFFSET) (\<lambda>class_enable.
     bindM (otp_read32 OTP_CTRL_PARAM_OWNER_SW_CFG_ROM_ALERT_ESCALATION_OFFSET) (\<lambda>class_escalate.
     let enable = map (\<lambda>i. otp_byte class_enable (of_nat i * 8)) [0..<4] in
     let escalate = map (\<lambda>i. otp_byte class_escalate (of_nat i * 8)) [0..<4] in
     bindM (fold_each [0..<unat ALERT_HANDLER_ALERT_CLASS_SHADOWED_MULTIREG_COUNT] kErrorOk
         (shutdown_alert_step lc_shift enable)) (\<lambda>error1.
     bindM (fold_each [0..<unat ALERT_HANDLER_LOC_ALERT_CLASS_SHADOWED_MULTIREG_COUNT] error1
         (shutdown_local_step lc_shift enable)) (\<lambda>error2.
     let error3 = (if lc_shift_masked XOR lc_state \<noteq> lc_shift then kErrorUnknown else error2) in
     fold_each [0..<4] error3 (shutdown_class_step enable escalate)))))))))"

section \<open>Redaction\<close>

text \<open>The cases of the switch fall through: a module is redacted with its error.\<close>

definition shutdown_redact :: "rom_error \<Rightarrow> u32 \<Rightarrow> u32" where
  "shutdown_redact reason severity =
     (let error = \<lambda>r. bitfield_field32_write r ROM_ERROR_FIELD_ERROR 0;
          module = \<lambda>r. error (bitfield_field32_write r ROM_ERROR_FIELD_MODULE 0) in
      if reason = kErrorOk then 0
      else if severity = kShutdownErrorRedactModule then module reason
      else if severity = kShutdownErrorRedactError then error reason
      else if severity = kShutdownErrorRedactNone then reason
      else kErrorUnknown)"

definition kRawStatesTestRma :: "u32 list" where
  "kRawStatesTestRma =
     [LC_CTRL_LC_STATE_STATE_VALUE_TEST_UNLOCKED0, LC_CTRL_LC_STATE_STATE_VALUE_TEST_UNLOCKED1,
      LC_CTRL_LC_STATE_STATE_VALUE_TEST_UNLOCKED2, LC_CTRL_LC_STATE_STATE_VALUE_TEST_UNLOCKED3,
      LC_CTRL_LC_STATE_STATE_VALUE_TEST_UNLOCKED4, LC_CTRL_LC_STATE_STATE_VALUE_TEST_UNLOCKED5,
      LC_CTRL_LC_STATE_STATE_VALUE_TEST_UNLOCKED6, LC_CTRL_LC_STATE_STATE_VALUE_TEST_UNLOCKED7,
      LC_CTRL_LC_STATE_STATE_VALUE_RMA]"

definition kRawStatesProduction :: "u32 list" where
  "kRawStatesProduction =
     [LC_CTRL_LC_STATE_STATE_VALUE_DEV, LC_CTRL_LC_STATE_STATE_VALUE_PROD,
      LC_CTRL_LC_STATE_STATE_VALUE_PROD_END]"

definition shutdown_redact_policy_inline :: "u32 \<Rightarrow> u32 rom" where
  "shutdown_redact_policy_inline raw_state =
     (if raw_state \<in> set kRawStatesTestRma then returnM kShutdownErrorRedactNone
      else if raw_state \<in> set kRawStatesProduction
      then abs_mmio_read32 (TOP_EARLGREY_OTP_CTRL_CORE_BASE_ADDR + OTP_CTRL_SW_CFG_WINDOW_REG_OFFSET
        + OTP_CTRL_PARAM_OWNER_SW_CFG_ROM_ERROR_REPORTING_OFFSET)
      else returnM kShutdownErrorRedactAll)"

definition shutdown_raw_state :: "u32 rom" where
  "shutdown_raw_state = (bindM (abs_mmio_read32 (TOP_EARLGREY_LC_CTRL_BASE_ADDR + LC_CTRL_LC_STATE_REG_OFFSET)) (\<lambda>reg.
    returnM (bitfield_field32_read reg LC_CTRL_LC_STATE_STATE_FIELD)))"

definition shutdown_redact_policy :: "u32 rom" where
  "shutdown_redact_policy = (bindM shutdown_raw_state (\<lambda>raw_state.
    shutdown_redact_policy_inline raw_state))"

section \<open>Reporting\<close>

definition kHexTable :: "u32 list" where
  "kHexTable = map (\<lambda>c. of_nat (of_char c)) ''0123456789abcdef''"

text \<open>The characters of the hexadecimal representation, most significant first.\<close>

definition hex_chars :: "u32 \<Rightarrow> u32 list" where
  "hex_chars val = map (\<lambda>i. kHexTable ! unat (bitfield_field32_read val
     \<lparr>bf_mask = 0xf, bf_index = (7 - of_nat i) * 4\<rparr>)) [0..<8]"

abbreviation (input) kUartWdata :: u32 where
  "kUartWdata \<equiv> TOP_EARLGREY_UART0_BASE_ADDR + UART_WDATA_REG_OFFSET"

definition shutdown_print :: "u32 \<Rightarrow> u32 \<Rightarrow> unit rom" where
  "shutdown_print prefx val = (bindM (abs_mmio_write32 kUartWdata prefx) (\<lambda>_.
    bindM (abs_mmio_write32 kUartWdata (drop_bit 8 prefx)) (\<lambda>_.
    bindM (abs_mmio_write32 kUartWdata (drop_bit 16 prefx)) (\<lambda>_.
    bindM (abs_mmio_write32 kUartWdata (drop_bit 24 prefx)) (\<lambda>_.
    bindM (for_each (hex_chars val) (abs_mmio_write32 kUartWdata)) (\<lambda>_.
    bindM (abs_mmio_write32 kUartWdata 0x0d) (\<lambda>_.
    abs_mmio_write32 kUartWdata 0x0a)))))))"

definition uart_idle_or_timeout :: "(bool * u32) rom" where
  "uart_idle_or_timeout = (bindM (abs_mmio_read32 (TOP_EARLGREY_UART0_BASE_ADDR + UART_STATUS_REG_OFFSET)) (\<lambda>st.
    let tx_idle = bitfield_bit32_read st UART_STATUS_TXIDLE_BIT in
    bindM (CSR_READ CSR_REG_MCYCLE) (\<lambda>mcycle.
    returnM (tx_idle, mcycle))))"

definition shutdown_report_error :: "rom_error \<Rightarrow> unit rom" where
  "shutdown_report_error reason = (bindM shutdown_raw_state (\<lambda>raw_state.
    bindM (shutdown_redact_policy_inline raw_state) (\<lambda>policy.
    let redacted_error = shutdown_redact reason policy in
    bindM (abs_mmio_write32 (TOP_EARLGREY_UART0_BASE_ADDR + UART_FIFO_CTRL_REG_OFFSET)
       (bitfield_bit32_write 0 UART_FIFO_CTRL_TXRST_BIT True)) (\<lambda>_.
    bindM (abs_mmio_read32 (TOP_EARLGREY_UART0_BASE_ADDR + UART_CTRL_REG_OFFSET)) (\<lambda>uart_ctrl_reg.
    bindM (abs_mmio_write32 (TOP_EARLGREY_UART0_BASE_ADDR + UART_CTRL_REG_OFFSET)
       (bitfield_bit32_write uart_ctrl_reg UART_CTRL_TX_BIT True)) (\<lambda>_.
    bindM (shutdown_print kShutdownLogPrefixBootFault redacted_error) (\<lambda>_.
    bindM (shutdown_print kShutdownLogPrefixLifecycle raw_state) (\<lambda>_.
    bindM (CSR_WRITE CSR_REG_MCYCLE 0) (\<lambda>_.
    bindM (getM (\<lambda>m. kUartTxFifoCpuCycles (plat m))) (\<lambda>limit.
    bindM (poll_until uart_idle_or_timeout (\<lambda>(tx_idle, mcycle). \<not> (mcycle < limit \<and> \<not> tx_idle))) (\<lambda>_.
    returnM ())))))))))))"

section \<open>Shutting down\<close>

definition shutdown_software_escalate :: "unit rom" where
  "shutdown_software_escalate =
     abs_mmio_write32 (TOP_EARLGREY_RV_CORE_IBEX_CFG_BASE_ADDR + RV_CORE_IBEX_SW_FATAL_ERR_REG_OFFSET) 0"

definition keymgr_disable_reg :: u32 where
  "keymgr_disable_reg =
     (let reg = bitfield_field32_write 0 KEYMGR_CONTROL_SHADOWED_DEST_SEL_FIELD
        KEYMGR_CONTROL_SHADOWED_DEST_SEL_VALUE_NONE
      in bitfield_field32_write reg KEYMGR_CONTROL_SHADOWED_OPERATION_FIELD
        KEYMGR_CONTROL_SHADOWED_OPERATION_VALUE_DISABLE)"

definition shutdown_keymgr_kill :: "unit rom" where
  "shutdown_keymgr_kill = (bindM (abs_mmio_write32_shadowed (TOP_EARLGREY_KEYMGR_BASE_ADDR + KEYMGR_CONTROL_SHADOWED_REG_OFFSET)
       keymgr_disable_reg) (\<lambda>_.
    bindM (abs_mmio_write32 (TOP_EARLGREY_KEYMGR_BASE_ADDR + KEYMGR_START_REG_OFFSET) 1) (\<lambda>_.
    abs_mmio_write32 (TOP_EARLGREY_KEYMGR_BASE_ADDR + KEYMGR_SIDELOAD_CLEAR_REG_OFFSET) 1)))"

definition shutdown_reset :: "unit rom" where
  "shutdown_reset = abs_mmio_write32
     (TOP_EARLGREY_RSTMGR_AON_BASE_ADDR + RSTMGR_RESET_REQ_REG_OFFSET) kMultiBitBool4True"

definition shutdown_flash_kill :: "unit rom" where
  "shutdown_flash_kill = abs_mmio_write32
     (TOP_EARLGREY_FLASH_CTRL_CORE_BASE_ADDR + FLASH_CTRL_DIS_REG_OFFSET) 0"

text \<open>The constants the inline assembly is given, and one pass over it: it ends in the halt
  maze of \<open>wfi\<close> instructions, which only starts over.\<close>

abbreviation (input) kShutdownPmpCfg0 :: u32 where
  "kShutdownPmpCfg0 \<equiv> push_bit 8 (EPMP_CFG_A_TOR OR EPMP_CFG_LRX)
     OR push_bit 16 (EPMP_CFG_A_NAPOT OR EPMP_CFG_L)"

definition shutdown_hang_asm :: "'a rom" where
  "shutdown_hang_asm = (bindM (abs_mmio_write32 (TOP_EARLGREY_SRAM_CTRL_MAIN_REGS_BASE_ADDR + SRAM_CTRL_CTRL_REG_OFFSET)
       (push_bit (unat SRAM_CTRL_CTRL_RENEW_SCR_KEY_BIT) 1)) (\<lambda>_.
    bindM (abs_mmio_write32 (TOP_EARLGREY_RSTMGR_AON_BASE_ADDR + RSTMGR_RESET_REQ_REG_OFFSET) kMultiBitBool4True) (\<lambda>_.
    bindM (getM (\<lambda>m. shutdown_hang_asm_region (plat m))) (\<lambda>region.
    bindM (CSR_WRITE CSR_REG_PMPADDR0 (drop_bit 2 (region_start region))) (\<lambda>_.
    bindM (CSR_WRITE (CSR_REG_PMPADDR0 + 1) (drop_bit 2 (region_end region))) (\<lambda>_.
    bindM (CSR_WRITE (CSR_REG_PMPADDR0 + 2) 0x7fffffff) (\<lambda>_.
    bindM (CSR_WRITE CSR_REG_PMPCFG0 kShutdownPmpCfg0) (\<lambda>_.
    bindM (CSR_WRITE CSR_REG_PMPCFG1 0) (\<lambda>_.
    bindM (CSR_WRITE CSR_REG_PMPCFG2 0) (\<lambda>_.
    bindM (CSR_WRITE CSR_REG_PMPCFG3 0) (\<lambda>_.
    bindM (CSR_WRITE CSR_REG_MSECCFG EPMP_MSECCFG_MMWP) (\<lambda>_.
    stopM Hang))))))))))))"

definition shutdown_hang :: "'a rom" where
  "shutdown_hang = (bindM (abs_mmio_write32 (TOP_EARLGREY_SRAM_CTRL_MAIN_REGS_BASE_ADDR + SRAM_CTRL_EXEC_EN_OFFSET) 0) (\<lambda>_.
    bindM (abs_mmio_write32 (TOP_EARLGREY_SRAM_CTRL_MAIN_REGS_BASE_ADDR + SRAM_CTRL_EXEC_REGWEN_REG_OFFSET) 0) (\<lambda>_.
    shutdown_hang_asm)))"

definition shutdown_finalize :: "rom_error \<Rightarrow> 'a rom" where
  "shutdown_finalize reason = (bindM (shutdown_report_error reason) (\<lambda>_.
    bindM shutdown_software_escalate (\<lambda>_.
    bindM shutdown_keymgr_kill (\<lambda>_.
    bindM shutdown_reset (\<lambda>_.
    bindM shutdown_flash_kill (\<lambda>_.
    shutdown_hang))))))"

definition SHUTDOWN_IF_ERROR :: "rom_error rom \<Rightarrow> unit rom" where
  "SHUTDOWN_IF_ERROR e = (bindM e (\<lambda>error.
    bindM (whenM (error \<noteq> kErrorOk) (shutdown_finalize error)) (\<lambda>_.
    HARDENED_CHECK_EQ error kErrorOk)))"

section \<open>Frames\<close>

lemma sec_safe_hang [framed_intros]: "sec_safe (stopM Hang)"
  by (simp add: sec.framed_stop)

lemma framed_shutdown_steps [framed_intros]:
  "quiet (shutdown_lc_shift s)" "sec_safe (shutdown_lc_shift s)"
  "quiet (shutdown_alert_step n es i e)" "sec_safe (shutdown_alert_step n es i e)"
  "quiet (shutdown_local_step n es i e)" "sec_safe (shutdown_local_step n es i e)"
  "quiet (shutdown_class_step es cs i e)" "sec_safe (shutdown_class_step es cs i e)"
  unfolding shutdown_lc_shift_def shutdown_alert_step_def shutdown_local_step_def shutdown_class_step_def Let_def
  by (intro framed_intros; (assumption | (simp; fail))?)+

lemma framed_shutdown_init [framed_intros]:
  "quiet (shutdown_init s)" "sec_safe (shutdown_init s)"
  unfolding shutdown_init_def Let_def
  by (auto split: option.split intro!: framed_intros)

lemma framed_shutdown_kill [framed_intros]:
  "quiet shutdown_software_escalate" "sec_safe shutdown_software_escalate"
  "quiet shutdown_keymgr_kill" "sec_safe shutdown_keymgr_kill"
  "quiet shutdown_reset" "sec_safe shutdown_reset"
  "quiet shutdown_flash_kill" "sec_safe shutdown_flash_kill"
  "quiet shutdown_hang" "sec_safe shutdown_hang"
  unfolding shutdown_software_escalate_def shutdown_keymgr_kill_def shutdown_reset_def shutdown_flash_kill_def shutdown_hang_def shutdown_hang_asm_def Let_def
  by (intro framed_intros; (assumption | (simp; fail))?)+

lemma framed_shutdown_report [framed_intros]:
  "quiet shutdown_raw_state" "sec_safe shutdown_raw_state"
  "quiet (shutdown_redact_policy_inline s)" "sec_safe (shutdown_redact_policy_inline s)"
  "quiet shutdown_redact_policy" "sec_safe shutdown_redact_policy"
  "quiet (shutdown_print p v)" "sec_safe (shutdown_print p v)"
  "quiet uart_idle_or_timeout" "sec_safe uart_idle_or_timeout"
  "quiet (shutdown_report_error e)" "sec_safe (shutdown_report_error e)"
  unfolding shutdown_raw_state_def shutdown_redact_policy_inline_def shutdown_redact_policy_def shutdown_print_def uart_idle_or_timeout_def shutdown_report_error_def Let_def
  by (intro framed_intros; (assumption | (simp; fail))?)+

lemma framed_shutdown_finalize [framed_intros]:
  "quiet (shutdown_finalize e)" "sec_safe (shutdown_finalize e)"
  unfolding shutdown_finalize_def Let_def
  by (intro framed_intros; (assumption | (simp; fail))?)+

lemma framed_shutdown_if_error [framed_intros]:
  "quiet p \<Longrightarrow> quiet (SHUTDOWN_IF_ERROR p)" "sec_safe p \<Longrightarrow> sec_safe (SHUTDOWN_IF_ERROR p)"
  unfolding SHUTDOWN_IF_ERROR_def by (auto intro!: framed_intros)

section \<open>Shutdown is final\<close>

lemma shutdown_never_returns: "never_returns (shutdown_finalize e)"
  unfolding shutdown_finalize_def shutdown_hang_def shutdown_hang_asm_def
  by (intro never_returns_bind never_returns_stop)

lemma boots_then_shutdown: "boots p (\<lambda>a t. True) J s \<Longrightarrow> boots (bindM p shutdown_finalize) Q J s"
  by (intro boots_bind, elim boots_mono) (auto intro: boots_stuck framed_intros shutdown_never_returns)

text \<open>The accesses that follow the report, in the order they are made.\<close>

definition shutdown_kill_events :: "platform \<Rightarrow> io_event list" where
  "shutdown_kill_events p =
     [W32 (TOP_EARLGREY_RV_CORE_IBEX_CFG_BASE_ADDR + RV_CORE_IBEX_SW_FATAL_ERR_REG_OFFSET) 0,
      W32 (TOP_EARLGREY_KEYMGR_BASE_ADDR + KEYMGR_CONTROL_SHADOWED_REG_OFFSET) keymgr_disable_reg,
      W32 (TOP_EARLGREY_KEYMGR_BASE_ADDR + KEYMGR_CONTROL_SHADOWED_REG_OFFSET) keymgr_disable_reg,
      W32 (TOP_EARLGREY_KEYMGR_BASE_ADDR + KEYMGR_START_REG_OFFSET) 1,
      W32 (TOP_EARLGREY_KEYMGR_BASE_ADDR + KEYMGR_SIDELOAD_CLEAR_REG_OFFSET) 1,
      W32 (TOP_EARLGREY_RSTMGR_AON_BASE_ADDR + RSTMGR_RESET_REQ_REG_OFFSET) kMultiBitBool4True,
      W32 (TOP_EARLGREY_FLASH_CTRL_CORE_BASE_ADDR + FLASH_CTRL_DIS_REG_OFFSET) 0,
      W32 (TOP_EARLGREY_SRAM_CTRL_MAIN_REGS_BASE_ADDR + SRAM_CTRL_EXEC_EN_OFFSET) 0,
      W32 (TOP_EARLGREY_SRAM_CTRL_MAIN_REGS_BASE_ADDR + SRAM_CTRL_EXEC_REGWEN_REG_OFFSET) 0,
      W32 (TOP_EARLGREY_SRAM_CTRL_MAIN_REGS_BASE_ADDR + SRAM_CTRL_CTRL_REG_OFFSET)
        (push_bit (unat SRAM_CTRL_CTRL_RENEW_SCR_KEY_BIT) 1),
      W32 (TOP_EARLGREY_RSTMGR_AON_BASE_ADDR + RSTMGR_RESET_REQ_REG_OFFSET) kMultiBitBool4True,
      CsrW CSR_REG_PMPADDR0 (drop_bit 2 (region_start (shutdown_hang_asm_region p))),
      CsrW (CSR_REG_PMPADDR0 + 1) (drop_bit 2 (region_end (shutdown_hang_asm_region p))),
      CsrW (CSR_REG_PMPADDR0 + 2) 0x7fffffff,
      CsrW CSR_REG_PMPCFG0 kShutdownPmpCfg0, CsrW CSR_REG_PMPCFG1 0, CsrW CSR_REG_PMPCFG2 0,
      CsrW CSR_REG_PMPCFG3 0, CsrW CSR_REG_MSECCFG EPMP_MSECCFG_MMWP]"

lemma shutdown_kill_run:
  "(bindM shutdown_software_escalate (\<lambda>_.
    bindM shutdown_keymgr_kill (\<lambda>_.
    bindM shutdown_reset (\<lambda>_.
    bindM shutdown_flash_kill (\<lambda>_.
    shutdown_hang))))) m
     = (Stop Hang (m\<lparr>io_log := rev (shutdown_kill_events (plat m)) @ io_log m\<rparr>) :: ('a, machine) outcome)"
  unfolding shutdown_software_escalate_def shutdown_keymgr_kill_def shutdown_reset_def
    shutdown_flash_kill_def shutdown_hang_def shutdown_hang_asm_def shutdown_kill_events_def
    abs_mmio_write32_shadowed_def
  by simp

text \<open>The only wait is the one for the UART.\<close>

lemma report_polls: "only_polls (shutdown_report_error r)"
  unfolding shutdown_report_error_def shutdown_raw_state_def shutdown_redact_policy_inline_def shutdown_print_def
    uart_idle_or_timeout_def Let_def split_beta
  by (intro framed_intros)+

text \<open>The register that enables execution from SRAM is not among the registers written.\<close>

abbreviation (input) not_sram_exec :: "io_event \<Rightarrow> bool" where
  "not_sram_exec ev \<equiv> (\<forall>v. ev \<noteq> W32 (TOP_EARLGREY_SRAM_CTRL_MAIN_REGS_BASE_ADDR + SRAM_CTRL_EXEC_REG_OFFSET) v)"

lemma report_not_sram_exec: "emits not_sram_exec (shutdown_report_error r)"
  unfolding shutdown_report_error_def shutdown_raw_state_def shutdown_redact_policy_inline_def shutdown_print_def
    uart_idle_or_timeout_def Let_def split_beta
  by (intro emits_intros; simp)+

text \<open>C32: shutting down never returns and never passes control on.
  Unless the UART keeps it waiting for ever, it ends in the halt loop after exactly the listed
  accesses: fatal error, key manager disabled and wiped, reset requested, flash disabled, SRAM
  scrambling key renewed, PMP closed. The register that enables execution from SRAM is never
  written.\<close>

theorem shutdown_finalize_is_final:
  "case (shutdown_finalize reason m :: ('a, machine) outcome) of
      Done a t \<Rightarrow> False
    | Stop e t \<Rightarrow> (e = Out_of_polls \<or> e = Hang \<and>
        (\<exists>l. io_log t = rev (shutdown_kill_events (plat m)) @ l @ io_log m)) \<and>
      list_all not_sram_exec (new_events m t)"
proof (cases "shutdown_report_error reason m")
  case (Stop e t)
  then show ?thesis
    using framedD3 [OF report_polls Stop] framedD2 [OF report_not_sram_exec Stop]
    by (auto simp: shutdown_finalize_def emit_step_def)
next
  case (Done u t)
  obtain l where l: "plat t = plat m" "io_log t = l @ io_log m" "list_all not_sram_exec l"
    using framedD1 [OF report_not_sram_exec Done] by (auto simp: emit_step_def)
  have kill: "list_all not_sram_exec (shutdown_kill_events (plat m))"
    by (simp add: shutdown_kill_events_def)
  have final: "shutdown_finalize reason m =
      (Stop Hang (t\<lparr>io_log := rev (shutdown_kill_events (plat m)) @ l @ io_log m\<rparr>) :: ('a, machine) outcome)"
    unfolding shutdown_finalize_def using Done by (simp only: bindM_def outcome.case shutdown_kill_run [unfolded bindM_def] l)
  show ?thesis
    unfolding final using kill l(3) by (simp add: new_events_def)
qed

end
