(* ===== verification/Epmp.thy ===== *)
theory Epmp
  imports Shutdown
begin

text \<open>\<open>lib/epmp_state.c\<close>, \<open>rom/rom_epmp.c\<close> and \<open>rom_ext/rom_ext_epmp.c\<close>: the
  in-memory copy of the ePMP configuration, its comparison with the CSRs, and the operations
  that change both. The point of the copy is that it never drifts from the CSRs; this is stated
  for CSRs that hold what is written to them.\<close>

abbreviation (input) kEpmpModeTor :: u32 where "kEpmpModeTor \<equiv> EPMP_CFG_A_TOR"
abbreviation (input) kEpmpModeNa4 :: u32 where "kEpmpModeNa4 \<equiv> EPMP_CFG_A_NA4"
abbreviation (input) kEpmpModeNapot :: u32 where "kEpmpModeNapot \<equiv> EPMP_CFG_A_NAPOT"
abbreviation (input) kEpmpPermLockedNoAccess :: u32 where "kEpmpPermLockedNoAccess \<equiv> 0x80"
abbreviation (input) kEpmpPermLockedReadOnly :: u32 where "kEpmpPermLockedReadOnly \<equiv> 0x81"
abbreviation (input) kEpmpPermLockedReadWrite :: u32 where "kEpmpPermLockedReadWrite \<equiv> 0x83"
abbreviation (input) kEpmpPermLockedReadExecute :: u32 where "kEpmpPermLockedReadExecute \<equiv> 0x85"
abbreviation (input) kEpmpPermLockedReadWriteExecute :: u32 where "kEpmpPermLockedReadWriteExecute \<equiv> 0x87"
abbreviation (input) EPMP_MSECCFG_RLB :: u32 where "EPMP_MSECCFG_RLB \<equiv> 4"

section \<open>The in-memory copy (epmp\_state.h)\<close>

definition epmp_cfg_write :: "nat \<Rightarrow> u32 \<Rightarrow> epmp_state \<Rightarrow> epmp_state" where
  "epmp_cfg_write entry v st = st\<lparr>pmpcfg := (pmpcfg st)[entry div 4 :=
     bitfield_field32_write (pmpcfg st ! (entry div 4))
       \<lparr>bf_mask = 0xff, bf_index = of_nat (entry mod 4) * 8\<rparr> v]\<rparr>"

definition epmp_addr_write :: "nat \<Rightarrow> u32 \<Rightarrow> epmp_state \<Rightarrow> epmp_state" where
  "epmp_addr_write entry v st = st\<lparr>pmpaddr := (pmpaddr st)[entry := v]\<rparr>"

definition epmp_state_configure_tor :: "nat \<Rightarrow> epmp_region \<Rightarrow> u32 \<Rightarrow> epmp_state \<Rightarrow> epmp_state" where
  "epmp_state_configure_tor entry region perm st =
     (let st1 = (if entry > 0 then epmp_addr_write (entry - 1) (drop_bit 2 (region_start region)) st else st);
          st2 = epmp_addr_write entry (drop_bit 2 (region_end region)) st1
      in epmp_cfg_write entry (kEpmpModeTor OR perm) st2)"

definition epmp_state_configure_na4 :: "nat \<Rightarrow> epmp_region \<Rightarrow> u32 \<Rightarrow> epmp_state \<Rightarrow> epmp_state" where
  "epmp_state_configure_na4 entry region perm st =
     epmp_cfg_write entry (kEpmpModeNa4 OR perm)
       (epmp_addr_write entry (drop_bit 2 (region_start region)) st)"

definition epmp_state_configure_napot :: "nat \<Rightarrow> epmp_region \<Rightarrow> u32 \<Rightarrow> epmp_state \<Rightarrow> epmp_state" where
  "epmp_state_configure_napot entry region perm st =
     (let len = drop_bit 3 (region_end region - region_start region - 1)
      in epmp_cfg_write entry (kEpmpModeNapot OR perm)
           (epmp_addr_write entry (drop_bit 2 (region_start region) OR len) st))"

text \<open>The CSRs that are compared, in order, with their expected values.\<close>

definition epmp_csrs :: "epmp_state \<Rightarrow> (u32 * u32) list" where
  "epmp_csrs st =
     zip (map (\<lambda>i. CSR_REG_PMPADDR0 + of_nat i) [0..<16]) (pmpaddr st)
     @ zip [CSR_REG_PMPCFG0, CSR_REG_PMPCFG1, CSR_REG_PMPCFG2, CSR_REG_PMPCFG3] (pmpcfg st)
     @ [(CSR_REG_MSECCFG, mseccfg st), (CSR_REG_MSECCFGH, 0)]"

abbreviation (input) kTotalChecks :: u32 where "kTotalChecks \<equiv> 22"

definition CHECK_CSR :: "u32 * u32 \<Rightarrow> u32 \<Rightarrow> u32 rom" where
  "CHECK_CSR p checks = (bindM (CSR_READ (fst p)) (\<lambda>csr.
    returnM (checks + of_bool (csr = snd p))))"

definition epmp_state_check :: "rom_error rom" where
  "epmp_state_check = (bindM (getM g_epmp_state) (\<lambda>s.
    bindM (fold_each (epmp_csrs s) 0 CHECK_CSR) (\<lambda>checks.
    let error = kErrorOk XOR kTotalChecks in
    if checks = kTotalChecks then (bindM (HARDENED_CHECK_EQ checks kTotalChecks) (\<lambda>_.
     let error' = error XOR checks in
     bindM (HARDENED_CHECK_EQ error' kErrorOk) (\<lambda>_.
     returnM error')))
     else returnM kErrorEpmpBadCheck)))"

section \<open>ROM (rom\_epmp.c)\<close>

definition epmp_update :: "(epmp_state \<Rightarrow> epmp_state) \<Rightarrow> unit rom" where
  "epmp_update f = modifyM (\<lambda>m. m\<lparr>g_epmp_state := f (g_epmp_state m)\<rparr>)"

definition debug_rom_access :: "u32 \<Rightarrow> u32 rom" where
  "debug_rom_access lc_state =
     (if lc_state = kLcStateTest then lc_case lc_state kLcStateTest kEpmpPermLockedReadWriteExecute
      else if lc_state = kLcStateDev then lc_case lc_state kLcStateDev kEpmpPermLockedReadWriteExecute
      else if lc_state = kLcStateProd then lc_case lc_state kLcStateProd kEpmpPermLockedNoAccess
      else if lc_state = kLcStateProdEnd then lc_case lc_state kLcStateProdEnd kEpmpPermLockedNoAccess
      else if lc_state = kLcStateRma then lc_case lc_state kLcStateRma kEpmpPermLockedReadWriteExecute
      else HARDENED_UNREACHABLE)"

definition epmp_zero :: epmp_state where
  "epmp_zero = \<lparr>pmpcfg = replicate 4 0, pmpaddr = replicate 16 0, mseccfg = 0\<rparr>"

definition rom_epmp_initial :: "platform \<Rightarrow> u32 \<Rightarrow> epmp_state" where
  "rom_epmp_initial p access =
     (let rom = \<lparr>region_start = TOP_EARLGREY_ROM_CTRL_ROM_BASE_ADDR,
        region_end = TOP_EARLGREY_ROM_CTRL_ROM_BASE_ADDR + TOP_EARLGREY_ROM_CTRL_ROM_SIZE_BYTES\<rparr>;
      eflash = \<lparr>region_start = TOP_EARLGREY_EFLASH_BASE_ADDR,
        region_end = TOP_EARLGREY_EFLASH_BASE_ADDR + TOP_EARLGREY_EFLASH_SIZE_BYTES\<rparr>;
      mmio = \<lparr>region_start = TOP_EARLGREY_MMIO_BASE_ADDR,
        region_end = TOP_EARLGREY_MMIO_BASE_ADDR + TOP_EARLGREY_MMIO_SIZE_BYTES\<rparr>;
      debug_rom = \<lparr>region_start = TOP_EARLGREY_RV_DM_MEM_BASE_ADDR,
        region_end = TOP_EARLGREY_RV_DM_MEM_BASE_ADDR + TOP_EARLGREY_RV_DM_MEM_SIZE_BYTES\<rparr>;
      stack_guard = \<lparr>region_start = stack_start p, region_end = stack_start p + 4\<rparr>;
      ram = \<lparr>region_start = TOP_EARLGREY_RAM_MAIN_BASE_ADDR,
        region_end = TOP_EARLGREY_RAM_MAIN_BASE_ADDR + TOP_EARLGREY_RAM_MAIN_SIZE_BYTES\<rparr>;
      st = epmp_state_configure_tor 1 (rom_text p) kEpmpPermLockedReadExecute epmp_zero;
      st = epmp_state_configure_napot 2 rom kEpmpPermLockedReadOnly st;
      st = epmp_state_configure_napot 5 eflash kEpmpPermLockedReadOnly st;
      st = epmp_state_configure_tor 11 mmio kEpmpPermLockedReadWrite st;
      st = epmp_state_configure_napot 13 debug_rom access st;
      st = epmp_state_configure_na4 14 stack_guard kEpmpPermLockedNoAccess st;
      st = epmp_state_configure_napot 15 ram kEpmpPermLockedReadWrite st
      in st\<lparr>mseccfg := EPMP_MSECCFG_MMWP OR EPMP_MSECCFG_RLB\<rparr>)"

definition rom_epmp_state_init :: "u32 \<Rightarrow> unit rom" where
  "rom_epmp_state_init lc_state = (bindM (debug_rom_access lc_state) (\<lambda>access.
    bindM (getM plat) (\<lambda>p.
    epmp_update (\<lambda>_. rom_epmp_initial p access))))"

definition napot_addr :: "epmp_region \<Rightarrow> u32" where
  "napot_addr region = drop_bit 2 (region_start region)
     OR drop_bit 3 (region_end region - region_start region - 1)"

definition rom_epmp_unlock_rom_ext_rx :: "epmp_region \<Rightarrow> unit rom" where
  "rom_epmp_unlock_rom_ext_rx region = (bindM (epmp_update (epmp_state_configure_tor 4 region kEpmpPermLockedReadExecute)) (\<lambda>_.
    bindM (CSR_WRITE (CSR_REG_PMPADDR0 + 3) (drop_bit 2 (region_start region))) (\<lambda>_.
    bindM (CSR_WRITE (CSR_REG_PMPADDR0 + 4) (drop_bit 2 (region_end region))) (\<lambda>_.
    bindM (CSR_CLEAR_BITS CSR_REG_PMPCFG1 0xff) (\<lambda>_.
    CSR_SET_BITS CSR_REG_PMPCFG1 (kEpmpModeTor OR kEpmpPermLockedReadExecute))))))"

definition rom_epmp_unlock_rom_ext_r :: "epmp_region \<Rightarrow> unit rom" where
  "rom_epmp_unlock_rom_ext_r region = (bindM (epmp_update (epmp_state_configure_napot 6 region kEpmpPermLockedReadOnly)) (\<lambda>_.
    bindM (CSR_WRITE (CSR_REG_PMPADDR0 + 6) (napot_addr region)) (\<lambda>_.
    bindM (CSR_CLEAR_BITS CSR_REG_PMPCFG1 (push_bit 16 0xff)) (\<lambda>_.
    CSR_SET_BITS CSR_REG_PMPCFG1 (push_bit 16 (kEpmpModeNapot OR kEpmpPermLockedReadOnly))))))"

definition rom_epmp_config_debug_rom :: "u32 \<Rightarrow> unit rom" where
  "rom_epmp_config_debug_rom lc_state = (let pmpaddr = drop_bit 2 TOP_EARLGREY_RV_DM_MEM_BASE_ADDR
       OR drop_bit 3 (TOP_EARLGREY_RV_DM_MEM_SIZE_BYTES - 1) in
    bindM (CSR_WRITE (CSR_REG_PMPADDR0 + 13) pmpaddr) (\<lambda>_.
    bindM (CSR_CLEAR_BITS CSR_REG_PMPCFG3 0xff00) (\<lambda>_.
    bindM (debug_rom_access lc_state) (\<lambda>access.
    let pmpcfg = push_bit 8 (kEpmpModeNapot OR access) in
    CSR_SET_BITS CSR_REG_PMPCFG3 pmpcfg))))"

section \<open>ROM\_EXT (rom\_ext\_epmp.c)\<close>

definition rom_ext_epmp_unlock_owner_stage_rx :: "epmp_region \<Rightarrow> unit rom" where
  "rom_ext_epmp_unlock_owner_stage_rx region = (bindM (epmp_update (epmp_state_configure_tor 8 region kEpmpPermLockedReadExecute)) (\<lambda>_.
    bindM (CSR_WRITE (CSR_REG_PMPADDR0 + 7) (drop_bit 2 (region_start region))) (\<lambda>_.
    bindM (CSR_WRITE (CSR_REG_PMPADDR0 + 8) (drop_bit 2 (region_end region))) (\<lambda>_.
    bindM (CSR_CLEAR_BITS CSR_REG_PMPCFG2 0xff) (\<lambda>_.
    CSR_SET_BITS CSR_REG_PMPCFG2 (kEpmpModeTor OR kEpmpPermLockedReadExecute))))))"

definition rom_ext_epmp_unlock_owner_stage_r :: "epmp_region \<Rightarrow> unit rom" where
  "rom_ext_epmp_unlock_owner_stage_r region = (bindM (epmp_update (epmp_state_configure_napot 9 region kEpmpPermLockedReadOnly)) (\<lambda>_.
    bindM (CSR_WRITE (CSR_REG_PMPADDR0 + 9) (napot_addr region)) (\<lambda>_.
    bindM (CSR_CLEAR_BITS CSR_REG_PMPCFG2 (push_bit 8 0xff)) (\<lambda>_.
    CSR_SET_BITS CSR_REG_PMPCFG2 (push_bit 8 (kEpmpModeNapot OR kEpmpPermLockedReadOnly))))))"

section \<open>Frames\<close>

lemma framed_epmp_update [framed_intros]: "quiet (epmp_update f)" "sec_safe (epmp_update f)"
  unfolding epmp_update_def by (intro framed_intros; simp)+

lemma framed_epmp_check [framed_intros]:
  "quiet (CHECK_CSR p c)" "sec_safe (CHECK_CSR p c)"
  "quiet epmp_state_check" "sec_safe epmp_state_check"
  unfolding CHECK_CSR_def epmp_state_check_def Let_def
  by (intro framed_intros; (assumption | (simp; fail))?)+

lemma framed_epmp_ops [framed_intros]:
  "quiet (debug_rom_access s)" "sec_safe (debug_rom_access s)"
  "quiet (rom_epmp_state_init s)" "sec_safe (rom_epmp_state_init s)"
  "quiet (rom_epmp_unlock_rom_ext_rx r)" "sec_safe (rom_epmp_unlock_rom_ext_rx r)"
  "quiet (rom_epmp_unlock_rom_ext_r r)" "sec_safe (rom_epmp_unlock_rom_ext_r r)"
  "quiet (rom_epmp_config_debug_rom s)" "sec_safe (rom_epmp_config_debug_rom s)"
  "quiet (rom_ext_epmp_unlock_owner_stage_rx r)" "sec_safe (rom_ext_epmp_unlock_owner_stage_rx r)"
  "quiet (rom_ext_epmp_unlock_owner_stage_r r)" "sec_safe (rom_ext_epmp_unlock_owner_stage_r r)"
  unfolding debug_rom_access_def rom_epmp_state_init_def rom_epmp_unlock_rom_ext_rx_def rom_epmp_unlock_rom_ext_r_def rom_epmp_config_debug_rom_def rom_ext_epmp_unlock_owner_stage_rx_def rom_ext_epmp_unlock_owner_stage_r_def Let_def
  by (intro framed_intros; (assumption | (simp; fail))?)+

section \<open>The copy and the CSRs\<close>

text \<open>The CSRs as the log of accesses leaves them.\<close>

fun csr_step :: "io_event \<Rightarrow> (u32 \<Rightarrow> u32) \<Rightarrow> u32 \<Rightarrow> u32" where
  "csr_step (CsrW c v) f = f(c := v)"
| "csr_step (CsrS c v) f = f(c := f c OR v)"
| "csr_step (CsrC c v) f = f(c := f c AND NOT v)"
| "csr_step ev f = f"

definition csr_value :: "(u32 \<Rightarrow> u32) \<Rightarrow> io_event list \<Rightarrow> u32 \<Rightarrow> u32" where
  "csr_value reset l = foldr csr_step l reset"

lemma csr_value_simps [simp]:
  "csr_value reset [] = reset"
  "csr_value reset (ev # l) = csr_step ev (csr_value reset l)"
  by (simp_all add: csr_value_def)

text \<open>CSRs that read as written, from their reset values.\<close>

definition csr_device :: "(u32 \<Rightarrow> u32) \<Rightarrow> platform \<Rightarrow> bool" where
  "csr_device reset p \<longleftrightarrow> (\<forall>l c. csr_resp p l c = csr_value reset l c)"

definition csr_sync :: "(u32 \<Rightarrow> u32) \<Rightarrow> epmp_state \<Rightarrow> bool" where
  "csr_sync f st \<longleftrightarrow> length (pmpaddr st) = 16 \<and> length (pmpcfg st) = 4
     \<and> (\<forall>i<16. f (CSR_REG_PMPADDR0 + of_nat i) = pmpaddr st ! i)
     \<and> (\<forall>i<4. f (CSR_REG_PMPCFG0 + of_nat i) = pmpcfg st ! i)
     \<and> f CSR_REG_MSECCFG = mseccfg st \<and> f CSR_REG_MSECCFGH = 0"

definition epmp_synced :: "(u32 \<Rightarrow> u32) \<Rightarrow> machine \<Rightarrow> bool" where
  "epmp_synced reset m \<longleftrightarrow> csr_sync (csr_value reset (io_log m)) (g_epmp_state m)"

lemma csr_index_eq: "i < 16 \<Longrightarrow> j < 16 \<Longrightarrow> (of_nat i = (of_nat j :: u32)) = (i = j)"
  by (simp add: word_unat_eq_iff unat_of_nat)

lemma csr_addr_small: "i < 16 \<Longrightarrow> unat (CSR_REG_PMPADDR0 + of_nat i) = 0x3b0 + i"
  by (subst unat_add_lem [THEN iffD1]) (simp_all add: unat_of_nat)

lemma csr_cfg_small: "i < 4 \<Longrightarrow> unat (CSR_REG_PMPCFG0 + of_nat i) = 0x3a0 + i"
  by (subst unat_add_lem [THEN iffD1]) (simp_all add: unat_of_nat)

lemma csr_distinct:
  "i < 16 \<Longrightarrow> CSR_REG_PMPADDR0 + of_nat i \<noteq> CSR_REG_MSECCFG"
  "i < 16 \<Longrightarrow> CSR_REG_PMPADDR0 + of_nat i \<noteq> CSR_REG_MSECCFGH"
  "i < 4 \<Longrightarrow> CSR_REG_PMPCFG0 + of_nat i \<noteq> CSR_REG_MSECCFG"
  "i < 4 \<Longrightarrow> CSR_REG_PMPCFG0 + of_nat i \<noteq> CSR_REG_MSECCFGH"
  using csr_addr_small [of i] csr_cfg_small [of i] by auto

lemma csr_apart:
  assumes "i < 16" "j < 4"
  shows "CSR_REG_PMPADDR0 + of_nat i \<noteq> CSR_REG_PMPCFG0 + of_nat j"
proof
  assume "CSR_REG_PMPADDR0 + of_nat i = CSR_REG_PMPCFG0 + of_nat j"
  then have "unat (CSR_REG_PMPADDR0 + of_nat i) = unat (CSR_REG_PMPCFG0 + of_nat j)" by (rule arg_cong)
  then show False unfolding csr_addr_small [OF assms(1)] csr_cfg_small [OF assms(2)]
    using assms by simp
qed

lemma csr_sync_addr:
  "csr_sync f st \<Longrightarrow> k < 16 \<Longrightarrow>
   csr_sync (f(CSR_REG_PMPADDR0 + of_nat k := v)) (epmp_addr_write k v st)"
  by (auto simp: csr_sync_def epmp_addr_write_def nth_list_update csr_index_eq csr_distinct
      csr_distinct [symmetric] csr_apart csr_apart [symmetric])

lemma csr_sync_cfg:
  assumes "csr_sync f st" "k < 16"
  shows "csr_sync (f(CSR_REG_PMPCFG0 + of_nat (k div 4) := bitfield_field32_write
    (f (CSR_REG_PMPCFG0 + of_nat (k div 4))) \<lparr>bf_mask = 0xff, bf_index = of_nat (k mod 4) * 8\<rparr> v))
    (epmp_cfg_write k v st)"
proof -
  have k: "k div 4 < 4" using assms(2) by simp
  have "f (CSR_REG_PMPCFG0 + of_nat (k div 4)) = pmpcfg st ! (k div 4)"
    using assms(1) k unfolding csr_sync_def by blast
  then show ?thesis
    using assms(1) k
    by (auto simp: csr_sync_def epmp_cfg_write_def nth_list_update csr_index_eq csr_distinct
      csr_distinct [symmetric] csr_apart csr_apart [symmetric])
qed

lemma csr_matches: "csr_sync f st \<longleftrightarrow> length (pmpaddr st) = 16 \<and> length (pmpcfg st) = 4 \<and>
    list_all (\<lambda>(c, v). f c = v) (epmp_csrs st)"
proof -
  have cfg: "[CSR_REG_PMPCFG0, CSR_REG_PMPCFG1, CSR_REG_PMPCFG2, CSR_REG_PMPCFG3]
      = map (\<lambda>i. CSR_REG_PMPCFG0 + of_nat i) [0..<4]"
    by (simp add: numeral_eq_Suc)
  have "list_all (\<lambda>(c, v). f c = v) (zip (map g [0..<n]) xs) \<longleftrightarrow> (\<forall>i<n. f (g i) = xs ! i)"
    if "length xs = n" for g :: "nat \<Rightarrow> u32" and n xs
    using that by (auto simp: list_all_length)
  then show ?thesis
    unfolding csr_sync_def epmp_csrs_def cfg by auto
qed

lemma check_fold:
  assumes "csr_device reset (plat m)"
  shows "\<exists>m'. fold_each xs a CHECK_CSR m = Done (a + of_nat (length (filter
      (\<lambda>(c, v). csr_value reset (io_log m) c = v) xs))) m'"
  using assms
proof (induction xs arbitrary: a m)
  case (Cons x xs)
  obtain c v where x: "x = (c, v)" by (cases x)
  define m1 where "m1 = m\<lparr>io_log := CsrR c (csr_value reset (io_log m) c) # io_log m\<rparr>"
  have run: "CHECK_CSR x a m = Done (a + of_bool (csr_value reset (io_log m) c = v)) m1"
    using Cons.prems by (simp add: x CHECK_CSR_def csr_device_def bindM_def m1_def)
  have m1: "csr_device reset (plat m1)" "csr_value reset (io_log m1) = csr_value reset (io_log m)"
    using Cons.prems by (simp_all add: m1_def)
  obtain m' where "fold_each xs (a + of_bool (csr_value reset (io_log m) c = v)) CHECK_CSR m1 =
      Done (a + of_bool (csr_value reset (io_log m) c = v) + of_nat (length (filter
        (\<lambda>(c, v). csr_value reset (io_log m) c = v) xs))) m'"
    using Cons.IH [OF m1(1)] unfolding m1(2) by blast
  then show ?case using run by (auto simp: x add.assoc)
qed simp

lemma epmp_csrs_length:
  "length (pmpaddr st) = 16 \<Longrightarrow> length (pmpcfg st) = 4 \<Longrightarrow> length (epmp_csrs st) = 22"
  by (simp add: epmp_csrs_def)

lemma filter_all: "length (filter P xs) = length xs \<longleftrightarrow> list_all P xs"
proof (induction xs)
  case (Cons x xs)
  have "length (filter P xs) \<noteq> Suc (length xs)" using length_filter_le [of P xs] by linarith
  with Cons show ?case by simp
qed simp

text \<open>The check accepts exactly the machines whose CSRs agree with the copy.\<close>

lemma epmp_state_check_iff:
  assumes dev: "csr_device reset (plat m)"
    and len: "length (pmpaddr (g_epmp_state m)) = 16" "length (pmpcfg (g_epmp_state m)) = 4"
  shows "case epmp_state_check m of
      Done r m' \<Rightarrow> r = (if epmp_synced reset m then kErrorOk else kErrorEpmpBadCheck)
    | Stop e m' \<Rightarrow> False"
proof -
  let ?cs = "epmp_csrs (g_epmp_state m)"
  let ?good = "filter (\<lambda>(c, v). csr_value reset (io_log m) c = v) ?cs"
  obtain m' where run: "fold_each ?cs 0 CHECK_CSR m = Done (of_nat (length ?good)) m'"
    using check_fold [OF dev, of ?cs 0] by auto
  have cs: "length ?cs = 22" using len by (rule epmp_csrs_length)
  have le: "length ?good \<le> 22" using length_filter_le [of _ ?cs] cs by (metis (lifting))
  define n :: u32 where "n = of_nat (length ?good)"
  have "n = 22 \<longleftrightarrow> length ?good = 22"
    using le by (simp add: n_def word_unat_eq_iff unat_of_nat)
  also have "\<dots> \<longleftrightarrow> epmp_synced reset m"
    using filter_all [of _ ?cs] len by (simp add: cs epmp_synced_def csr_matches)
  finally have good: "n = 22 \<longleftrightarrow> epmp_synced reset m" .
  have "fold_each ?cs 0 CHECK_CSR m = Done n m'" using run by (simp add: n_def)
  then show ?thesis
    using good by (cases "n = 22") (simp_all add: epmp_state_check_def Let_def)
qed
section \<open>The operations keep them in step\<close>

lemma cfg_bits:
  "(w AND NOT 0xff) OR v = bitfield_field32_write w \<lparr>bf_mask = 0xff, bf_index = 0\<rparr> v"
  if "v AND 0xff = v" for v :: u32
  using that by (simp add: bitfield_field32_write_def)

lemma epmp_synced_tor:
  assumes "csr_sync f st" "0 < k" "k < 16"
  shows "csr_sync (f(CSR_REG_PMPADDR0 + of_nat (k - 1) := drop_bit 2 (region_start region),
     CSR_REG_PMPADDR0 + of_nat k := drop_bit 2 (region_end region),
     CSR_REG_PMPCFG0 + of_nat (k div 4) := bitfield_field32_write (f (CSR_REG_PMPCFG0 + of_nat (k div 4)))
       \<lparr>bf_mask = 0xff, bf_index = of_nat (k mod 4) * 8\<rparr> (kEpmpModeTor OR perm)))
     (epmp_state_configure_tor k region perm st)"
proof -
  have k: "k - 1 < 16" "k div 4 < 4" using assms by simp_all
  have "csr_sync (f(CSR_REG_PMPADDR0 + of_nat (k - 1) := drop_bit 2 (region_start region),
      CSR_REG_PMPADDR0 + of_nat k := drop_bit 2 (region_end region)))
    (epmp_addr_write k (drop_bit 2 (region_end region))
       (epmp_addr_write (k - 1) (drop_bit 2 (region_start region)) st))"
    by (intro csr_sync_addr assms k)
  note csr_sync_cfg [OF this assms(3), of "kEpmpModeTor OR perm"]
  then show ?thesis
    using assms(2) csr_apart [OF k] csr_apart [OF assms(3) k(2)]
    by (simp add: epmp_state_configure_tor_def Let_def)
qed

lemma epmp_synced_napot:
  assumes "csr_sync f st" "k < 16"
  shows "csr_sync (f(CSR_REG_PMPADDR0 + of_nat k := napot_addr region,
     CSR_REG_PMPCFG0 + of_nat (k div 4) := bitfield_field32_write (f (CSR_REG_PMPCFG0 + of_nat (k div 4)))
       \<lparr>bf_mask = 0xff, bf_index = of_nat (k mod 4) * 8\<rparr> (kEpmpModeNapot OR perm)))
     (epmp_state_configure_napot k region perm st)"
proof -
  have k: "k div 4 < 4" using assms by simp
  show ?thesis
    using csr_sync_cfg [OF csr_sync_addr [OF assms, of "napot_addr region"] assms(2),
        of "kEpmpModeNapot OR perm"] csr_apart [OF assms(2) k]
    by (simp add: epmp_state_configure_napot_def napot_addr_def Let_def)
qed

lemmas epmp_op_defs = rom_epmp_unlock_rom_ext_rx_def rom_epmp_unlock_rom_ext_r_def
  rom_ext_epmp_unlock_owner_stage_rx_def rom_ext_epmp_unlock_owner_stage_r_def epmp_update_def

lemma unlock_sync:
  assumes "epmp_synced reset m"
  shows "rom_epmp_unlock_rom_ext_rx region m = Done u m' \<Longrightarrow> epmp_synced reset m'"
    and "rom_epmp_unlock_rom_ext_r region m = Done u m' \<Longrightarrow> epmp_synced reset m'"
    and "rom_ext_epmp_unlock_owner_stage_rx region m = Done u m' \<Longrightarrow> epmp_synced reset m'"
    and "rom_ext_epmp_unlock_owner_stage_r region m = Done u m' \<Longrightarrow> epmp_synced reset m'"
  using epmp_synced_tor [OF assms [unfolded epmp_synced_def], of 4 region kEpmpPermLockedReadExecute]
    epmp_synced_napot [OF assms [unfolded epmp_synced_def], of 6 region kEpmpPermLockedReadOnly]
    epmp_synced_tor [OF assms [unfolded epmp_synced_def], of 8 region kEpmpPermLockedReadExecute]
    epmp_synced_napot [OF assms [unfolded epmp_synced_def], of 9 region kEpmpPermLockedReadOnly]
  by (auto simp: epmp_synced_def epmp_op_defs bitfield_field32_write_def)

section \<open>The debug ROM entry\<close>

lemma debug_rom_access_Done:
  "debug_rom_access lc m = Done a m' \<longleftrightarrow> m' = m \<and> (lc, a) \<in> set
     [(kLcStateTest, kEpmpPermLockedReadWriteExecute), (kLcStateDev, kEpmpPermLockedReadWriteExecute),
      (kLcStateProd, kEpmpPermLockedNoAccess), (kLcStateProdEnd, kEpmpPermLockedNoAccess),
      (kLcStateRma, kEpmpPermLockedReadWriteExecute)]"
  by (auto simp: debug_rom_access_def lc_case_def)

lemma rom_epmp_initial_debug:
  assumes "a \<in> {kEpmpPermLockedReadWriteExecute, kEpmpPermLockedNoAccess}"
    and "a0 \<in> {kEpmpPermLockedReadWriteExecute, kEpmpPermLockedNoAccess}"
  shows "epmp_state_configure_napot 13 \<lparr>region_start = TOP_EARLGREY_RV_DM_MEM_BASE_ADDR,
      region_end = TOP_EARLGREY_RV_DM_MEM_BASE_ADDR + TOP_EARLGREY_RV_DM_MEM_SIZE_BYTES\<rparr> a
    (rom_epmp_initial p a0) = rom_epmp_initial p a"
proof -
  have r: "replicate 16 (0::u32) = [0,0,0,0,0,0,0,0,0,0,0,0,0,0,0,0]" "replicate 4 (0::u32) = [0,0,0,0]"
    by (simp_all add: numeral_eq_Suc)
  show ?thesis using assms unfolding epmp_zero_def r rom_epmp_initial_def Let_def
    by (elim insertE emptyE) (simp_all add: epmp_state_configure_tor_def epmp_state_configure_napot_def
      epmp_state_configure_na4_def epmp_cfg_write_def epmp_addr_write_def
      bitfield_field32_write_def Let_def)
qed

lemma debug_rom_sync:
  assumes hw: "csr_sync (csr_value reset (io_log m)) (rom_epmp_initial (plat m) a0)"
    and a0: "a0 \<in> {kEpmpPermLockedReadWriteExecute, kEpmpPermLockedNoAccess}"
    and cfg: "rom_epmp_config_debug_rom lc m = Done u m1"
    and init: "rom_epmp_state_init lc m1 = Done u m2"
  shows "epmp_synced reset m2"
proof -
  obtain a where a: "debug_rom_access lc m1 = Done a m1" "g_epmp_state m2 = rom_epmp_initial (plat m1) a"
    "io_log m2 = io_log m1"
    using init by (auto simp: rom_epmp_state_init_def epmp_update_def bindM_Done_iff debug_rom_access_Done)
  then have a2: "a \<in> {kEpmpPermLockedReadWriteExecute, kEpmpPermLockedNoAccess}"
    by (auto simp: debug_rom_access_Done)
  have p: "plat m1 = plat m"
    using quiet_plat [OF framed_epmp_ops(9) cfg] .
  show ?thesis
    using epmp_synced_napot [OF hw, of 13 "\<lparr>region_start = TOP_EARLGREY_RV_DM_MEM_BASE_ADDR,
      region_end = TOP_EARLGREY_RV_DM_MEM_BASE_ADDR + TOP_EARLGREY_RV_DM_MEM_SIZE_BYTES\<rparr>" a]
      rom_epmp_initial_debug [OF a2 a0, of "plat m"] cfg a p
    by (auto simp: epmp_synced_def rom_epmp_config_debug_rom_def bindM_Done_iff debug_rom_access_Done
       napot_addr_def bitfield_field32_write_def Let_def)
qed

section \<open>Properties\<close>

text \<open>C13: on CSRs that read as written, \<open>epmp_state_check\<close>
  succeeds exactly when the copy of the ePMP configuration in RAM equals the hardware: sixteen
  addresses, four configuration words and both words of \<open>mseccfg\<close>. It never traps.\<close>

theorem epmp_state_check_exact:
  assumes "csr_device reset (plat m)"
    and "length (pmpaddr (g_epmp_state m)) = 16" "length (pmpcfg (g_epmp_state m)) = 4"
  shows "case epmp_state_check m of
      Done r m' \<Rightarrow> r = (if epmp_synced reset m then kErrorOk else kErrorEpmpBadCheck)
    | Stop e m' \<Rightarrow> False"
  using assms by (rule epmp_state_check_iff)

theorem epmp_state_check_exact_witness:
  "\<exists>m'. epmp_state_check (sample_machine\<lparr>plat := sample_platform\<lparr>csr_resp := csr_value (\<lambda>c. 0)\<rparr>\<rparr>)
     = Done kErrorOk m'"
proof -
  let ?m = "sample_machine\<lparr>plat := sample_platform\<lparr>csr_resp := csr_value (\<lambda>c. 0)\<rparr>\<rparr>"
  have "epmp_synced (\<lambda>c. 0) ?m"
    by (simp add: epmp_synced_def csr_sync_def sample_defs All_less_Suc numeral_eq_Suc)
  then show ?thesis
    using epmp_state_check_exact [of "\<lambda>c. 0" ?m]
    by (auto simp: csr_device_def sample_defs split: outcome.splits)
qed

text \<open>C14: unlocking memory for the next stage, in the ROM or the
  ROM\_EXT, as text or as data, changes the hardware and its copy in the same way: the check that
  follows cannot fail unless someone else changed a CSR.\<close>

theorem epmp_unlock_keeps_sync:
  assumes "epmp_synced reset m"
  shows "(case rom_epmp_unlock_rom_ext_rx region m of
       Done u m' \<Rightarrow> epmp_synced reset m' | Stop e m' \<Rightarrow> False) \<and>
    (case rom_epmp_unlock_rom_ext_r region m of
       Done u m' \<Rightarrow> epmp_synced reset m' | Stop e m' \<Rightarrow> False) \<and>
    (case rom_ext_epmp_unlock_owner_stage_rx region m of
       Done u m' \<Rightarrow> epmp_synced reset m' | Stop e m' \<Rightarrow> False) \<and>
    (case rom_ext_epmp_unlock_owner_stage_r region m of
       Done u m' \<Rightarrow> epmp_synced reset m' | Stop e m' \<Rightarrow> False)"
proof -
  have e: "\<exists>m'. rom_epmp_unlock_rom_ext_rx region m = Done () m'"
    "\<exists>m'. rom_epmp_unlock_rom_ext_r region m = Done () m'"
    "\<exists>m'. rom_ext_epmp_unlock_owner_stage_rx region m = Done () m'"
    "\<exists>m'. rom_ext_epmp_unlock_owner_stage_r region m = Done () m'"
    by (simp_all add: rom_epmp_unlock_rom_ext_rx_def rom_epmp_unlock_rom_ext_r_def
        rom_ext_epmp_unlock_owner_stage_rx_def rom_ext_epmp_unlock_owner_stage_r_def epmp_update_def)
  from e(1) e(2) e(3) e(4) show ?thesis
    using unlock_sync [OF assms] by auto
qed

theorem epmp_unlock_keeps_sync_witness:
  "(case rom_epmp_unlock_rom_ext_rx \<lparr>region_start = 0x20000380, region_end = 0x20010000\<rparr> sample_machine of
     Done u m' \<Rightarrow> epmp_synced (\<lambda>c. 0) m' | Stop e m' \<Rightarrow> False)"
proof -
  have "epmp_synced (\<lambda>c. 0) sample_machine"
    by (simp add: epmp_synced_def csr_sync_def sample_defs All_less_Suc numeral_eq_Suc)
  from epmp_unlock_keeps_sync [OF this, of "\<lparr>region_start = 0x20000380, region_end = 0x20010000\<rparr>"]
  show ?thesis by simp
qed

text \<open>C15: if the assembly start-up left the hardware with the initial
  configuration of the ROM (with either access to the debug ROM), then configuring the debug ROM
  and initialising the copy leaves them equal, with the debug ROM open in the Test, Dev and RMA
  states only; in any other life cycle state both functions trap.\<close>

theorem epmp_boot_configuration:
  assumes "csr_sync (csr_value reset (io_log m)) (rom_epmp_initial (plat m) a0)"
    and "a0 \<in> {kEpmpPermLockedReadWriteExecute, kEpmpPermLockedNoAccess}"
  shows "case (bindM (rom_epmp_config_debug_rom lc) (\<lambda>_.
    rom_epmp_state_init lc)) m of
      Done u m' \<Rightarrow> epmp_synced reset m' \<and>
        lc \<in> {kLcStateTest, kLcStateDev, kLcStateProd, kLcStateProdEnd, kLcStateRma} \<and>
        g_epmp_state m' = rom_epmp_initial (plat m)
          (if lc \<in> {kLcStateProd, kLcStateProdEnd} then kEpmpPermLockedNoAccess
           else kEpmpPermLockedReadWriteExecute)
    | Stop e m' \<Rightarrow> e = Trap"
proof (cases "(bindM (rom_epmp_config_debug_rom lc) (\<lambda>_.
    rom_epmp_state_init lc)) m")
  case (Done u m')
  then obtain m1 where r: "rom_epmp_config_debug_rom lc m = Done () m1" "rom_epmp_state_init lc m1 = Done () m'"
    by (auto simp: bindM_Done_iff)
  have p: "plat m1 = plat m" using r(1) by (rule quiet_plat [OF framed_epmp_ops(9)])
  have "lc \<in> {kLcStateTest, kLcStateDev, kLcStateProd, kLcStateProdEnd, kLcStateRma} \<and>
        g_epmp_state m' = rom_epmp_initial (plat m)
          (if lc \<in> {kLcStateProd, kLcStateProdEnd} then kEpmpPermLockedNoAccess
           else kEpmpPermLockedReadWriteExecute)"
    using r(2) p by (auto simp: rom_epmp_state_init_def bindM_Done_iff debug_rom_access_Done epmp_update_def)
  then show ?thesis unfolding Done using debug_rom_sync [OF assms r] by simp
next
  case (Stop e m')
  then show ?thesis
    by (auto simp: rom_epmp_config_debug_rom_def rom_epmp_state_init_def bindM_Stop_iff epmp_update_def
        debug_rom_access_def lc_case_def hardened_defs split: if_splits)
qed

text \<open>CSRs that hold the given configuration from reset.\<close>

definition csrs_of :: "epmp_state \<Rightarrow> u32 \<Rightarrow> u32" where
  "csrs_of st c =
     (if c = CSR_REG_MSECCFG then mseccfg st else if c = CSR_REG_MSECCFGH then 0
      else if c \<ge> CSR_REG_PMPADDR0 then pmpaddr st ! unat (c - CSR_REG_PMPADDR0)
      else pmpcfg st ! unat (c - CSR_REG_PMPCFG0))"

lemma csrs_of_sync:
  assumes "length (pmpaddr st) = 16" "length (pmpcfg st) = 4"
  shows "csr_sync (csrs_of st) st"
proof -
  have "csrs_of st (CSR_REG_PMPADDR0 + of_nat i) = pmpaddr st ! i" if "i < 16" for i
    using csr_addr_small [OF that] csr_distinct(1,2) [OF that] that
    by (simp add: csrs_of_def word_le_nat_alt unat_of_nat)
  moreover have "csrs_of st (CSR_REG_PMPCFG0 + of_nat i) = pmpcfg st ! i" if "i < 4" for i
    using csr_cfg_small [OF that] csr_distinct(3,4) [OF that] that
    by (simp add: csrs_of_def word_le_nat_alt unat_of_nat)
  ultimately show ?thesis using assms by (simp add: csr_sync_def csrs_of_def)
qed

theorem epmp_boot_configuration_witness:
  "case (bindM (rom_epmp_config_debug_rom kLcStateProd) (\<lambda>_.
    rom_epmp_state_init kLcStateProd)) sample_machine of
      Done u m' \<Rightarrow> epmp_synced (csrs_of (rom_epmp_initial sample_platform kEpmpPermLockedReadWriteExecute)) m'
    | Stop e m' \<Rightarrow> e = Trap"
proof -
  let ?st = "rom_epmp_initial sample_platform kEpmpPermLockedReadWriteExecute"
  have "length (pmpaddr ?st) = 16" "length (pmpcfg ?st) = 4"
    by (simp_all add: rom_epmp_initial_def Let_def epmp_zero_def epmp_state_configure_tor_def
        epmp_state_configure_napot_def epmp_state_configure_na4_def epmp_cfg_write_def epmp_addr_write_def)
  then have "csr_sync (csr_value (csrs_of ?st) (io_log sample_machine)) (rom_epmp_initial (plat sample_machine)
      kEpmpPermLockedReadWriteExecute)"
    using csrs_of_sync by (simp add: sample_machine_def)
  from epmp_boot_configuration [OF this, of kLcStateProd] show ?thesis
    by (auto split: outcome.split)
qed

end
