(* ===== verification/Manifest.thy ===== *)
theory Manifest
  imports Epmp
begin

text \<open>\<open>lib/manifest.h\<close> and the boot policies of ROM (\<open>rom/boot_policy.c\<close>) and
  ROM\_EXT (\<open>rom_ext/rom_ext_boot_policy.c\<close>): the header of a boot stage image, the checks on
  its fields, and the order in which the two slots are tried. A manifest is a value read from
  memory-mapped flash; a pointer to one is its address.\<close>

abbreviation (input) CHIP_MANIFEST_SIZE :: u32 where "CHIP_MANIFEST_SIZE \<equiv> 896"
abbreviation (input) CHIP_ROM_EXT_IDENTIFIER :: u32 where "CHIP_ROM_EXT_IDENTIFIER \<equiv> 0x4552544f"
abbreviation (input) CHIP_ROM_EXT_SIZE_MIN :: u32 where "CHIP_ROM_EXT_SIZE_MIN \<equiv> CHIP_MANIFEST_SIZE"
abbreviation (input) CHIP_ROM_EXT_SIZE_MAX :: u32 where "CHIP_ROM_EXT_SIZE_MAX \<equiv> 0x10000"
abbreviation (input) CHIP_BL0_IDENTIFIER :: u32 where "CHIP_BL0_IDENTIFIER \<equiv> 0x3042544f"
abbreviation (input) CHIP_BL0_SIZE_MIN :: u32 where "CHIP_BL0_SIZE_MIN \<equiv> CHIP_MANIFEST_SIZE"
abbreviation (input) CHIP_BL0_SIZE_MAX :: u32 where "CHIP_BL0_SIZE_MAX \<equiv> 0x70000"
abbreviation (input) kSigVerifyRsaNumWords :: nat where "kSigVerifyRsaNumWords \<equiv> 96"
abbreviation (input) MANIFEST_USAGE_CONSTRAINT_UNSELECTED_WORD_VAL :: u32 where
  "MANIFEST_USAGE_CONSTRAINT_UNSELECTED_WORD_VAL \<equiv> 0xa5a5a5a5"

section \<open>Manifests\<close>

record manifest_usage_constraints =
  selector_bits :: u32
  device_id :: "u32 list"
  manuf_state_creator :: u32
  manuf_state_owner :: u32
  life_cycle_state :: u32

record manifest =
  signature :: "u32 list"
  usage_constraints :: manifest_usage_constraints
  modulus :: "u32 list"
  address_translation :: u32
  manifest_identifier :: u32
  image_length :: u32
  version_major :: u32
  version_minor :: u32
  security_version :: u32
  timestamp :: u64
  binding_value :: "u32 list"
  max_key_version :: u32
  code_start :: u32
  code_end :: u32
  entry_point :: u32

definition manifest_at :: "(u32 \<Rightarrow> u8) \<Rightarrow> u32 \<Rightarrow> manifest" where
  "manifest_at mem a =
     \<lparr>signature = flash_words mem a 96,
       usage_constraints =
         \<lparr>selector_bits = flash_word mem (a + 384), device_id = flash_words mem (a + 388) 8,
           manuf_state_creator = flash_word mem (a + 420), manuf_state_owner = flash_word mem (a + 424),
           life_cycle_state = flash_word mem (a + 428)\<rparr>,
       modulus = flash_words mem (a + 432) 96,
       address_translation = flash_word mem (a + 816),
       manifest_identifier = flash_word mem (a + 820),
       image_length = flash_word mem (a + 824),
       version_major = flash_word mem (a + 828),
       version_minor = flash_word mem (a + 832),
       security_version = flash_word mem (a + 836),
       timestamp = push_bit 32 (ucast (flash_word mem (a + 844))) OR ucast (flash_word mem (a + 840)),
       binding_value = flash_words mem (a + 848) 8,
       max_key_version = flash_word mem (a + 880),
       code_start = flash_word mem (a + 884),
       code_end = flash_word mem (a + 888),
       entry_point = flash_word mem (a + 892)\<rparr>"

definition manifest_check :: "manifest \<Rightarrow> rom_error" where
  "manifest_check m =
     (if code_start m \<ge> code_end m \<or> code_start m < CHIP_MANIFEST_SIZE
         \<or> code_end m > image_length m
         \<or> (code_start m AND 3) \<noteq> 0 \<or> (code_end m AND 3) \<noteq> 0
      then kErrorManifestBadCodeRegion
      else if entry_point m < code_start m \<or> entry_point m \<ge> code_end m
         \<or> (entry_point m AND 3) \<noteq> 0
      then kErrorManifestBadEntryPoint
      else kErrorOk)"

text \<open>The region that is hashed, as address and length: everything after the usage
  constraints.\<close>

definition manifest_digest_region_get :: "u32 \<Rightarrow> manifest \<Rightarrow> u32 * u32" where
  "manifest_digest_region_get a m = (let off = 384 + 48 in (a + off, image_length m - off))"

definition manifest_code_region_get :: "u32 \<Rightarrow> manifest \<Rightarrow> epmp_region" where
  "manifest_code_region_get a m = \<lparr>region_start = a + code_start m, region_end = a + code_end m\<rparr>"

definition manifest_entry_point_get :: "u32 \<Rightarrow> manifest \<Rightarrow> u32" where
  "manifest_entry_point_get a m = a + entry_point m"

section \<open>Boot policy of the ROM\<close>

definition boot_policy_manifest_a_get :: u32 where
  "boot_policy_manifest_a_get = TOP_EARLGREY_EFLASH_BASE_ADDR"

definition boot_policy_manifest_b_get :: u32 where
  "boot_policy_manifest_b_get = TOP_EARLGREY_EFLASH_BASE_ADDR + TOP_EARLGREY_EFLASH_SIZE_BYTES div 2"

definition boot_policy_manifests_get :: "(u32 \<Rightarrow> u8) \<Rightarrow> u32 list" where
  "boot_policy_manifests_get mem =
     (let slot_a = boot_policy_manifest_a_get; slot_b = boot_policy_manifest_b_get in
      if security_version (manifest_at mem slot_a) \<ge> security_version (manifest_at mem slot_b)
      then [slot_a, slot_b]
      else [slot_b, slot_a])"

definition boot_policy_manifest_check :: "manifest \<Rightarrow> boot_data \<Rightarrow> rom_error rom" where
  "boot_policy_manifest_check m bd =
     (if manifest_identifier m \<noteq> CHIP_ROM_EXT_IDENTIFIER then returnM kErrorBootPolicyBadIdentifier
      else if image_length m < CHIP_ROM_EXT_SIZE_MIN \<or> image_length m > CHIP_ROM_EXT_SIZE_MAX
      then returnM kErrorBootPolicyBadLength
      else (RETURN_IF_ERROR (returnM (manifest_check m)) (
    if security_version m \<ge> bd_min_security_version_rom_ext bd
        then (bindM (HARDENED_CHECK_GE (security_version m) (bd_min_security_version_rom_ext bd)) (\<lambda>_.
     returnM kErrorOk))
        else returnM kErrorBootPolicyRollback)))"

section \<open>Boot policy of the ROM\_EXT\<close>

definition rom_ext_boot_policy_manifest_a_get :: u32 where
  "rom_ext_boot_policy_manifest_a_get = TOP_EARLGREY_EFLASH_BASE_ADDR + CHIP_ROM_EXT_SIZE_MAX"

definition rom_ext_boot_policy_manifest_b_get :: u32 where
  "rom_ext_boot_policy_manifest_b_get =
     TOP_EARLGREY_EFLASH_BASE_ADDR + TOP_EARLGREY_EFLASH_SIZE_BYTES div 2 + CHIP_ROM_EXT_SIZE_MAX"

definition rom_ext_boot_policy_manifests_get :: "(u32 \<Rightarrow> u8) \<Rightarrow> u32 list" where
  "rom_ext_boot_policy_manifests_get mem =
     (let slot_a = rom_ext_boot_policy_manifest_a_get; slot_b = rom_ext_boot_policy_manifest_b_get in
      if security_version (manifest_at mem slot_a) \<ge> security_version (manifest_at mem slot_b)
      then [slot_a, slot_b]
      else [slot_b, slot_a])"

definition rom_ext_boot_policy_manifest_check :: "manifest \<Rightarrow> rom_error rom" where
  "rom_ext_boot_policy_manifest_check m =
     (if manifest_identifier m \<noteq> CHIP_BL0_IDENTIFIER then returnM kErrorBootPolicyBadIdentifier
      else if image_length m < CHIP_BL0_SIZE_MIN \<or> image_length m > CHIP_BL0_SIZE_MAX
      then returnM kErrorBootPolicyBadLength
      else (RETURN_IF_ERROR (returnM (manifest_check m)) (
    let min_security_version = 0 in
    if security_version m < min_security_version
        then returnM kErrorBootPolicyRollback
        else returnM kErrorOk)))"

section \<open>Acceptance\<close>

text \<open>What an accepted manifest guarantees, over the integers: the code lies behind the header
  and inside the image, is word aligned and not empty, and the entry point is in it.\<close>

definition manifest_layout_ok :: "manifest \<Rightarrow> bool" where
  "manifest_layout_ok m \<longleftrightarrow>
     896 \<le> unat (code_start m) \<and> unat (code_start m) \<le> unat (entry_point m)
     \<and> unat (entry_point m) < unat (code_end m) \<and> unat (code_end m) \<le> unat (image_length m)
     \<and> 4 dvd unat (code_start m) \<and> 4 dvd unat (code_end m) \<and> 4 dvd unat (entry_point m)"

lemma manifest_check_Ok: "manifest_check m = kErrorOk \<longleftrightarrow> manifest_layout_ok m"
  unfolding manifest_check_def manifest_layout_ok_def
  by (auto simp: and3_dvd not_le not_less word_less_nat_alt word_le_nat_alt)

lemma boot_policy_manifest_check_run:
  "boot_policy_manifest_check m bd s = Done
     (if manifest_identifier m \<noteq> CHIP_ROM_EXT_IDENTIFIER then kErrorBootPolicyBadIdentifier
      else if image_length m < CHIP_ROM_EXT_SIZE_MIN \<or> image_length m > CHIP_ROM_EXT_SIZE_MAX
      then kErrorBootPolicyBadLength
      else if manifest_check m \<noteq> kErrorOk then manifest_check m
      else if security_version m \<ge> bd_min_security_version_rom_ext bd then kErrorOk
      else kErrorBootPolicyRollback) s"
  by (simp add: boot_policy_manifest_check_def RETURN_IF_ERROR_def HARDENED_CHECK_GE_def)

lemma rom_ext_boot_policy_manifest_check_run:
  "rom_ext_boot_policy_manifest_check m s = Done
     (if manifest_identifier m \<noteq> CHIP_BL0_IDENTIFIER then kErrorBootPolicyBadIdentifier
      else if image_length m < CHIP_BL0_SIZE_MIN \<or> image_length m > CHIP_BL0_SIZE_MAX
      then kErrorBootPolicyBadLength
      else manifest_check m) s"
  by (simp add: rom_ext_boot_policy_manifest_check_def RETURN_IF_ERROR_def)

lemma framed_boot_policy [framed_intros]:
  "quiet (boot_policy_manifest_check m bd)" "sec_safe (boot_policy_manifest_check m bd)"
  "quiet (rom_ext_boot_policy_manifest_check m)" "sec_safe (rom_ext_boot_policy_manifest_check m)"
  unfolding boot_policy_manifest_check_def rom_ext_boot_policy_manifest_check_def Let_def
  by (intro framed_intros)+

section \<open>Properties\<close>





end
