(* ===== verification/Sigverify_Keys.thy ===== *)
theory Sigverify_Keys
  imports Manifest
begin

text \<open>\<open>rom/sigverify_keys.c\<close>: the choice of the public key by its id, allowed by its type in
  the life cycle state and by the OTP validity bytes. The keys themselves and the step of the
  search are constants of the platform.\<close>

abbreviation (input) kSigverifyKeyTypeTest :: u32 where "kSigverifyKeyTypeTest \<equiv> 0x3ff0c819"
abbreviation (input) kSigverifyKeyTypeProd :: u32 where "kSigverifyKeyTypeProd \<equiv> 0x43a839ad"
abbreviation (input) kSigverifyKeyTypeDev :: u32 where "kSigverifyKeyTypeDev \<equiv> 0x7a01a471"
abbreviation (input) kSigverifyNumEntriesPerOtpWord :: nat where "kSigverifyNumEntriesPerOtpWord \<equiv> 4"

section \<open>Validity of a key\<close>

definition key_is_valid_in_otp :: "nat \<Rightarrow> rom_error rom" where
  "key_is_valid_in_otp key_index = (let addr = OTP_CTRL_PARAM_CREATOR_SW_CFG_KEY_IS_VALID_OFFSET
       + of_nat (key_index div kSigverifyNumEntriesPerOtpWord) * 4 in
    let field = \<lparr>bf_mask = 0xff, bf_index = of_nat (key_index mod kSigverifyNumEntriesPerOtpWord) * 8\<rparr> in
    bindM (otp_read32 addr) (\<lambda>v.
    let is_valid = bitfield_field32_read v field in
    if is_valid = kHardenedByteBoolTrue
     then (bindM (HARDENED_CHECK_EQ is_valid kHardenedByteBoolTrue) (\<lambda>_.
     returnM kErrorOk))
     else returnM kErrorSigverifyBadKey))"

definition key_is_valid_in_lc_state_rma :: "u32 \<Rightarrow> nat \<Rightarrow> rom_error rom" where
  "key_is_valid_in_lc_state_rma key_ty key_index =
     (if key_ty = kSigverifyKeyTypeTest
      then (bindM (HARDENED_CHECK_EQ key_ty kSigverifyKeyTypeTest) (\<lambda>_.
    key_is_valid_in_otp key_index))
      else if key_ty = kSigverifyKeyTypeProd
      then (bindM (HARDENED_CHECK_EQ key_ty kSigverifyKeyTypeProd) (\<lambda>_.
    key_is_valid_in_otp key_index))
      else if key_ty = kSigverifyKeyTypeDev
      then (bindM (HARDENED_CHECK_EQ key_ty kSigverifyKeyTypeDev) (\<lambda>_.
    returnM kErrorSigverifyBadKey))
      else HARDENED_UNREACHABLE)"

definition key_is_valid_in_lc_state_dev :: "u32 \<Rightarrow> nat \<Rightarrow> rom_error rom" where
  "key_is_valid_in_lc_state_dev key_ty key_index =
     (if key_ty = kSigverifyKeyTypeTest
      then (bindM (HARDENED_CHECK_EQ key_ty kSigverifyKeyTypeTest) (\<lambda>_.
    returnM kErrorSigverifyBadKey))
      else if key_ty = kSigverifyKeyTypeProd
      then (bindM (HARDENED_CHECK_EQ key_ty kSigverifyKeyTypeProd) (\<lambda>_.
    key_is_valid_in_otp key_index))
      else if key_ty = kSigverifyKeyTypeDev
      then (bindM (HARDENED_CHECK_EQ key_ty kSigverifyKeyTypeDev) (\<lambda>_.
    key_is_valid_in_otp key_index))
      else HARDENED_UNREACHABLE)"

definition key_is_valid_in_lc_state_prod :: "u32 \<Rightarrow> nat \<Rightarrow> rom_error rom" where
  "key_is_valid_in_lc_state_prod key_ty key_index =
     (if key_ty = kSigverifyKeyTypeTest
      then (bindM (HARDENED_CHECK_EQ key_ty kSigverifyKeyTypeTest) (\<lambda>_.
    returnM kErrorSigverifyBadKey))
      else if key_ty = kSigverifyKeyTypeProd
      then (bindM (HARDENED_CHECK_EQ key_ty kSigverifyKeyTypeProd) (\<lambda>_.
    key_is_valid_in_otp key_index))
      else if key_ty = kSigverifyKeyTypeDev
      then (bindM (HARDENED_CHECK_EQ key_ty kSigverifyKeyTypeDev) (\<lambda>_.
    returnM kErrorSigverifyBadKey))
      else HARDENED_UNREACHABLE)"

definition key_is_valid_in_lc_state_test :: "u32 \<Rightarrow> rom_error rom" where
  "key_is_valid_in_lc_state_test key_ty =
     (if key_ty = kSigverifyKeyTypeTest
      then (bindM (HARDENED_CHECK_EQ key_ty kSigverifyKeyTypeTest) (\<lambda>_.
    returnM kErrorOk))
      else if key_ty = kSigverifyKeyTypeProd
      then (bindM (HARDENED_CHECK_EQ key_ty kSigverifyKeyTypeProd) (\<lambda>_.
    returnM kErrorOk))
      else if key_ty = kSigverifyKeyTypeDev
      then (bindM (HARDENED_CHECK_EQ key_ty kSigverifyKeyTypeDev) (\<lambda>_.
    returnM kErrorSigverifyBadKey))
      else HARDENED_UNREACHABLE)"

definition key_is_valid :: "u32 \<Rightarrow> u32 \<Rightarrow> nat \<Rightarrow> rom_error rom" where
  "key_is_valid key_ty lc_state key_index =
     (if lc_state = kLcStateTest
      then (bindM (HARDENED_CHECK_EQ lc_state kLcStateTest) (\<lambda>_.
    key_is_valid_in_lc_state_test key_ty))
      else if lc_state = kLcStateProd
      then (bindM (HARDENED_CHECK_EQ lc_state kLcStateProd) (\<lambda>_.
    key_is_valid_in_lc_state_prod key_ty key_index))
      else if lc_state = kLcStateProdEnd
      then (bindM (HARDENED_CHECK_EQ lc_state kLcStateProdEnd) (\<lambda>_.
    key_is_valid_in_lc_state_prod key_ty key_index))
      else if lc_state = kLcStateDev
      then (bindM (HARDENED_CHECK_EQ lc_state kLcStateDev) (\<lambda>_.
    key_is_valid_in_lc_state_dev key_ty key_index))
      else if lc_state = kLcStateRma
      then (bindM (HARDENED_CHECK_EQ lc_state kLcStateRma) (\<lambda>_.
    key_is_valid_in_lc_state_rma key_ty key_index))
      else HARDENED_UNREACHABLE)"

section \<open>Key lookup\<close>

definition sigverify_rsa_key_id_get :: "u32 list \<Rightarrow> u32" where
  "sigverify_rsa_key_id_get n = n ! 0"

text \<open>The search loop, with the number of iterations left; the candidate is an index, or
  \<open>UINT32_MAX\<close>.\<close>

primrec key_search :: "nat \<Rightarrow> rsa_key_entry list \<Rightarrow> u32 \<Rightarrow> u32 \<Rightarrow> u32 \<Rightarrow> u32 \<Rightarrow> u32 \<Rightarrow> u32 rom" where
  "key_search 0 keys step key_id lc_state i cand = returnM cand"
| "key_search (Suc n) keys step key_id lc_state i cand = (let cnt = of_nat (length keys) in
    let k = keys ! unat i in
    let k_id = sigverify_rsa_key_id_get (key_modulus k) in
    bindM ((if k_id = key_id then (bindM (HARDENED_CHECK_EQ k_id key_id) (\<lambda>_.
       bindM (key_is_valid (key_type k) lc_state (unat i)) (\<lambda>error.
       if error = kErrorOk then (bindM (HARDENED_CHECK_EQ error kErrorOk) (\<lambda>_.
        returnM i))
         else returnM cand)))
       else returnM cand)) (\<lambda>cand'.
    let i' = i + step in
    let i'' = (if i' \<ge> cnt then i' - cnt else i') in
    bindM (HARDENED_CHECK_LT i'' cnt) (\<lambda>_.
    key_search n keys step key_id lc_state i'' cand')))"

text \<open>The result: the error code and the key.\<close>

definition sigverify_rsa_key_get :: "u32 \<Rightarrow> u32 \<Rightarrow> (rom_error * rsa_key_entry option) rom" where
  "sigverify_rsa_key_get key_id lc_state = (bindM (getM (\<lambda>m. kSigVerifyRsaKeys (plat m))) (\<lambda>keys.
    bindM (getM (\<lambda>m. of_nat (kSigverifyRsaKeysStep (plat m)))) (\<lambda>step.
    let cnt = of_nat (length keys) in
    bindM rnd_uint32 (\<lambda>rnd.
    bindM (key_search (length keys) keys step key_id lc_state (random_start rnd cnt) UINT32_MAX) (\<lambda>cand.
    if cand < cnt then (bindM (HARDENED_CHECK_LT cand cnt) (\<lambda>_.
     bindM (key_is_valid (key_type (keys ! unat cand)) lc_state (unat cand)) (\<lambda>error.
     bindM (HARDENED_CHECK_EQ error kErrorOk) (\<lambda>_.
     returnM (error, Some (keys ! unat cand))))))
     else returnM (kErrorSigverifyBadKey, None))))))"

section \<open>Frames\<close>

lemma framed_key_valid [framed_intros]:
  "quiet (key_is_valid t s i)" "sec_safe (key_is_valid t s i)"
  unfolding key_is_valid_def key_is_valid_in_otp_def key_is_valid_in_lc_state_rma_def key_is_valid_in_lc_state_dev_def key_is_valid_in_lc_state_prod_def key_is_valid_in_lc_state_test_def Let_def
  by (intro framed_intros; (assumption | (simp; fail))?)+

lemma framed_key_search [framed_intros]:
  "quiet (key_search n ks st k s i c)" "sec_safe (key_search n ks st k s i c)"
  by (induction n arbitrary: i c) (simp_all only: key_search.simps Let_def, (intro framed_intros; assumption)+)

lemma framed_key_get [framed_intros]:
  "quiet (sigverify_rsa_key_get k s)" "sec_safe (sigverify_rsa_key_get k s)"
  unfolding sigverify_rsa_key_get_def Let_def
  by (intro framed_intros; (assumption | (simp; fail))?)+

section \<open>What a returned key is\<close>

text \<open>The policy: the types of key that may verify an image in a life cycle state, and whether
  the OTP byte of the key is consulted.\<close>

definition key_type_allowed :: "u32 \<Rightarrow> u32 \<Rightarrow> bool" where
  "key_type_allowed lc_state key_ty \<longleftrightarrow>
     lc_state = kLcStateTest \<and> key_ty \<in> {kSigverifyKeyTypeTest, kSigverifyKeyTypeProd} \<or>
     lc_state \<in> {kLcStateProd, kLcStateProdEnd} \<and> key_ty = kSigverifyKeyTypeProd \<or>
     lc_state = kLcStateDev \<and> key_ty \<in> {kSigverifyKeyTypeProd, kSigverifyKeyTypeDev} \<or>
     lc_state = kLcStateRma \<and> key_ty \<in> {kSigverifyKeyTypeTest, kSigverifyKeyTypeProd}"

definition key_otp_enabled :: "nat \<Rightarrow> io_event list \<Rightarrow> bool" where
  "key_otp_enabled i log \<longleftrightarrow> (\<exists>v. R32 (TOP_EARLGREY_OTP_CTRL_CORE_BASE_ADDR
       + OTP_CTRL_SW_CFG_WINDOW_REG_OFFSET + (OTP_CTRL_PARAM_CREATOR_SW_CFG_KEY_IS_VALID_OFFSET
       + of_nat (i div 4) * 4)) v \<in> set log \<and>
     bitfield_field32_read v \<lparr>bf_mask = 0xff, bf_index = of_nat (i mod 4) * 8\<rparr> = kHardenedByteBoolTrue)"

lemma otp_valid_Done:
  assumes "key_is_valid_in_otp i m = Done r m'"
  shows "r \<in> {kErrorOk, kErrorSigverifyBadKey} \<and>
    (r = kErrorOk \<longrightarrow> key_otp_enabled i (new_events m m'))"
proof -
  let ?a = "OTP_CTRL_PARAM_CREATOR_SW_CFG_KEY_IS_VALID_OFFSET + of_nat (i div 4) * 4"
  obtain v where v: "otp_read32 ?a m = Done v m'" and r:
    "r = kErrorOk \<and> bitfield_field32_read v \<lparr>bf_mask = 0xff, bf_index = of_nat (i mod 4) * 8\<rparr>
       = kHardenedByteBoolTrue \<or> r = kErrorSigverifyBadKey"
    using assms by (auto simp: key_is_valid_in_otp_def Let_def bindM_Done_iff split: if_splits)
  have "R32 (TOP_EARLGREY_OTP_CTRL_CORE_BASE_ADDR + OTP_CTRL_SW_CFG_WINDOW_REG_OFFSET + ?a) v
      \<in> set (new_events m m')"
    using v unfolding otp_read32_def by (rule sec_read_new)
  with r show ?thesis unfolding key_otp_enabled_def by auto
qed

lemmas key_valid_defs = key_is_valid_def key_is_valid_in_lc_state_rma_def
  key_is_valid_in_lc_state_dev_def key_is_valid_in_lc_state_prod_def key_is_valid_in_lc_state_test_def

lemma key_is_valid_Done:
  assumes "key_is_valid ty lc i m = Done r m'"
  shows "r \<in> {kErrorOk, kErrorSigverifyBadKey} \<and>
    (r = kErrorOk \<longrightarrow> key_type_allowed lc ty \<and>
       (lc = kLcStateTest \<or> key_otp_enabled i (new_events m m')))"
  using assms unfolding key_valid_defs
  by (auto simp: key_type_allowed_def split: if_splits dest: otp_valid_Done)

text \<open>The candidate of the search: an index of the table whose key has the id.\<close>

definition cand_ok :: "rsa_key_entry list \<Rightarrow> u32 \<Rightarrow> u32 \<Rightarrow> bool" where
  "cand_ok keys key_id cand \<longleftrightarrow> cand = UINT32_MAX \<or>
     unat cand < length keys \<and> key_modulus (keys ! unat cand) ! 0 = key_id"

lemma key_search_cand:
  assumes "key_search n keys step key_id lc i cand m = Done c m'"
    and "cand_ok keys key_id cand" and "unat i < length keys"
  shows "cand_ok keys key_id c"
  using assms
proof (induction n arbitrary: i cand m)
  case (Suc n)
  obtain cand' m1 where r: "key_search n keys step key_id lc
        (if i + step >= of_nat (length keys) then i + step - of_nat (length keys) else i + step) cand' m1
        = Done c m'"
    and lt: "(if i + step >= of_nat (length keys) then i + step - of_nat (length keys) else i + step)
        < of_nat (length keys)"
    and c: "cand' = cand \<or> cand' = i \<and> key_modulus (keys ! unat i) ! 0 = key_id"
    using Suc.prems(1)
    by (auto simp: Let_def bindM_Done_iff check_Done sigverify_rsa_key_id_get_def split: if_splits)
  have "unat (of_nat (length keys) :: u32) \<le> length keys" by (simp add: unat_of_nat)
  then have "unat (if i + step >= of_nat (length keys) then i + step - of_nat (length keys) else i + step)
      < length keys"
    using lt unfolding word_less_nat_alt by linarith
  then show ?case
    using Suc.IH [OF r] c Suc.prems(2,3) by (auto simp: cand_ok_def)
qed simp

lemma random_start_length:
  assumes "ks \<noteq> []" "length ks < 2 ^ 32"
  shows "unat (random_start rnd (of_nat (length ks))) < length ks"
proof -
  have u: "unat (of_nat (length ks) :: u32) = length ks" using assms(2) by (simp add: unat_of_nat)
  have "(0::u32) < of_nat (length ks)" using assms u by (simp add: word_less_nat_alt)
  from random_start_less [OF this, of rnd] u show ?thesis by (simp add: word_less_nat_alt)
qed

lemma rsa_key_get_result:
  assumes g: "sigverify_rsa_key_get key_id lc m = Done (r, k) m'"
    and n: "length (kSigVerifyRsaKeys (plat m)) < 2 ^ 32"
  shows "case k of None \<Rightarrow> r = kErrorSigverifyBadKey
    | Some key \<Rightarrow> r = kErrorOk \<and> (\<exists>i < length (kSigVerifyRsaKeys (plat m)).
        key = kSigVerifyRsaKeys (plat m) ! i \<and> key_modulus key ! 0 = key_id \<and>
        key_type_allowed lc (key_type key) \<and>
        (lc = kLcStateTest \<or> key_otp_enabled i (new_events m m')))"
proof -
  let ?ks = "kSigVerifyRsaKeys (plat m)"
  obtain rnd m1 c m2 where r1: "rnd_uint32 m = Done rnd m1"
    and r2: "key_search (length ?ks) ?ks (of_nat (kSigverifyRsaKeysStep (plat m))) key_id lc
        (random_start rnd (of_nat (length ?ks))) UINT32_MAX m1 = Done c m2"
    and r3: "(if c < of_nat (length ?ks) then (bindM (HARDENED_CHECK_LT c (of_nat (length ?ks))) (\<lambda>_.
    bindM (key_is_valid (key_type (?ks ! unat c)) lc (unat c)) (\<lambda>error.
    bindM (HARDENED_CHECK_EQ error kErrorOk) (\<lambda>_.
    returnM (error, Some (?ks ! unat c)))))) else returnM (kErrorSigverifyBadKey, None)) m2 = Done (r, k) m'"
    using g by (auto simp: sigverify_rsa_key_get_def Let_def bindM_Done_iff simp del: if_app)
  show ?thesis
  proof (cases "c < of_nat (length ?ks)")
    case True
    have u: "unat (of_nat (length ?ks) :: u32) = length ?ks" using n by (simp add: unat_of_nat)
    have c: "unat c < length ?ks" using True u by (simp add: word_less_nat_alt)
    then have ne: "?ks \<noteq> []" by auto
    have "c \<noteq> UINT32_MAX" using c n by auto
    have "cand_ok ?ks key_id UINT32_MAX" by (simp add: cand_ok_def)
    from key_search_cand [OF r2 this random_start_length [OF ne n]]
    have "cand_ok ?ks key_id c" .
    moreover note \<open>c \<noteq> UINT32_MAX\<close>
    ultimately have id: "key_modulus (?ks ! unat c) ! 0 = key_id" by (simp add: cand_ok_def)
    obtain r3: "key_is_valid (key_type (?ks ! unat c)) lc (unat c) m2 = Done kErrorOk m'"
      and rk: "r = kErrorOk" "k = Some (?ks ! unat c)"
      using r3 True by (auto simp: bindM_Done_iff check_Done)
    have q: "hw_step m m2" "hw_step m2 m'"
      using quiet_step(1) [OF quiet_rnd r1] quiet_step(1) [OF framed_key_search(1) r2]
        quiet_step(1) [OF framed_key_valid(1) r3] by (auto intro: hw.frame_trans)
    from new_events_trans [OF this] have sub: "set (new_events m2 m') \<subseteq> set (new_events m m')" by auto
    from key_is_valid_Done [OF r3] sub
    have "key_type_allowed lc (key_type (?ks ! unat c)) \<and>
        (lc = kLcStateTest \<or> key_otp_enabled (unat c) (new_events m m'))"
      by (auto simp: key_otp_enabled_def)
    with c id rk show ?thesis by auto
  next
    case False
    with r3 show ?thesis by simp
  qed
qed

section \<open>The search finds every usable key\<close>

definition key_otp_disabled :: "nat \<Rightarrow> io_event list \<Rightarrow> bool" where
  "key_otp_disabled i log \<longleftrightarrow> (\<exists>v. R32 (TOP_EARLGREY_OTP_CTRL_CORE_BASE_ADDR
       + OTP_CTRL_SW_CFG_WINDOW_REG_OFFSET + (OTP_CTRL_PARAM_CREATOR_SW_CFG_KEY_IS_VALID_OFFSET
       + of_nat (i div 4) * 4)) v \<in> set log \<and>
     bitfield_field32_read v \<lparr>bf_mask = 0xff, bf_index = of_nat (i mod 4) * 8\<rparr> \<noteq> kHardenedByteBoolTrue)"

lemma otp_valid_Bad:
  assumes "key_is_valid_in_otp i m = Done r m'" "r \<noteq> kErrorOk"
  shows "key_otp_disabled i (new_events m m')"
proof -
  let ?a = "OTP_CTRL_PARAM_CREATOR_SW_CFG_KEY_IS_VALID_OFFSET + of_nat (i div 4) * 4"
  obtain v where v: "otp_read32 ?a m = Done v m'" and r:
    "bitfield_field32_read v \<lparr>bf_mask = 0xff, bf_index = of_nat (i mod 4) * 8\<rparr> \<noteq> kHardenedByteBoolTrue"
    using assms by (auto simp: key_is_valid_in_otp_def Let_def bindM_Done_iff split: if_splits)
  have "R32 (TOP_EARLGREY_OTP_CTRL_CORE_BASE_ADDR + OTP_CTRL_SW_CFG_WINDOW_REG_OFFSET + ?a) v
      \<in> set (new_events m m')"
    using v unfolding otp_read32_def by (rule sec_read_new)
  with r show ?thesis unfolding key_otp_disabled_def by auto
qed

lemma key_is_valid_Bad:
  "key_is_valid ty lc i m = Done r m' \<Longrightarrow> r \<noteq> kErrorOk \<Longrightarrow>
     \<not> key_type_allowed lc ty \<or> lc \<noteq> kLcStateTest \<and> key_otp_disabled i (new_events m m')"
  unfolding key_valid_defs
  by (auto simp: key_type_allowed_def split: if_splits dest: otp_valid_Bad)

definition key_rejected :: "u32 \<Rightarrow> u32 \<Rightarrow> nat \<Rightarrow> rsa_key_entry \<Rightarrow> io_event list \<Rightarrow> bool" where
  "key_rejected key_id lc i key log \<longleftrightarrow> key_modulus key ! 0 \<noteq> key_id \<or>
     \<not> key_type_allowed lc (key_type key) \<or> lc \<noteq> kLcStateTest \<and> key_otp_disabled i log"

lemma key_rejected_mono: "key_rejected key_id lc i key l \<Longrightarrow> set l \<subseteq> set l' \<Longrightarrow> key_rejected key_id lc i key l'"
  by (auto simp: key_rejected_def key_otp_disabled_def)

lemma wrap_step:
  assumes "unat i < n" "unat st < n" "n < 2 ^ 31"
  defines "i' \<equiv> if i + st >= (of_nat n :: u32) then i + st - of_nat n else i + st"
  shows "unat i' = (unat i + unat st) mod n" "unat i' < n"
proof -
  have u: "unat (of_nat n :: u32) = n" using assms(3) by (simp add: unat_of_nat)
  have s: "unat (i + st) = unat i + unat st"
    using assms(1-3) by (subst unat_add_lem [THEN iffD1]) auto
  show "unat i' = (unat i + unat st) mod n"
  proof (cases "of_nat n \<le> i + st")
    case True
    have "unat (i + st - of_nat n) = unat i + unat st - n"
      using u s True by (simp add: unat_sub_if' word_le_nat_alt)
    then show ?thesis
      using assms(1-3) True u s by (simp add: i'_def word_le_nat_alt mod_if)
  next
    case False
    then show ?thesis using u s by (simp add: i'_def word_le_nat_alt)
  qed
  then show "unat i' < n" using assms(1) by simp
qed

lemma key_step_Done:
  assumes "(if key_modulus key ! 0 = key_id then (bindM (HARDENED_CHECK_EQ (key_modulus key ! 0) key_id) (\<lambda>_.
    bindM (key_is_valid (key_type key) lc (unat i)) (\<lambda>error.
    if error = kErrorOk then (bindM (HARDENED_CHECK_EQ error kErrorOk) (\<lambda>_.
     returnM i))
         else returnM cand)))
       else returnM cand) m = Done cand' m1"
  shows "hw_step m m1 \<and> (cand' = i \<or>
     cand' = cand \<and> key_rejected key_id lc (unat i) key (new_events m m1))"
proof (cases "key_modulus key ! 0 = key_id")
  case True
  then obtain e where e: "key_is_valid (key_type key) lc (unat i) m = Done e m1"
    and c: "cand' = (if e = kErrorOk then i else cand)"
    using assms by (auto simp: bindM_Done_iff check_Done split: if_splits)
  have "hw_step m m1" by (rule quiet_step(1) [OF framed_key_valid(1) e])
  then show ?thesis using c key_is_valid_Bad [OF e] by (auto simp: key_rejected_def)
qed (use assms in \<open>simp add: key_rejected_def hw.frame_refl\<close>)

lemma key_search_rejects:
  assumes "key_search n ks step key_id lc i cand m = Done UINT32_MAX m'"
    and "unat i < length ks" "unat step < length ks" "length ks < 2 ^ 31"
  shows "cand = UINT32_MAX \<and> (\<forall>k<n. key_rejected key_id lc ((unat i + k * unat step) mod length ks)
     (ks ! ((unat i + k * unat step) mod length ks)) (new_events m m'))"
  using assms
proof (induction n arbitrary: i cand m)
  case (Suc n)
  let ?i = "if i + step >= of_nat (length ks) then i + step - of_nat (length ks) else i + step"
  obtain cand' m1 where
    r: "key_search n ks step key_id lc ?i cand' m1 = Done UINT32_MAX m'"
    and b: "(if key_modulus (ks ! unat i) ! 0 = key_id then (bindM (HARDENED_CHECK_EQ (key_modulus (ks ! unat i) ! 0) key_id) (\<lambda>_.
    bindM (key_is_valid (key_type (ks ! unat i)) lc (unat i)) (\<lambda>error.
    if error = kErrorOk then (bindM (HARDENED_CHECK_EQ error kErrorOk) (\<lambda>_.
     returnM i))
         else returnM cand)))
       else returnM cand) m = Done cand' m1"
    using Suc.prems(1) unfolding key_search.simps Let_def sigverify_rsa_key_id_get_def
    by (elim bindM_DoneE) (simp only: check_Done)
  note c = key_step_Done [OF b, THEN conjunct2] and hw = key_step_Done [OF b, THEN conjunct1]
  note w = wrap_step [OF Suc.prems(2-4)]
  note ih = Suc.IH [OF r w(2) Suc.prems(3,4)]
  have "i \<noteq> UINT32_MAX" using Suc.prems(2,4) by auto
  then have c': "cand = UINT32_MAX" "key_rejected key_id lc (unat i) (ks ! unat i) (new_events m m1)"
    using c ih by auto
  have hw2: "hw_step m1 m'" by (rule quiet_step(1) [OF framed_key_search(1) r])
  have sub: "set (new_events m m1) \<subseteq> set (new_events m m')" "set (new_events m1 m') \<subseteq> set (new_events m m')"
    using new_events_trans [OF hw hw2] by auto
  show ?case
  proof (intro conjI allI impI)
    fix k assume k: "k < Suc n"
    show "key_rejected key_id lc ((unat i + k * unat step) mod length ks)
        (ks ! ((unat i + k * unat step) mod length ks)) (new_events m m')"
    proof (cases k)
      case 0
      then show ?thesis using Suc.prems(2) key_rejected_mono [OF c'(2) sub(1)] by simp
    next
      case (Suc j)
      have "(unat i + k * unat step) mod length ks = (unat ?i + j * unat step) mod length ks"
        unfolding w(1) by (simp add: Suc mod_simps algebra_simps)
      then show ?thesis using ih k Suc key_rejected_mono [OF _ sub(2)] by auto
    qed
  qed (rule c'(1))
qed simp

text \<open>A step that is coprime to the number of keys visits all of them.\<close>

lemma coprime_covers:
  assumes "coprime (t::nat) n" "0 < n" "j < n"
  obtains k where "k < n" "(s + k * t) mod n = j"
proof -
  have inj: "inj_on (\<lambda>k. (s + k * t) mod n) {..<n}"
  proof (rule inj_onI)
    fix a b assume ab: "a \<in> {..<n}" "b \<in> {..<n}" "(s + a * t) mod n = (s + b * t) mod n"
    have *: "x = y" if "x \<le> y" "y < n" "(s + x * t) mod n = (s + y * t) mod n" for x y
    proof -
      have "n dvd (s + y * t) - (s + x * t)"
        using that(3) mult_le_mono1 [OF that(1), of t]
        by (intro mod_eq_dvd_iff_nat [THEN iffD1]) simp_all
      then have "n dvd (y - x) * t" by (simp add: diff_mult_distrib)
      then have "n dvd y - x"
        using assms(1) by (simp add: coprime_dvd_mult_left_iff coprime_commute)
      then show ?thesis using that(1,2) dvd_imp_le [of n "y - x"] by linarith
    qed
    have "a < n" "b < n" using ab(1,2) by simp_all
    then show "a = b"
      using * [OF _ _ ab(3)] * [OF _ _ ab(3) [symmetric]] by (cases "a \<le> b") simp_all
  qed
  have sub: "(\<lambda>k. (s + k * t) mod n) ` {..<n} \<subseteq> {..<n}"
    using assms(2) by (intro image_subsetI) (simp only: lessThan_iff mod_less_divisor)
  have img: "(\<lambda>k. (s + k * t) mod n) ` {..<n} = {..<n}"
    by (rule endo_inj_surj [OF finite_lessThan sub inj])
  have "j \<in> (\<lambda>k. (s + k * t) mod n) ` {..<n}" unfolding img using assms(3) by simp
  then obtain k where "k \<in> {..<n}" "j = (s + k * t) mod n" by (rule imageE)
  then show thesis by (intro that [of k]) simp_all
qed

lemma rsa_key_get_complete:
  assumes g: "sigverify_rsa_key_get key_id lc m = Done (kErrorSigverifyBadKey, k) m'"
    and n: "length (kSigVerifyRsaKeys (plat m)) < 2 ^ 31"
    and st: "kSigverifyRsaKeysStep (plat m) < length (kSigVerifyRsaKeys (plat m))"
      "coprime (kSigverifyRsaKeysStep (plat m)) (length (kSigVerifyRsaKeys (plat m)))"
    and j: "j < length (kSigVerifyRsaKeys (plat m))"
  shows "key_rejected key_id lc j (kSigVerifyRsaKeys (plat m) ! j) (new_events m m')"
proof -
  let ?ks = "kSigVerifyRsaKeys (plat m)" and ?st = "of_nat (kSigverifyRsaKeysStep (plat m)) :: u32"
  have n32: "length ?ks < 2 ^ 32" using n by simp
  have ne: "?ks \<noteq> []" using j by auto
  have u: "unat (of_nat (length ?ks) :: u32) = length ?ks" "unat ?st = kSigverifyRsaKeysStep (plat m)"
    using n st(1) by (simp_all add: unat_of_nat)
  obtain rnd m1 c m2 where r1: "rnd_uint32 m = Done rnd m1"
    and r2: "key_search (length ?ks) ?ks ?st key_id lc
        (random_start rnd (of_nat (length ?ks))) UINT32_MAX m1 = Done c m2"
    and r3: "\<not> c < of_nat (length ?ks)" "m' = m2"
    using g by (auto simp: sigverify_rsa_key_get_def Let_def bindM_Done_iff check_Done split: if_splits)
  have c: "c = UINT32_MAX"
    using key_search_cand [OF r2 _ random_start_length [OF ne n32]] r3(1) u(1)
    by (auto simp: cand_ok_def word_less_nat_alt)
  have lt: "unat ?st < length ?ks" using st(1) u(2) by simp
  obtain i where i: "i < length ?ks"
    "(unat (random_start rnd (of_nat (length ?ks))) + i * unat ?st) mod length ?ks = j"
    using coprime_covers [OF st(2) _ j] j u(2) by (metis gr_implies_not0 neq0_conv)
  have rej: "key_rejected key_id lc j (?ks ! j) (new_events m1 m2)"
    using key_search_rejects [OF r2 [unfolded c] random_start_length [OF ne n32] lt n] i by auto
  have q: "hw_step m m1" "hw_step m1 m2"
    by (rule quiet_step(1) [OF quiet_rnd r1], rule quiet_step(1) [OF framed_key_search(1) r2])
  show ?thesis using key_rejected_mono [OF rej] new_events_trans [OF q] r3(2) by auto
qed

section \<open>Properties\<close>

text \<open>C6: a key is returned exactly with \<open>kErrorOk\<close>, and then it is one
  of the keys in ROM, with the requested identifier, of a type that may be used in the life cycle
  state, and (outside the Test states) not invalidated: its OTP byte was read during the lookup
  and is \<open>kHardenedByteBoolTrue\<close>.\<close>

theorem rsa_key_get_sound:
  assumes "length (kSigVerifyRsaKeys (plat m)) < 2 ^ 32"
  shows "case sigverify_rsa_key_get key_id lc m of
      Done (r, None) m' \<Rightarrow> r = kErrorSigverifyBadKey
    | Done (r, Some key) m' \<Rightarrow> r = kErrorOk \<and>
        (\<exists>i < length (kSigVerifyRsaKeys (plat m)).
          key = kSigVerifyRsaKeys (plat m) ! i \<and> key_modulus key ! 0 = key_id \<and>
          key_type_allowed lc (key_type key) \<and>
          (lc = kLcStateTest \<or> key_otp_enabled i (new_events m m')))
    | Stop e m' \<Rightarrow> no_jump e"
proof (cases "sigverify_rsa_key_get key_id lc m")
  case (Done rk m')
  then show ?thesis using rsa_key_get_result [OF _ assms, of key_id lc "fst rk" "snd rk" m']
    by (cases rk) (auto split: option.splits)
next
  case (Stop e m')
  then show ?thesis using framedD3 [OF framed_key_get(1), of key_id lc m e m'] by simp
qed

theorem rsa_key_get_sound_witness:
  "case sigverify_rsa_key_get (- 1) kLcStateTest
      (sample_machine\<lparr>plat := sample_platform\<lparr>mmio_resp := \<lambda>l a. 1\<rparr>\<rparr>) of
      Done (r, k) m' \<Rightarrow> k = Some (hd (kSigVerifyRsaKeys sample_platform)) \<and> r = kErrorOk
    | Stop e m' \<Rightarrow> False"
proof -
  let ?m = "sample_machine\<lparr>plat := sample_platform\<lparr>mmio_resp := \<lambda>l a. 1\<rparr>\<rparr>"
  have "\<exists>v m1. rnd_uint32 ?m = Done v m1"
    by (simp add: rnd_uint32_def otp_read32_def sec_mmio_read32_def upsert_register_def sec_update_def
        upsert_scan.simps Let_def sample_defs hardened_defs)
  then obtain v m1 where rnd: "rnd_uint32 ?m = Done v m1" by blast
  have keys: "kSigVerifyRsaKeys sample_platform = [\<lparr>key_modulus = replicate 96 (- 1),
      key_n0_inv = 1 # replicate 7 0, key_type = kSigverifyKeyTypeProd\<rparr>]"
    "kSigverifyRsaKeysStep sample_platform = 0" by (simp_all add: sample_platform_def)
  have "random_start v 1 < 1" by (rule random_start_less) simp
  then have start: "random_start v 1 = 0" by (simp add: word_less_nat_alt unat_eq_0)
  have run: "\<exists>k r m'. sigverify_rsa_key_get (- 1) kLcStateTest ?m = Done (r, Some k) m'"
    using rnd start by (simp add: sigverify_rsa_key_get_def keys Let_def hardened_defs
        key_is_valid_def key_is_valid_in_lc_state_test_def sigverify_rsa_key_id_get_def)
  then show ?thesis using rsa_key_get_sound [of ?m "- 1" kLcStateTest]
    by (auto simp: keys)
qed

text \<open>C7: the randomised search misses no key: starting at a random
  index and advancing by a step coprime to the number of keys it visits every key, and reports
  \<open>kErrorSigverifyBadKey\<close> only when each key has another identifier, has a type that is not
  allowed in the life cycle state, or was read as invalid from OTP during the search.\<close>

theorem rsa_key_get_exhaustive:
  assumes "length (kSigVerifyRsaKeys (plat m)) < 2 ^ 31"
    "kSigverifyRsaKeysStep (plat m) < length (kSigVerifyRsaKeys (plat m))"
    "coprime (kSigverifyRsaKeysStep (plat m)) (length (kSigVerifyRsaKeys (plat m)))"
  shows "case sigverify_rsa_key_get key_id lc m of
      Done (r, None) m' \<Rightarrow> list_all (\<lambda>j. key_rejected key_id lc j (kSigVerifyRsaKeys (plat m) ! j)
        (new_events m m')) [0..<length (kSigVerifyRsaKeys (plat m))]
    | Done (r, Some key) m' \<Rightarrow> r = kErrorOk
    | Stop e m' \<Rightarrow> no_jump e"
proof (cases "sigverify_rsa_key_get key_id lc m")
  case (Done rk m')
  have n: "length (kSigVerifyRsaKeys (plat m)) < 2 ^ 32" using assms(1) by simp
  obtain r k where rk: "rk = (r, k)" by (cases rk)
  show ?thesis
  proof (cases k)
    case None
    with Done rk have g: "sigverify_rsa_key_get key_id lc m = Done (kErrorSigverifyBadKey, None) m'"
      using rsa_key_get_result [OF _ n, of key_id lc r k m'] by simp
    show ?thesis
      using rsa_key_get_complete [OF g assms] unfolding Done rk None by (simp add: list_all_iff)
  next
    case (Some key)
    then show ?thesis using Done rk rsa_key_get_result [OF _ n, of key_id lc r k m'] by simp
  qed
next
  case (Stop e m')
  then show ?thesis using framedD3 [OF framed_key_get(1), of key_id lc m e m'] by simp
qed

theorem rsa_key_get_exhaustive_witness:
  "case sigverify_rsa_key_get 5 kLcStateProd sample_machine of
      Done (r, None) m' \<Rightarrow> key_rejected 5 kLcStateProd 0 (kSigVerifyRsaKeys (plat sample_machine) ! 0)
        (new_events sample_machine m')
    | Done (r, Some key) m' \<Rightarrow> r = kErrorOk
    | Stop e m' \<Rightarrow> no_jump e"
proof -
  have "length (kSigVerifyRsaKeys (plat sample_machine)) = 1" "kSigverifyRsaKeysStep (plat sample_machine) = 0"
    by (simp_all add: sample_defs)
  with rsa_key_get_exhaustive [of sample_machine 5 kLcStateProd] show ?thesis
    by (auto split: outcome.splits option.splits prod.splits)
qed

end
