(* ===== verification/Sigverify_Ibex.thy ===== *)
theory Sigverify_Ibex
  imports Prelude
begin

text \<open>\<open>lib/sigverify/mod_exp_ibex.c\<close>: RSA-3072 signature recovery with Montgomery
  multiplication in 32-bit digits. Buffers are lists of \<open>kSigVerifyRsaNumWords\<close> = 96 words,
  least significant first; every loop runs over the whole buffer, so the definitions take the
  length from it and the lemmas hold for any number of digits.\<close>

unbundle bit_operations_syntax

record sigverify_rsa_key =
  rsa_n :: "u32 list"
  rsa_n0_inv :: "u32 list"

section \<open>Digits\<close>

text \<open>The loop of \<open>subtract_modulus\<close>, on the rest of the buffer and of the modulus.\<close>

fun subtract_loop :: "u32 \<Rightarrow> u32 list \<Rightarrow> u32 list \<Rightarrow> u32 * u32 list" where
  "subtract_loop borrow (a # as) (n # ns) =
     (let temp = a - borrow;
          borrow' = of_bool (a < borrow) + of_bool (temp < n);
          (b, rest) = subtract_loop borrow' as ns
      in (b, (temp - n) # rest))"
| "subtract_loop borrow _ _ = (borrow, [])"

definition subtract_modulus :: "sigverify_rsa_key \<Rightarrow> u32 list \<Rightarrow> u32 * u32 list" where
  "subtract_modulus key a = subtract_loop 0 a (rsa_n key)"

text \<open>The loop of \<open>greater_equal_modulus\<close> from the most significant digit down.\<close>

fun greater_equal_loop :: "u32 list \<Rightarrow> u32 list \<Rightarrow> bool" where
  "greater_equal_loop (a # as) (n # ns) = (if a \<noteq> n then a > n else greater_equal_loop as ns)"
| "greater_equal_loop _ _ = True"

definition greater_equal_modulus :: "sigverify_rsa_key \<Rightarrow> u32 list \<Rightarrow> bool" where
  "greater_equal_modulus key a = greater_equal_loop (rev a) (rev (rsa_n key))"

text \<open>\<open>shift_left\<close> goes from the most significant digit down, so each digit takes the old
  top bit of the one below it; \<open>below\<close> is that digit.\<close>

fun shift_digits :: "u32 \<Rightarrow> u32 list \<Rightarrow> u32 list" where
  "shift_digits below [] = []"
| "shift_digits below (a # as) = (push_bit 1 a OR drop_bit 31 below) # shift_digits a as"

definition shift_left :: "u32 list \<Rightarrow> u32 * u32 list" where
  "shift_left a = (let msb = drop_bit 31 (last a) in
     (msb, (case a of [] \<Rightarrow> [] | x # xs \<Rightarrow> push_bit 1 x # shift_digits x xs)))"

section \<open>Montgomery multiplication\<close>

text \<open>The inner loop, on the remaining digits of \<open>y\<close>, \<open>n\<close> and \<open>result\<close>:
  the new digits and the two accumulators.\<close>

fun mont_inner :: "u32 \<Rightarrow> u32 \<Rightarrow> u64 \<Rightarrow> u64 \<Rightarrow> u32 list \<Rightarrow> u32 list \<Rightarrow> u32 list \<Rightarrow> u32 list * u64 * u64" where
  "mont_inner x u acc0 acc1 (y # ys) (n # ns) (r # rs) =
     (let acc0 = ucast x * ucast y + ucast r + drop_bit 32 acc0;
          acc1 = ucast u * ucast n + ucast (ucast acc0 :: u32) + drop_bit 32 acc1;
          (ds, a0, a1) = mont_inner x u acc0 acc1 ys ns rs
      in (ucast acc1 # ds, a0, a1))"
| "mont_inner x u acc0 acc1 _ _ _ = ([], acc0, acc1)"

definition mont_step :: "sigverify_rsa_key \<Rightarrow> u32 list \<Rightarrow> u32 \<Rightarrow> u32 list \<Rightarrow> u32 list" where
  "mont_step key y x result =
     (let acc0 = ucast x * ucast (y ! 0) + ucast (result ! 0) :: u64;
          u = ucast acc0 * (rsa_n0_inv key ! 0);
          acc1 = ucast u * ucast (rsa_n key ! 0) + ucast (ucast acc0 :: u32) :: u64;
          (ds, a0, a1) = mont_inner x u acc0 acc1 (tl y) (tl (rsa_n key)) (tl result);
          acc0 = drop_bit 32 a0 + drop_bit 32 a1;
          result = ds @ [ucast acc0]
      in if drop_bit 32 acc0 \<noteq> 0 then snd (subtract_modulus key result) else result)"

definition mont_mul :: "sigverify_rsa_key \<Rightarrow> u32 list \<Rightarrow> u32 list \<Rightarrow> u32 list" where
  "mont_mul key x y = foldl (\<lambda>result x_i. mont_step key y x_i result) (replicate (length x) 0) x"

section \<open>Exponentiation\<close>

text \<open>The inner \<open>while\<close> of \<open>calc_r_square\<close>: reduce until \<open>buf < n\<close>.
  \<open>None\<close> is a loop that does not end (a modulus of zero).\<close>

partial_function (option) reduce_loop :: "sigverify_rsa_key \<Rightarrow> u32 \<Rightarrow> u32 list \<Rightarrow> u32 list option" where
  [code]: "reduce_loop key msb buf =
     (if msb > 0 \<or> greater_equal_modulus key buf
      then let (borrow, buf') = subtract_modulus key buf in reduce_loop key (msb - borrow) buf'
      else Some buf)"

primrec double_loop :: "nat \<Rightarrow> sigverify_rsa_key \<Rightarrow> u32 list \<Rightarrow> u32 list option" where
  "double_loop 0 key buf = Some buf"
| "double_loop (Suc n) key buf =
     (let (msb, buf') = shift_left buf in
      case reduce_loop key msb buf' of
        None \<Rightarrow> None
      | Some buf'' \<Rightarrow> double_loop n key buf'')"

definition calc_r_square :: "sigverify_rsa_key \<Rightarrow> u32 list option" where
  "calc_r_square key =
     (let (_, buf) = subtract_modulus key (replicate (length (rsa_n key)) 0) in
      case double_loop 96 key buf of
        None \<Rightarrow> None
      | Some buf \<Rightarrow>
          let result = mont_mul key buf buf;
              round = (\<lambda>r. let b = mont_mul key r r in mont_mul key b b)
          in Some ((round ^^ 2) result))"

datatype mod_exp_result = Bad_signature | Recovered "u32 list" | Diverges

definition sigverify_mod_exp_ibex :: "sigverify_rsa_key \<Rightarrow> u32 list \<Rightarrow> mod_exp_result" where
  "sigverify_mod_exp_ibex key sig =
     (if greater_equal_modulus key sig then Bad_signature
      else case calc_r_square key of
        None \<Rightarrow> Diverges
      | Some rr \<Rightarrow>
          let buf = mont_mul key sig rr;
              round = (\<lambda>b. let r = mont_mul key b b in mont_mul key r r);
              buf = (round ^^ 8) buf;
              result = mont_mul key buf sig
          in Recovered (if greater_equal_modulus key result then snd (subtract_modulus key result) else result))"

section \<open>The number a buffer stands for\<close>

abbreviation (input) B32 :: nat where "B32 \<equiv> 4294967296"

primrec words_value :: "u32 list \<Rightarrow> nat" where
  "words_value [] = 0"
| "words_value (w # ws) = unat w + B32 * words_value ws"

lemma words_value_less: "words_value ws < B32 ^ length ws"
proof (induction ws)
  case (Cons w ws)
  have "unat w + B32 * words_value ws < B32 * (words_value ws + 1)"
    using unat_bound [of w] by simp
  also have "\<dots> \<le> B32 * B32 ^ length ws" using Cons by (intro mult_le_mono2) simp
  finally show ?case by simp
qed simp

lemma words_value_append:
  "words_value (xs @ ys) = words_value xs + B32 ^ length xs * words_value ys"
  by (induction xs) (simp_all add: algebra_simps)

lemma words_value_zero: "words_value (replicate n 0) = 0"
  by (induction n) simp_all

section \<open>Subtraction and comparison\<close>

lemma unat_sub_wrap: "unat (a - b) + unat b = unat a + (if a < b then B32 else 0)" for a b :: u32
  using unat_bound [of a] unat_bound [of b]
  by (auto simp: unat_sub_if' word_less_nat_alt)

lemma subtract_digit:
  fixes a b n :: u32
  assumes "b \<le> 1"
  defines "c \<equiv> of_bool (a < b) + of_bool (a - b < n) :: u32"
  shows "c \<le> 1" and "unat (a - b - n) + unat n + unat b = unat a + B32 * unat c"
proof -
  have excl: "\<not> (a < b \<and> a - b < n)"
  proof
    assume h: "a < b \<and> a - b < n"
    then have "b = 1" "a = 0" using assms(1) by (auto simp: word_less_nat_alt word_le_nat_alt word_unat_eq_iff)
    then have "a - b = - 1" by simp
    then show False using h by simp
  qed
  have c: "unat c = of_bool (a < b) + of_bool (a - b < n)" using excl by (auto simp: c_def)
  show "c \<le> 1" using excl by (auto simp: c_def)
  show "unat (a - b - n) + unat n + unat b = unat a + B32 * unat c"
    using unat_sub_wrap [of "a - b" n] unat_sub_wrap [of a b] unfolding c by (auto split: if_splits)
qed

lemma subtract_loop_value:
  assumes "subtract_loop b as ns = (b', ds)" "length as = length ns" "b \<le> 1"
  shows "words_value ds + words_value ns + unat b = words_value as + unat b' * B32 ^ length ns
    \<and> b' \<le> 1 \<and> length ds = length ns"
  using assms
proof (induction b as ns arbitrary: b' ds rule: subtract_loop.induct)
  case (1 b a as n ns)
  obtain c where c: "c = (of_bool (a < b) + of_bool (a - b < n) :: u32)" by blast
  obtain rest where r: "subtract_loop c as ns = (b', rest)" and ds: "ds = (a - b - n) # rest"
    using "1.prems" by (auto simp: Let_def c split: prod.splits)
  have d: "c \<le> 1" "unat (a - b - n) + unat n + unat b = unat a + B32 * unat c"
    using subtract_digit [OF "1.prems"(3), of a n] unfolding c by blast+
  have len: "length as = length ns" using "1.prems"(2) by simp
  have IH: "words_value rest + words_value ns + unat c = words_value as + unat b' * B32 ^ length ns
    \<and> b' \<le> 1 \<and> length rest = length ns"
    using "1.IH" [OF refl c r len d(1)] .
  have "unat b' * B32 ^ length (n # ns) = B32 * (unat b' * B32 ^ length ns)" by simp
  with IH d(2) show ?case unfolding ds words_value.simps by (intro conjI; linarith?) simp_all
qed auto

lemma subtract_modulus_value:
  assumes "subtract_modulus key a = (b, ds)" "length a = length (rsa_n key)"
  shows "words_value ds + words_value (rsa_n key) = words_value a + unat b * B32 ^ length a"
    and "b \<le> 1" and "length ds = length a"
  using subtract_loop_value [OF assms(1) [unfolded subtract_modulus_def] assms(2)] assms(2) by simp_all

lemma greater_equal_loop_value:
  "length as = length ns \<Longrightarrow>
   greater_equal_loop as ns \<longleftrightarrow> words_value (rev ns) \<le> words_value (rev as)"
proof (induction as ns rule: list_induct2)
  case (Cons a as n ns)
  let ?N = "B32 ^ length as"
  have b: "words_value (rev as) < ?N" "words_value (rev ns) < ?N"
    using words_value_less [of "rev as"] words_value_less [of "rev ns"] Cons.hyps by simp_all
  have "unat n * ?N + words_value (rev ns) \<le> unat a * ?N + words_value (rev as)
     \<longleftrightarrow> unat n < unat a \<or> (n = a \<and> words_value (rev ns) \<le> words_value (rev as))"
  proof (cases n a rule: linorder_cases)
    case less
    then have "(unat n + 1) * ?N \<le> unat a * ?N" by (intro mult_le_mono1) (simp add: word_less_nat_alt)
    then show ?thesis using less b by (simp add: word_less_nat_alt)
  next
    case greater
    then have "(unat a + 1) * ?N \<le> unat n * ?N" by (intro mult_le_mono1) (simp add: word_less_nat_alt)
    then show ?thesis using greater b by (auto simp: word_less_nat_alt)
  qed simp
  then show ?case using Cons by (auto simp: words_value_append word_less_nat_alt algebra_simps)
qed simp

lemma greater_equal_modulus_value:
  "length a = length (rsa_n key) \<Longrightarrow>
   greater_equal_modulus key a \<longleftrightarrow> words_value (rsa_n key) \<le> words_value a"
  by (simp add: greater_equal_modulus_def greater_equal_loop_value)

section \<open>Doubling\<close>

lemma unat_shl1_or:
  fixes a c :: u32
  assumes "c \<le> 1"
  shows "unat (push_bit 1 a OR c) + B32 * unat (drop_bit 31 a) = 2 * unat a + unat c"
proof -
  have "push_bit 1 a OR c = 2 * a + c"
  proof -
    have "c = 0 \<or> c = 1" using assms by (auto simp: word_le_nat_alt word_unat_eq_iff)
    then show ?thesis
      by (elim disjE) (simp_all add: push_bit_eq_mult or_one_eq mult.commute)
  qed
  moreover have "unat (2 * a + c) = (2 * unat a + unat c) mod B32"
    by (simp add: unat_word_ariths mod_simps)
  moreover have "unat (drop_bit 31 a) = (2 * unat a + unat c) div B32"
  proof -
    have "unat (drop_bit 31 a) = unat a div 2147483648"
      using unat_bound [of a] by (simp only: unsigned_drop_bit_eq) (simp add: drop_bit_eq_div take_bit_nat_eq_self)
    also have "\<dots> = (2 * unat a + unat c) div 2 div 2147483648"
      using assms by (auto simp: word_le_nat_alt le_Suc_eq)
    finally show ?thesis by (simp add: div_mult2_eq [symmetric])
  qed
  ultimately show ?thesis by simp
qed

lemma drop31_le1: "drop_bit 31 a \<le> (1 :: u32)"
  using unat_bound [of a]
  by (simp only: word_le_nat_alt unsigned_drop_bit_eq)
    (simp add: drop_bit_eq_div take_bit_nat_eq_self less_Suc_eq_le [symmetric] div_less_iff_less_mult)

lemma shift_digits_value:
  "words_value (shift_digits c as) + B32 ^ length as * unat (drop_bit 31 (last (c # as)))
     = 2 * words_value as + unat (drop_bit 31 c)"
proof (induction as arbitrary: c)
  case (Cons a as)
  have "words_value (shift_digits a as) + B32 ^ length as * unat (drop_bit 31 (last (a # as)))
     = 2 * words_value as + unat (drop_bit 31 a)" by (rule Cons.IH)
  then have "B32 * words_value (shift_digits a as) + B32 ^ length (a # as) * unat (drop_bit 31 (last (c # a # as)))
     = B32 * (2 * words_value as) + B32 * unat (drop_bit 31 a)"
    by (simp add: mult.assoc flip: distrib_left)
  with unat_shl1_or [OF drop31_le1 [of c], of a] show ?case by simp
qed simp

lemma shift_left_value:
  assumes "shift_left a = (msb, a')" "a \<noteq> []"
  shows "words_value a' + unat msb * B32 ^ length a = 2 * words_value a"
    and "length a' = length a"
proof -
  obtain x xs where a: "a = x # xs" using assms(2) by (cases a) auto
  have l: "length (shift_digits c ws) = length ws" for c ws by (induction ws arbitrary: c) simp_all
  have h: "msb = drop_bit 31 (last (x # xs))" "a' = push_bit 1 x # shift_digits x xs"
    using assms(1) by (simp_all add: shift_left_def a Let_def split: list.splits)
  have "unat (push_bit 1 x) + B32 * unat (drop_bit 31 x) = 2 * unat x"
    using unat_shl1_or [of 0 x] by simp
  moreover have "B32 * words_value (shift_digits x xs) + B32 ^ length a * unat (drop_bit 31 (last (x # xs)))
      = B32 * (2 * words_value xs) + B32 * unat (drop_bit 31 x)"
    using shift_digits_value [of x xs] by (simp add: a mult.assoc flip: distrib_left)
  ultimately show "words_value a' + unat msb * B32 ^ length a = 2 * words_value a"
    by (simp add: h a mult_ac del: last.simps)
  show "length a' = length a" by (simp add: h a l)
qed

text \<open>A value below twice the modulus needs at most one subtraction.\<close>

lemma reduce_loop_value:
  assumes "words_value buf + unat msb * B32 ^ length buf < 2 * words_value (rsa_n key)"
    and "length buf = length (rsa_n key)"
  shows "\<exists>r. reduce_loop key msb buf = Some r \<and> length r = length buf
    \<and> words_value r = (words_value buf + unat msb * B32 ^ length buf) mod words_value (rsa_n key)"
proof -
  let ?n = "words_value (rsa_n key)" and ?R = "B32 ^ length buf"
  have n: "?n < ?R" using words_value_less [of "rsa_n key"] assms(2) by simp
  have fin: "reduce_loop key m b = Some b" if "m = 0" "words_value b < ?n" "length b = length buf" for m b
    using that assms(2) by (subst reduce_loop.simps) (simp add: greater_equal_modulus_value)
  show ?thesis
  proof (cases "msb > 0 \<or> greater_equal_modulus key buf")
    case False
    then have "msb = 0" "words_value buf < ?n" using assms(2) by (auto simp: greater_equal_modulus_value word_gt_0)
    then show ?thesis using fin [of msb buf] by simp
  next
    case True
    obtain b d where s: "subtract_modulus key buf = (b, d)" by force
    have v: "words_value d + ?n = words_value buf + unat b * ?R" "b \<le> 1" "length d = length buf"
      using subtract_modulus_value [OF s assms(2)] by simp_all
    have dR: "words_value d < ?R" using words_value_less [of d] v(3) by simp
    have m1: "unat msb \<le> 1"
    proof (rule ccontr)
      assume "\<not> unat msb \<le> 1"
      then have "2 * ?R \<le> unat msb * ?R" by (intro mult_le_mono1) simp
      then show False using assms(1) n by linarith
    qed
    have b: "b = msb"
    proof (cases "msb = 0")
      case True
      then have "?n \<le> words_value buf" using \<open>msb > 0 \<or> _\<close> assms(2) by (simp add: greater_equal_modulus_value)
      show ?thesis
      proof (rule ccontr)
        assume "b \<noteq> msb"
        then have "unat b = 1" using v(2) True by (auto simp: word_le_nat_alt word_unat_eq_iff)
        then show False using v(1) dR \<open>?n \<le> _\<close> by simp
      qed
    next
      case False
      then have m: "unat msb = 1" using m1 by (auto simp: word_unat_eq_iff)
      have "unat b \<noteq> 0"
      proof
        assume "unat b = 0"
        then show False using v(1) assms(1) m n by simp
      qed
      then show ?thesis using v(2) m by (auto simp: word_le_nat_alt word_unat_eq_iff)
    qed
    have "words_value d < ?n" using v(1) assms(1) b by simp
    then have "reduce_loop key msb buf = Some d"
      using True fin [of 0 d] v(3) by (subst reduce_loop.simps) (simp add: s b)
    moreover have "words_value d = (words_value buf + unat msb * ?R) mod ?n"
      using v(1) \<open>words_value d < ?n\<close> unfolding b by (metis mod_add_self2 mod_less)
    ultimately show ?thesis using v(3) by simp
  qed
qed

lemma double_loop_value:
  assumes "words_value buf < words_value (rsa_n key)" "length buf = length (rsa_n key)" "buf \<noteq> []"
  shows "\<exists>r. double_loop k key buf = Some r \<and> length r = length buf
    \<and> words_value r = (2 ^ k * words_value buf) mod words_value (rsa_n key)"
  using assms
proof (induction k arbitrary: buf)
  case (Suc k)
  obtain m b where s: "shift_left buf = (m, b)" by force
  note v = shift_left_value [OF s Suc.prems(3)]
  have "words_value b + unat m * B32 ^ length b < 2 * words_value (rsa_n key)"
    using v Suc.prems(1) by simp
  then obtain r where r: "reduce_loop key m b = Some r" "length r = length buf"
    "words_value r = (2 * words_value buf) mod words_value (rsa_n key)"
    using reduce_loop_value [of b m key] v Suc.prems(2) by auto
  have "words_value r < words_value (rsa_n key)" "r \<noteq> []"
    using r(2,3) Suc.prems(1,3) by auto
  then obtain r' where "double_loop k key r = Some r'" "length r' = length r"
    "words_value r' = (2 ^ k * words_value r) mod words_value (rsa_n key)"
    using Suc.IH [of r] Suc.prems r(2) by auto
  then show ?case using r s by (auto simp: mod_simps mult_ac)
qed simp

section \<open>Montgomery multiplication\<close>

lemma unat_mul_acc:
  fixes x y r :: u32 and acc :: u64
  assumes "unat acc < B32 * B32"
  shows "unat (ucast x * ucast y + ucast r + drop_bit 32 acc :: u64) = unat x * unat y + unat r + unat acc div B32"
    and "unat x * unat y + unat r + unat acc div B32 < B32 * B32"
proof -
  have "unat x * unat y \<le> (B32 - 1) * (B32 - 1)"
    using unat_bound [of x] unat_bound [of y] by (intro mult_le_mono) simp_all
  moreover have "unat acc div B32 \<le> B32 - 1"
    using assms by (simp add: less_Suc_eq_le [symmetric] div_less_iff_less_mult)
  ultimately show b: "unat x * unat y + unat r + unat acc div B32 < B32 * B32"
    using unat_bound [of r] by simp
  then show "unat (ucast x * ucast y + ucast r + drop_bit 32 acc :: u64) = unat x * unat y + unat r + unat acc div B32"
    by (simp add: unat_word_ariths unat_ucast_u64 unat_drop_bit64 mod_simps)
qed

lemma unat_low: "unat (ucast (w :: u64) :: u32) = unat w mod B32"
  by (simp add: unsigned_ucast_eq take_bit_eq_mod)

lemma u64_less: "unat (w :: u64) < B32 * B32"
  using unat_lt [of w] by simp

lemma mont_digit:
  fixes b :: nat
  assumes i: "E + N * H = R + x * Y + u * M + (p + q)"
    and c0: "c0 = x * y + r + a0" "c1 = u * n + l0 + a1"
    and d: "c0 = b * p + l0" "c1 = b * q + l1"
  shows "(l1 + b * E) + (b * N) * H = (r + b * R) + x * (y + b * Y) + u * (n + b * M) + (a0 + a1)"
proof -
  have "b * E + b * N * H = b * R + b * (x * Y) + b * (u * M) + (b * p + b * q)"
    using arg_cong [where f = "(*) b", OF i] by (simp only: distrib_left mult.assoc)
  moreover have "x * (y + b * Y) = x * y + b * (x * Y)" "u * (n + b * M) = u * n + b * (u * M)"
    by (simp_all add: algebra_simps)
  ultimately show ?thesis using c0 d by linarith
qed

lemma mont_inner_value:
  assumes "mont_inner x u acc0 acc1 ys ns rs = (ds, a0, a1)"
    "length ys = length ns" "length rs = length ns"
  shows "words_value ds + B32 ^ length ns * (unat a0 div B32 + unat a1 div B32)
    = words_value rs + unat x * words_value ys + unat u * words_value ns
      + (unat acc0 div B32 + unat acc1 div B32) \<and> length ds = length ns"
  using assms
proof (induction x u acc0 acc1 ys ns rs arbitrary: ds a0 a1 rule: mont_inner.induct)
  case (1 x u acc0 acc1 y ys n ns r rs)
  define c0 :: u64 where "c0 = ucast x * ucast y + ucast r + drop_bit 32 acc0"
  define c1 :: u64 where "c1 = ucast u * ucast n + ucast (ucast c0 :: u32) + drop_bit 32 acc1"
  obtain es where e: "mont_inner x u c0 c1 ys ns rs = (es, a0, a1)" and ds: "ds = ucast c1 # es"
    using "1.prems"(1) by (auto simp: Let_def c0_def [symmetric] c1_def [symmetric] split: prod.splits)
  have IH: "words_value es + B32 ^ length ns * (unat a0 div B32 + unat a1 div B32)
    = words_value rs + unat x * words_value ys + unat u * words_value ns
      + (unat c0 div B32 + unat c1 div B32) \<and> length es = length ns"
    using "1.IH" [OF c0_def c1_def e] "1.prems"(2,3) by simp
  have v0: "unat c0 = unat x * unat y + unat r + unat acc0 div B32"
    unfolding c0_def by (rule unat_mul_acc(1) [OF u64_less])
  have v1: "unat c1 = unat u * unat n + unat c0 mod B32 + unat acc1 div B32"
    unfolding c1_def unat_mul_acc(1) [OF u64_less] unat_low ..
  show ?case
    using mont_digit [OF conjunct1 [OF IH] v0 v1 mult_div_mod_eq [symmetric] mult_div_mod_eq [symmetric]] IH
    by (simp add: ds unat_low)
qed auto

text \<open>A key the Montgomery code can work with: the modulus fills its top bit, and the
  precomputed constant is the negated inverse of its lowest digit.\<close>

definition rsa_key_ok :: "sigverify_rsa_key \<Rightarrow> bool" where
  "rsa_key_ok key \<longleftrightarrow> rsa_n key \<noteq> [] \<and> B32 ^ length (rsa_n key) < 2 * words_value (rsa_n key)
     \<and> (rsa_n key ! 0) * (rsa_n0_inv key ! 0) = - 1"

lemma low_digit_zero:
  fixes n0 ni lo :: u32
  assumes "n0 * ni = - 1"
  shows "(unat (lo * ni) * unat n0 + unat lo) mod B32 = 0"
proof -
  have "lo * ni * n0 + lo = lo * (n0 * ni + 1)" by (simp add: algebra_simps)
  also have "\<dots> = 0" by (simp add: assms)
  finally have "unat (lo * ni * n0 + lo) = 0" by simp
  moreover have "unat (p * n0 + lo) = (unat p * unat n0 + unat lo) mod B32" for p :: u32
    by (simp add: unat_word_ariths mod_simps)
  ultimately show ?thesis by simp
qed

lemma mont_step_value:
  assumes key: "rsa_key_ok key" and len: "length y = length (rsa_n key)" "length r = length (rsa_n key)"
  shows "length (mont_step key y x r) = length r \<and> (\<exists>u j.
    B32 * words_value (mont_step key y x r) + j * words_value (rsa_n key)
      = words_value r + unat x * words_value y + u * words_value (rsa_n key))"
proof -
  obtain n0 ns where n: "rsa_n key = n0 # ns" using key by (cases "rsa_n key") (auto simp: rsa_key_ok_def)
  obtain y0 ys where y: "y = y0 # ys" using len n by (cases y) auto
  obtain r0 rs where r: "r = r0 # rs" using len n by (cases r) auto
  have ls: "length ys = length ns" "length rs = length ns" using len n y r by simp_all
  let ?k = "length ns" and ?N = "words_value (rsa_n key)" and ?Y = "words_value y"
  let ?R = "B32 ^ length (rsa_n key)"
  define c0 :: u64 where "c0 = ucast x * ucast y0 + ucast r0"
  define u where "u = ucast c0 * (rsa_n0_inv key ! 0)"
  define c1 :: u64 where "c1 = ucast u * ucast n0 + ucast (ucast c0 :: u32)"
  obtain ds a0 a1 where i: "mont_inner x u c0 c1 ys ns rs = (ds, a0, a1)" by (metis prod_cases3)
  define h where "h = drop_bit 32 a0 + drop_bit 32 a1"
  define res where "res = ds @ [ucast h]"
  have step: "mont_step key y x r = (if drop_bit 32 h \<noteq> 0 then snd (subtract_modulus key res) else res)"
    unfolding mont_step_def Let_def n y r
    by (simp add: c0_def [symmetric] u_def [symmetric] c1_def [symmetric] i h_def [symmetric] res_def)
  have v0: "unat c0 = unat x * unat y0 + unat r0 + 0"
    using unat_mul_acc(1) [of 0 x y0 r0] by (simp add: c0_def)
  have v1: "unat c1 = unat u * unat n0 + unat c0 mod B32 + 0"
    using unat_mul_acc(1) [of 0 u n0 "ucast c0"] by (simp add: c1_def unat_low)
  have low: "unat c1 mod B32 = 0"
    using low_digit_zero [of n0 "rsa_n0_inv key ! 0" "ucast c0"] key unfolding v1 u_def
    by (simp add: rsa_key_ok_def n unat_low)
  have ds: "length ds = ?k" and inner: "words_value ds + B32 ^ ?k * (unat a0 div B32 + unat a1 div B32)
      = words_value rs + unat x * words_value ys + unat u * words_value ns + (unat c0 div B32 + unat c1 div B32)"
    using mont_inner_value [OF i ls] by simp_all
  have hd: "unat a0 div B32 < B32" "unat a1 div B32 < B32"
    using u64_less [of a0] u64_less [of a1] by (simp_all add: div_less_iff_less_mult)
  then have h: "unat h = unat a0 div B32 + unat a1 div B32"
    unfolding h_def by (subst unat_add_lem [THEN iffD1]) (simp_all add: unat_drop_bit64)
  have T: "B32 * (words_value ds + B32 ^ ?k * unat h) = words_value r + unat x * ?Y + unat u * ?N"
    using mont_digit [OF inner v0 v1 mult_div_mod_eq [symmetric] mult_div_mod_eq [symmetric]]
    by (simp add: low h y r n distrib_left)
  have hsplit: "unat h = unat h mod B32 + B32 * (unat h div B32)" by simp
  have res: "words_value ds + B32 ^ ?k * unat h = words_value res + ?R * (unat h div B32)"
    using arg_cong [OF hsplit, of "(*) (B32 ^ ?k)"]
    by (simp only: res_def words_value_append words_value.simps unat_low ds n list.size distrib_left) (simp add: mult_ac)
  have lres: "length res = length (rsa_n key)" by (simp add: res_def ds n)
  have N: "?N < ?R" by (rule words_value_less)
  have bound: "words_value res + ?R * (unat h div B32) < ?R + ?N"
  proof -
    have "?Y < ?R" "words_value r < ?R" using words_value_less [of y] words_value_less [of r] len by simp_all
    moreover from this have "unat x * ?Y \<le> (B32 - 1) * (?R - 1)" "unat u * ?N \<le> (B32 - 1) * ?N"
      using unat_bound [of x] unat_bound [of u] by (intro mult_le_mono; simp)+
    ultimately have "unat x * ?Y \<le> (B32 - 1) * (?R - 1)" "unat u * ?N \<le> (B32 - 1) * ?N" "words_value r \<le> ?R - 1"
      by simp_all
    then have "B32 * (words_value res + ?R * (unat h div B32)) \<le> (?R - 1) + (B32 - 1) * (?R - 1) + (B32 - 1) * ?N"
      using T unfolding res by linarith
    also have "\<dots> = B32 * (?R - 1) + (B32 - 1) * ?N" by (simp add: algebra_simps)
    also have "\<dots> < B32 * (?R + ?N)" using N key by (simp add: rsa_key_ok_def)
    finally show ?thesis by simp
  qed
  show ?thesis
  proof (cases "drop_bit 32 h = 0")
    case True
    then have "unat h div B32 = 0" using unat_drop_bit64 [of 32 h] by simp
    then have "B32 * words_value res + 0 * ?N = words_value r + unat x * ?Y + unat u * ?N"
      using T res by simp
    then have "\<exists>u j. B32 * words_value res + j * ?N = words_value r + unat x * ?Y + u * ?N" by blast
    moreover have "mont_step key y x r = res" using step True by simp
    ultimately show ?thesis using lres len by simp
  next
    case False
    obtain b d where s: "subtract_modulus key res = (b, d)" by force
    note sv = subtract_modulus_value [OF s lres]
    have "unat h div B32 \<noteq> 0" using False unat_drop_bit64 [of 32 h] by (simp add: word_unat_eq_iff)
    moreover have "unat h div B32 < 2"
    proof (rule ccontr)
      assume "\<not> unat h div B32 < 2"
      then have "?R * 2 \<le> ?R * (unat h div B32)" by (intro mult_le_mono2) simp
      then show False using bound N by linarith
    qed
    ultimately have h1: "unat h div B32 = 1" by linarith
    then have small: "words_value res < ?N" using bound by simp
    have "unat b \<noteq> 0"
    proof
      assume "unat b = 0"
      then show False using sv(1) small by simp
    qed
    then have "unat b = 1" using sv(2) by (auto simp: word_le_nat_alt)
    then have "words_value d + ?N = words_value res + ?R" using sv(1) lres by simp
    then have "B32 * words_value d + B32 * ?N = words_value r + unat x * ?Y + unat u * ?N"
      using T res h1 by (metis distrib_left mult_1_right)
    then show ?thesis using step False s sv(3) lres len by auto
  qed
qed

lemma mont_step_mod:
  assumes "rsa_key_ok key" "length y = length (rsa_n key)" "length r = length (rsa_n key)"
  shows "(B32 * words_value (mont_step key y x r)) mod words_value (rsa_n key)
    = (words_value r + unat x * words_value y) mod words_value (rsa_n key)"
  using mont_step_value [OF assms, of x] by (metis mod_mult_self3 add.commute)

lemma mont_fold_mod:
  assumes "rsa_key_ok key" "length y = length (rsa_n key)" "length r = length (rsa_n key)"
  shows "(B32 ^ length xs * words_value (foldl (\<lambda>result x_i. mont_step key y x_i result) r xs))
      mod words_value (rsa_n key)
    = (words_value r + words_value xs * words_value y) mod words_value (rsa_n key)
    \<and> length (foldl (\<lambda>result x_i. mont_step key y x_i result) r xs) = length (rsa_n key)"
  using assms(3)
proof (induction xs arbitrary: r)
  case (Cons x xs)
  let ?N = "words_value (rsa_n key)" and ?Y = "words_value y"
  let ?r = "mont_step key y x r"
  let ?res = "foldl (\<lambda>result x_i. mont_step key y x_i result) ?r xs"
  have l: "length ?r = length (rsa_n key)" using mont_step_value [OF assms(1,2) Cons.prems] Cons.prems by simp
  note IH = Cons.IH [OF l]
  have "(B32 ^ length (x # xs) * words_value ?res) mod ?N = (B32 * ((B32 ^ length xs * words_value ?res) mod ?N)) mod ?N"
    by (simp add: mod_mult_right_eq mult.assoc)
  also have "\<dots> = (B32 * words_value ?r + B32 * (words_value xs * ?Y)) mod ?N"
    using IH by (simp add: mod_mult_right_eq distrib_left)
  also have "\<dots> = ((B32 * words_value ?r) mod ?N + B32 * (words_value xs * ?Y)) mod ?N"
    by (simp add: mod_add_left_eq)
  also have "\<dots> = (words_value r + unat x * ?Y + B32 * (words_value xs * ?Y)) mod ?N"
    unfolding mont_step_mod [OF assms(1,2) Cons.prems] by (simp add: mod_add_left_eq)
  also have "words_value r + unat x * ?Y + B32 * (words_value xs * ?Y)
      = words_value r + words_value (x # xs) * ?Y" by (simp add: algebra_simps)
  finally show ?case using IH by simp
qed simp

text \<open>Everything about a usable key, with \<open>R\<close> the weight of the whole buffer.\<close>

abbreviation (input) mont_R :: "sigverify_rsa_key \<Rightarrow> nat" where
  "mont_R key \<equiv> B32 ^ length (rsa_n key)"

lemma mont_mul_mod:
  assumes "rsa_key_ok key" "length x = length (rsa_n key)" "length y = length (rsa_n key)"
  shows "(mont_R key * words_value (mont_mul key x y)) mod words_value (rsa_n key)
    = (words_value x * words_value y) mod words_value (rsa_n key)"
    and "length (mont_mul key x y) = length (rsa_n key)"
  using mont_fold_mod [OF assms(1,3), of "replicate (length x) 0" x] assms(2)
  by (simp_all add: mont_mul_def words_value_zero)

lemma modulus_coprime:
  assumes "rsa_key_ok key"
  shows "coprime (mont_R key) (words_value (rsa_n key))"
proof -
  obtain n0 ns where n: "rsa_n key = n0 # ns" using assms by (cases "rsa_n key") (auto simp: rsa_key_ok_def)
  have "odd (unat n0)"
  proof
    assume "even (unat n0)"
    then have "even (unat n0 * unat (rsa_n0_inv key ! 0) mod 2 ^ 32)"
      by (simp add: even_mod_2_iff dvd_mod_iff)
    then have "even (unat (n0 * (rsa_n0_inv key ! 0)))" by (simp add: unat_word_ariths)
    moreover have "unat (n0 * (rsa_n0_inv key ! 0)) = B32 - 1"
      using assms by (simp add: rsa_key_ok_def n unsigned_minus_1_eq_mask mask_eq_exp_minus_1)
    ultimately show False by simp
  qed
  then have "odd (words_value (rsa_n key))" by (simp add: n)
  then have "coprime (2 ^ 32) (words_value (rsa_n key))"
    by (simp only: coprime_power_left_iff coprime_left_2_iff_odd simp_thms)
  moreover have "2 ^ 32 = B32" by simp
  ultimately have "coprime B32 (words_value (rsa_n key))" by metis
  then show ?thesis unfolding coprime_power_left_iff by simp
qed

lemma mod_cancel:
  fixes R N a b :: nat
  assumes "coprime R N" "(R * a) mod N = (R * b) mod N"
  shows "a mod N = b mod N"
proof -
  have "(int R * int a) mod int N = (int R * int b) mod int N" using assms(2) by (metis of_nat_mod of_nat_mult)
  then have "int N dvd int R * (int a - int b)" by (simp add: mod_eq_dvd_iff right_diff_distrib)
  then have "int N dvd int a - int b"
    using assms(1) by (simp add: coprime_dvd_mult_right_iff coprime_commute)
  then have "int a mod int N = int b mod int N" by (simp add: mod_eq_dvd_iff)
  then show ?thesis by (metis of_nat_eq_iff of_nat_mod)
qed

text \<open>A buffer that holds a number in Montgomery form.\<close>

definition mont_form :: "sigverify_rsa_key \<Rightarrow> nat \<Rightarrow> u32 list \<Rightarrow> bool" where
  "mont_form key a v \<longleftrightarrow> length v = length (rsa_n key)
     \<and> words_value v mod words_value (rsa_n key) = (a * mont_R key) mod words_value (rsa_n key)"

lemma mont_mul_form:
  assumes key: "rsa_key_ok key" and x: "mont_form key a x" and y: "mont_form key b y"
  shows "mont_form key (a * b) (mont_mul key x y)"
proof -
  let ?N = "words_value (rsa_n key)" and ?R = "mont_R key"
  have l: "length x = length (rsa_n key)" "length y = length (rsa_n key)"
    using x y by (simp_all add: mont_form_def)
  have "(?R * words_value (mont_mul key x y)) mod ?N = (words_value x * words_value y) mod ?N"
    by (rule mont_mul_mod(1) [OF key l])
  also have "\<dots> = (a * ?R * (b * ?R)) mod ?N"
    using x y unfolding mont_form_def by (intro mod_mult_cong) simp_all
  also have "a * ?R * (b * ?R) = ?R * (a * b * ?R)" by (simp add: mult_ac)
  finally have "(?R * words_value (mont_mul key x y)) mod ?N = (?R * (a * b * ?R)) mod ?N" .
  from mod_cancel [OF modulus_coprime [OF key] this] mont_mul_mod(2) [OF key l] show ?thesis
    by (simp only: mont_form_def simp_thms)
qed

lemma power_4_mult: "a ^ m * a ^ m * (a ^ m * a ^ m) = a ^ (4 * m)" for a m :: nat
proof -
  have "4 * m = m + m + (m + m)" by simp
  then show ?thesis by (simp only: power_add)
qed

lemma mont_form_square2:
  assumes "rsa_key_ok key" "mont_form key a v"
  shows "mont_form key (a ^ 4 ^ j) (((\<lambda>r. let b = mont_mul key r r in mont_mul key b b) ^^ j) v)"
proof (induction j)
  case (Suc j)
  let ?v = "((\<lambda>r. let b = mont_mul key r r in mont_mul key b b) ^^ j) v"
  have "mont_form key (a ^ 4 ^ j * a ^ 4 ^ j) (mont_mul key ?v ?v)"
    by (rule mont_mul_form [OF assms(1) Suc Suc])
  note mont_mul_form [OF assms(1) this this]
  moreover have "a ^ 4 ^ j * a ^ 4 ^ j * (a ^ 4 ^ j * a ^ 4 ^ j) = a ^ 4 ^ Suc j"
    by (simp only: power_4_mult power_Suc)
  ultimately show ?case by (simp add: Let_def)
qed (use assms(2) in simp)

section \<open>Signature recovery\<close>

lemma calc_r_square_form:
  assumes key: "rsa_key_ok key" and len: "length (rsa_n key) = 96"
  shows "\<exists>rr. calc_r_square key = Some rr \<and> mont_form key (mont_R key) rr"
proof -
  let ?N = "words_value (rsa_n key)" and ?R = "mont_R key"
  obtain b buf where s: "subtract_modulus key (replicate (length (rsa_n key)) 0) = (b, buf)" by force
  note v = subtract_modulus_value [OF s length_replicate, unfolded words_value_zero length_replicate]
  have N: "?R < 2 * ?N" using key by (simp add: rsa_key_ok_def)
  have b: "unat b = 1"
  proof -
    have "unat b \<noteq> 0"
    proof
      assume "unat b = 0"
      then show False using v(1) N words_value_less [of "rsa_n key"] by simp
    qed
    then show ?thesis using v(2) by (auto simp: word_le_nat_alt)
  qed
  have buf: "words_value buf + ?N = ?R" using v(1) b by simp
  have ne: "buf \<noteq> []" using v(3) len by auto
  have "words_value buf < ?N" using buf N by linarith
  then obtain w where w: "double_loop 96 key buf = Some w" "length w = length (rsa_n key)"
    "words_value w = (2 ^ 96 * words_value buf) mod ?N"
    using double_loop_value [OF _ v(3) ne, of 96] v(3) by auto
  have "words_value w mod ?N = (2 ^ 96 * ((words_value buf + ?N) mod ?N)) mod ?N"
    by (simp only: w(3) mod_mod_trivial mod_add_self2 mod_mult_right_eq)
  then have "mont_form key (2 ^ 96) w" unfolding buf
    by (simp only: mont_form_def w(2) mod_mult_right_eq simp_thms)
  from mont_mul_form [OF key this this]
  have "mont_form key (2 ^ 192) (mont_mul key w w)" by (simp flip: power_add)
  from mont_form_square2 [OF key this, of 2]
  have "mont_form key ((2 ^ 192) ^ 4 ^ 2) (((\<lambda>r. let b = mont_mul key r r in mont_mul key b b) ^^ 2) (mont_mul key w w))" .
  moreover have "(2 ^ 192) ^ 4 ^ 2 = ?R" unfolding len by simp
  ultimately have "mont_form key ?R (((\<lambda>r. let b = mont_mul key r r in mont_mul key b b) ^^ 2) (mont_mul key w w))"
    by (simp only:)
  then show ?thesis using s w(1) by (simp add: calc_r_square_def Let_def)
qed

theorem mod_exp_correct:
  assumes key: "rsa_key_ok key" and len: "length (rsa_n key) = 96" and sig: "length sig = 96"
  shows "if words_value sig < words_value (rsa_n key)
    then \<exists>r. sigverify_mod_exp_ibex key sig = Recovered r \<and> length r = 96
      \<and> words_value r = words_value sig ^ 65537 mod words_value (rsa_n key)
    else sigverify_mod_exp_ibex key sig = Bad_signature"
proof -
  let ?N = "words_value (rsa_n key)" and ?R = "mont_R key"
  let ?round = "\<lambda>b. let r = mont_mul key b b in mont_mul key r r"
  obtain rr where rr: "calc_r_square key = Some rr" and form: "mont_form key ?R rr"
    using calc_r_square_form [OF key len] by blast
  have lr: "length rr = length (rsa_n key)" using form by (simp add: mont_form_def)
  have ls: "length sig = length (rsa_n key)" using sig len by simp
  define buf where "buf = mont_mul key sig rr"
  define buf8 where "buf8 = (?round ^^ 8) buf"
  define result where "result = mont_mul key buf8 sig"
  have "(?R * words_value buf) mod ?N = (words_value sig * words_value rr) mod ?N"
    unfolding buf_def by (rule mont_mul_mod(1) [OF key ls lr])
  also have "\<dots> = (words_value sig * (?R * ?R)) mod ?N"
    using form unfolding mont_form_def by (intro mod_mult_cong) simp_all
  also have "words_value sig * (?R * ?R) = ?R * (words_value sig * ?R)" by (simp only: mult_ac)
  finally have "(?R * words_value buf) mod ?N = (?R * (words_value sig * ?R)) mod ?N" .
  from mod_cancel [OF modulus_coprime [OF key] this] mont_mul_mod(2) [OF key ls lr]
  have "mont_form key (words_value sig) buf" by (simp only: mont_form_def buf_def simp_thms)
  from mont_form_square2 [OF key this, of 8]
  have b8: "mont_form key (words_value sig ^ 65536) buf8" by (simp add: buf8_def)
  have l8: "length buf8 = length (rsa_n key)" using b8 by (simp add: mont_form_def)
  have "(?R * words_value result) mod ?N = (words_value buf8 * words_value sig) mod ?N"
    unfolding result_def by (rule mont_mul_mod(1) [OF key l8 ls])
  also have "\<dots> = (words_value sig ^ 65536 * ?R * words_value sig) mod ?N"
    using b8 unfolding mont_form_def by (intro mod_mult_cong) simp_all
  also have "words_value sig ^ 65536 * ?R * words_value sig = ?R * (words_value sig ^ 65536 * words_value sig)"
    by (simp only: mult_ac)
  also have "words_value sig ^ 65536 * words_value sig = words_value sig ^ 65537"
    using power_Suc2 [of "words_value sig" 65536] by simp
  finally have "(?R * words_value result) mod ?N = (?R * words_value sig ^ 65537) mod ?N" .
  note res = mod_cancel [OF modulus_coprime [OF key] this]
  have lres: "length result = length (rsa_n key)" unfolding result_def by (rule mont_mul_mod(2) [OF key l8 ls])
  have less: "words_value result < 2 * ?N"
    using words_value_less [of result] key lres by (simp add: rsa_key_ok_def)
  obtain b d where s: "subtract_modulus key result = (b, d)" by force
  note sv = subtract_modulus_value [OF s lres]
  define final where "final = (if greater_equal_modulus key result then d else result)"
  have "words_value final = words_value result mod ?N"
  proof (cases "?N \<le> words_value result")
    case True
    have "words_value d < B32 ^ length result" using words_value_less [of d] sv(3) by simp
    then have "unat b = 0" using sv(1,2) True by (auto simp: word_le_nat_alt le_Suc_eq)
    then have "words_value d + ?N = words_value result" using sv(1) by simp
    moreover from this less have "words_value d < ?N" by linarith
    ultimately have "words_value d = words_value result mod ?N" by (metis mod_add_self2 mod_less)
    then show ?thesis using True lres by (simp add: final_def greater_equal_modulus_value)
  next
    case False
    then show ?thesis using lres by (simp add: final_def greater_equal_modulus_value)
  qed
  moreover have "length final = 96" using sv(3) lres len by (simp add: final_def)
  moreover have "sigverify_mod_exp_ibex key sig =
    (if greater_equal_modulus key sig then Bad_signature else Recovered final)"
    unfolding sigverify_mod_exp_ibex_def rr option.case Let_def
    by (simp add: buf_def [symmetric, unfolded Let_def] buf8_def [symmetric, unfolded Let_def]
        result_def [symmetric] s final_def)
  ultimately show ?thesis
    using res ls by (simp add: greater_equal_modulus_value not_le)
qed

section \<open>Properties\<close>

text \<open>C5: the software RSA of the ROM, eight rounds of squarings in
  Montgomery form on arrays of 32-bit digits with every carry and wrap-around, computes the
  public operation of the 3072-bit key with exponent 65537: for a key whose
  \<open>n0_inv\<close> is the Montgomery constant of its modulus it always terminates, rejects exactly
  the signatures that are not below the modulus, and otherwise returns their power modulo it.\<close>

theorem mod_exp_ibex_is_modular_power:
  assumes "rsa_key_ok key" "length (rsa_n key) = 96" "length sig = 96"
  shows "if words_value sig < words_value (rsa_n key)
    then \<exists>r. sigverify_mod_exp_ibex key sig = Recovered r \<and> length r = 96
      \<and> words_value r = words_value sig ^ 65537 mod words_value (rsa_n key)
    else sigverify_mod_exp_ibex key sig = Bad_signature"
  using assms by (rule mod_exp_correct)

lemma words_value_replicate:
  "words_value (replicate n 0) = 0" "Suc (words_value (replicate n (- 1))) = B32 ^ n"
proof -
  have m: "unat (- 1 :: u32) = B32 - 1"
    by (simp add: unsigned_minus_1_eq_mask mask_eq_exp_minus_1)
  show "words_value (replicate n 0) = 0" by (induction n) simp_all
  show "Suc (words_value (replicate n (- 1))) = B32 ^ n" by (induction n) (simp_all add: m)
qed

theorem mod_exp_ibex_is_modular_power_witness:
  "\<exists>r. sigverify_mod_exp_ibex \<lparr>rsa_n = replicate 96 (- 1), rsa_n0_inv = [1]\<rparr> (1 # replicate 95 0)
     = Recovered r \<and> length r = 96 \<and> words_value r = 1"
proof -
  let ?k = "\<lparr>rsa_n = replicate 96 (- 1), rsa_n0_inv = [1]\<rparr> :: sigverify_rsa_key"
  obtain N where N: "N = B32 ^ 96" by blast
  have n: "Suc (words_value (rsa_n ?k)) = N" by (simp add: words_value_replicate N)
  have "B32 \<le> N" unfolding N by (rule self_le_power) simp_all
  then have big: "2 < N" by simp
  have "N < 2 * words_value (rsa_n ?k)" using n big by linarith
  then have ok: "rsa_key_ok ?k" unfolding N by (simp add: rsa_key_ok_def)
  have one: "words_value (1 # replicate 95 0) = 1" by (simp add: words_value_replicate)
  have "1 < words_value (rsa_n ?k)" using n big by linarith
  then show ?thesis
    using mod_exp_ibex_is_modular_power [OF ok, of "1 # replicate 95 0"] one by simp
qed

end
