(* ===== verification/Otbn.thy ===== *)
theory Otbn
  imports Manifest Memory Sigverify_Ibex
begin

text \<open>\<open>drivers/otbn.c\<close>, \<open>lib/otbn_util.c\<close> and \<open>lib/sigverify/mod_exp_otbn.c\<close>: the driver of
  the big number accelerator and the RSA routine that runs on it. The program OTBN executes is
  not C: its image and the addresses of its variables are constants of the platform.\<close>

abbreviation (input) OTBN_DMEM_SIZE_BYTES :: u32 where "OTBN_DMEM_SIZE_BYTES \<equiv> 0xc00"
abbreviation (input) OTBN_IMEM_SIZE_BYTES :: u32 where "OTBN_IMEM_SIZE_BYTES \<equiv> 0x1000"
abbreviation (input) kOtbnBase :: u32 where "kOtbnBase \<equiv> TOP_EARLGREY_OTBN_BASE_ADDR"
abbreviation (input) kOtbnCmdExecute :: u32 where "kOtbnCmdExecute \<equiv> 0xd8"
abbreviation (input) kOtbnCmdSecWipeDmem :: u32 where "kOtbnCmdSecWipeDmem \<equiv> 0xc3"
abbreviation (input) kOtbnCmdSecWipeImem :: u32 where "kOtbnCmdSecWipeImem \<equiv> 0x1e"
abbreviation (input) kOtbnStatusIdle :: u32 where "kOtbnStatusIdle \<equiv> 0"
abbreviation (input) kOtbnStatusLocked :: u32 where "kOtbnStatusLocked \<equiv> 0xff"
abbreviation (input) kOtbnSecMmioExecute :: u32 where "kOtbnSecMmioExecute \<equiv> 1"
abbreviation (input) kOtbnErrBitsNoError :: u32 where "kOtbnErrBitsNoError \<equiv> 0"
abbreviation (input) kOtbnWideWordNumWords :: nat where "kOtbnWideWordNumWords \<equiv> 8"
abbreviation (input) kModExpOtbnInsnCountMin :: u32 where "kModExpOtbnInsnCountMin \<equiv> 181147"
abbreviation (input) kModExpOtbnInsnCountMax :: u32 where "kModExpOtbnInsnCountMax \<equiv> 198397"

section \<open>The driver (otbn.c)\<close>

text \<open>All arithmetic is on \<open>size_t\<close>, which is 32 bits wide.\<close>

definition check_offset_len :: "u32 \<Rightarrow> u32 \<Rightarrow> u32 \<Rightarrow> rom_error" where
  "check_offset_len offset_bytes num_words mem_size =
     (if offset_bytes + num_words * 4 < num_words * 4 \<or> offset_bytes + num_words * 4 > mem_size
      then kErrorOtbnBadOffsetLen
      else kErrorOk)"

definition otbn_busy_wait_for_done :: "rom_error rom" where
  "otbn_busy_wait_for_done = (let res = kErrorOk XOR UINT32_MAX in
    bindM (poll_until (abs_mmio_read32 (kOtbnBase + OTBN_STATUS_REG_OFFSET))
       (\<lambda>s. \<not> (s \<noteq> kOtbnStatusIdle \<and> s \<noteq> kOtbnStatusLocked))) (\<lambda>status.
    let res = res XOR NOT status in
    if res = kErrorOk then (bindM (HARDENED_CHECK_EQ res kErrorOk) (\<lambda>_.
     bindM (abs_mmio_read32 (kOtbnBase + OTBN_STATUS_REG_OFFSET)) (\<lambda>again.
     bindM (HARDENED_CHECK_EQ again kOtbnStatusIdle) (\<lambda>_.
     returnM res))))
     else returnM kErrorOtbnUnavailable))"

text \<open>The loop of \<open>otbn_write\<close>, with the number of words still to write.\<close>

primrec otbn_write_loop :: "nat \<Rightarrow> u32 \<Rightarrow> u32 list \<Rightarrow> u32 \<Rightarrow> unit rom" where
  "otbn_write_loop 0 dest_addr src i = returnM ()"
| "otbn_write_loop (Suc n) dest_addr src i = (let num_words = of_nat (length src) in
    bindM (abs_mmio_write32 (dest_addr + i * 4) (src ! unat i)) (\<lambda>_.
    let i' = i + 1 in
    let i'' = (if i' \<ge> num_words then i' - num_words else i') in
    bindM (HARDENED_CHECK_LT i'' num_words) (\<lambda>_.
    otbn_write_loop n dest_addr src i'')))"

definition otbn_write :: "u32 \<Rightarrow> u32 list \<Rightarrow> unit rom" where
  "otbn_write dest_addr src = (bindM rnd_uint32 (\<lambda>rnd.
    otbn_write_loop (length src) dest_addr src (random_start rnd (of_nat (length src)))))"

definition otbn_err_bits_get :: "u32 rom" where
  "otbn_err_bits_get = abs_mmio_read32 (kOtbnBase + OTBN_ERR_BITS_REG_OFFSET)"

abbreviation (input) kIntrStateDone :: u32 where "kIntrStateDone \<equiv> push_bit (unat OTBN_INTR_COMMON_DONE_BIT) 1"
abbreviation (input) kResDoneBit :: nat where "kResDoneBit \<equiv> 31"

text \<open>The wait of \<open>otbn_cmd_run\<close>: every read mixes the done bit into the result.\<close>

primrec otbn_wait_done :: "nat \<Rightarrow> u32 \<Rightarrow> u32 rom" where
  "otbn_wait_done 0 res = stopM Out_of_polls"
| "otbn_wait_done (Suc n) res = (bindM (abs_mmio_read32 (kOtbnBase + OTBN_INTR_STATE_REG_OFFSET)) (\<lambda>reg.
    let res' = res XOR push_bit kResDoneBit (of_bool (bitfield_bit32_read reg OTBN_INTR_COMMON_DONE_BIT)) in
    if reg \<noteq> kIntrStateDone then otbn_wait_done n res'
     else (bindM (HARDENED_CHECK_EQ reg kIntrStateDone) (\<lambda>_.
     returnM res'))))"

definition otbn_cmd_run :: "u32 \<Rightarrow> rom_error \<Rightarrow> rom_error rom" where
  "otbn_cmd_run cmd error = (bindM (abs_mmio_write32 (kOtbnBase + OTBN_INTR_STATE_REG_OFFSET) kIntrStateDone) (\<lambda>_.
    bindM (abs_mmio_write32 (kOtbnBase + OTBN_CMD_REG_OFFSET) cmd) (\<lambda>_.
    bindM (getM (\<lambda>m. poll_limit (plat m))) (\<lambda>n.
    bindM (otbn_wait_done n (kErrorOk XOR push_bit kResDoneBit 1)) (\<lambda>res.
    bindM (abs_mmio_write32 (kOtbnBase + OTBN_INTR_STATE_REG_OFFSET) kIntrStateDone) (\<lambda>_.
    bindM otbn_err_bits_get (\<lambda>err_bits.
    let res' = res XOR err_bits in
    bindM (abs_mmio_read32 (kOtbnBase + OTBN_STATUS_REG_OFFSET)) (\<lambda>status.
    if res' = kErrorOk \<and> status = kOtbnStatusIdle then (bindM (HARDENED_CHECK_EQ res' kErrorOk) (\<lambda>_.
     bindM (abs_mmio_read32 (kOtbnBase + OTBN_STATUS_REG_OFFSET)) (\<lambda>again.
     bindM (HARDENED_CHECK_EQ again kOtbnStatusIdle) (\<lambda>_.
     returnM res'))))
     else returnM error))))))))"

definition otbn_set_ctrl_software_errs_fatal :: "bool \<Rightarrow> unit rom" where
  "otbn_set_ctrl_software_errs_fatal enable = (let new_ctrl = (if enable then 1 else 0) in
    sec_mmio_write32 (kOtbnBase + OTBN_CTRL_REG_OFFSET) new_ctrl)"

definition otbn_execute :: "rom_error rom" where
  "otbn_execute = (bindM (otbn_set_ctrl_software_errs_fatal True) (\<lambda>_.
    otbn_cmd_run kOtbnCmdExecute kErrorOtbnExecutionFailed))"

definition otbn_instruction_count_get :: "u32 rom" where
  "otbn_instruction_count_get = abs_mmio_read32 (kOtbnBase + OTBN_INSN_CNT_REG_OFFSET)"

definition otbn_imem_sec_wipe :: "rom_error rom" where
  "otbn_imem_sec_wipe = otbn_cmd_run kOtbnCmdSecWipeImem kErrorOtbnSecWipeImemFailed"

definition otbn_imem_write :: "u32 \<Rightarrow> u32 list \<Rightarrow> rom_error rom" where
  "otbn_imem_write offset_bytes src = (HARDENED_RETURN_IF_ERROR (returnM (check_offset_len offset_bytes (of_nat (length src)) OTBN_IMEM_SIZE_BYTES)) (
    bindM (otbn_write (kOtbnBase + OTBN_IMEM_REG_OFFSET + offset_bytes) src) (\<lambda>_.
    returnM kErrorOk)))"

definition otbn_dmem_sec_wipe :: "rom_error rom" where
  "otbn_dmem_sec_wipe = otbn_cmd_run kOtbnCmdSecWipeDmem kErrorOtbnSecWipeDmemFailed"

definition otbn_dmem_write :: "u32 \<Rightarrow> u32 list \<Rightarrow> rom_error rom" where
  "otbn_dmem_write offset_bytes src = (HARDENED_RETURN_IF_ERROR (returnM (check_offset_len offset_bytes (of_nat (length src)) OTBN_DMEM_SIZE_BYTES)) (
    bindM (otbn_write (kOtbnBase + OTBN_DMEM_REG_OFFSET + offset_bytes) src) (\<lambda>_.
    returnM kErrorOk)))"

text \<open>A read returns the words and the error code.\<close>

definition otbn_dmem_read :: "u32 \<Rightarrow> u32 \<Rightarrow> (rom_error * u32 list) rom" where
  "otbn_dmem_read offset_bytes num_words =
     (let err = check_offset_len offset_bytes num_words OTBN_DMEM_SIZE_BYTES in
      if err \<noteq> kErrorOk then returnM (err, [])
      else (bindM (HARDENED_CHECK_EQ err kErrorOk) (\<lambda>_.
    bindM (map_each [0..<unat num_words] (\<lambda>i. abs_mmio_read32
          (kOtbnBase + OTBN_DMEM_REG_OFFSET + offset_bytes + of_nat i * 4))) (\<lambda>dest.
    returnM (kErrorOk, dest)))))"

definition otbn_zero_dmem :: "unit rom" where
  "otbn_zero_dmem = for_each [0..<unat OTBN_DMEM_SIZE_BYTES div 4]
     (\<lambda>i. abs_mmio_write32 (kOtbnBase + OTBN_DMEM_REG_OFFSET + of_nat i * 4) 0)"

section \<open>Applications (otbn\_util.c)\<close>

record otbn_ctx =
  otbn_the_app :: otbn_app
  app_is_loaded :: u32
  error_bits :: u32

definition otbn_init :: otbn_ctx where
  "otbn_init = \<lparr>otbn_the_app = \<lparr>imem_start = 0, imem_end = 0, dmem_data_start = 0, dmem_data_end = 0\<rparr>,
     app_is_loaded = kHardenedBoolFalse, error_bits = kOtbnErrBitsNoError\<rparr>"

definition check_app_address_ranges :: "otbn_app \<Rightarrow> bool" where
  "check_app_address_ranges app =
     (if imem_end app \<le> imem_start app then False
      else if dmem_data_end app < dmem_data_start app then False
      else True)"

text \<open>The words between two pointers to \<open>uint32_t\<close>.\<close>

definition const_words :: "platform \<Rightarrow> u32 \<Rightarrow> u32 \<Rightarrow> u32 list" where
  "const_words p a b = map (\<lambda>i. const_word p (a + 4 * of_nat i)) [0..<unat (b - a) div 4]"

definition otbn_load_app :: "otbn_ctx \<Rightarrow> otbn_app \<Rightarrow> (rom_error * otbn_ctx) rom" where
  "otbn_load_app ctx app =
     (if \<not> check_app_address_ranges app then returnM (kErrorOtbnInvalidArgument, ctx)
      else (bindM (getM plat) (\<lambda>p.
    let imem = const_words p (imem_start app) (imem_end app) in
    let dmem = const_words p (dmem_data_start app) (dmem_data_end app) in
    bindM otbn_busy_wait_for_done (\<lambda>idle.
    if idle \<noteq> kErrorOk then returnM (idle, ctx) else
    bindM (HARDENED_CHECK_EQ idle kErrorOk) (\<lambda>_.
    bindM ((HARDENED_RETURN_IF_ERROR otbn_imem_sec_wipe (
       HARDENED_RETURN_IF_ERROR (otbn_imem_write 0 imem) (
       HARDENED_RETURN_IF_ERROR otbn_dmem_sec_wipe (
       if dmem \<noteq> [] then otbn_dmem_write 0 dmem else returnM kErrorOk))))) (\<lambda>err.
    returnM (err, if err = kErrorOk
          then ctx\<lparr>otbn_the_app := app, app_is_loaded := kHardenedBoolTrue\<rparr>
          else ctx\<lparr>app_is_loaded := kHardenedBoolFalse\<rparr>)))))))"

definition otbn_execute_app :: "otbn_ctx \<Rightarrow> rom_error rom" where
  "otbn_execute_app ctx =
     (if app_is_loaded ctx \<noteq> kHardenedBoolTrue then returnM kErrorOtbnInvalidArgument
      else (bindM (HARDENED_CHECK_EQ (app_is_loaded ctx) kHardenedBoolTrue) (\<lambda>_.
    bindM otbn_execute (\<lambda>err.
    bindM (SEC_MMIO_WRITE_INCREMENT kOtbnSecMmioExecute) (\<lambda>_.
    returnM err)))))"

definition otbn_copy_data_to_otbn :: "u32 list \<Rightarrow> u32 \<Rightarrow> rom_error rom" where
  "otbn_copy_data_to_otbn src dest = otbn_dmem_write dest src"

definition otbn_copy_data_from_otbn :: "u32 \<Rightarrow> u32 \<Rightarrow> (rom_error * u32 list) rom" where
  "otbn_copy_data_from_otbn len src = otbn_dmem_read src len"

section \<open>RSA on OTBN (mod\_exp\_otbn.c)\<close>

definition write_rsa_3072_int_to_otbn :: "u32 list \<Rightarrow> u32 \<Rightarrow> rom_error rom" where
  "write_rsa_3072_int_to_otbn src dst = otbn_copy_data_to_otbn src dst"

definition read_rsa_3072_int_from_otbn :: "u32 \<Rightarrow> (rom_error * u32 list) rom" where
  "read_rsa_3072_int_from_otbn src = otbn_copy_data_from_otbn (of_nat kSigVerifyRsaNumWords) src"

text \<open>The part of \<open>run_otbn_rsa_3072_modexp\<close> up to the execution of the application.\<close>

definition otbn_rsa_run :: "otbn_ctx \<Rightarrow> sigverify_rsa_key \<Rightarrow> u32 list \<Rightarrow> rom_error rom" where
  "otbn_rsa_run ctx key sig = (bindM (getM plat) (\<lambda>p.
    HARDENED_RETURN_IF_ERROR (write_rsa_3072_int_to_otbn (rsa_n key) (kOtbnVarRsaInMod p)) (
    HARDENED_RETURN_IF_ERROR (write_rsa_3072_int_to_otbn sig (kOtbnVarRsaInBuf p)) (
    HARDENED_RETURN_IF_ERROR (otbn_copy_data_to_otbn (take kOtbnWideWordNumWords (rsa_n0_inv key)) (kOtbnVarRsaM0Inv p)) (
    otbn_execute_app ctx)))))"

definition run_otbn_rsa_3072_modexp :: "sigverify_rsa_key \<Rightarrow> u32 list \<Rightarrow> (rom_error * u32 list) rom" where
  "run_otbn_rsa_3072_modexp key sig = (bindM (getM plat) (\<lambda>p.
    bindM (otbn_load_app otbn_init (kOtbnAppRsa p)) (\<lambda>(err, ctx).
    if err \<noteq> kErrorOk then returnM (err, []) else
    bindM (HARDENED_CHECK_EQ err kErrorOk) (\<lambda>_.
    bindM (otbn_rsa_run ctx key sig) (\<lambda>err2.
    if err2 \<noteq> kErrorOk then returnM (err2, []) else
    bindM (HARDENED_CHECK_EQ err2 kErrorOk) (\<lambda>_.
    bindM otbn_instruction_count_get (\<lambda>count.
    if count < kModExpOtbnInsnCountMin \<or> count > kModExpOtbnInsnCountMax then returnM (kErrorOtbnBadInsnCount, []) else
    bindM (HARDENED_CHECK_GE count kModExpOtbnInsnCountMin) (\<lambda>_.
    bindM (HARDENED_CHECK_LE count kModExpOtbnInsnCountMax) (\<lambda>_.
    read_rsa_3072_int_from_otbn (kOtbnVarRsaOutBuf p))))))))))"

text \<open>The buffers are arrays of words, hence word aligned: any aligned address stands for
  theirs.\<close>

definition sigverify_mod_exp_otbn :: "sigverify_rsa_key \<Rightarrow> u32 list \<Rightarrow> (rom_error * u32 list) rom" where
  "sigverify_mod_exp_otbn key sig =
     (if memrcmp 4 (concat (map word_bytes (rsa_n key))) 4 (concat (map word_bytes sig)) 384 \<le> 0
      then returnM (kErrorSigverifyBadSignature, [])
      else run_otbn_rsa_3072_modexp key sig)"

section \<open>Frames\<close>

lemma framed_otbn_loops [framed_intros]:
  "quiet (otbn_write_loop n d src i)" "sec_safe (otbn_write_loop n d src i)"
  "quiet (otbn_wait_done n r)" "sec_safe (otbn_wait_done n r)"
proof -
  show "quiet (otbn_write_loop n d src i)"
    by (induction n arbitrary: i) (simp_all only: otbn_write_loop.simps Let_def, (intro framed_intros; assumption)+)
  show "sec_safe (otbn_write_loop n d src i)"
    by (induction n arbitrary: i) (simp_all only: otbn_write_loop.simps Let_def, (intro framed_intros; assumption)+)
  show "quiet (otbn_wait_done n r)"
    by (induction n arbitrary: r) (simp_all only: otbn_wait_done.simps Let_def, (intro framed_intros hw.framed_stop; simp)+)
  show "sec_safe (otbn_wait_done n r)"
    by (induction n arbitrary: r) (simp_all only: otbn_wait_done.simps Let_def, (intro framed_intros sec.framed_stop; simp)+)
qed

lemma framed_otbn_driver [framed_intros]:
  "quiet otbn_busy_wait_for_done" "sec_safe otbn_busy_wait_for_done"
  "quiet (otbn_write d src)" "sec_safe (otbn_write d src)"
  "quiet otbn_err_bits_get" "sec_safe otbn_err_bits_get"
  "quiet (otbn_cmd_run c e)" "sec_safe (otbn_cmd_run c e)"
  "quiet (otbn_set_ctrl_software_errs_fatal b)" "sec_safe (otbn_set_ctrl_software_errs_fatal b)"
  "quiet otbn_execute" "sec_safe otbn_execute"
  "quiet otbn_instruction_count_get" "sec_safe otbn_instruction_count_get"
  "quiet otbn_imem_sec_wipe" "sec_safe otbn_imem_sec_wipe"
  "quiet (otbn_imem_write off src)" "sec_safe (otbn_imem_write off src)"
  "quiet otbn_dmem_sec_wipe" "sec_safe otbn_dmem_sec_wipe"
  "quiet (otbn_dmem_write off src)" "sec_safe (otbn_dmem_write off src)"
  "quiet (otbn_dmem_read off k)" "sec_safe (otbn_dmem_read off k)"
  "quiet otbn_zero_dmem" "sec_safe otbn_zero_dmem"
  unfolding otbn_busy_wait_for_done_def otbn_write_def otbn_err_bits_get_def otbn_cmd_run_def otbn_set_ctrl_software_errs_fatal_def otbn_execute_def otbn_instruction_count_get_def otbn_imem_sec_wipe_def otbn_imem_write_def otbn_dmem_sec_wipe_def otbn_dmem_write_def otbn_dmem_read_def otbn_zero_dmem_def Let_def
  by (intro framed_intros; (assumption | (simp; fail))?)+

lemma framed_otbn_app [framed_intros]:
  "quiet (otbn_load_app c app)" "sec_safe (otbn_load_app c app)"
  "quiet (otbn_execute_app c)" "sec_safe (otbn_execute_app c)"
  "quiet (otbn_copy_data_to_otbn src d)" "sec_safe (otbn_copy_data_to_otbn src d)"
  "quiet (otbn_copy_data_from_otbn k a)" "sec_safe (otbn_copy_data_from_otbn k a)"
  "quiet (write_rsa_3072_int_to_otbn src d)" "sec_safe (write_rsa_3072_int_to_otbn src d)"
  "quiet (read_rsa_3072_int_from_otbn a)" "sec_safe (read_rsa_3072_int_from_otbn a)"
  "quiet (otbn_rsa_run c key sig)" "sec_safe (otbn_rsa_run c key sig)"
  unfolding otbn_load_app_def otbn_execute_app_def otbn_copy_data_to_otbn_def otbn_copy_data_from_otbn_def write_rsa_3072_int_to_otbn_def read_rsa_3072_int_from_otbn_def otbn_rsa_run_def Let_def
  by (intro framed_intros; (assumption | (simp; fail))?)+

lemma framed_run_rsa [framed_intros]:
  "quiet (run_otbn_rsa_3072_modexp key sig)" "sec_safe (run_otbn_rsa_3072_modexp key sig)"
  unfolding run_otbn_rsa_3072_modexp_def Let_def split_beta by (intro framed_intros)+

lemma framed_mod_exp_otbn [framed_intros]:
  "quiet (sigverify_mod_exp_otbn key sig)" "sec_safe (sigverify_mod_exp_otbn key sig)"
  unfolding sigverify_mod_exp_otbn_def Let_def
  by (intro framed_intros; (assumption | (simp; fail))?)+

section \<open>What the driver hands to the signature check\<close>

lemma otbn_result_length:
  "run_otbn_rsa_3072_modexp key sig m = Done (kErrorOk, r) m' \<Longrightarrow> length r = 96"
  unfolding run_otbn_rsa_3072_modexp_def read_rsa_3072_int_from_otbn_def otbn_copy_data_from_otbn_def
    otbn_dmem_read_def Let_def
  by (auto simp: bindM_Done_iff check_Done split: if_splits prod.splits dest!: map_each_length)

lemma be_value_append: "be_value (xs @ ys) = be_value xs * 256 ^ length ys + be_value ys"
  by (induction xs) (simp_all add: power_add add_mult_distrib)

lemma le_value_words: "le_value (concat (map word_bytes ws)) = words_value ws"
proof (induction ws)
  case (Cons w ws)
  have w: "be_value (rev (word_bytes w)) = unat w"
    using unat_le_word [of "ucast w" "ucast (drop_bit 8 w)" "ucast (drop_bit 16 w)" "ucast (drop_bit 24 w)"]
    by (simp add: word_bytes_def)
  show ?case using Cons by (simp add: le_value_def be_value_append w)
qed (simp add: le_value_def)

lemma otbn_rejects_large:
  assumes "length (rsa_n key) = 96" "length sig = 96"
    and "sigverify_mod_exp_otbn key sig m = Done (kErrorOk, r) m'"
  shows "words_value sig < words_value (rsa_n key) \<and> run_otbn_rsa_3072_modexp key sig m = Done (kErrorOk, r) m'"
proof -
  have len: "length (concat (map word_bytes ws)) = 4 * length ws" for ws
    by (induction ws) simp_all
  have "take 384 (concat (map word_bytes ws)) = concat (map word_bytes ws)" if "length ws = 96" for ws
    using that len [of ws] by simp
  then have "memrcmp 4 (concat (map word_bytes (rsa_n key))) 4 (concat (map word_bytes sig)) 384 =
      cmp_step (words_value (rsa_n key)) (words_value sig) kMemCmpEq"
    using assms(1,2) len by (simp add: memrcmp_value le_value_words)
  then show ?thesis
    using assms(3) by (auto simp: sigverify_mod_exp_otbn_def cmp_step_def split: if_splits)
qed

end
