(* ===== verification/Sigverify.thy ===== *)
theory Sigverify
  imports Sigverify_Keys Otbn Hmac Flash_Ctrl
begin

text \<open>\<open>lib/sigverify/sigverify.c\<close>: the check of the padded message recovered from the
  signature, which produces the value that unlocks flash execution, the choice between the two
  RSA implementations, and the usage constraints read from the hardware.\<close>

abbreviation (input) kSigverifyFlashExec :: u32 where "kSigverifyFlashExec \<equiv> FLASH_CTRL_PARAM_EXEC_EN"

section \<open>The encoded message\<close>

definition kSigverifyShares :: "u32 list" where
  "kSigverifyShares =
    [0xaf28073b, 0x5eb7dcfb, 0x177240b5, 0xa8469df3, 0x2e92e9c0, 0x83ed133b,
     0x0c9e99f0, 0x25611bd9, 0x411a9d85, 0x5c52b3df, 0x4347a537, 0x1e78e574,
     0x273e33af, 0x6f363bba, 0x11e4ee52, 0xd29ad9aa, 0x4fc2ac85, 0x52490c66,
     0x59c2528c, 0xef8d3ab2, 0xe74d7eb8, 0x2822259c, 0xe58efaa3, 0xe702fa04,
     0x82c670f6, 0x42be0a77, 0x3b021ea0, 0x09bd2a22, 0x26d656a4, 0x2f8e008f,
     0xefca5842, 0xfbc3a713, 0x4ce07aa1, 0xc1826ecc, 0xc697d53f, 0xf6a69161,
     0x4a7d7628, 0x87f2e957, 0x84db848d, 0xe05e01c5, 0x6188ff27, 0xbf1a2b31,
     0xb51d4166, 0x85fd6e7c, 0x59c5d2d5, 0x13c6e4e6, 0xff83c944, 0xc78cd4bb,
     0x8710d989, 0x7608c41e, 0x1061b036, 0x9c2fb244, 0x34a26844, 0x2bdc22a2,
     0xfd1d95f3, 0x94ac4e84, 0x1a99ce21, 0xd54eb8f7, 0x54c2cd9f, 0x70a967c8,
     0xde39d471, 0x652563cd, 0x3d4adea1, 0x1cf6631c, 0xb27d16ee, 0x3a18bafa,
     0xd8a86a86, 0xd839cd7b, 0xda2ab05a, 0x37fc1d99, 0xbc702308, 0x01d57596,
     0x480d3091, 0x51420446, 0xcc56d97c, 0x7aa57434, 0x7b6097ae, 0x45bca8ae,
     0xb0b1e322, 0x5487b90f, 0x1045e6ef, 0x87ad10f0, 0x4c72b7f0, 0xc527c9a3,
     0x29ed4350, 0xe345625b, 0x57063d83, 0xbb56900a, 0xbfb1be4c, 0x1c454e8f,
     0xdb27c1b7, 0xbe02c694, 0x2604d74a, 0x4d6516dd, 0x322918ab, 0xd25e8754]"

definition kEncodedSha256 :: "u32 list" where
  "kEncodedSha256 = [0x05000420, 0x03040201, 0x86480165, 0x0d060960, 0x00303130]"

abbreviation (input) kPsLen :: nat where "kPsLen \<equiv> 82"

text \<open>Step 1. One loop of it: the words of \<open>enc_msg\<close> from index \<open>i\<close> on are
  combined with the expected words and the shares.\<close>

fun mask_words :: "nat \<Rightarrow> u32 list \<Rightarrow> u32 list \<Rightarrow> u32 list" where
  "mask_words i [] enc = enc"
| "mask_words i (e # es) enc =
     mask_words (Suc i) es (enc[i := (enc ! i) XOR e XOR (kSigverifyShares ! i)])"

definition mask_enc_msg :: "u32 list \<Rightarrow> u32 list \<Rightarrow> u32 list" where
  "mask_enc_msg enc_msg act_digest =
     (let m = mask_words 0 (take 8 act_digest) enc_msg;
          m = mask_words 8 kEncodedSha256 m;
          m = mask_words 13 (replicate kPsLen 0xffffffff) m
      in mask_words 95 [0x0001ffff] m)"

text \<open>Step 2. The reduction loop, over the words of the message and the shares.\<close>

fun flash_exec_loop :: "u32 \<Rightarrow> u32 \<Rightarrow> u32 list \<Rightarrow> u32 list \<Rightarrow> u32" where
  "flash_exec_loop diff flash_exec (e # es) (s # ss) =
     (let diff = diff OR (e XOR s);
          diff = diff OR (NOT diff + 1);
          diff = diff OR (NOT (drop_bit 31 diff) + 1)
      in flash_exec_loop diff ((flash_exec XOR e) OR diff) es ss)"
| "flash_exec_loop diff flash_exec _ _ = flash_exec"

definition flash_exec_result :: "u32 \<Rightarrow> u32" where
  "flash_exec_result flash_exec =
     drop_bit 21 (push_bit 21 flash_exec XOR push_bit 10 flash_exec XOR drop_bit 1 flash_exec)"

text \<open>The result is the error code and the value for the EXEC register.\<close>

definition sigverify_encoded_message_check :: "u32 list \<Rightarrow> u32 list \<Rightarrow> (rom_error * u32) rom" where
  "sigverify_encoded_message_check enc_msg act_digest = (let enc = mask_enc_msg enc_msg act_digest in
    let flash_exec = flash_exec_loop 0 0 (take kSigVerifyRsaNumWords enc) kSigverifyShares in
    let result = flash_exec_result flash_exec in
    if result = kErrorOk
     then (bindM (HARDENED_CHECK_EQ result kErrorOk) (\<lambda>_.
     returnM (result, flash_exec)))
     else returnM (kErrorSigverifyBadEncodedMessage, flash_exec))"

section \<open>Verification\<close>

definition sigverify_use_sw_rsa_verify :: "u32 \<Rightarrow> u32 rom" where
  "sigverify_use_sw_rsa_verify lc_state =
     (if lc_state = kLcStateTest then (bindM (HARDENED_CHECK_EQ lc_state kLcStateTest) (\<lambda>_.
    returnM kHardenedBoolTrue))
      else if lc_state = kLcStateDev then (bindM (HARDENED_CHECK_EQ lc_state kLcStateDev) (\<lambda>_.
    otp_read32 OTP_CTRL_PARAM_CREATOR_SW_CFG_USE_SW_RSA_VERIFY_OFFSET))
      else if lc_state = kLcStateProd then (bindM (HARDENED_CHECK_EQ lc_state kLcStateProd) (\<lambda>_.
    otp_read32 OTP_CTRL_PARAM_CREATOR_SW_CFG_USE_SW_RSA_VERIFY_OFFSET))
      else if lc_state = kLcStateProdEnd then (bindM (HARDENED_CHECK_EQ lc_state kLcStateProdEnd) (\<lambda>_.
    otp_read32 OTP_CTRL_PARAM_CREATOR_SW_CFG_USE_SW_RSA_VERIFY_OFFSET))
      else if lc_state = kLcStateRma then (bindM (HARDENED_CHECK_EQ lc_state kLcStateRma) (\<lambda>_.
    otp_read32 OTP_CTRL_PARAM_CREATOR_SW_CFG_USE_SW_RSA_VERIFY_OFFSET))
      else HARDENED_UNREACHABLE)"

text \<open>The software implementation as a program: a loop that does not end is a hang.\<close>

definition mod_exp_ibex :: "sigverify_rsa_key \<Rightarrow> u32 list \<Rightarrow> (rom_error * u32 list) rom" where
  "mod_exp_ibex key sig = (case sigverify_mod_exp_ibex key sig of
     Bad_signature \<Rightarrow> returnM (kErrorSigverifyBadSignature, [])
   | Recovered enc_msg \<Rightarrow> returnM (kErrorOk, enc_msg)
   | Diverges \<Rightarrow> stopM Hang)"

definition sigverify_rsa_verify ::
  "u32 list \<Rightarrow> sigverify_rsa_key \<Rightarrow> u32 list \<Rightarrow> u32 \<Rightarrow> (rom_error * u32) rom" where
  "sigverify_rsa_verify sig key act_digest lc_state = (bindM (sigverify_use_sw_rsa_verify lc_state) (\<lambda>use_sw.
    bindM ((if use_sw = kHardenedBoolTrue then mod_exp_ibex key sig
        else if use_sw = kHardenedBoolFalse then sigverify_mod_exp_otbn key sig
        else HARDENED_UNREACHABLE)) (\<lambda>(err, enc_msg).
    if err \<noteq> kErrorOk then returnM (err, UINT32_MAX)
     else sigverify_encoded_message_check enc_msg act_digest)))"

section \<open>Usage constraints\<close>

text \<open>A field whose selector bit is clear is replaced.\<close>

definition select_field :: "u32 \<Rightarrow> u32 \<Rightarrow> u32 \<Rightarrow> u32" where
  "select_field bits i v =
     (if \<not> bitfield_bit32_read bits i then MANIFEST_USAGE_CONSTRAINT_UNSELECTED_WORD_VAL else v)"

definition sigverify_usage_constraints_get :: "u32 \<Rightarrow> manifest_usage_constraints rom" where
  "sigverify_usage_constraints_get bits = (bindM lifecycle_device_id_get (\<lambda>dev_id.
    bindM (otp_read32 OTP_CTRL_PARAM_CREATOR_SW_CFG_MANUF_STATE_OFFSET) (\<lambda>creator.
    bindM (otp_read32 OTP_CTRL_PARAM_OWNER_SW_CFG_MANUF_STATE_OFFSET) (\<lambda>owner.
    bindM lifecycle_state_get (\<lambda>lc.
    returnM \<lparr>selector_bits = bits,
       device_id = map (\<lambda>i. select_field bits (of_nat i) (dev_id ! i)) [0..<8],
       manuf_state_creator = select_field bits 8 creator,
       manuf_state_owner = select_field bits 9 owner,
       life_cycle_state = select_field bits 10 lc\<rparr>)))))"

definition usage_constraints_bytes :: "manifest_usage_constraints \<Rightarrow> u8 list" where
  "usage_constraints_bytes u = concat (map word_bytes
     (selector_bits u # device_id u @ [manuf_state_creator u, manuf_state_owner u, life_cycle_state u]))"

section \<open>Frames\<close>

lemma framed_encoded_check [framed_intros]:
  "quiet (sigverify_encoded_message_check e d)" "sec_safe (sigverify_encoded_message_check e d)"
  unfolding sigverify_encoded_message_check_def Let_def by (intro framed_intros)+

lemma framed_mod_exp_ibex [framed_intros]:
  "quiet (mod_exp_ibex key sig)" "sec_safe (mod_exp_ibex key sig)"
  unfolding mod_exp_ibex_def by (auto split: mod_exp_result.split intro!: framed_intros)

lemma framed_rsa_verify [framed_intros]:
  "quiet (sigverify_rsa_verify sig key d s)" "sec_safe (sigverify_rsa_verify sig key d s)"
  unfolding sigverify_rsa_verify_def sigverify_use_sw_rsa_verify_def split_beta
  by (intro framed_intros)+

lemma framed_usage_constraints [framed_intros]:
  "quiet (sigverify_usage_constraints_get b)" "sec_safe (sigverify_usage_constraints_get b)"
  unfolding sigverify_usage_constraints_get_def Let_def
  by (intro framed_intros; (assumption | (simp; fail))?)+

section \<open>The check accepts exactly the padding of the digest\<close>

text \<open>The message a signature has to recover: the digest, the encoded algorithm identifier
  and the padding, least significant word first.\<close>

definition pkcs1_encoding :: "u32 list \<Rightarrow> u32 list" where
  "pkcs1_encoding act_digest =
     act_digest @ kEncodedSha256 @ replicate kPsLen 0xffffffff @ [0x0001ffff]"

lemma length_mask_words [simp]: "length (mask_words i es enc) = length enc"
  by (induction es arbitrary: i enc) simp_all

lemma nth_mask_words:
  "i + length es \<le> length enc \<Longrightarrow> k < length enc \<Longrightarrow>
   mask_words i es enc ! k =
     (if i \<le> k \<and> k < i + length es then enc ! k XOR es ! (k - i) XOR kSigverifyShares ! k
      else enc ! k)"
proof (induction es arbitrary: i enc)
  case (Cons e es)
  then show ?case
    by (cases "k = i") (auto simp: nth_Cons' Suc_le_eq)
qed auto

lemma length_encoded [simp]: "length kEncodedSha256 = 5"
  by (simp add: kEncodedSha256_def)

lemma length_shares [simp]: "length kSigverifyShares = 96"
  by (simp add: kSigverifyShares_def)

lemma mask_enc_msg_nth:
  assumes "length d = 8" "length enc = 96" "k < 96"
  shows "mask_enc_msg enc d ! k = enc ! k XOR pkcs1_encoding d ! k XOR kSigverifyShares ! k"
  using assms
  by (auto simp: mask_enc_msg_def Let_def nth_mask_words pkcs1_encoding_def nth_append simp del: mask_words.simps)

lemma length_mask_enc [simp]: "length (mask_enc_msg enc d) = length enc"
  by (simp add: mask_enc_msg_def Let_def)

text \<open>The comparison of one word: the sign bit of \<open>x OR - x\<close> tells whether
  \<open>x\<close> is zero.\<close>

lemma bit31_iff: "bit (w :: u32) 31 \<longleftrightarrow> 2 ^ 31 \<le> unat w"
proof -
  have "unat w < 2 ^ 32" by (rule unat_bound)
  then have "unat w div 2 ^ 31 = (if 2 ^ 31 \<le> unat w then 1 else 0)" by auto
  moreover have "bit w 31 \<longleftrightarrow> bit (unat w) 31" by (simp add: bit_unsigned_iff)
  ultimately show ?thesis by (simp add: bit_iff_odd)
qed

lemma drop31_bit: "drop_bit 31 (w :: u32) = of_bool (bit w 31)"
proof (rule bit_word_eqI)
  fix n assume "n < LENGTH(32)"
  then show "bit (drop_bit 31 w) n = bit (of_bool (bit w 31) :: u32) n"
    by (cases n) (auto simp: bit_simps dest: bit_imp_le_length)
qed

lemma drop31_or_minus: "drop_bit 31 (x OR (NOT x + 1)) = (of_bool (x \<noteq> 0) :: u32)"
proof (cases "x = 0")
  case False
  have n: "NOT x + 1 = - x" by (simp add: minus_eq_not_plus_1)
  have "unat (- x) = 2 ^ 32 - unat x"
    using False unat_bound [of x] by (simp add: unat_eq_0 unat_sub_if' flip: diff_0)
  then have "bit x 31 \<or> bit (- x) 31"
    using False unat_bound [of x] unfolding bit31_iff by auto
  with False show ?thesis unfolding drop31_bit n bit_or_iff by simp
qed simp

text \<open>One step of the reduction: \<open>diff\<close> stays zero as long as the words agree, and is
  all ones from the first difference on.\<close>

lemma diff_step_zero:
  "(let diff = 0 OR x; diff = diff OR (NOT diff + 1) in diff OR (NOT (drop_bit 31 diff) + 1)) =
     (if x = 0 then 0 else - 1 :: u32)"
proof -
  have "drop_bit 31 ((0 OR x) OR (NOT (0 OR x) + 1)) = of_bool (x \<noteq> 0)"
    using drop31_or_minus [of x] by (simp del: drop_bit_or)
  then show ?thesis unfolding Let_def by (simp only:) auto
qed

lemma diff_step_ones: "(- 1 OR x) = (- 1 :: u32)"
  by simp

lemma loop_ones:
  "length es = length ss \<Longrightarrow> flash_exec_loop (- 1) (- 1) es ss = (- 1)"
proof (induction es arbitrary: ss)
  case (Cons e es)
  then show ?case by (cases ss) (simp_all add: Let_def)
qed simp

lemma loop_zero:
  "length es = length ss \<Longrightarrow>
   flash_exec_loop 0 fe es ss = (if es = ss then foldl (XOR) fe ss else - 1)"
proof (induction es arbitrary: fe ss)
  case (Cons e es)
  then obtain s ss' where s: "ss = s # ss'" "length es = length ss'" by (cases ss) auto
  let ?d = "if e = s then 0 else - 1 :: u32"
  have d: "(let diff = 0 OR (e XOR s); diff = diff OR (NOT diff + 1)
      in diff OR (NOT (drop_bit 31 diff) + 1)) = ?d"
    unfolding diff_step_zero by (simp add: xor_flip)
  have "flash_exec_loop 0 fe (e # es) ss = flash_exec_loop ?d ((fe XOR e) OR ?d) es ss'"
    unfolding s flash_exec_loop.simps Let_def d [unfolded Let_def] by (rule refl)
  then show ?case using Cons.IH [OF s(2)] s loop_ones [OF s(2)] by auto
qed simp

lemma shares_fold: "foldl (XOR) 0 kSigverifyShares = kSigverifyFlashExec"
  unfolding kSigverifyShares_def by simp

lemma exec_results:
  "flash_exec_result kSigverifyFlashExec = kErrorOk" "flash_exec_result (- 1) = 0x3ff"
  unfolding flash_exec_result_def by code_simp+

lemma mask_enc_eq_shares:
  assumes "length d = 8" "length enc = 96"
  shows "mask_enc_msg enc d = kSigverifyShares \<longleftrightarrow> enc = pkcs1_encoding d"
proof -
  have "mask_enc_msg enc d = kSigverifyShares \<longleftrightarrow>
      (\<forall>k<96. mask_enc_msg enc d ! k = kSigverifyShares ! k)"
    using assms by (auto simp: list_eq_iff_nth_eq)
  also have "... \<longleftrightarrow> (\<forall>k<96. enc ! k = pkcs1_encoding d ! k)"
    using mask_enc_msg_nth [OF assms] by (simp add: xor_flip flip: xor.assoc) 
  also have "... \<longleftrightarrow> enc = pkcs1_encoding d"
    using assms by (auto simp: list_eq_iff_nth_eq pkcs1_encoding_def)
  finally show ?thesis .
qed

text \<open>The check in one equation.\<close>

lemma encoded_message_check_run:
  assumes "length d = 8" "length enc = 96"
  shows "sigverify_encoded_message_check enc d m =
    Done (if enc = pkcs1_encoding d then (kErrorOk, kSigverifyFlashExec)
          else (kErrorSigverifyBadEncodedMessage, UINT32_MAX)) m"
proof -
  have "flash_exec_loop 0 0 (take kSigVerifyRsaNumWords (mask_enc_msg enc d)) kSigverifyShares =
      (if enc = pkcs1_encoding d then kSigverifyFlashExec else - 1)"
    using assms by (simp add: loop_zero shares_fold mask_enc_eq_shares)
  then show ?thesis
    by (simp add: sigverify_encoded_message_check_def Let_def exec_results)
qed

section \<open>Properties\<close>

text \<open>C4: the hardened comparison of a recovered message with the
  digest, built from shares so that no single skipped step yields the execution key, accepts
  exactly the PKCS 1 encoding of the digest, and produces the value that enables flash execution
  in that case only. It never traps and never stops.\<close>

theorem encoded_message_check_exact:
  assumes "length d = 8" "length enc = 96"
  shows "sigverify_encoded_message_check enc d m =
    Done (if enc = pkcs1_encoding d then (kErrorOk, kSigverifyFlashExec)
          else (kErrorSigverifyBadEncodedMessage, UINT32_MAX)) m"
  using assms by (rule encoded_message_check_run)

theorem encoded_message_check_exact_witness:
  "sigverify_encoded_message_check (pkcs1_encoding [1, 2, 3, 4, 5, 6, 7, 8]) [1, 2, 3, 4, 5, 6, 7, 8]
     sample_machine = Done (kErrorOk, kSigverifyFlashExec) sample_machine"
  by (subst encoded_message_check_exact) (simp_all add: pkcs1_encoding_def)

section \<open>Signatures and usage constraints\<close>

lemma hash_idle_usage_constraints [framed_intros]: "hash_idle (sigverify_usage_constraints_get b)"
  unfolding sigverify_usage_constraints_get_def by (intro framed_intros)+

lemma usage_constraints_selector:
  "sigverify_usage_constraints_get b m = Done u m' \<Longrightarrow> selector_bits u = b"
  by (auto simp: sigverify_usage_constraints_get_def bindM_Done_iff)

text \<open>What a signature recovers to under a key: the RSA function for the exponent 65537, or
  what the program running on OTBN left in its output buffer.\<close>

definition rsa_recovers :: "platform \<Rightarrow> sigverify_rsa_key \<Rightarrow> u32 list \<Rightarrow> u32 list \<Rightarrow> bool" where
  "rsa_recovers p key sig enc \<longleftrightarrow>
     words_value sig < words_value (rsa_n key) \<and>
     (words_value enc = words_value sig ^ 65537 mod words_value (rsa_n key) \<or>
      (\<exists>m m'. plat m = p \<and> run_otbn_rsa_3072_modexp key sig m = Done (kErrorOk, enc) m'))"

lemma framed_use_sw: "quiet (sigverify_use_sw_rsa_verify lc)"
  unfolding sigverify_use_sw_rsa_verify_def by (intro framed_intros)

lemma rsa_verify_sound:
  assumes key: "rsa_key_ok key" "length (rsa_n key) = 96" and len: "length sig = 96" "length d = 8"
    and run: "sigverify_rsa_verify sig key d lc m = Done (kErrorOk, fe) m'"
  shows "fe = kSigverifyFlashExec \<and> rsa_recovers (plat m) key sig (pkcs1_encoding d)"
proof -
  obtain sw m1 err enc m2 where sw: "sigverify_use_sw_rsa_verify lc m = Done sw m1"
    and e: "(if sw = kHardenedBoolTrue then mod_exp_ibex key sig
        else if sw = kHardenedBoolFalse then sigverify_mod_exp_otbn key sig
        else HARDENED_UNREACHABLE) m1 = Done (err, enc) m2"
    and r: "(if err \<noteq> kErrorOk then returnM (err, UINT32_MAX)
        else sigverify_encoded_message_check enc d) m2 = Done (kErrorOk, fe) m'"
    using run unfolding sigverify_rsa_verify_def by (elim bindM_DoneE) (auto split: prod.splits)
  have p: "plat m1 = plat m"
    using framed_use_sw sw by (rule quiet_plat)
  have err: "err = kErrorOk" using r by (auto split: if_splits)
  have chk: "sigverify_encoded_message_check enc d m2 = Done (kErrorOk, fe) m'"
    using r err by simp
  consider (ibex) "sw = kHardenedBoolTrue" "mod_exp_ibex key sig m1 = Done (kErrorOk, enc) m2"
    | (otbn) "sigverify_mod_exp_otbn key sig m1 = Done (kErrorOk, enc) m2"
    using e err by (auto split: if_splits)
  then have rec: "length enc = 96 \<and> rsa_recovers (plat m) key sig enc"
  proof cases
    case ibex
    then have "sigverify_mod_exp_ibex key sig = Recovered enc"
      by (auto simp: mod_exp_ibex_def split: mod_exp_result.splits)
    with mod_exp_correct [OF key len(1)] show ?thesis by (auto simp: rsa_recovers_def split: if_splits)
  next
    case otbn
    from otbn_rejects_large [OF key(2) len(1) otbn] otbn_result_length p show ?thesis
      unfolding rsa_recovers_def by blast
  qed
  with chk encoded_message_check_run [OF len(2), of enc m2] show ?thesis
    by (auto split: if_splits)
qed

lemma rsa_verify_failure:
  assumes key: "rsa_key_ok key" "length (rsa_n key) = 96" and len: "length sig = 96" "length d = 8"
    and run: "sigverify_rsa_verify sig key d lc m = Done (r, fe) m'" and r: "r \<noteq> kErrorOk"
  shows "fe = UINT32_MAX"
proof -
  obtain sw m1 err enc m2 where e: "(if sw = kHardenedBoolTrue then mod_exp_ibex key sig
        else if sw = kHardenedBoolFalse then sigverify_mod_exp_otbn key sig
        else HARDENED_UNREACHABLE) m1 = Done (err, enc) m2"
    and f: "(if err \<noteq> kErrorOk then returnM (err, UINT32_MAX)
        else sigverify_encoded_message_check enc d) m2 = Done (r, fe) m'"
    using run unfolding sigverify_rsa_verify_def by (elim bindM_DoneE) (auto split: prod.splits)
  show ?thesis
  proof (cases "err = kErrorOk")
    case True
    with e consider "mod_exp_ibex key sig m1 = Done (kErrorOk, enc) m2"
      | "sigverify_mod_exp_otbn key sig m1 = Done (kErrorOk, enc) m2"
      by (auto split: if_splits)
    then have "length enc = 96"
    proof cases
      case 1
      then have "sigverify_mod_exp_ibex key sig = Recovered enc"
        by (auto simp: mod_exp_ibex_def split: mod_exp_result.splits)
      with mod_exp_correct [OF key len(1)] show ?thesis by (auto split: if_splits)
    next
      case 2
      with otbn_rejects_large [OF key(2) len(1)] show ?thesis by (blast intro: otbn_result_length)
    qed
    with f True r encoded_message_check_run [OF len(2), of enc m2] show ?thesis by (auto split: if_splits)
  qed (use f in simp)
qed

end
