(* ===== verification/Keymgr.thy ===== *)
theory Keymgr
  imports Drivers
begin

text \<open>\<open>drivers/keymgr.c\<close>: the key manager driver.\<close>

abbreviation (input) kKeymgrStateReset :: u32 where "kKeymgrStateReset \<equiv> 0"
abbreviation (input) kKeymgrStateInit :: u32 where "kKeymgrStateInit \<equiv> 1"
abbreviation (input) kKeymgrStateCreatorRootKey :: u32 where "kKeymgrStateCreatorRootKey \<equiv> 2"
abbreviation (input) kKeymgrStateOwnerIntermediateKey :: u32 where "kKeymgrStateOwnerIntermediateKey \<equiv> 3"
abbreviation (input) kKeymgrSecMmioInit :: u32 where "kKeymgrSecMmioInit \<equiv> 1"
abbreviation (input) kKeymgrSecMmioSwBindingSet :: u32 where "kKeymgrSecMmioSwBindingSet \<equiv> 17"
abbreviation (input) kKeymgrSecMmioCreatorMaxVerSet :: u32 where "kKeymgrSecMmioCreatorMaxVerSet \<equiv> 2"
abbreviation (input) kKeymgrSecMmioOwnerIntMaxVerSet :: u32 where "kKeymgrSecMmioOwnerIntMaxVerSet \<equiv> 2"

text \<open>The number of words of a binding value (\<open>keymgr_binding_value_t\<close>).\<close>

abbreviation (input) kBindingWords :: nat where "kBindingWords \<equiv> 8"

section \<open>Operations\<close>

definition expected_state_check :: "u32 \<Rightarrow> rom_error rom" where
  "expected_state_check expected_state = (bindM (poll_until ((bindM (abs_mmio_read32 (TOP_EARLGREY_KEYMGR_BASE_ADDR + KEYMGR_OP_STATUS_REG_OFFSET)) (\<lambda>op_status.
       bindM (abs_mmio_write32 (TOP_EARLGREY_KEYMGR_BASE_ADDR + KEYMGR_OP_STATUS_REG_OFFSET) op_status) (\<lambda>_.
       returnM (bitfield_field32_read op_status KEYMGR_OP_STATUS_STATUS_FIELD)))))
       (\<lambda>f. \<not> (f = KEYMGR_OP_STATUS_STATUS_VALUE_WIP \<or> f = KEYMGR_OP_STATUS_STATUS_VALUE_DONE_SUCCESS))) (\<lambda>op_status_field.
    bindM (abs_mmio_read32 (TOP_EARLGREY_KEYMGR_BASE_ADDR + KEYMGR_ERR_CODE_REG_OFFSET)) (\<lambda>error_code.
    bindM (abs_mmio_write32 (TOP_EARLGREY_KEYMGR_BASE_ADDR + KEYMGR_ERR_CODE_REG_OFFSET) error_code) (\<lambda>_.
    bindM (sec_mmio_read32 (TOP_EARLGREY_KEYMGR_BASE_ADDR + KEYMGR_WORKING_STATE_REG_OFFSET)) (\<lambda>got_state.
    if op_status_field = KEYMGR_OP_STATUS_STATUS_VALUE_IDLE \<and> error_code = 0 \<and> got_state = expected_state
     then returnM kErrorOk
     else returnM kErrorKeymgrInternal)))))"

definition keymgr_init :: "u16 \<Rightarrow> rom_error rom" where
  "keymgr_init entropy_reseed_interval = (RETURN_IF_ERROR (expected_state_check kKeymgrStateReset) (
    let reg = bitfield_field32_write 0 KEYMGR_RESEED_INTERVAL_SHADOWED_VAL_FIELD
       (ucast entropy_reseed_interval) in
    bindM (sec_mmio_write32_shadowed (TOP_EARLGREY_KEYMGR_BASE_ADDR + KEYMGR_RESEED_INTERVAL_SHADOWED_REG_OFFSET) reg) (\<lambda>_.
    returnM kErrorOk)))"

definition keymgr_sw_binding_set :: "u32 list \<Rightarrow> u32 list \<Rightarrow> unit rom" where
  "keymgr_sw_binding_set binding_value_sealing binding_value_attestation = (bindM (for_each [0..<kBindingWords] (\<lambda>i. sec_mmio_write32
       (TOP_EARLGREY_KEYMGR_BASE_ADDR + KEYMGR_SEALING_SW_BINDING_0_REG_OFFSET + of_nat i * 4)
       (binding_value_sealing ! i))) (\<lambda>_.
    bindM (for_each [0..<kBindingWords] (\<lambda>i. sec_mmio_write32
       (TOP_EARLGREY_KEYMGR_BASE_ADDR + KEYMGR_ATTEST_SW_BINDING_0_REG_OFFSET + of_nat i * 4)
       (binding_value_attestation ! i))) (\<lambda>_.
    sec_mmio_write32 (TOP_EARLGREY_KEYMGR_BASE_ADDR + KEYMGR_SW_BINDING_REGWEN_REG_OFFSET) 0)))"

definition keymgr_sw_binding_unlock_wait :: "unit rom" where
  "keymgr_sw_binding_unlock_wait = (bindM (poll_until (abs_mmio_read32 (TOP_EARLGREY_KEYMGR_BASE_ADDR + KEYMGR_SW_BINDING_REGWEN_REG_OFFSET))
       (\<lambda>v. v \<noteq> 0)) (\<lambda>_.
    bindM (sec_mmio_read32 (TOP_EARLGREY_KEYMGR_BASE_ADDR + KEYMGR_SW_BINDING_REGWEN_REG_OFFSET)) (\<lambda>_.
    returnM ())))"

definition keymgr_creator_max_ver_set :: "u32 \<Rightarrow> unit rom" where
  "keymgr_creator_max_ver_set max_key_ver = (bindM (sec_mmio_write32_shadowed (TOP_EARLGREY_KEYMGR_BASE_ADDR + KEYMGR_MAX_CREATOR_KEY_VER_SHADOWED_REG_OFFSET)
       max_key_ver) (\<lambda>_.
    sec_mmio_write32 (TOP_EARLGREY_KEYMGR_BASE_ADDR + KEYMGR_MAX_CREATOR_KEY_VER_REGWEN_REG_OFFSET) 0))"

definition keymgr_owner_int_max_ver_set :: "u32 \<Rightarrow> unit rom" where
  "keymgr_owner_int_max_ver_set max_key_ver = (bindM (sec_mmio_write32_shadowed (TOP_EARLGREY_KEYMGR_BASE_ADDR + KEYMGR_MAX_OWNER_INT_KEY_VER_SHADOWED_REG_OFFSET)
       max_key_ver) (\<lambda>_.
    sec_mmio_write32 (TOP_EARLGREY_KEYMGR_BASE_ADDR + KEYMGR_MAX_OWNER_INT_KEY_VER_REGWEN_REG_OFFSET) 0))"

definition keymgr_advance_state :: "unit rom" where
  "keymgr_advance_state = (let reg = bitfield_field32_write 0 KEYMGR_CONTROL_SHADOWED_DEST_SEL_FIELD
       KEYMGR_CONTROL_SHADOWED_DEST_SEL_VALUE_NONE in
    let reg = bitfield_field32_write reg KEYMGR_CONTROL_SHADOWED_OPERATION_FIELD
       KEYMGR_CONTROL_SHADOWED_OPERATION_VALUE_ADVANCE in
    bindM (abs_mmio_write32_shadowed (TOP_EARLGREY_KEYMGR_BASE_ADDR + KEYMGR_CONTROL_SHADOWED_REG_OFFSET) reg) (\<lambda>_.
    abs_mmio_write32 (TOP_EARLGREY_KEYMGR_BASE_ADDR + KEYMGR_START_REG_OFFSET) 1))"

definition keymgr_state_check :: "u32 \<Rightarrow> rom_error rom" where
  "keymgr_state_check expected_state = expected_state_check expected_state"

section \<open>Frames and counts\<close>

lemma framed_abs_shadowed [framed_intros]:
  "quiet (abs_mmio_write32_shadowed a v)" "sec_safe (abs_mmio_write32_shadowed a v)"
  unfolding abs_mmio_write32_shadowed_def Let_def
  by (intro framed_intros; (assumption | (simp; fail))?)+

lemma framed_keymgr [framed_intros]:
  "quiet (expected_state_check s)" "sec_safe (expected_state_check s)"
  "quiet (keymgr_init n)" "sec_safe (keymgr_init n)"
  "quiet (keymgr_sw_binding_set xs ys)" "sec_safe (keymgr_sw_binding_set xs ys)"
  "quiet keymgr_sw_binding_unlock_wait" "sec_safe keymgr_sw_binding_unlock_wait"
  "quiet (keymgr_creator_max_ver_set v)" "sec_safe (keymgr_creator_max_ver_set v)"
  "quiet (keymgr_owner_int_max_ver_set v)" "sec_safe (keymgr_owner_int_max_ver_set v)"
  "quiet keymgr_advance_state" "sec_safe keymgr_advance_state"
  "quiet (keymgr_state_check s)" "sec_safe (keymgr_state_check s)"
  unfolding expected_state_check_def keymgr_init_def keymgr_sw_binding_set_def keymgr_sw_binding_unlock_wait_def keymgr_creator_max_ver_set_def keymgr_owner_int_max_ver_set_def keymgr_advance_state_def keymgr_state_check_def Let_def
  by (intro framed_intros; (assumption | (simp; fail))?)+

lemma counts_sw_binding:
  "counts (keymgr_sw_binding_set xs ys) kKeymgrSecMmioSwBindingSet 0"
proof -
  have w: "counts (for_each [0..<kBindingWords] (\<lambda>i. sec_mmio_write32 (b + of_nat i * 4) (zs ! i)))
      (of_nat (length [0..<kBindingWords]) * 1) 0" for b and zs :: "u32 list"
    by (intro counts_for counts_intros)
  show ?thesis unfolding keymgr_sw_binding_set_def
    by (rule counts_cong, (rule counts_intros w)+) simp_all
qed

lemma counts_max_ver:
  "counts (keymgr_creator_max_ver_set v) kKeymgrSecMmioCreatorMaxVerSet 0"
  "counts (keymgr_owner_int_max_ver_set v) kKeymgrSecMmioOwnerIntMaxVerSet 0"
  unfolding keymgr_creator_max_ver_set_def keymgr_owner_int_max_ver_set_def
  by (rule counts_cong, (rule counts_intros)+, simp_all)+

section \<open>The state check\<close>

text \<open>The check succeeds only in the expected working state, idle and without error.\<close>

lemma expected_state_check_Ok:
  assumes "expected_state_check s m = Done kErrorOk m'"
  shows "\<exists>l. R32 (TOP_EARLGREY_KEYMGR_BASE_ADDR + KEYMGR_WORKING_STATE_REG_OFFSET) s # l = io_log m'
    \<and> R32 (TOP_EARLGREY_KEYMGR_BASE_ADDR + KEYMGR_ERR_CODE_REG_OFFSET) 0 \<in> set l"
  using assms unfolding expected_state_check_def
  by (auto simp: bindM_Done_iff check_Done sec_mmio_read32_def upsert_register_def Let_def xor_mask_eq
      split: if_splits)

section \<open>Properties\<close>

lemma sec_read_log:
  "sec_mmio_read32 a m = Done v m' \<Longrightarrow> io_log m' = R32 a v # R32 a v # io_log m"
  by (auto simp: sec_mmio_read32_def upsert_register_def Let_def bindM_Done_iff check_Done xor_mask_eq)

text \<open>The key manager check waits until the last operation is
  over, clears its status and error, reads the working state twice, and succeeds exactly when the
  manager is idle, without error and in the expected state. This is what stands between a wrong
  key manager state and the derivation of keys for the next stage.\<close>

theorem keymgr_state_check_exact:
  "case keymgr_state_check s m of
     Done r m' \<Rightarrow> (\<exists>status err state l. io_log m' =
       R32 (TOP_EARLGREY_KEYMGR_BASE_ADDR + KEYMGR_WORKING_STATE_REG_OFFSET) state #
       R32 (TOP_EARLGREY_KEYMGR_BASE_ADDR + KEYMGR_WORKING_STATE_REG_OFFSET) state #
       W32 (TOP_EARLGREY_KEYMGR_BASE_ADDR + KEYMGR_ERR_CODE_REG_OFFSET) err #
       R32 (TOP_EARLGREY_KEYMGR_BASE_ADDR + KEYMGR_ERR_CODE_REG_OFFSET) err #
       W32 (TOP_EARLGREY_KEYMGR_BASE_ADDR + KEYMGR_OP_STATUS_REG_OFFSET) status #
       R32 (TOP_EARLGREY_KEYMGR_BASE_ADDR + KEYMGR_OP_STATUS_REG_OFFSET) status # l \<and>
       bitfield_field32_read status KEYMGR_OP_STATUS_STATUS_FIELD \<noteq> KEYMGR_OP_STATUS_STATUS_VALUE_WIP \<and>
       r = (if bitfield_field32_read status KEYMGR_OP_STATUS_STATUS_FIELD
                = KEYMGR_OP_STATUS_STATUS_VALUE_IDLE \<and> err = 0 \<and> state = s
            then kErrorOk else kErrorKeymgrInternal))
   | Stop e m' \<Rightarrow> no_jump e"
proof (cases "keymgr_state_check s m")
  case (Done r m')
  let ?op = "TOP_EARLGREY_KEYMGR_BASE_ADDR + KEYMGR_OP_STATUS_REG_OFFSET"
  let ?err = "TOP_EARLGREY_KEYMGR_BASE_ADDR + KEYMGR_ERR_CODE_REG_OFFSET"
  obtain f m1 where
    poll: "poll_until ((bindM (abs_mmio_read32 ?op) (\<lambda>op_status.
    bindM (abs_mmio_write32 ?op op_status) (\<lambda>_.
    returnM (bitfield_field32_read op_status KEYMGR_OP_STATUS_STATUS_FIELD)))))
       (\<lambda>f. \<not> (f = KEYMGR_OP_STATUS_STATUS_VALUE_WIP \<or> f = KEYMGR_OP_STATUS_STATUS_VALUE_DONE_SUCCESS)) m = Done f m1"
    and rest: "(bindM (abs_mmio_read32 ?err) (\<lambda>error_code.
    bindM (abs_mmio_write32 ?err error_code) (\<lambda>_.
    bindM (sec_mmio_read32 (TOP_EARLGREY_KEYMGR_BASE_ADDR + KEYMGR_WORKING_STATE_REG_OFFSET)) (\<lambda>got_state.
    if f = KEYMGR_OP_STATUS_STATUS_VALUE_IDLE \<and> error_code = 0 \<and> got_state = s
       then returnM kErrorOk
       else returnM kErrorKeymgrInternal)))) m1 = Done r m'"
    using Done unfolding keymgr_state_check_def expected_state_check_def by (rule bindM_DoneE)
  define err where "err = mmio_resp (plat m1) (io_log m1) ?err"
  from rest obtain state m3 where
    st: "sec_mmio_read32 (TOP_EARLGREY_KEYMGR_BASE_ADDR + KEYMGR_WORKING_STATE_REG_OFFSET)
       (m1\<lparr>io_log := W32 ?err err # R32 ?err err # io_log m1\<rparr>) = Done state m3"
    and r: "r = (if f = KEYMGR_OP_STATUS_STATUS_VALUE_IDLE \<and> err = 0 \<and> state = s
       then kErrorOk else kErrorKeymgrInternal)" "m' = m3"
    unfolding err_def by (auto simp: bindM_Done_iff split: if_splits)
  from poll_until_last [OF poll] obtain status l where
    "f = bitfield_field32_read status KEYMGR_OP_STATUS_STATUS_FIELD" "f \<noteq> KEYMGR_OP_STATUS_STATUS_VALUE_WIP"
    "io_log m1 = W32 ?op status # R32 ?op status # l"
    by auto
  with sec_read_log [OF st] r show ?thesis unfolding Done by auto
next
  case (Stop e m')
  then show ?thesis using framedD3 [OF framed_keymgr(15), of s m e m'] by simp
qed

end
