(* ===== verification/Rom_Print.thy ===== *)
theory Rom_Print
  imports Drivers
begin

text \<open>\<open>lib/rom_print.c\<close>: formatted output with \<open>\<lambda>s\<close> and \<open>\<lambda>x\<close>. A variable
  argument list is a list of tagged arguments; an argument that is missing or of the wrong type
  is undefined behaviour in C, and stops here.\<close>

unbundle bit_operations_syntax

datatype fmt_arg = Str_arg "char list" | Hex_arg u32

definition putchar :: "char \<Rightarrow> unit rom" where
  "putchar c = uart_putchar (of_char c)"

definition rom_hex_digits :: "u32 \<Rightarrow> char list" where
  "rom_hex_digits v =
     map (\<lambda>i. ''0123456789abcdef'' ! unat (drop_bit 28 (push_bit (4 * i) v))) [0..<8]"

fun rom_printf :: "char list \<Rightarrow> fmt_arg list \<Rightarrow> rom_error rom" where
  "rom_printf [] args = returnM kErrorOk"
| "rom_printf (c # fmt) args =
     (if c \<noteq> CHR ''%'' then (bindM (putchar c) (\<lambda>_.
    rom_printf fmt args))
      else case fmt of
        [] \<Rightarrow> returnM kErrorLogBadFormatSpecifier
      | d # fmt' \<Rightarrow>
          if d = CHR ''s'' then (case args of
              Str_arg s # args' \<Rightarrow> (bindM (for_each s putchar) (\<lambda>_.
    rom_printf fmt' args'))
            | _ \<Rightarrow> stopM Trap)
          else if d = CHR ''x'' then (case args of
              Hex_arg v # args' \<Rightarrow> (bindM (for_each (rom_hex_digits v) putchar) (\<lambda>_.
    rom_printf fmt' args'))
            | _ \<Rightarrow> stopM Trap)
          else returnM kErrorLogBadFormatSpecifier)"

section \<open>Frames\<close>

lemma framed_putchar [framed_intros]:
  "quiet (putchar c)" "sec_safe (putchar c)"
  unfolding putchar_def Let_def
  by (intro framed_intros; (assumption | (simp; fail))?)+

lemma framed_rom_printf [framed_intros]:
  "quiet (rom_printf fmt args)" "sec_safe (rom_printf fmt args)"
proof -
  have "quiet (rom_printf fmt args) \<and> sec_safe (rom_printf fmt args)"
  proof (induction fmt args rule: rom_printf.induct)
    case (1 args)
    show ?case unfolding rom_printf.simps by (intro conjI framed_intros)
  next
    case (2 c fmt args)
    show ?case
    proof (cases "c = CHR ''%''")
      case False
      note ih = 2(1) [OF False]
      show ?thesis unfolding rom_printf.simps if_P [OF False]
        using ih by (intro conjI framed_intros) simp_all
    next
      case True
      have n: "\<not> c \<noteq> CHR ''%''" using True by simp
      note s = 2(2) [OF n _ _ _ refl] and x = 2(3) [OF n _ _ _ _ refl]
      show ?thesis unfolding rom_printf.simps if_not_P [OF n]
        by (intro conjI; cases fmt; cases args; cases "hd args")
          (auto simp del: if_app returnM_run stopM_run intro!: framed_intros dest: s x)
    qed
  qed
  then show "quiet (rom_printf fmt args)" "sec_safe (rom_printf fmt args)" by simp_all
qed

end
