(* ===== verification/Rom.thy ===== *)
theory Rom
  imports Boot_Data Bootstrap Sigverify Keymgr Rom_Print Shutdown
begin

text \<open>\<open>rom/rom.c\<close>: the boot of a ROM\_EXT image. The control flow integrity counters of
  \<open>lib/cfi.h\<close> are words of the machine state; control passes to the image with
  \<open>Stop (Jump entry)\<close>.\<close>

unbundle bit_operations_syntax

section \<open>Control flow integrity (lib/cfi.h)\<close>

abbreviation (input) kCfiRomMain :: nat where "kCfiRomMain \<equiv> 0"
abbreviation (input) kCfiRomInit :: nat where "kCfiRomInit \<equiv> 1"
abbreviation (input) kCfiRomVerify :: nat where "kCfiRomVerify \<equiv> 2"
abbreviation (input) kCfiRomTryBoot :: nat where "kCfiRomTryBoot \<equiv> 3"
abbreviation (input) kCfiRomPreBootCheck :: nat where "kCfiRomPreBootCheck \<equiv> 4"
abbreviation (input) kCfiRomBoot :: nat where "kCfiRomBoot \<equiv> 5"
abbreviation (input) kCfiIncrement :: u32 where "kCfiIncrement \<equiv> 0x5a"

definition ROM_CFI_FUNC_COUNTERS_TABLE :: "u32 list" where
  "ROM_CFI_FUNC_COUNTERS_TABLE = [0x14b, 0x7dc, 0x5a7, 0x235, 0x43a, 0x2e2]"

definition CFI_STEP_TO_COUNT :: "nat \<Rightarrow> u32 \<Rightarrow> u32" where
  "CFI_STEP_TO_COUNT index step = ROM_CFI_FUNC_COUNTERS_TABLE ! index + step * kCfiIncrement"

definition CFI_FUNC_COUNTER_INIT :: "nat \<Rightarrow> unit rom" where
  "CFI_FUNC_COUNTER_INIT index = modifyM (\<lambda>m. m\<lparr>g_rom_counters :=
     (g_rom_counters m)[index := ROM_CFI_FUNC_COUNTERS_TABLE ! index + kCfiIncrement]\<rparr>)"

definition CFI_FUNC_COUNTER_INCREMENT :: "nat \<Rightarrow> u32 \<Rightarrow> unit rom" where
  "CFI_FUNC_COUNTER_INCREMENT index step = (bindM (getM (\<lambda>m. g_rom_counters m ! index)) (\<lambda>c.
    bindM (HARDENED_CHECK_EQ c (CFI_STEP_TO_COUNT index step)) (\<lambda>_.
    modifyM (\<lambda>m. m\<lparr>g_rom_counters :=
       (g_rom_counters m)[index := g_rom_counters m ! index + kCfiIncrement]\<rparr>))))"

definition CFI_FUNC_COUNTER_PREPCALL :: "nat \<Rightarrow> u32 \<Rightarrow> nat \<Rightarrow> unit rom" where
  "CFI_FUNC_COUNTER_PREPCALL src src_step target = (bindM (CFI_FUNC_COUNTER_INCREMENT src src_step) (\<lambda>_.
    bindM (CFI_FUNC_COUNTER_INIT target) (\<lambda>_.
    CFI_FUNC_COUNTER_INCREMENT src (src_step + 1))))"

definition CFI_FUNC_COUNTER_CHECK :: "nat \<Rightarrow> u32 \<Rightarrow> unit rom" where
  "CFI_FUNC_COUNTER_CHECK index step = (bindM (getM (\<lambda>m. g_rom_counters m ! index)) (\<lambda>c.
    HARDENED_CHECK_EQ c (CFI_STEP_TO_COUNT index step)))"

section \<open>Initialization\<close>

definition irq_error_of :: "u32 \<Rightarrow> rom_error" where
  "irq_error_of mcause =
     kErrorInterrupt + ((mcause AND 0x80000000) OR push_bit 24 (mcause AND 0x7f))"

definition rom_irq_error :: "rom_error rom" where
  "rom_irq_error = (bindM (CSR_READ CSR_REG_MCAUSE) (\<lambda>mcause.
    returnM (irq_error_of mcause)))"

definition rom_bootstrap_message :: "unit rom" where
  "rom_bootstrap_message = for_each (''bootstrap:1'' @ [CHR 0x0D, CHR 0x0A]) putchar"

definition device_fpga_version_print :: "unit rom" where
  "device_fpga_version_print = (bindM (getM (\<lambda>m. fpga_device (plat m))) (\<lambda>fpga_build.
    whenM fpga_build (bindM ibex_fpga_version (\<lambda>fpga.
     bindM (rom_printf (''ROM:%x'' @ [CHR 0x0D, CHR 0x0A]) [Hex_arg fpga]) (\<lambda>_.
     returnM ())))))"

definition rom_init :: "rom_error rom" where
  "rom_init = (bindM (CFI_FUNC_COUNTER_INCREMENT kCfiRomInit 1) (\<lambda>_.
    bindM sec_mmio_init (\<lambda>_.
    bindM pinmux_init (\<lambda>_.
    bindM (getM (\<lambda>m. kUartNCOValue (plat m))) (\<lambda>nco.
    bindM (uart_init nco) (\<lambda>_.
    bindM rnd_uint32 (\<lambda>seed.
    bindM (CSR_WRITE CSR_REG_SECURESEED seed) (\<lambda>_.
    bindM (CSR_READ CSR_REG_CPUCTRL) (\<lambda>cpuctrl_csr.
    bindM (otp_read32 OTP_CTRL_PARAM_CREATOR_SW_CFG_CPUCTRL_OFFSET) (\<lambda>cpuctrl_otp.
    bindM (CSR_WRITE CSR_REG_CPUCTRL
       (bitfield_field32_write cpuctrl_csr \<lparr>bf_mask = 0x3f, bf_index = 0\<rparr> cpuctrl_otp)) (\<lambda>_.
    bindM lifecycle_state_get (\<lambda>lc_state.
    bindM (modifyM (\<lambda>m. m\<lparr>g_lc_state := lc_state\<rparr>)) (\<lambda>_.
    bindM (rom_epmp_config_debug_rom lc_state) (\<lambda>_.
    bindM (watchdog_init lc_state) (\<lambda>_.
    bindM (SEC_MMIO_WRITE_INCREMENT kWatchdogSecMmioInit) (\<lambda>_.
    HARDENED_RETURN_IF_ERROR (shutdown_init lc_state) (
    bindM flash_ctrl_init (\<lambda>_.
    bindM (SEC_MMIO_WRITE_INCREMENT kFlashCtrlSecMmioInit) (\<lambda>_.
    bindM (rom_epmp_state_init lc_state) (\<lambda>_.
    HARDENED_RETURN_IF_ERROR (ast_check lc_state) (
    bindM rstmgr_reason_get (\<lambda>reset_reasons.
    bindM (otp_read32 OTP_CTRL_PARAM_CREATOR_SW_CFG_RET_RAM_RESET_MASK_OFFSET) (\<lambda>mask_otp.
    let reset_mask = push_bit kRstmgrReasonPowerOn 1 OR mask_otp in
    bindM (whenM (reset_reasons AND reset_mask \<noteq> 0) retention_sram_init) (\<lambda>_.
    bindM (retention_sram_set_reset_reasons reset_reasons) (\<lambda>_.
    bindM (rstmgr_reason_clear reset_reasons) (\<lambda>_.
    bindM device_fpga_version_print (\<lambda>_.
    bindM rnd_uint32 (\<lambda>rnd.
    bindM (sec_mmio_check_values rnd) (\<lambda>_.
    bindM (sec_mmio_check_counters 1) (\<lambda>_.
    bindM (CFI_FUNC_COUNTER_INCREMENT kCfiRomInit 2) (\<lambda>_.
    returnM kErrorOk)))))))))))))))))))))))))))))))"

section \<open>Verification\<close>

text \<open>The bytes of the image that are hashed.\<close>

definition digest_region_bytes :: "platform \<Rightarrow> u32 \<Rightarrow> u8 list" where
  "digest_region_bytes p a =
     (let (start, len) = manifest_digest_region_get a (manifest_at (flash_mem p) a)
      in flash_bytes (flash_mem p) start (unat len))"

definition rom_key :: "rsa_key_entry \<Rightarrow> sigverify_rsa_key" where
  "rom_key e = \<lparr>rsa_n = key_modulus e, rsa_n0_inv = key_n0_inv e\<rparr>"

text \<open>The digest of the image: an extra word spoils it when the image is too old.\<close>

definition rom_image_digest :: "u32 \<Rightarrow> u32 list rom" where
  "rom_image_digest a = (bindM (getM plat) (\<lambda>p.
    bindM (getM g_boot_data) (\<lambda>bd.
    let manifest = manifest_at (flash_mem p) a in
    bindM hmac_sha256_init (\<lambda>_.
    bindM (whenM (security_version manifest < bd_min_security_version_rom_ext bd)
       (hmac_sha256_update 0 (word_bytes UINT32_MAX))) (\<lambda>_.
    bindM (HARDENED_CHECK_GE (security_version manifest) (bd_min_security_version_rom_ext bd)) (\<lambda>_.
    bindM (sigverify_usage_constraints_get (selector_bits (usage_constraints manifest))) (\<lambda>usage_constraints_from_hw.
    bindM (hmac_sha256_update 0 (usage_constraints_bytes usage_constraints_from_hw)) (\<lambda>_.
    bindM (hmac_sha256_update (fst (manifest_digest_region_get a manifest)) (digest_region_bytes p a)) (\<lambda>_.
    hmac_sha256_final)))))))))"

text \<open>The result is the error code and the value for the EXEC register.\<close>

definition rom_verify :: "u32 \<Rightarrow> (rom_error * u32) rom" where
  "rom_verify a = (bindM (CFI_FUNC_COUNTER_INCREMENT kCfiRomVerify 1) (\<lambda>_.
    bindM (getM plat) (\<lambda>p.
    bindM (getM g_boot_data) (\<lambda>bd.
    let manifest = manifest_at (flash_mem p) a in
    bindM (boot_policy_manifest_check manifest bd) (\<lambda>err.
    if err \<noteq> kErrorOk then returnM (err, 0) else
    bindM (HARDENED_CHECK_EQ err kErrorOk) (\<lambda>_.
    bindM (getM g_lc_state) (\<lambda>lc_state.
    bindM (sigverify_rsa_key_get (sigverify_rsa_key_id_get (modulus manifest)) lc_state) (\<lambda>(err, key).
    if err \<noteq> kErrorOk then returnM (err, 0) else
    bindM (HARDENED_CHECK_EQ err kErrorOk) (\<lambda>_.
    bindM rnd_uint32 (\<lambda>clobber_value.
    bindM (modifyM (\<lambda>m. m\<lparr>g_boot_measurements_rom_ext := replicate 8 clobber_value\<rparr>)) (\<lambda>_.
    bindM (rom_image_digest a) (\<lambda>act_digest.
    bindM (modifyM (\<lambda>m. m\<lparr>g_boot_measurements_rom_ext := act_digest\<rparr>)) (\<lambda>_.
    bindM (CFI_FUNC_COUNTER_INCREMENT kCfiRomVerify 2) (\<lambda>_.
    (case key of None \<Rightarrow> HARDENED_UNREACHABLE
      | Some k \<Rightarrow> sigverify_rsa_verify (signature manifest) (rom_key k) act_digest lc_state)))))))))))))))"

section \<open>Booting\<close>

definition rom_ext_vma_get :: "platform \<Rightarrow> u32 \<Rightarrow> u32 \<Rightarrow> u32" where
  "rom_ext_vma_get p manifest lma_addr = lma_addr - manifest + rom_ext_virtual_start_address p"

definition rom_pre_boot_check :: "unit rom" where
  "rom_pre_boot_check = (bindM (CFI_FUNC_COUNTER_INCREMENT kCfiRomPreBootCheck 1) (\<lambda>_.
    bindM (getM g_lc_state) (\<lambda>lc_state.
    bindM (SHUTDOWN_IF_ERROR (alert_config_check lc_state)) (\<lambda>_.
    bindM (CFI_FUNC_COUNTER_INCREMENT kCfiRomPreBootCheck 2) (\<lambda>_.
    bindM lifecycle_state_get (\<lambda>lc_state_check.
    bindM (whenM (lc_state_check \<noteq> lc_state) HARDENED_UNREACHABLE) (\<lambda>_.
    bindM (HARDENED_CHECK_EQ lc_state_check lc_state) (\<lambda>_.
    bindM (CFI_FUNC_COUNTER_INCREMENT kCfiRomPreBootCheck 3) (\<lambda>_.
    bindM (getM g_boot_data) (\<lambda>bd.
    bindM (boot_data_check bd) (\<lambda>boot_data_ok.
    bindM (whenM (boot_data_ok \<noteq> kErrorOk) HARDENED_UNREACHABLE) (\<lambda>_.
    bindM (HARDENED_CHECK_EQ boot_data_ok kErrorOk) (\<lambda>_.
    bindM (CFI_FUNC_COUNTER_INCREMENT kCfiRomPreBootCheck 4) (\<lambda>_.
    bindM (otp_read32 OTP_CTRL_PARAM_CREATOR_SW_CFG_CPUCTRL_OFFSET) (\<lambda>cpuctrl_otp.
    bindM (CSR_READ CSR_REG_CPUCTRL) (\<lambda>cpuctrl_csr.
    let cpuctrl_csr = bitfield_bit32_write cpuctrl_csr 8 False in
    bindM (whenM (cpuctrl_csr \<noteq> cpuctrl_otp) HARDENED_UNREACHABLE) (\<lambda>_.
    bindM (HARDENED_CHECK_EQ cpuctrl_csr cpuctrl_otp) (\<lambda>_.
    bindM (CFI_FUNC_COUNTER_INCREMENT kCfiRomPreBootCheck 5) (\<lambda>_.
    bindM (sec_mmio_check_counters 3) (\<lambda>_.
    CFI_FUNC_COUNTER_INCREMENT kCfiRomPreBootCheck 6))))))))))))))))))))"

definition rom_measurement :: "manifest \<Rightarrow> u32 list rom" where
  "rom_measurement manifest = (bindM (otp_read32 OTP_CTRL_PARAM_OWNER_SW_CFG_ROM_KEYMGR_ROM_EXT_MEAS_EN_OFFSET) (\<lambda>use_rom_ext_measurement.
    if use_rom_ext_measurement = kHardenedBoolTrue
     then (bindM (HARDENED_CHECK_EQ use_rom_ext_measurement kHardenedBoolTrue) (\<lambda>_.
     getM g_boot_measurements_rom_ext))
     else (bindM (HARDENED_CHECK_NE use_rom_ext_measurement kHardenedBoolTrue) (\<lambda>_.
     returnM (binding_value manifest)))))"

text \<open>The switch on the address translation: the error code, the text region and the entry
  point.\<close>

definition rom_address_translation :: "u32 \<Rightarrow> manifest \<Rightarrow> (rom_error * epmp_region * u32) rom" where
  "rom_address_translation a manifest = (bindM (getM plat) (\<lambda>p.
    let text_region = manifest_code_region_get a manifest in
    let entry = manifest_entry_point_get a manifest in
    if address_translation manifest = kHardenedBoolTrue
     then (bindM (HARDENED_CHECK_EQ (address_translation manifest) kHardenedBoolTrue) (\<lambda>_.
     bindM (ibex_addr_remap_0_set (rom_ext_virtual_start_address p) a (rom_ext_virtual_size p)) (\<lambda>_.
     bindM (SEC_MMIO_WRITE_INCREMENT kAddressTranslationSecMmioConfigure) (\<lambda>_.
     bindM epmp_state_check (\<lambda>err.
     if err \<noteq> kErrorOk then returnM (err, text_region, entry) else
     bindM (HARDENED_CHECK_EQ err kErrorOk) (\<lambda>_.
     bindM (rom_epmp_unlock_rom_ext_r \<lparr>region_start = rom_ext_virtual_start_address p,
         region_end = rom_ext_virtual_start_address p + rom_ext_virtual_size p\<rparr>) (\<lambda>_.
     returnM (kErrorOk, \<lparr>region_start = rom_ext_vma_get p a (region_start text_region),
         region_end = rom_ext_vma_get p a (region_end text_region)\<rparr>, rom_ext_vma_get p a entry))))))))
     else if address_translation manifest = kHardenedBoolFalse
     then (bindM (HARDENED_CHECK_EQ (address_translation manifest) kHardenedBoolFalse) (\<lambda>_.
     returnM (kErrorOk, text_region, entry)))
     else HARDENED_UNREACHABLE))"

definition rom_boot :: "u32 \<Rightarrow> u32 \<Rightarrow> rom_error rom" where
  "rom_boot a flash_exec = (bindM (CFI_FUNC_COUNTER_INCREMENT kCfiRomBoot 1) (\<lambda>_.
    HARDENED_RETURN_IF_ERROR (keymgr_state_check kKeymgrStateReset) (
    bindM (getM plat) (\<lambda>p.
    let manifest = manifest_at (flash_mem p) a in
    bindM (rom_measurement manifest) (\<lambda>attestation_measurement.
    bindM (keymgr_sw_binding_set (binding_value manifest) attestation_measurement) (\<lambda>_.
    bindM (keymgr_creator_max_ver_set (max_key_version manifest)) (\<lambda>_.
    bindM (SEC_MMIO_WRITE_INCREMENT (kKeymgrSecMmioSwBindingSet + kKeymgrSecMmioCreatorMaxVerSet)) (\<lambda>_.
    bindM (sec_mmio_check_counters 2) (\<lambda>_.
    bindM (rom_address_translation a manifest) (\<lambda>(err, text_region, entry).
    if err \<noteq> kErrorOk then returnM err else
    HARDENED_RETURN_IF_ERROR epmp_state_check (
    bindM (rom_epmp_unlock_rom_ext_rx text_region) (\<lambda>_.
    HARDENED_RETURN_IF_ERROR epmp_state_check (
    bindM (CFI_FUNC_COUNTER_PREPCALL kCfiRomBoot 2 kCfiRomPreBootCheck) (\<lambda>_.
    bindM rom_pre_boot_check (\<lambda>_.
    bindM (CFI_FUNC_COUNTER_INCREMENT kCfiRomBoot 4) (\<lambda>_.
    bindM (CFI_FUNC_COUNTER_CHECK kCfiRomPreBootCheck 7) (\<lambda>_.
    bindM (flash_ctrl_exec_set flash_exec) (\<lambda>_.
    bindM (SEC_MMIO_WRITE_INCREMENT kFlashCtrlSecMmioExecSet) (\<lambda>_.
    bindM rnd_uint32 (\<lambda>rnd.
    bindM (sec_mmio_check_values rnd) (\<lambda>_.
    bindM (sec_mmio_check_counters 5) (\<lambda>_.
    bindM (CFI_FUNC_COUNTER_INCREMENT kCfiRomBoot 5) (\<lambda>_.
    stopM (Jump entry))))))))))))))))))))))))"

definition rom_try_boot :: "rom_error rom" where
  "rom_try_boot = (bindM (CFI_FUNC_COUNTER_INCREMENT kCfiRomTryBoot 1) (\<lambda>_.
    bindM (getM g_lc_state) (\<lambda>lc_state.
    bindM (getM g_boot_data) (\<lambda>bd.
    bindM (boot_data_read lc_state bd) (\<lambda>(err, bd').
    bindM (modifyM (\<lambda>m. m\<lparr>g_boot_data := bd'\<rparr>)) (\<lambda>_.
    if err \<noteq> kErrorOk then returnM err else
    bindM (HARDENED_CHECK_EQ err kErrorOk) (\<lambda>_.
    bindM (getM plat) (\<lambda>p.
    let manifests = boot_policy_manifests_get (flash_mem p) in
    bindM (CFI_FUNC_COUNTER_PREPCALL kCfiRomTryBoot 2 kCfiRomVerify) (\<lambda>_.
    bindM (rom_verify (manifests ! 0)) (\<lambda>(error, flash_exec).
    bindM (CFI_FUNC_COUNTER_INCREMENT kCfiRomTryBoot 4) (\<lambda>_.
    if error = kErrorOk
     then (bindM (HARDENED_CHECK_EQ error kErrorOk) (\<lambda>_.
     bindM (CFI_FUNC_COUNTER_CHECK kCfiRomVerify 3) (\<lambda>_.
     bindM (CFI_FUNC_COUNTER_INIT kCfiRomTryBoot) (\<lambda>_.
     bindM (CFI_FUNC_COUNTER_PREPCALL kCfiRomTryBoot 1 kCfiRomBoot) (\<lambda>_.
     HARDENED_RETURN_IF_ERROR (rom_boot (manifests ! 0) flash_exec) (
     returnM kErrorRomBootFailed))))))
     else (bindM (CFI_FUNC_COUNTER_PREPCALL kCfiRomTryBoot 5 kCfiRomVerify) (\<lambda>_.
     bindM (rom_verify (manifests ! 1)) (\<lambda>(error, flash_exec).
     if error \<noteq> kErrorOk then returnM error else
     bindM (HARDENED_CHECK_EQ error kErrorOk) (\<lambda>_.
     bindM (CFI_FUNC_COUNTER_INCREMENT kCfiRomTryBoot 7) (\<lambda>_.
     bindM (CFI_FUNC_COUNTER_CHECK kCfiRomVerify 3) (\<lambda>_.
     bindM (CFI_FUNC_COUNTER_PREPCALL kCfiRomTryBoot 8 kCfiRomBoot) (\<lambda>_.
     HARDENED_RETURN_IF_ERROR (rom_boot (manifests ! 1) flash_exec) (
     returnM kErrorRomBootFailed)))))))))))))))))))"

definition rom_main :: "unit rom" where
  "rom_main = (bindM (CFI_FUNC_COUNTER_INIT kCfiRomMain) (\<lambda>_.
    bindM (CFI_FUNC_COUNTER_PREPCALL kCfiRomMain 1 kCfiRomInit) (\<lambda>_.
    bindM (SHUTDOWN_IF_ERROR rom_init) (\<lambda>_.
    bindM (CFI_FUNC_COUNTER_INCREMENT kCfiRomMain 3) (\<lambda>_.
    bindM (CFI_FUNC_COUNTER_CHECK kCfiRomInit 3) (\<lambda>_.
    bindM bootstrap_requested (\<lambda>bootstrap_req.
    bindM (whenM (bootstrap_req = kHardenedBoolTrue) (bindM (HARDENED_CHECK_EQ bootstrap_req kHardenedBoolTrue) (\<lambda>_.
       bindM rom_bootstrap_message (\<lambda>_.
       bindM watchdog_disable (\<lambda>_.
       bindM bootstrap (\<lambda>err.
       shutdown_finalize err)))))) (\<lambda>_.
    bindM (CFI_FUNC_COUNTER_PREPCALL kCfiRomMain 4 kCfiRomTryBoot) (\<lambda>_.
    bindM rom_try_boot (\<lambda>err.
    shutdown_finalize err))))))))))"

definition rom_interrupt_handler :: "unit rom" where
  "rom_interrupt_handler = (bindM rom_irq_error (\<lambda>error.
    shutdown_finalize error))"

section \<open>Frames\<close>

lemma framed_cfi [framed_intros]:
  "quiet (CFI_FUNC_COUNTER_INIT f)" "sec_safe (CFI_FUNC_COUNTER_INIT f)"
  "quiet (CFI_FUNC_COUNTER_INCREMENT f k)" "sec_safe (CFI_FUNC_COUNTER_INCREMENT f k)"
  "quiet (CFI_FUNC_COUNTER_PREPCALL f k g)" "sec_safe (CFI_FUNC_COUNTER_PREPCALL f k g)"
  "quiet (CFI_FUNC_COUNTER_CHECK f k)" "sec_safe (CFI_FUNC_COUNTER_CHECK f k)"
  unfolding CFI_FUNC_COUNTER_INIT_def CFI_FUNC_COUNTER_INCREMENT_def CFI_FUNC_COUNTER_PREPCALL_def CFI_FUNC_COUNTER_CHECK_def Let_def
  by (intro framed_intros; (assumption | (simp; fail))?)+

lemma framed_rom_steps [framed_intros]:
  "quiet rom_irq_error" "sec_safe rom_irq_error"
  "quiet rom_bootstrap_message" "sec_safe rom_bootstrap_message"
  "quiet device_fpga_version_print" "sec_safe device_fpga_version_print"
  "quiet (rom_image_digest a)" "sec_safe (rom_image_digest a)"
  "quiet rom_pre_boot_check" "sec_safe rom_pre_boot_check"
  "quiet (rom_measurement mf)" "sec_safe (rom_measurement mf)"
  "quiet (rom_address_translation a mf)" "sec_safe (rom_address_translation a mf)"
  unfolding rom_irq_error_def rom_bootstrap_message_def device_fpga_version_print_def rom_image_digest_def rom_verify_def rom_pre_boot_check_def rom_measurement_def rom_address_translation_def split_beta Let_def
  by (intro framed_intros; (assumption | (simp; fail))?)+

lemma framed_rom_verify [framed_intros]: "quiet (rom_verify a)" "sec_safe (rom_verify a)"
  unfolding rom_verify_def Let_def split_beta
  by (intro framed_intros; (simp; fail)?; (split option.split, intro conjI allI impI)?)+

section \<open>What verification guarantees\<close>

definition image_digest :: "(u8 list \<Rightarrow> u32 list) \<Rightarrow> platform \<Rightarrow> u32 \<Rightarrow> manifest_usage_constraints \<Rightarrow> u32 list" where
  "image_digest sha p a u = sha (usage_constraints_bytes u @ digest_region_bytes p a)"

text \<open>The keys built into the ROM are proper RSA keys.\<close>

definition rom_keys_ok :: "platform \<Rightarrow> bool" where
  "rom_keys_ok p \<longleftrightarrow> length (kSigVerifyRsaKeys p) < 2 ^ 32 \<and>
     list_all (\<lambda>k. rsa_key_ok (rom_key k) \<and> length (key_modulus k) = 96) (kSigVerifyRsaKeys p)"

text \<open>An authentic ROM\_EXT for a life cycle state and boot data: an admissible manifest, not
  older than the boot data allow, whose signature recovers, under a ROM key that may be used in
  the state, to the encoding of the digest of the image and the usage constraints of the device.\<close>

definition rom_ext_authentic ::
  "(u8 list \<Rightarrow> u32 list) \<Rightarrow> platform \<Rightarrow> u32 \<Rightarrow> boot_data \<Rightarrow> u32 \<Rightarrow> bool" where
  "rom_ext_authentic sha p lc bd a \<longleftrightarrow>
     (let mf = manifest_at (flash_mem p) a in
      manifest_identifier mf = CHIP_ROM_EXT_IDENTIFIER \<and>
      CHIP_ROM_EXT_SIZE_MIN \<le> image_length mf \<and> image_length mf \<le> CHIP_ROM_EXT_SIZE_MAX \<and>
      manifest_layout_ok mf \<and>
      bd_min_security_version_rom_ext bd \<le> security_version mf \<and>
      (\<exists>k \<in> set (kSigVerifyRsaKeys p). \<exists>u.
         key_modulus k ! 0 = sigverify_rsa_key_id_get (modulus mf) \<and> key_type_allowed lc (key_type k) \<and>
         selector_bits u = selector_bits (usage_constraints mf) \<and>
         rsa_recovers p (rom_key k) (signature mf) (pkcs1_encoding (image_digest sha p a u))))"

lemma image_digest_run:
  assumes dev: "hmac_device sha (plat m)" "\<forall>msg. length (sha msg) = 8"
    and i: "hmac_sha256_init m = Done () m1"
    and u: "sigverify_usage_constraints_get bits m1 = Done u m2"
    and h: "hmac_sha256_update 0 (usage_constraints_bytes u) m2 = Done () m3"
      "hmac_sha256_update b (digest_region_bytes (plat m) a) m3 = Done () m4"
    and f: "hmac_sha256_final m4 = Done d m'"
  shows "selector_bits u = bits \<and> d = image_digest sha (plat m) a u"
proof -
  have k: "hash_keep m1 m2" using hash_idle_usage_constraints u by (metis framedD1)
  have p: "plat m4 = plat m"
    using quiet_plat [OF framed_hmac(1) i] quiet_plat [OF framed_usage_constraints(1) u]
      quiet_plat [OF framed_hmac(3) h(1)] quiet_plat [OF framed_hmac(3) h(2)] by simp
  have "hmac_msg (io_log m4) = usage_constraints_bytes u @ digest_region_bytes (plat m) a"
    using hmac_init_msg [OF i] k hmac_update_msg [OF h(1)] hmac_update_msg [OF h(2)]
    by (simp add: hash_keep_def)
  then show ?thesis
    using hmac_final_digest [OF _ _ f, of sha] dev p usage_constraints_selector [OF u]
    by (simp add: image_digest_def)
qed

lemma rom_image_digest_sound:
  assumes dev: "hmac_device sha (plat m)" "\<forall>msg. length (sha msg) = 8"
    and run: "rom_image_digest a m = Done d m'"
  shows "bd_min_security_version_rom_ext (g_boot_data m)
      \<le> security_version (manifest_at (flash_mem (plat m)) a) \<and>
    (\<exists>u. selector_bits u = selector_bits (usage_constraints (manifest_at (flash_mem (plat m)) a)) \<and>
      d = image_digest sha (plat m) a u)"
  using run image_digest_run [OF dev] unfolding rom_image_digest_def Let_def
  by (fastforce simp: bindM_Done_iff check_Done whenM_def split: if_splits dest: leD)

lemma length_signature: "length (signature (manifest_at mem a)) = 96"
  by (simp add: manifest_at_def flash_words_def)

lemma rom_verify_result:
  assumes dev: "hmac_device sha (plat m)" "\<forall>msg. length (sha msg) = 8" and keys: "rom_keys_ok (plat m)"
    and run: "rom_verify a m = Done (r, fe) m'"
  shows "if r = kErrorOk
    then fe = kSigverifyFlashExec \<and> rom_ext_authentic sha (plat m) (g_lc_state m) (g_boot_data m) a
    else fe \<in> {0, UINT32_MAX}"
proof -
  let ?mf = "manifest_at (flash_mem (plat m)) a"
  obtain m1 where c1: "CFI_FUNC_COUNTER_INCREMENT kCfiRomVerify 1 m = Done () m1"
    using run unfolding rom_verify_def by (auto elim: bindM_DoneE)
  have s1: "plat m1 = plat m" "g_boot_data m1 = g_boot_data m" "g_lc_state m1 = g_lc_state m"
    using quiet_step(1) [OF framed_cfi(3) c1] by (simp_all add: hw_step_def run_step_def)
  obtain e where pol: "boot_policy_manifest_check ?mf (g_boot_data m) m1 = Done e m1"
    by (simp add: boot_policy_manifest_check_run)
  show ?thesis
  proof (cases "e = kErrorOk")
    case False
    then show ?thesis using run c1 s1 pol unfolding rom_verify_def Let_def by auto
  next
    case True
    note ok = pol [unfolded True]
    obtain err key m3 where g: "sigverify_rsa_key_get (sigverify_rsa_key_id_get (modulus ?mf)) (g_lc_state m) m1
        = Done (err, key) m3"
      and rest: "(if err \<noteq> kErrorOk then returnM (err, 0) else
        (bindM (HARDENED_CHECK_EQ err kErrorOk) (\<lambda>_.
    bindM rnd_uint32 (\<lambda>clobber_value.
    bindM (modifyM (\<lambda>m. m\<lparr>g_boot_measurements_rom_ext := replicate 8 clobber_value\<rparr>)) (\<lambda>_.
    bindM (rom_image_digest a) (\<lambda>act_digest.
    bindM (modifyM (\<lambda>m. m\<lparr>g_boot_measurements_rom_ext := act_digest\<rparr>)) (\<lambda>_.
    bindM (CFI_FUNC_COUNTER_INCREMENT kCfiRomVerify 2) (\<lambda>_.
    (case key of None \<Rightarrow> HARDENED_UNREACHABLE
        | Some k \<Rightarrow> sigverify_rsa_verify (signature ?mf) (rom_key k) act_digest (g_lc_state m1)))))))))) m3
         = Done (r, fe) m'"
      using run c1 s1 ok unfolding rom_verify_def Let_def
      by (auto simp: bindM_def split: outcome.splits)
    show ?thesis
    proof (cases "err = kErrorOk")
      case err: True
      obtain k c m4 d m5 m6 where key: "key = Some k" and rnd: "rnd_uint32 m3 = Done c m4"
        and d: "rom_image_digest a (m4\<lparr>g_boot_measurements_rom_ext := replicate 8 c\<rparr>) = Done d m5"
        and c2: "CFI_FUNC_COUNTER_INCREMENT kCfiRomVerify 2 (m5\<lparr>g_boot_measurements_rom_ext := d\<rparr>) = Done () m6"
        and v: "sigverify_rsa_verify (signature ?mf) (rom_key k) d (g_lc_state m) m6 = Done (r, fe) m'"
        using rest err s1(3) by (cases key) (auto simp: bindM_Done_iff)
      have s3: "hw_step m1 m3" by (rule quiet_step(1) [OF framed_key_get(1) g])
      have s4: "hw_step m3 m4" by (rule quiet_step(1) [OF quiet_rnd rnd])
      have s5: "hw_step (m4\<lparr>g_boot_measurements_rom_ext := replicate 8 c\<rparr>) m5"
        by (rule quiet_step(1) [OF framed_rom_steps(7) d])
      have s6: "hw_step (m5\<lparr>g_boot_measurements_rom_ext := d\<rparr>) m6"
        by (rule quiet_step(1) [OF framed_cfi(3) c2])
      note steps = s1 s3 s4 s5 s6
      have st: "plat m4 = plat m" "g_boot_data m4 = g_boot_data m" "plat m6 = plat m"
        using steps by (simp_all add: hw_step_def run_step_def)
      have n: "length (kSigVerifyRsaKeys (plat m1)) < 2 ^ 32" using keys s1(1) by (simp add: rom_keys_ok_def)
      have k: "k \<in> set (kSigVerifyRsaKeys (plat m))" "key_modulus k ! 0 = sigverify_rsa_key_id_get (modulus ?mf)"
          "key_type_allowed (g_lc_state m) (key_type k)"
        using rsa_key_get_result [OF g n] key s1(1) by auto
      then have ok_key: "rsa_key_ok (rom_key k)" "length (rsa_n (rom_key k)) = 96"
        using keys by (auto simp: rom_keys_ok_def list_all_iff rom_key_def)
      obtain u where bd: "bd_min_security_version_rom_ext (g_boot_data m) \<le> security_version ?mf"
        and u: "selector_bits u = selector_bits (usage_constraints ?mf)" "d = image_digest sha (plat m) a u"
        using rom_image_digest_sound [OF _ _ d, of sha] dev st by auto
      have d8: "length d = 8" using u(2) dev(2) by (simp add: image_digest_def)
      show ?thesis
      proof (cases "r = kErrorOk")
        case True
        then have "fe = kSigverifyFlashExec" "rsa_recovers (plat m) (rom_key k) (signature ?mf) (pkcs1_encoding d)"
          using rsa_verify_sound [OF ok_key _ d8 v [unfolded True]] st by (simp_all add: length_signature)
        with True ok k bd u show ?thesis
          by (auto simp: rom_ext_authentic_def Let_def boot_policy_manifest_check_run manifest_check_Ok split: if_splits)
      qed (use rsa_verify_failure [OF ok_key _ d8 v] in \<open>simp add: length_signature\<close>)
    qed (use rest in auto)
  qed
qed

lemma rom_verify_sound:
  assumes "hmac_device sha (plat m)" "\<forall>msg. length (sha msg) = 8" "rom_keys_ok (plat m)"
    and "rom_verify a m = Done (kErrorOk, fe) m'"
  shows "fe = kSigverifyFlashExec \<and> rom_ext_authentic sha (plat m) (g_lc_state m) (g_boot_data m) a"
  using rom_verify_result [OF assms] by simp

section \<open>Where the boot goes\<close>

text \<open>The entry point of an image: relative to the virtual window when the manifest asks for
  address translation.\<close>

definition rom_ext_entry :: "platform \<Rightarrow> u32 \<Rightarrow> u32" where
  "rom_ext_entry p a =
     (let mf = manifest_at (flash_mem p) a; entry = manifest_entry_point_get a mf in
      if address_translation mf = kHardenedBoolTrue then rom_ext_vma_get p a entry else entry)"

lemma address_translation_entry:
  "rom_address_translation a (manifest_at (flash_mem (plat s)) a) s = Done (kErrorOk, text_region, entry) t \<Longrightarrow>
   entry = rom_ext_entry (plat s) a"
  unfolding rom_address_translation_def rom_ext_entry_def Let_def
  by (auto simp: bindM_Done_iff check_Done split: if_splits)

lemma sec_write_event:
  "sec_mmio_write32 a v s = Done u t \<Longrightarrow> W32 a v \<in> set (new_events s t)"
  using writes_sec [of a v] unfolding writes_def by blast

lemma flash_exec_event:
  "flash_ctrl_exec_set v s = Done u t \<Longrightarrow>
   W32 (TOP_EARLGREY_FLASH_CTRL_CORE_BASE_ADDR + FLASH_CTRL_EXEC_REG_OFFSET) v \<in> set (new_events s t)"
  unfolding flash_ctrl_exec_set_def by (rule sec_write_event)

lemma hw_event_later:
  "hw_step r s \<Longrightarrow> hw_step s t \<Longrightarrow> hw_step t u \<Longrightarrow> ev \<in> set (new_events s t) \<Longrightarrow> ev \<in> set (new_events r u)"
  by (simp add: new_events_trans [of r s u] new_events_trans [of s t u] hw.frame_trans [of s t u])

lemma rom_boot_exec:
  assumes "hw_step s0 s"
  shows "boots (bindM (flash_ctrl_exec_set fe) (\<lambda>_.
    bindM (SEC_MMIO_WRITE_INCREMENT kFlashCtrlSecMmioExecSet) (\<lambda>_.
    bindM rnd_uint32 (\<lambda>rnd.
    bindM (sec_mmio_check_values rnd) (\<lambda>_.
    bindM (sec_mmio_check_counters 5) (\<lambda>_.
    bindM (CFI_FUNC_COUNTER_INCREMENT kCfiRomBoot 5) (\<lambda>_.
    stopM (Jump entry)))))))) Q
     (\<lambda>x t. hw_step s0 t \<and> x = entry \<and>
       W32 (TOP_EARLGREY_FLASH_CTRL_CORE_BASE_ADDR + FLASH_CTRL_EXEC_REG_OFFSET) fe \<in> set (new_events s0 t)) s"
proof (rule boots_seq [where s0 = s], (intro framed_intros)[1], rule hw.frame_refl)
  fix u t assume x: "flash_ctrl_exec_set fe s = Done u t" and t: "hw_step s t"
  show "boots (bindM (SEC_MMIO_WRITE_INCREMENT kFlashCtrlSecMmioExecSet) (\<lambda>_.
    bindM rnd_uint32 (\<lambda>rnd.
    bindM (sec_mmio_check_values rnd) (\<lambda>_.
    bindM (sec_mmio_check_counters 5) (\<lambda>_.
    bindM (CFI_FUNC_COUNTER_INCREMENT kCfiRomBoot 5) (\<lambda>_.
    stopM (Jump entry))))))) Q
     (\<lambda>x t. hw_step s0 t \<and> x = entry \<and>
       W32 (TOP_EARLGREY_FLASH_CTRL_CORE_BASE_ADDR + FLASH_CTRL_EXEC_REG_OFFSET) fe \<in> set (new_events s0 t)) t"
    apply (rule boots_seq [where s0 = t], (intro framed_intros)[1], rule hw.frame_refl)
    apply ((rule boots_seq, ((intro framed_intros)+)[1], assumption)+)[1]
    apply (rule boots_jump)
    using assms t flash_exec_event [OF x] hw_event_later [of s0 s t] hw.frame_trans by blast
qed

lemma rom_boot_jumps:
  "boots (rom_boot a fe) (\<lambda>r t. r \<noteq> kErrorOk \<and> hw_step s t)
     (\<lambda>x t. hw_step s t \<and> x = rom_ext_entry (plat s) a \<and>
       W32 (TOP_EARLGREY_FLASH_CTRL_CORE_BASE_ADDR + FLASH_CTRL_EXEC_REG_OFFSET) fe \<in> set (new_events s t)) s"
  (is "boots _ ?Q ?J s")
proof -
  have translated: "snd (snd r) = rom_ext_entry (plat s) a"
    if "rom_address_translation a (manifest_at (flash_mem p) a) u = Done r v" "fst r = kErrorOk"
      "getM plat t = Done p t'" "hw_step s t" "hw_step s u" for p t t' u r v
    using that address_translation_entry [of a u "fst (snd r)" "snd (snd r)" v]
    by (cases r) (auto simp: hw_step_def run_step_def)
  show ?thesis
    unfolding rom_boot_def hardened_return_eq Let_def split_beta
    apply (rule boots_seq, ((intro framed_intros)+)[1], rule hw.frame_refl)
    apply ((rule boots_mono [OF rom_boot_exec], assumption)
      | (rule boots_seq, ((intro framed_intros)+)[1], assumption)
      | (rule boots_error, ((intro framed_intros)+)[1], assumption, (simp; fail))
      | (rule boots_if, rule boots_return, simp))+
    apply (simp_all add: translated)
    done
qed

section \<open>The whole boot\<close>

text \<open>What holds when control passes on: the image is one of the two slots and authentic, the
  address is its entry point, and the value that unlocks flash execution has been written.\<close>

definition rom_handover :: "(u8 list \<Rightarrow> u32 list) \<Rightarrow> machine \<Rightarrow> u32 \<Rightarrow> machine \<Rightarrow> bool" where
  "rom_handover sha s x t \<longleftrightarrow> run_step s t \<and>
     (\<exists>a \<in> {TOP_EARLGREY_EFLASH_BASE_ADDR, TOP_EARLGREY_EFLASH_BASE_ADDR + 0x80000}.
        rom_ext_authentic sha (plat s) (g_lc_state t) (g_boot_data t) a \<and> x = rom_ext_entry (plat s) a \<and>
        W32 (TOP_EARLGREY_FLASH_CTRL_CORE_BASE_ADDR + FLASH_CTRL_EXEC_REG_OFFSET) kSigverifyFlashExec
          \<in> set (new_events s t))"

lemma rom_handover_earlier:
  "run_step r s \<Longrightarrow> rom_handover sha s x t \<Longrightarrow> rom_handover sha r x t"
  unfolding rom_handover_def
  by (elim conjE bexE, intro conjI bexI) (auto intro: run.frame_trans new_events_mono simp: run_stepD)

lemma boot_verified:
  assumes "hw_step s0 s" "rom_ext_authentic sha (plat s0) (g_lc_state s0) (g_boot_data s0) a"
    and "a \<in> {TOP_EARLGREY_EFLASH_BASE_ADDR, TOP_EARLGREY_EFLASH_BASE_ADDR + 0x80000}"
    and "run_step m s"
  shows "boots (RETURN_IF_ERROR (rom_boot a kSigverifyFlashExec) (returnM kErrorRomBootFailed))
    (\<lambda>r t. r \<noteq> kErrorOk) (rom_handover sha m) s"
proof -
  have "rom_handover sha m x t" if "hw_step s t" "x = rom_ext_entry (plat s) a"
    "W32 (TOP_EARLGREY_FLASH_CTRL_CORE_BASE_ADDR + FLASH_CTRL_EXEC_REG_OFFSET) kSigverifyFlashExec
          \<in> set (new_events s t)" for x t
  proof (rule rom_handover_earlier [OF assms(4)])
    show "rom_handover sha s x t"
      unfolding rom_handover_def using that assms by (auto simp: hw_step_def dest!: run_stepD)
  qed
  then show ?thesis
    unfolding RETURN_IF_ERROR_def
    by (intro boots_bind boots_mono [OF rom_boot_jumps]) (auto simp: boots_return)
qed

lemma manifests_slots:
  "i < 2 \<Longrightarrow> boot_policy_manifests_get mem ! i
     \<in> {TOP_EARLGREY_EFLASH_BASE_ADDR, TOP_EARLGREY_EFLASH_BASE_ADDR + 0x80000}"
  by (auto simp: boot_policy_manifests_get_def boot_policy_manifest_a_get_def boot_policy_manifest_b_get_def
      Let_def less_2_cases_iff)

lemma rom_try_boot_jumps:
  assumes "hmac_device sha (plat m)" "\<forall>msg. length (sha msg) = 8" "rom_keys_ok (plat m)"
  shows "boots rom_try_boot (\<lambda>r t. r \<noteq> kErrorOk) (rom_handover sha m) m"
proof -
  have boot: "boots (RETURN_IF_ERROR (rom_boot (boot_policy_manifests_get mem ! i) (snd r)) (returnM kErrorRomBootFailed))
      (\<lambda>r t. r \<noteq> kErrorOk) (rom_handover sha m) v"
    if "rom_verify (boot_policy_manifests_get mem ! i) u = Done r u'" "fst r = kErrorOk"
      "hw_step s u" "hw_step s v" "run_step n s" "hw_step m n" "i < 2" for mem i r s u u' v n
  proof -
    have ms: "run_step m s" by (rule run.frame_trans [OF hw_run_step [OF that(6)] that(5)])
    then have m: "run_step m s" "run_step m u" "run_step m v"
      using that(3,4) by (blast intro: run.frame_trans hw_run_step)+
    have u: "plat m = plat s" "g_lc_state u = g_lc_state s" "g_boot_data u = g_boot_data s"
      using that(3) m(1) by (simp_all add: hw_step_def run_stepD)
    have p: "plat u = plat m" using m(2) by (rule run_stepD)
    have r: "rom_verify (boot_policy_manifests_get mem ! i) u = Done (kErrorOk, snd r) u'"
      using that(1,2) by (cases r) simp
    have ok: "snd r = kSigverifyFlashExec"
      "rom_ext_authentic sha (plat s) (g_lc_state s) (g_boot_data s) (boot_policy_manifests_get mem ! i)"
      using rom_verify_sound [OF _ assms(2) _ r] assms(1,3) unfolding p unfolding u by simp_all
    show ?thesis
      unfolding ok(1) by (rule boot_verified [OF that(4) ok(2) manifests_slots [OF that(7)] m(3)])
  qed
  show ?thesis
    unfolding rom_try_boot_def hardened_return_eq Let_def split_beta
    apply (rule boots_seq, ((intro framed_intros)+)[1], rule hw.frame_refl)
    apply (rule boots_seq, ((intro framed_intros)+)[1], assumption)+
    apply (rule boots_bind, rule boots_calm, rule calm_modify, simp)
    apply (rule boots_if, rule boots_return, assumption)
    apply (rule boots_seq, ((intro framed_intros)+)[1], rule hw.frame_refl)
    apply (rule boots_seq, ((intro framed_intros)+)[1], assumption)+
    apply (rule boots_if)
    apply ((rule boots_seq, ((intro framed_intros)+)[1], assumption)
      | (rule boots_if, rule boots_return, assumption)
      | (erule boot, simp, assumption, assumption, assumption, assumption, simp; fail))+
    done
qed

lemma rom_init_calm: "calm rom_init"
  unfolding rom_init_def hardened_return_eq Let_def RETURN_IF_ERROR_def
  by (intro calm_rules calm_modify | (rule quiet_calm, (intro framed_intros; fail)) | (simp; fail))+

lemma rom_main_jumps:
  assumes "hmac_device sha (plat m)" "\<forall>msg. length (sha msg) = 8" "rom_keys_ok (plat m)"
  shows "boots rom_main (\<lambda>r t. False) (rom_handover sha m) m"
proof -
  have try_boot: "boots (bindM rom_try_boot shutdown_finalize) (\<lambda>r t. False) (rom_handover sha m) s"
    if "hw_step u s" "run_step n u" "hw_step m n" for n u s
  proof -
    have m: "run_step m s" using that by (blast intro: run.frame_trans hw_run_step)
    have "plat s = plat m" using m by (rule run_stepD)
    then have "boots rom_try_boot (\<lambda>r t. r \<noteq> kErrorOk) (rom_handover sha s) s"
      using assms by (intro rom_try_boot_jumps) simp_all
    then show ?thesis
      by (intro boots_bind, elim boots_mono)
        (auto intro: boots_stuck framed_intros shutdown_never_returns rom_handover_earlier [OF m])
  qed
  show ?thesis
    unfolding rom_main_def SHUTDOWN_IF_ERROR_def
    apply (rule boots_seq, ((intro framed_intros)+)[1], rule hw.frame_refl)
    apply (rule boots_seq, ((intro framed_intros)+)[1], assumption)
    apply (rule boots_bind, rule boots_calm)
    apply (intro calm_rules rom_init_calm quiet_calm framed_intros)
    apply (rule boots_seq, ((intro framed_intros)+)[1], rule hw.frame_refl)
    apply (rule boots_seq, ((intro framed_intros)+)[1], assumption)+
    apply (rule try_boot; assumption)
    done
qed

section \<open>Properties\<close>

text \<open>C1: the secure boot property of the ROM. Whatever the
  peripherals answer (the hash engine computes a hash function, the rest is arbitrary) and whatever
  the flash holds, the boot never returns, and when it hands over control, it does so to the entry
  point of one of the two slots, whose image is authentic for the life cycle state and the boot data
  of this boot: an admissible manifest, not rolled back, whose signature recovers under an allowed
  ROM key to the encoding of the digest of the image and of the device's usage constraints. The
  value that unlocks flash execution has been written by then. Every other outcome is a stop.\<close>

theorem rom_main_boots_only_authentic:
  assumes "hmac_device sha (plat m)" "\<forall>msg. length (sha msg) = 8" "rom_keys_ok (plat m)"
  shows "case rom_main m of
      Done u t \<Rightarrow> False
    | Stop (Jump x) t \<Rightarrow> rom_handover sha m x t
    | Stop e t \<Rightarrow> True"
  using rom_main_jumps [OF assms] by (rule boots_never_returns)

lemma sample_keys_ok: "rom_keys_ok sample_platform"
proof -
  obtain N where N: "N = B32 ^ 96" by blast
  have n: "Suc (words_value (replicate 96 (- 1))) = N" by (simp add: words_value_replicate N)
  have "B32 \<le> N" unfolding N by (rule self_le_power) simp_all
  then have "N < 2 * words_value (replicate 96 (- 1))" using n by linarith
  then show ?thesis
    unfolding N by (simp add: rom_keys_ok_def sample_platform_def rom_key_def rsa_key_ok_def)
qed

lemma sample_keys: "rom_keys_ok (plat sample_machine)"
  using sample_keys_ok by (simp add: sample_machine_def)

theorem rom_main_boots_only_authentic_witness:
  "case rom_main sample_machine of
      Done u t \<Rightarrow> False
    | Stop (Jump x) t \<Rightarrow> rom_handover (\<lambda>msg. replicate 8 0) sample_machine x t
    | Stop e t \<Rightarrow> True"
  by (rule rom_main_boots_only_authentic) (simp_all add: sample_hmac sample_keys)

text \<open>C3: the verification of a slot succeeds only for an authentic image,
  with the value that unlocks execution; every error comes with a value that does not unlock it
  (0 or all ones).\<close>

theorem rom_verify_outcome:
  assumes "hmac_device sha (plat m)" "\<forall>msg. length (sha msg) = 8" "rom_keys_ok (plat m)"
  shows "case rom_verify a m of
      Done (r, fe) t \<Rightarrow> if r = kErrorOk
        then fe = kSigverifyFlashExec \<and> rom_ext_authentic sha (plat m) (g_lc_state m) (g_boot_data m) a
        else fe \<in> {0, UINT32_MAX}
    | Stop e t \<Rightarrow> no_jump e"
proof (cases "rom_verify a m")
  case (Done r t)
  then show ?thesis using rom_verify_result [OF assms, of a "fst r" "snd r" t] by (simp add: split_beta)
next
  case (Stop e t)
  then show ?thesis using framedD3 [OF framed_rom_verify(1)] by simp
qed

theorem rom_verify_outcome_witness:
  "case rom_verify 0x20000000 sample_machine of
      Done (r, fe) t \<Rightarrow> if r = kErrorOk
        then fe = kSigverifyFlashExec \<and> rom_ext_authentic (\<lambda>msg. replicate 8 0) (plat sample_machine)
          (g_lc_state sample_machine) (g_boot_data sample_machine) 0x20000000
        else fe \<in> {0, UINT32_MAX}
    | Stop e t \<Rightarrow> no_jump e"
  by (rule rom_verify_outcome) (simp_all add: sample_hmac sample_keys)

end
