(* ===== verification/Rom_Ext.thy ===== *)
theory Rom_Ext
  imports Rom
begin

text \<open>\<open>rom_ext/rom_ext.c\<close>: the boot of an owner stage image by the ROM\_EXT.\<close>

unbundle bit_operations_syntax

abbreviation (input) kOtpSecMmioCreatorSwCfgLockDown :: u32 where "kOtpSecMmioCreatorSwCfgLockDown \<equiv> 1"

definition rom_ext_irq_error :: "rom_error rom" where
  "rom_ext_irq_error = (bindM (CSR_READ CSR_REG_MCAUSE) (\<lambda>mcause.
    returnM (kErrorInterrupt + ((mcause AND 0x80000000) OR push_bit 24 (mcause AND 0x7f)))))"

definition rom_ext_init :: "unit rom" where
  "rom_ext_init = (bindM sec_mmio_next_stage_init (\<lambda>_.
    bindM lifecycle_state_get (\<lambda>lc_state.
    bindM (modifyM (\<lambda>m. m\<lparr>g_lc_state := lc_state\<rparr>)) (\<lambda>_.
    bindM pinmux_init (\<lambda>_.
    bindM (getM (\<lambda>m. kUartNCOValue (plat m))) (\<lambda>nco.
    bindM (uart_init nco) (\<lambda>_.
    returnM ())))))))"

definition rom_ext_verify :: "u32 \<Rightarrow> rom_error rom" where
  "rom_ext_verify a = (bindM (getM plat) (\<lambda>p.
    let manifest = manifest_at (flash_mem p) a in
    RETURN_IF_ERROR (rom_ext_boot_policy_manifest_check manifest) (
    bindM (getM g_lc_state) (\<lambda>lc_state.
    bindM (sigverify_rsa_key_get (sigverify_rsa_key_id_get (modulus manifest)) lc_state) (\<lambda>(err, key).
    if err \<noteq> kErrorOk then returnM err else
    bindM hmac_sha256_init (\<lambda>_.
    bindM (sigverify_usage_constraints_get (selector_bits (usage_constraints manifest))) (\<lambda>usage_constraints_from_hw.
    bindM (hmac_sha256_update 0 (usage_constraints_bytes usage_constraints_from_hw)) (\<lambda>_.
    bindM (hmac_sha256_update (fst (manifest_digest_region_get a manifest)) (digest_region_bytes p a)) (\<lambda>_.
    bindM hmac_sha256_final (\<lambda>act_digest.
    bindM ((case key of None \<Rightarrow> HARDENED_UNREACHABLE
       | Some k \<Rightarrow> sigverify_rsa_verify (signature manifest) (rom_key k) act_digest lc_state)) (\<lambda>(err, flash_exec).
    returnM err)))))))))))"

definition owner_vma_get :: "platform \<Rightarrow> u32 \<Rightarrow> u32 \<Rightarrow> u32" where
  "owner_vma_get p manifest lma_addr =
     lma_addr - manifest + owner_virtual_start_address p + CHIP_ROM_EXT_SIZE_MAX"

definition rom_ext_address_translation :: "u32 \<Rightarrow> manifest \<Rightarrow> (rom_error * epmp_region * u32) rom" where
  "rom_ext_address_translation a manifest = (bindM (getM plat) (\<lambda>p.
    let text_region = manifest_code_region_get a manifest in
    let entry = manifest_entry_point_get a manifest in
    if address_translation manifest = kHardenedBoolTrue
     then (bindM (HARDENED_CHECK_EQ (address_translation manifest) kHardenedBoolTrue) (\<lambda>_.
     bindM (ibex_addr_remap_1_set (owner_virtual_start_address p) TOP_EARLGREY_EFLASH_BASE_ADDR
         (owner_virtual_size p)) (\<lambda>_.
     bindM (SEC_MMIO_WRITE_INCREMENT kAddressTranslationSecMmioConfigure) (\<lambda>_.
     bindM epmp_state_check (\<lambda>err.
     if err \<noteq> kErrorOk then returnM (err, text_region, entry) else
     bindM (HARDENED_CHECK_EQ err kErrorOk) (\<lambda>_.
     bindM (rom_ext_epmp_unlock_owner_stage_r \<lparr>region_start = owner_virtual_start_address p,
         region_end = owner_virtual_start_address p + owner_virtual_size p\<rparr>) (\<lambda>_.
     bindM epmp_state_check (\<lambda>err.
     if err \<noteq> kErrorOk then returnM (err, text_region, entry) else
     bindM (HARDENED_CHECK_EQ err kErrorOk) (\<lambda>_.
     returnM (kErrorOk, \<lparr>region_start = owner_vma_get p a (region_start text_region),
         region_end = owner_vma_get p a (region_end text_region)\<rparr>, owner_vma_get p a entry))))))))))
     else if address_translation manifest = kHardenedBoolFalse
     then (bindM (HARDENED_CHECK_EQ (address_translation manifest) kHardenedBoolFalse) (\<lambda>_.
     returnM (kErrorOk, text_region, entry)))
     else HARDENED_UNREACHABLE))"

definition rom_ext_boot :: "u32 \<Rightarrow> rom_error rom" where
  "rom_ext_boot a = (bindM flash_ctrl_creator_info_pages_lockdown (\<lambda>_.
    bindM otp_creator_sw_cfg_lockdown (\<lambda>_.
    bindM (SEC_MMIO_WRITE_INCREMENT (kFlashCtrlSecMmioCreatorInfoPagesLockdown + kOtpSecMmioCreatorSwCfgLockDown)) (\<lambda>_.
    bindM (getM plat) (\<lambda>p.
    let manifest = manifest_at (flash_mem p) a in
    bindM (rom_ext_address_translation a manifest) (\<lambda>(err, text_region, entry).
    if err \<noteq> kErrorOk then returnM err else
    HARDENED_RETURN_IF_ERROR epmp_state_check (
    bindM (rom_ext_epmp_unlock_owner_stage_rx text_region) (\<lambda>_.
    HARDENED_RETURN_IF_ERROR epmp_state_check (
    bindM (rom_printf (''entry: 0x%x'' @ [CHR 0x0D, CHR 0x0A]) [Hex_arg entry]) (\<lambda>_.
    stopM (Jump entry)))))))))))"

text \<open>The loop over the slots, with the last error.\<close>

fun rom_ext_boot_loop :: "u32 list \<Rightarrow> rom_error \<Rightarrow> rom_error rom" where
  "rom_ext_boot_loop [] error = returnM error"
| "rom_ext_boot_loop (a # as) error = (bindM (rom_ext_verify a) (\<lambda>error.
    if error \<noteq> kErrorOk then rom_ext_boot_loop as error
     else (RETURN_IF_ERROR (rom_ext_boot a) (
     returnM kErrorRomBootFailed))))"

definition rom_ext_try_boot :: "rom_error rom" where
  "rom_ext_try_boot = (bindM (getM plat) (\<lambda>p.
    rom_ext_boot_loop (rom_ext_boot_policy_manifests_get (flash_mem p)) kErrorRomBootFailed))"

definition rom_ext_main :: "unit rom" where
  "rom_ext_main = (bindM rom_ext_init (\<lambda>_.
    bindM (rom_printf (''Starting ROM_EXT'' @ [CHR 0x0D, CHR 0x0A]) []) (\<lambda>_.
    bindM rom_ext_try_boot (\<lambda>err.
    shutdown_finalize err))))"

definition rom_ext_interrupt_handler :: "unit rom" where
  "rom_ext_interrupt_handler = (bindM rom_ext_irq_error (\<lambda>error.
    shutdown_finalize error))"

section \<open>Frames\<close>

lemma framed_rom_ext_steps [framed_intros]:
  "quiet rom_ext_irq_error" "sec_safe rom_ext_irq_error"
  "quiet (rom_ext_address_translation a mf)" "sec_safe (rom_ext_address_translation a mf)"
  unfolding rom_ext_irq_error_def rom_ext_address_translation_def split_beta Let_def
  by (intro framed_intros; (assumption | (simp; fail))?)+

lemma framed_rom_ext_verify [framed_intros]: "quiet (rom_ext_verify a)" "sec_safe (rom_ext_verify a)"
  unfolding rom_ext_verify_def Let_def split_beta
  by (intro framed_intros; (split option.split, intro conjI allI impI)?)+

section \<open>What verification guarantees\<close>

text \<open>An authentic owner stage image: as for the ROM\_EXT, without the rollback check.\<close>

definition owner_authentic :: "(u8 list \<Rightarrow> u32 list) \<Rightarrow> platform \<Rightarrow> u32 \<Rightarrow> u32 \<Rightarrow> bool" where
  "owner_authentic sha p lc a \<longleftrightarrow>
     (let mf = manifest_at (flash_mem p) a in
      manifest_identifier mf = CHIP_BL0_IDENTIFIER \<and>
      CHIP_BL0_SIZE_MIN \<le> image_length mf \<and> image_length mf \<le> CHIP_BL0_SIZE_MAX \<and>
      manifest_layout_ok mf \<and>
      (\<exists>k \<in> set (kSigVerifyRsaKeys p). \<exists>u.
         key_modulus k ! 0 = sigverify_rsa_key_id_get (modulus mf) \<and> key_type_allowed lc (key_type k) \<and>
         selector_bits u = selector_bits (usage_constraints mf) \<and>
         rsa_recovers p (rom_key k) (signature mf) (pkcs1_encoding (image_digest sha p a u))))"

lemma rom_ext_verify_sound:
  assumes dev: "hmac_device sha (plat m)" "\<forall>msg. length (sha msg) = 8" and keys: "rom_keys_ok (plat m)"
    and run: "rom_ext_verify a m = Done kErrorOk m'"
  shows "owner_authentic sha (plat m) (g_lc_state m) a"
proof -
  let ?mf = "manifest_at (flash_mem (plat m)) a"
  let ?bits = "selector_bits (usage_constraints ?mf)"
  have ok: "rom_ext_boot_policy_manifest_check ?mf m = Done kErrorOk m"
    using run unfolding rom_ext_verify_def Let_def
    by (auto simp: bindM_Done_iff return_if_error_Ok rom_ext_boot_policy_manifest_check_run split: if_splits)
  obtain err key m1 where g: "sigverify_rsa_key_get (sigverify_rsa_key_id_get (modulus ?mf)) (g_lc_state m) m
      = Done (err, key) m1"
    and rest: "(if err \<noteq> kErrorOk then returnM err else
      (bindM hmac_sha256_init (\<lambda>_.
    bindM (sigverify_usage_constraints_get ?bits) (\<lambda>u.
    bindM (hmac_sha256_update 0 (usage_constraints_bytes u)) (\<lambda>_.
    bindM (hmac_sha256_update (fst (manifest_digest_region_get a ?mf)) (digest_region_bytes (plat m) a)) (\<lambda>_.
    bindM hmac_sha256_final (\<lambda>act_digest.
    bindM ((case key of None \<Rightarrow> HARDENED_UNREACHABLE
       | Some k \<Rightarrow> sigverify_rsa_verify (signature ?mf) (rom_key k) act_digest (g_lc_state m))) (\<lambda>(err, flash_exec).
    returnM err)))))))) m1 = Done kErrorOk m'"
    using run ok unfolding rom_ext_verify_def Let_def RETURN_IF_ERROR_def
    by (auto simp: bindM_def split: outcome.splits)
  have err: "err = kErrorOk" using rest by (auto split: if_splits)
  obtain u m2 m3 m4 m5 d m6 k fe where h: "hmac_sha256_init m1 = Done () m2"
      "sigverify_usage_constraints_get ?bits m2 = Done u m3"
      "hmac_sha256_update 0 (usage_constraints_bytes u) m3 = Done () m4"
      "hmac_sha256_update (fst (manifest_digest_region_get a ?mf)) (digest_region_bytes (plat m) a) m4 = Done () m5"
      "hmac_sha256_final m5 = Done d m6"
    and key: "key = Some k"
    and v: "sigverify_rsa_verify (signature ?mf) (rom_key k) d (g_lc_state m) m6 = Done (kErrorOk, fe) m'"
    using rest err by (cases key) (auto simp: bindM_Done_iff split: prod.splits)
  have p1: "plat m1 = plat m" using quiet_plat [OF framed_key_get(1) g] .
  have p6: "plat m6 = plat m"
    using p1 quiet_plat [OF framed_hmac(1) h(1)] quiet_plat [OF framed_usage_constraints(1) h(2)]
      quiet_plat [OF framed_hmac(3) h(3)] quiet_plat [OF framed_hmac(3) h(4)] quiet_plat [OF framed_hmac(5) h(5)]
    by simp
  have k: "k \<in> set (kSigVerifyRsaKeys (plat m))" "key_modulus k ! 0 = sigverify_rsa_key_id_get (modulus ?mf)"
      "key_type_allowed (g_lc_state m) (key_type k)"
    using rsa_key_get_result [OF g] keys key by (auto simp: rom_keys_ok_def)
  then have ok_key: "rsa_key_ok (rom_key k)" "length (rsa_n (rom_key k)) = 96"
    using keys by (auto simp: rom_keys_ok_def list_all_iff rom_key_def)
  have d: "selector_bits u = ?bits" "d = image_digest sha (plat m) a u"
    using image_digest_run [OF _ dev(2) h(1-3) h(4) [folded p1] h(5)] dev(1) p1 by simp_all
  have "rsa_recovers (plat m) (rom_key k) (signature ?mf) (pkcs1_encoding d)"
    using rsa_verify_sound [OF ok_key _ _ v] p6 d(2) dev(2) by (simp add: length_signature image_digest_def)
  with ok k d show ?thesis
    by (auto simp: owner_authentic_def Let_def rom_ext_boot_policy_manifest_check_run manifest_check_Ok split: if_splits)
qed

section \<open>Where the boot goes\<close>

definition owner_entry :: "platform \<Rightarrow> u32 \<Rightarrow> u32" where
  "owner_entry p a =
     (let mf = manifest_at (flash_mem p) a; entry = manifest_entry_point_get a mf in
      if address_translation mf = kHardenedBoolTrue then owner_vma_get p a entry else entry)"

lemma owner_translation_entry:
  "rom_ext_address_translation a (manifest_at (flash_mem (plat s)) a) s = Done (kErrorOk, text_region, entry) t \<Longrightarrow>
   entry = owner_entry (plat s) a"
  unfolding rom_ext_address_translation_def owner_entry_def Let_def
  by (auto simp: bindM_Done_iff check_Done split: if_splits)

text \<open>The lock of the creator's OTP partition, written before anything else.\<close>

abbreviation (input) otp_lock_write :: io_event where
  "otp_lock_write \<equiv> W32 (TOP_EARLGREY_OTP_CTRL_CORE_BASE_ADDR + OTP_CTRL_CREATOR_SW_CFG_READ_LOCK_REG_OFFSET) 0"

lemma rom_ext_boot_jumps:
  "boots (rom_ext_boot a) (\<lambda>r t. r \<noteq> kErrorOk \<and> hw_step s t)
     (\<lambda>x t. hw_step s t \<and> x = owner_entry (plat s) a \<and> otp_lock_write \<in> set (new_events s t)) s"
proof -
  have translated: "snd (snd r) = owner_entry (plat s) a"
    if "rom_ext_address_translation a (manifest_at (flash_mem p) a) u = Done r v" "fst r = kErrorOk"
      "getM plat t = Done p t'" "hw_step s0 t" "hw_step s0 u" "hw_step s s0" for p t t' u r v s0
    using that owner_translation_entry [of a u "fst (snd r)" "snd (snd r)" v]
    by (cases r) (auto simp: hw_step_def run_step_def)
  have lock: "otp_lock_write \<in> set (new_events s v)"
    if "otp_creator_sw_cfg_lockdown t = Done r u" "hw_step s t" "hw_step t u" "hw_step u v" for t r u v
    using that hw_event_later [of s t u v] sec_write_event unfolding otp_creator_sw_cfg_lockdown_def by blast
  show ?thesis
    unfolding rom_ext_boot_def hardened_return_eq Let_def split_beta
    apply (rule boots_seq, ((intro framed_intros)+)[1], rule hw.frame_refl)
    apply (rule boots_bind, rule boots_quiet, ((intro framed_intros)+)[1])
    apply (frule (1) hw.frame_trans)
    apply (rule boots_seq, ((intro framed_intros)+)[1], rule hw.frame_refl)
    apply ((rule boots_seq, ((intro framed_intros)+)[1], assumption)
      | (rule boots_error, ((intro framed_intros)+)[1], assumption, (blast intro: hw.frame_trans; fail))
      | (rule boots_if, rule boots_return, (blast intro: hw.frame_trans; fail)) | rule boots_jump)+
    apply (blast intro: hw.frame_trans lock translated)
    done
qed

section \<open>The whole boot\<close>

definition rom_ext_handover :: "(u8 list \<Rightarrow> u32 list) \<Rightarrow> machine \<Rightarrow> u32 \<Rightarrow> machine \<Rightarrow> bool" where
  "rom_ext_handover sha s x t \<longleftrightarrow> run_step s t \<and>
     (\<exists>a \<in> {TOP_EARLGREY_EFLASH_BASE_ADDR + 0x10000, TOP_EARLGREY_EFLASH_BASE_ADDR + 0x90000}.
        owner_authentic sha (plat s) (g_lc_state t) a \<and> x = owner_entry (plat s) a) \<and>
     otp_lock_write \<in> set (new_events s t)"

lemma owner_manifests_slots:
  "set (rom_ext_boot_policy_manifests_get mem)
     \<subseteq> {TOP_EARLGREY_EFLASH_BASE_ADDR + 0x10000, TOP_EARLGREY_EFLASH_BASE_ADDR + 0x90000}"
  by (auto simp: rom_ext_boot_policy_manifests_get_def rom_ext_boot_policy_manifest_a_get_def
      rom_ext_boot_policy_manifest_b_get_def Let_def)

lemma rom_ext_boot_loop_jumps:
  assumes "hmac_device sha (plat m)" "\<forall>msg. length (sha msg) = 8" "rom_keys_ok (plat m)"
    and "hw_step m s"
    and "set as \<subseteq> {TOP_EARLGREY_EFLASH_BASE_ADDR + 0x10000, TOP_EARLGREY_EFLASH_BASE_ADDR + 0x90000}"
  shows "boots (rom_ext_boot_loop as e) (\<lambda>r t. True) (rom_ext_handover sha m) s"
  using assms(4,5)
proof (induction as arbitrary: e s)
  case Nil
  show ?case unfolding rom_ext_boot_loop.simps by (rule boots_return) simp
next
  case (Cons a as)
  have boot: "boots (RETURN_IF_ERROR (rom_ext_boot a) (returnM kErrorRomBootFailed))
      (\<lambda>r t. True) (rom_ext_handover sha m) t"
    if "rom_ext_verify a s = Done kErrorOk t" "hw_step m t" for t
  proof -
    have s: "plat s = plat m" "g_lc_state s = g_lc_state m"
      using Cons.prems(1) by (simp_all add: hw_step_def run_stepD)
    have ok: "owner_authentic sha (plat m) (g_lc_state m) a"
      using rom_ext_verify_sound [OF _ assms(2) _ that(1)] assms(1,3) s by simp
    have "rom_ext_handover sha m x u" if "hw_step t u" "x = owner_entry (plat t) a"
      "otp_lock_write \<in> set (new_events t u)" for x u
    proof -
      have u: "hw_step m u" by (rule hw.frame_trans [OF \<open>hw_step m t\<close> that(1)])
      then have "plat t = plat m" "g_lc_state u = g_lc_state m" "run_step m u"
        using \<open>hw_step m t\<close> by (simp_all add: hw_step_def run_stepD)
      moreover have "otp_lock_write \<in> set (new_events m u)"
        using new_events_mono [OF _ _ that(3)] \<open>hw_step m t\<close> that(1) by (simp add: hw_run_step)
      ultimately show ?thesis unfolding rom_ext_handover_def using that(2) ok Cons.prems(2) by auto
    qed
    then show ?thesis
      unfolding RETURN_IF_ERROR_def
      by (intro boots_bind boots_mono [OF rom_ext_boot_jumps]) (auto simp: boots_return)
  qed
  show ?case
    unfolding rom_ext_boot_loop.simps
    by (rule boots_seq [OF framed_rom_ext_verify(1) Cons.prems(1)], rule boots_if)
      (use Cons.IH Cons.prems boot in auto)
qed

lemma rom_ext_init_calm: "calm rom_ext_init"
  unfolding rom_ext_init_def
  by (intro calm_rules calm_modify | (rule quiet_calm, (intro framed_intros; fail)) | (simp; fail))+

lemma rom_ext_main_jumps:
  assumes "hmac_device sha (plat m)" "\<forall>msg. length (sha msg) = 8" "rom_keys_ok (plat m)"
  shows "boots rom_ext_main (\<lambda>r t. False) (rom_ext_handover sha m) m"
proof -
  have try_boot: "boots (bindM rom_ext_try_boot shutdown_finalize) (\<lambda>r t. False) (rom_ext_handover sha m) t"
    if st: "run_step m s" "hw_step s t" for s t
  proof -
    have m: "run_step m t" using st by (blast intro: run.frame_trans hw_run_step)
    have p: "plat t = plat m" using m by (rule run_stepD)
    have "boots (rom_ext_boot_loop (rom_ext_boot_policy_manifests_get (flash_mem (plat t))) kErrorRomBootFailed)
        (\<lambda>r t. True) (rom_ext_handover sha t) t"
      using assms by (intro rom_ext_boot_loop_jumps owner_manifests_slots) (simp_all add: p hw.frame_refl)
    moreover have "rom_ext_handover sha m x u" if "rom_ext_handover sha t x u" for x u
      using that run.frame_trans [OF m] new_events_mono [OF m] unfolding rom_ext_handover_def p by blast
    ultimately have "boots (rom_ext_boot_loop (rom_ext_boot_policy_manifests_get (flash_mem (plat t))) kErrorRomBootFailed)
        (\<lambda>r t. True) (rom_ext_handover sha m) t"
      by (blast intro: boots_mono)
    then show ?thesis
      unfolding rom_ext_try_boot_def bindM_assoc
      by (intro boots_bind, subst boots_def) (simp add: boots_then_shutdown)
  qed
  show ?thesis
    unfolding rom_ext_main_def
    apply (rule boots_bind, rule boots_calm, rule rom_ext_init_calm)
    apply (rule boots_seq, ((intro framed_intros)+)[1], rule hw.frame_refl)
    apply (rule try_boot; assumption)
    done
qed

section \<open>Properties\<close>



section \<open>Address translation\<close>

text \<open>The physical address behind a virtual one, for a window that maps \<open>start\<close> to
  \<open>base\<close>.\<close>

definition remapped :: "u32 \<Rightarrow> u32 \<Rightarrow> u32 \<Rightarrow> u32" where
  "remapped start base x = x - start + base"

lemma translation_writes:
  assumes t: "address_translation mf = kHardenedBoolTrue"
  shows "writes (W32 (TOP_EARLGREY_RV_CORE_IBEX_CFG_BASE_ADDR + RV_CORE_IBEX_IBUS_REMAP_ADDR_0_REG_OFFSET) a)
      (rom_address_translation a mf)"
    "writes (W32 (TOP_EARLGREY_RV_CORE_IBEX_CFG_BASE_ADDR + RV_CORE_IBEX_IBUS_REMAP_ADDR_1_REG_OFFSET)
      TOP_EARLGREY_EFLASH_BASE_ADDR) (rom_ext_address_translation a mf)"
  unfolding rom_address_translation_def rom_ext_address_translation_def Let_def t simp_thms if_True
  by (rule remap_writes writes_now [OF remap_writes(1)] writes_now [OF remap_writes(2)]
    | (rule writes_later, (intro framed_intros)+) | (intro framed_intros)+)+


text \<open>A machine whose slot B holds an image that asks for address translation.\<close>

definition slot_b_machine :: machine where
  "slot_b_machine = echo_machine\<lparr>plat := (plat echo_machine)\<lparr>flash_mem :=
     \<lambda>b. if b = 0x20090330 then 0x39 else if b = 0x20090331 then 7 else 0\<rparr>\<rparr>"


section \<open>The register table stays well formed\<close>

lemma sec_safe_rom_boot [framed_intros]: "sec_safe (rom_boot a e)"
  unfolding rom_boot_def Let_def split_beta by (intro framed_intros)+

lemma sec_safe_try_boot [framed_intros]: "sec_safe rom_try_boot"
  unfolding rom_try_boot_def Let_def split_beta by (intro framed_intros; (simp; fail)?)+

lemma sec_safe_bootstrap_path [framed_intros]: "sec_safe rom_bootstrap_message" "sec_safe bootstrap_requested"
  by (intro framed_intros)+

lemma sec_safe_next_stage [framed_intros]: "sec_safe sec_mmio_next_stage_init"
  by (auto simp: framed_def sec_keep_def sec_mmio_next_stage_init_def bindM_def getM_def Let_def sec_ctx_ok_def
      hardened_defs returnM_def stopM_def split: outcome.splits)

lemma sec_safe_rom_ext_boot [framed_intros]: "sec_safe (rom_ext_boot a)"
  unfolding rom_ext_boot_def Let_def split_beta by (intro framed_intros)+

lemma sec_safe_boot_loop [framed_intros]: "sec_safe (rom_ext_boot_loop as e)"
  by (induction as arbitrary: e) (auto intro!: framed_intros)

text \<open>Until \<open>sec_mmio_init\<close> runs, nothing touches the table or a device.\<close>

definition untouched :: "machine \<Rightarrow> machine \<Rightarrow> bool" where
  "untouched s t \<longleftrightarrow> io_log t = io_log s \<and> g_sec_mmio_ctx t = g_sec_mmio_ctx s"

interpretation untouched: frame untouched "\<lambda>_. True"
  by unfold_locales (auto simp: untouched_def)

lemma untouched_cfi:
  "framed untouched (\<lambda>_. True) (CFI_FUNC_COUNTER_INIT f)"
  "framed untouched (\<lambda>_. True) (CFI_FUNC_COUNTER_INCREMENT f k)"
  "framed untouched (\<lambda>_. True) (CFI_FUNC_COUNTER_PREPCALL f k g)"
  by (auto simp: framed_def untouched_def CFI_FUNC_COUNTER_INIT_def CFI_FUNC_COUNTER_INCREMENT_def
      CFI_FUNC_COUNTER_PREPCALL_def bindM_def getM_def modifyM_def hardened_defs stopM_def returnM_def)

text \<open>The arrays of the table are allocated, with any contents.\<close>

definition sec_allocated :: "sec_mmio_ctx \<Rightarrow> bool" where
  "sec_allocated c \<longleftrightarrow> length (reg_addrs c) = kSecMmioRegFileSize \<and> length (reg_values c) = kSecMmioRegFileSize"

lemma sec_init_ok:
  assumes "sec_allocated (g_sec_mmio_ctx s)"
  shows "wp sec_mmio_init (\<lambda>u t. sec_ctx_ok (g_sec_mmio_ctx t)) (\<lambda>e t. sec_ctx_ok (g_sec_mmio_ctx t)) s"
  using assms by (simp add: wp_def sec_mmio_init_def sec_allocated_def bindM_def getM_def Let_def
      HARDENED_CHECK_EQ_def returnM_def stopM_def sec_ctx_ok_def)

text \<open>Where a stage ends: before its first device access, or with a well-formed table.\<close>

definition table_at_end :: "machine \<Rightarrow> machine \<Rightarrow> bool" where
  "table_at_end m t \<longleftrightarrow> io_log t = io_log m \<or> sec_ctx_ok (g_sec_mmio_ctx t)"

lemma safe_ends:
  assumes "sec_safe p" "sec_ctx_ok (g_sec_mmio_ctx s)"
  shows "wp p (\<lambda>u t. sec_ctx_ok (g_sec_mmio_ctx t)) (\<lambda>e t. sec_ctx_ok (g_sec_mmio_ctx t)) s"
  by (rule wp_framed [OF assms(1)]) (use assms(2) in \<open>simp_all add: sec_keep_def\<close>)

lemma safe_then:
  assumes "sec_safe p" "sec_ctx_ok (g_sec_mmio_ctx s)"
  shows "wp p (\<lambda>u t. sec_ctx_ok (g_sec_mmio_ctx t)) (\<lambda>e t. table_at_end m t) s"
    and "wp p (\<lambda>u t. table_at_end m t) (\<lambda>e t. table_at_end m t) s"
  using safe_ends [OF assms] by (auto elim!: wp_mono simp: table_at_end_def)

lemma rom_init_table:
  assumes "sec_allocated (g_sec_mmio_ctx s)" "io_log s = io_log m"
  shows "wp rom_init (\<lambda>u t. sec_ctx_ok (g_sec_mmio_ctx t)) (\<lambda>e t. table_at_end m t) s"
  unfolding rom_init_def Let_def
  apply (rule wp_bind, rule wp_framed [OF untouched_cfi(2)])
   apply (rule wp_bind, rule wp_mono [OF sec_init_ok])
  subgoal for u t using assms by (simp add: untouched_def)
  subgoal by (rule safe_then(1)) (intro framed_intros; (simp; fail)?)+
  subgoal by (simp add: table_at_end_def)
  subgoal for e t using assms by (simp add: untouched_def table_at_end_def)
  done

text \<open>C35: the table of expected register values is well typed however a
  boot stage ends (it jumps, shuts down or traps). The ROM starts from arrays that are only
  allocated, with any contents and any index: unless it traps before its first access to a device,
  it ends with a table whose index stays within its 1000 entries and whose addresses are distinct.
  The ROM\_EXT takes over such a table and keeps it so.\<close>

theorem sec_table_well_formed:
  assumes "sec_allocated (g_sec_mmio_ctx m)"
  shows "(case rom_main m of
      Done u t \<Rightarrow> table_at_end m t
    | Stop e t \<Rightarrow> table_at_end m t) \<and>
   (sec_ctx_ok (g_sec_mmio_ctx m) \<longrightarrow>
    (case rom_ext_main m of
      Done u t \<Rightarrow> sec_ctx_ok (g_sec_mmio_ctx t)
    | Stop e t \<Rightarrow> sec_ctx_ok (g_sec_mmio_ctx t)))"
proof
  have "wp rom_main (\<lambda>u t. table_at_end m t) (\<lambda>e t. table_at_end m t) m"
    unfolding rom_main_def SHUTDOWN_IF_ERROR_def
    apply (rule wp_bind, rule wp_framed [OF untouched_cfi(1)])
     apply (rule wp_bind, rule wp_framed [OF untouched_cfi(3)])
      apply (rule wp_bind, rule wp_bind, rule wp_mono [OF rom_init_table [where m = m]])
    subgoal for u t u' t' using assms by (simp add: untouched_def)
    subgoal for u t u' t' by (simp add: untouched_def)
    subgoal for u t u' t' err t2
      by (rule wp_mono [OF safe_then(1) safe_then(2)]; (intro framed_intros)?; assumption?)
    subgoal by simp
    subgoal for e t using assms by (simp add: untouched_def table_at_end_def)
    subgoal for e t using assms by (simp add: untouched_def table_at_end_def)
    done
  then show "case rom_main m of Done u t \<Rightarrow> table_at_end m t | Stop e t \<Rightarrow> table_at_end m t"
    by (simp add: wp_def split: outcome.splits)
  have "sec_safe rom_ext_main"
    unfolding rom_ext_main_def rom_ext_init_def rom_ext_try_boot_def
    by (rule framed_intros | (simp; fail))+
  then show "sec_ctx_ok (g_sec_mmio_ctx m) \<longrightarrow> (case rom_ext_main m of
      Done u t \<Rightarrow> sec_ctx_ok (g_sec_mmio_ctx t) | Stop e t \<Rightarrow> sec_ctx_ok (g_sec_mmio_ctx t))"
    by (auto dest: safe_ends simp: wp_def split: outcome.splits)
qed

text \<open>A machine with allocated, zeroed arrays.\<close>

definition allocated_machine :: machine where
  "allocated_machine = sample_machine\<lparr>g_sec_mmio_ctx := (g_sec_mmio_ctx sample_machine)\<lparr>
     reg_addrs := replicate 1000 0, reg_values := replicate 1000 0, last_index := 0\<rparr>\<rparr>"

theorem sec_table_well_formed_witness:
  "case rom_main allocated_machine of
      Done u t \<Rightarrow> table_at_end allocated_machine t
    | Stop e t \<Rightarrow> table_at_end allocated_machine t"
  by (rule sec_table_well_formed [THEN conjunct1]) (simp add: allocated_machine_def sec_allocated_def)

end
