(* ===== verification/Boot_Data_Flash.thy ===== *)
theory Boot_Data_Flash
  imports Boot_Data
begin

text \<open>The flash controller as \<open>lib/boot_data.c\<close> relies on it. The controller is described by
  what its documentation promises: a memory of words, the permission registers of the info pages,
  and the transaction in progress, all functions of the history of bus events (\<open>info_flash\<close>);
  \<open>flash_device\<close> says that the registers answer accordingly. The lemmas give the effect of
  the read, program and erase transactions of \<open>drivers/flash_ctrl.c\<close> on that memory.\<close>

unbundle bit_operations_syntax

section \<open>The info partition of the flash controller\<close>

datatype flash_op = Idle | Reading | Programming | Refused | Elsewhere

record info_flash =
  fl_mem :: "nat \<Rightarrow> u32"      \<comment> \<open>words of info partition 0, by word address\<close>
  fl_cfg :: "u32 \<Rightarrow> u32"      \<comment> \<open>configuration registers, by address\<close>
  fl_addr :: u32
  fl_op :: flash_op
  fl_pos :: nat
  fl_end :: nat

abbreviation (input) flash_reg :: "u32 \<Rightarrow> u32" where
  "flash_reg off \<equiv> TOP_EARLGREY_FLASH_CTRL_CORE_BASE_ADDR + off"

text \<open>The configuration register of the info page that holds a word.\<close>

definition page_cfg_reg :: "nat \<Rightarrow> u32" where
  "page_cfg_reg w = flash_reg ((if w < 0x20000 then 0xbc else 0x124) + of_nat (w mod 0x20000 div 512) * 4)"

definition info_cfg_addrs :: "u32 list" where
  "info_cfg_addrs = map (\<lambda>n. flash_reg (0xbc + of_nat n * 4)) [0..<10] @ map (\<lambda>n. flash_reg (0x124 + of_nat n * 4)) [0..<10]"

definition permitted :: "bitfield_field32 \<Rightarrow> u32 \<Rightarrow> bool" where
  "permitted perm reg \<longleftrightarrow> bitfield_field32_read reg FLASH_CTRL_BANK0_INFO0_PAGE_CFG_0_EN_0_FIELD = kMultiBitBool4True \<and>
     bitfield_field32_read reg perm = kMultiBitBool4True"

text \<open>Starting a transaction: it must be permitted by the configuration of the page, and a
  program transaction must stay inside a 64-byte window. Only page erases of the info partition
  are described.\<close>

definition flash_start :: "u32 \<Rightarrow> info_flash \<Rightarrow> info_flash" where
  "flash_start v s = (
     let w = unat (fl_addr s) div 4;
         n = Suc (unat (bitfield_field32_read v FLASH_CTRL_CONTROL_NUM_FIELD));
         reg = fl_cfg s (page_cfg_reg w);
         kind = bitfield_field32_read v FLASH_CTRL_CONTROL_OP_FIELD
     in if \<not> bitfield_bit32_read v FLASH_CTRL_CONTROL_PARTITION_SEL_BIT \<or>
          bitfield_field32_read v FLASH_CTRL_CONTROL_INFO_SEL_FIELD \<noteq> 0
        then s\<lparr>fl_op := Elsewhere\<rparr>
        else if kind = FLASH_CTRL_CONTROL_OP_VALUE_READ \<and>
          permitted FLASH_CTRL_BANK0_INFO0_PAGE_CFG_0_RD_EN_0_FIELD reg
        then s\<lparr>fl_op := Reading, fl_pos := w, fl_end := w + n\<rparr>
        else if kind = FLASH_CTRL_CONTROL_OP_VALUE_PROG \<and> w mod 16 + n \<le> 16 \<and>
          permitted FLASH_CTRL_BANK0_INFO0_PAGE_CFG_0_PROG_EN_0_FIELD reg
        then s\<lparr>fl_op := Programming, fl_pos := w, fl_end := w + n\<rparr>
        else if kind = FLASH_CTRL_CONTROL_OP_VALUE_ERASE \<and>
          \<not> bitfield_bit32_read v FLASH_CTRL_CONTROL_ERASE_SEL_BIT \<and>
          permitted FLASH_CTRL_BANK0_INFO0_PAGE_CFG_0_ERASE_EN_0_FIELD reg
        then s\<lparr>fl_op := Idle, fl_mem := (\<lambda>k. if k div 512 = w div 512 then kFlashCtrlErasedWord else fl_mem s k)\<rparr>
        else s\<lparr>fl_op := Refused\<rparr>)"

text \<open>Programming can only clear bits.\<close>

definition flash_program :: "u32 \<Rightarrow> info_flash \<Rightarrow> info_flash" where
  "flash_program v s =
     (if fl_op s = Programming \<and> fl_pos s < fl_end s
      then s\<lparr>fl_mem := (fl_mem s)(fl_pos s := fl_mem s (fl_pos s) AND v), fl_pos := Suc (fl_pos s)\<rparr>
      else s)"

fun flash_event :: "io_event \<Rightarrow> info_flash \<Rightarrow> info_flash" where
  "flash_event (W32 a v) s =
     (if a = flash_reg FLASH_CTRL_ADDR_REG_OFFSET then s\<lparr>fl_addr := v\<rparr>
      else if a = flash_reg FLASH_CTRL_CONTROL_REG_OFFSET then flash_start v s
      else if a = flash_reg FLASH_CTRL_PROG_FIFO_REG_OFFSET then flash_program v s
      else if a \<in> set info_cfg_addrs then s\<lparr>fl_cfg := (fl_cfg s)(a := v)\<rparr> else s)"
| "flash_event (R32 a v) s =
     (if a = flash_reg FLASH_CTRL_RD_FIFO_REG_OFFSET then s\<lparr>fl_pos := Suc (fl_pos s)\<rparr> else s)"
| "flash_event ev s = s"

definition info_flash :: "info_flash \<Rightarrow> io_event list \<Rightarrow> info_flash" where
  "info_flash s0 l = foldr flash_event l s0"

text \<open>What the code relies on: the words read are those of the memory, a permitted transaction
  finishes without an error, and the configuration registers keep what was written.\<close>

definition flash_device :: "info_flash \<Rightarrow> platform \<Rightarrow> bool" where
  "flash_device s0 p \<longleftrightarrow> (\<forall>l. let s = info_flash s0 l in
     (fl_op s = Reading \<longrightarrow> fl_pos s < fl_end s \<longrightarrow>
        mmio_resp p l (flash_reg FLASH_CTRL_RD_FIFO_REG_OFFSET) = fl_mem s (fl_pos s)) \<and>
     (fl_op s \<noteq> Refused \<longrightarrow> \<not> bitfield_bit32_read (mmio_resp p l (flash_reg FLASH_CTRL_OP_STATUS_REG_OFFSET))
        FLASH_CTRL_OP_STATUS_ERR_BIT) \<and>
     (\<forall>a. a \<in> set info_cfg_addrs \<longrightarrow> mmio_resp p l a = fl_cfg s a))"

abbreviation info_at :: "info_flash \<Rightarrow> machine \<Rightarrow> info_flash" where
  "info_at s0 m \<equiv> info_flash s0 (io_log m)"

lemma info_flash_simps [simp]:
  "info_flash s0 [] = s0" "info_flash s0 (ev # l) = flash_event ev (info_flash s0 l)"
  by (simp_all add: info_flash_def)

section \<open>Transactions\<close>

text \<open>The word address at which a boot data page starts.\<close>

definition log_base :: "u32 \<Rightarrow> nat" where
  "log_base page = (if page = kFlashCtrlInfoPageBootData0 then 0x20000 else 0x20200)"

definition log_cfg :: "u32 \<Rightarrow> u32" where
  "log_cfg page = flash_reg (if page = kFlashCtrlInfoPageBootData0 then 0x124 else 0x128)"

lemma log_page_cases: "page \<in> set kPages \<Longrightarrow>
    page = kFlashCtrlInfoPageBootData0 \<or> page = kFlashCtrlInfoPageBootData1"
  by (simp add: kPages_def)

lemma info_cfg_numerals: "info_cfg_addrs = [0x410000bc, 0x410000c0, 0x410000c4, 0x410000c8, 0x410000cc, 0x410000d0, 0x410000d4, 0x410000d8, 0x410000dc, 0x410000e0,
    0x41000124, 0x41000128, 0x4100012c, 0x41000130, 0x41000134, 0x41000138, 0x4100013c, 0x41000140, 0x41000144, 0x41000148]"
  by (simp add: info_cfg_addrs_def upt_rec)

lemma page_cfg_reg_log: "page \<in> set kPages \<Longrightarrow> k < 512 \<Longrightarrow> page_cfg_reg (log_base page + k) = log_cfg page"
  by (auto simp: page_cfg_reg_def log_base_def log_cfg_def mod_if div_add1_eq dest!: log_page_cases)

lemma page_tables [simp]:
  "page \<in> set kPages \<Longrightarrow> info_page_addr page m = Done (of_nat (4 * log_base page)) m"
  "page \<in> set kPages \<Longrightarrow> info_cfg_regs page m = Done \<lparr>cfg_wen_addr = log_cfg page - 0x28, cfg_addr = log_cfg page\<rparr> m"
  by (auto simp: info_page_addr_def info_cfg_regs_def flash_info_pages_def log_base_def log_cfg_def dest!: log_page_cases)

lemma flash_dev_read:
  "flash_device s0 p \<Longrightarrow> fl_op (info_flash s0 l) = Reading \<Longrightarrow> fl_pos (info_flash s0 l) < fl_end (info_flash s0 l) \<Longrightarrow>
   mmio_resp p l (flash_reg FLASH_CTRL_RD_FIFO_REG_OFFSET) = fl_mem (info_flash s0 l) (fl_pos (info_flash s0 l))"
  by (auto simp: flash_device_def Let_def)

lemma flash_dev_status:
  "flash_device s0 p \<Longrightarrow> fl_op (info_flash s0 l) \<noteq> Refused \<Longrightarrow>
   \<not> bitfield_bit32_read (mmio_resp p l (flash_reg FLASH_CTRL_OP_STATUS_REG_OFFSET)) FLASH_CTRL_OP_STATUS_ERR_BIT"
  by (auto simp: flash_device_def Let_def)

lemma flash_dev_cfg:
  "flash_device s0 p \<Longrightarrow> a \<in> set info_cfg_addrs \<Longrightarrow> mmio_resp p l a = fl_cfg (info_flash s0 l) a"
  by (auto simp: flash_device_def Let_def)

text \<open>Two states that agree on everything but the history, which may only have grown by events
  that change neither the flash memory nor the permissions.\<close>

definition keeps :: "info_flash \<Rightarrow> machine \<Rightarrow> machine \<Rightarrow> bool" where
  "keeps s0 m t \<longleftrightarrow> plat t = plat m \<and> g_sec_mmio_ctx t = g_sec_mmio_ctx m \<and>
     fl_mem (info_at s0 t) = fl_mem (info_at s0 m) \<and>
     (\<forall>a\<in>set info_cfg_addrs. fl_cfg (info_at s0 t) a = fl_cfg (info_at s0 m) a)"

lemma keeps_refl: "keeps s0 m m"
  by (simp add: keeps_def)

lemma keeps_trans: "keeps s0 m t \<Longrightarrow> keeps s0 t u \<Longrightarrow> keeps s0 m u"
  by (simp add: keeps_def)

abbreviation returns :: "'a rom \<Rightarrow> ('a \<Rightarrow> machine \<Rightarrow> bool) \<Rightarrow> machine \<Rightarrow> bool" where
  "returns p Q m \<equiv> wp p Q (\<lambda>e t. e = Out_of_polls) m"

lemma returns_bind: "returns p (\<lambda>a t. returns (f a) Q t) m \<Longrightarrow> returns (bindM p f) Q m"
  by (rule wp_bind)

lemma returns_done: "p m = Done a t \<Longrightarrow> Q a t \<Longrightarrow> returns p Q m"
  by (simp add: wp_def)

lemma returns_mono: "returns p Q m \<Longrightarrow> (\<And>a t. Q a t \<Longrightarrow> Q' a t) \<Longrightarrow> returns p Q' m"
  by (rule wp_mono)

lemma control_fields:
  fixes a b c d e
  defines "r \<equiv> transaction_control \<lparr>tp_addr = a, tp_op_type = b, tp_erase_type = c,
     tp_partition = kFlashCtrlPartitionInfo0, tp_word_count = d\<rparr> e"
  shows "bitfield_bit32_read r FLASH_CTRL_CONTROL_PARTITION_SEL_BIT"
    "bitfield_field32_read r FLASH_CTRL_CONTROL_INFO_SEL_FIELD = 0"
    "bitfield_field32_read r FLASH_CTRL_CONTROL_OP_FIELD = b AND 3"
    "bitfield_bit32_read r FLASH_CTRL_CONTROL_ERASE_SEL_BIT = e"
    "bitfield_field32_read r FLASH_CTRL_CONTROL_NUM_FIELD = (d - 1) AND 0xfff"
  unfolding r_def transaction_control_def Let_def bitfield_bit32_write_def bitfield_bit32_read_def bitfield_bit32_to_field32_def
  by (simp_all add: bitfield_simps) (simp_all add: bitfield_field32_read_def)

lemma fifo_read_run:
  assumes dev: "flash_device s0 (plat m)" and op: "fl_op (info_at s0 m) = Reading"
    and len: "fl_pos (info_at s0 m) + length xs \<le> fl_end (info_at s0 m)"
  shows "\<exists>t. map_each xs (\<lambda>i. abs_mmio_read32 (flash_reg FLASH_CTRL_RD_FIFO_REG_OFFSET)) m =
      Done (map (fl_mem (info_at s0 m)) [fl_pos (info_at s0 m)..<fl_pos (info_at s0 m) + length xs]) t \<and>
     keeps s0 m t \<and> fl_op (info_at s0 t) = Reading"
  using dev op len
proof (induction xs arbitrary: m)
  case (Cons x xs)
  let ?s = "info_at s0 m"
  define v where "v = fl_mem ?s (fl_pos ?s)"
  have v: "mmio_resp (plat m) (io_log m) (flash_reg FLASH_CTRL_RD_FIFO_REG_OFFSET) = v"
    using Cons.prems flash_dev_read [of s0 "plat m" "io_log m"] by (simp add: v_def)
  define m1 where "m1 = m\<lparr>io_log := R32 (flash_reg FLASH_CTRL_RD_FIFO_REG_OFFSET) v # io_log m\<rparr>"
  have s1: "info_at s0 m1 = ?s\<lparr>fl_pos := Suc (fl_pos ?s)\<rparr>" "plat m1 = plat m" by (simp_all add: m1_def)
  have r: "abs_mmio_read32 (flash_reg FLASH_CTRL_RD_FIFO_REG_OFFSET) m = Done v m1"
    using v by (simp add: m1_def)
  have k1: "keeps s0 m m1" using s1 by (simp add: keeps_def m1_def)
  have prems: "flash_device s0 (plat m1)" "fl_op (info_at s0 m1) = Reading"
    "fl_pos (info_at s0 m1) + length xs \<le> fl_end (info_at s0 m1)"
    using Cons.prems by (simp_all add: s1)
  obtain t where t: "map_each xs (\<lambda>i. abs_mmio_read32 (flash_reg FLASH_CTRL_RD_FIFO_REG_OFFSET)) m1 =
      Done (map (fl_mem ?s) [Suc (fl_pos ?s)..<Suc (fl_pos ?s) + length xs]) t" "keeps s0 m1 t"
      "fl_op (info_at s0 t) = Reading"
    using Cons.IH [OF prems] unfolding s1 by (auto simp del: mmio_run upt_Suc)
  have w: "map (fl_mem ?s) [fl_pos ?s..<fl_pos ?s + length (x # xs)] = v # map (fl_mem ?s) [Suc (fl_pos ?s)..<Suc (fl_pos ?s) + length xs]"
    by (simp add: v_def upt_conv_Cons del: upt_Suc)
  show ?case
    unfolding w by (rule exI [of _ t], rule conjI)
      (use t r keeps_trans [OF k1 t(2)] in \<open>simp_all del: mmio_run\<close>)
qed (simp add: keeps_refl)

lemma poll_returns:
  assumes "\<And>s. I s \<Longrightarrow> returns p (\<lambda>a t. I t \<and> (ready a \<longrightarrow> Q a t)) s"
  shows "I m \<Longrightarrow> returns (poll n p ready) Q m"
proof (induction n arbitrary: m)
  case (Suc n)
  show ?case
    unfolding poll.simps
    by (rule returns_bind, rule returns_mono [OF assms [OF Suc.prems]])
      (auto intro: Suc.IH returns_done)
qed (simp add: wp_def)

lemma poll_until_returns:
  "(\<And>s. I s \<Longrightarrow> returns p (\<lambda>a t. I t \<and> (ready a \<longrightarrow> Q a t)) s) \<Longrightarrow> I m \<Longrightarrow> returns (poll_until p ready) Q m"
  using poll_returns [of I p ready Q m "poll_limit (plat m)"] by (simp add: poll_until_def wp_def)

lemma wait_returns:
  assumes dev: "flash_device s0 (plat m)" and op: "fl_op (info_at s0 m) \<noteq> Refused"
  shows "returns (wait_for_done e) (\<lambda>r t. r = kErrorOk \<and> keeps s0 m t) m"
proof -
  let ?r = "flash_reg FLASH_CTRL_OP_STATUS_REG_OFFSET"
  let ?I = "\<lambda>t. keeps s0 m t \<and> fl_op (info_at s0 t) = fl_op (info_at s0 m)"
  have "returns (abs_mmio_read32 ?r) (\<lambda>v t. ?I t \<and>
      (bitfield_bit32_read v FLASH_CTRL_OP_STATUS_DONE_BIT \<longrightarrow> ?I t \<and> \<not> bitfield_bit32_read v FLASH_CTRL_OP_STATUS_ERR_BIT)) s"
    if "?I s" for s
    using that flash_dev_status [of s0 "plat s" "io_log s"] dev op by (simp add: wp_def keeps_def)
  then have "returns (poll_until (abs_mmio_read32 ?r) (\<lambda>v. bitfield_bit32_read v FLASH_CTRL_OP_STATUS_DONE_BIT))
      (\<lambda>v t. ?I t \<and> \<not> bitfield_bit32_read v FLASH_CTRL_OP_STATUS_ERR_BIT) m"
    by (rule poll_until_returns [where I = ?I]) (simp_all add: keeps_refl)
  then show ?thesis
    unfolding wait_for_done_def
    by (intro returns_bind, elim returns_mono) (auto simp: wp_def keeps_def info_cfg_numerals)
qed
lemma and_mask12: "(w :: u32) AND 0xfff = take_bit 12 w"
  by (simp add: take_bit_eq_mask mask_eq_exp_minus_1)

lemma unat_of_nat32: "n < 2 ^ 32 \<Longrightarrow> unat (of_nat n :: u32) = n"
  by (simp add: unat_of_nat)

lemma page_erase_type [simp]: "transaction_bank_erase kFlashCtrlEraseTypePage m = Done False m"
  by (simp add: transaction_bank_erase_def)

lemma start_run:
  obtains t c where "transaction_start \<lparr>tp_addr = a, tp_op_type = k, tp_erase_type = kFlashCtrlEraseTypePage,
      tp_partition = kFlashCtrlPartitionInfo0, tp_word_count = n\<rparr> m = Done () t"
    "info_at s0 t = flash_start c ((info_at s0 m)\<lparr>fl_addr := a\<rparr>)"
    "plat t = plat m" "g_sec_mmio_ctx t = g_sec_mmio_ctx m"
    "bitfield_bit32_read c FLASH_CTRL_CONTROL_PARTITION_SEL_BIT"
    "bitfield_field32_read c FLASH_CTRL_CONTROL_INFO_SEL_FIELD = 0"
    "bitfield_field32_read c FLASH_CTRL_CONTROL_OP_FIELD = k AND 3"
    "\<not> bitfield_bit32_read c FLASH_CTRL_CONTROL_ERASE_SEL_BIT"
    "bitfield_field32_read c FLASH_CTRL_CONTROL_NUM_FIELD = (n - 1) AND 0xfff"
proof -
  define c where "c = transaction_control \<lparr>tp_addr = a, tp_op_type = k, tp_erase_type = kFlashCtrlEraseTypePage,
      tp_partition = kFlashCtrlPartitionInfo0, tp_word_count = n\<rparr> False"
  note fields = control_fields [of a k kFlashCtrlEraseTypePage n False, folded c_def]
  show ?thesis
    by (rule that [of "m\<lparr>io_log := [W32 (flash_reg FLASH_CTRL_CONTROL_REG_OFFSET) c,
      W32 (flash_reg FLASH_CTRL_ADDR_REG_OFFSET) a] @ io_log m\<rparr>" c])
      (use fields in \<open>simp_all add: transaction_start_def bindM_def c_def [symmetric]\<close>)
qed

lemma word_address:
  fixes off :: u32
  assumes "page \<in> set kPages" "unat off = 4 * k" "k < 512"
  shows "unat (of_nat (4 * log_base page) + off) div 4 = log_base page + k"
proof -
  have "off = of_nat (4 * k)" using assms(2) by (metis of_nat_unat ucast_id)
  then have e: "of_nat (4 * log_base page) + off = of_nat (4 * (log_base page + k))" by simp
  have "4 * (log_base page + k) < 2 ^ 32" using assms(3) by (simp add: log_base_def)
  from unat_of_nat32 [OF this] show ?thesis unfolding e by simp
qed

lemma word_count: "0 < n \<Longrightarrow> n \<le> 4096 \<Longrightarrow> Suc (unat ((of_nat n - 1) AND 0xfff :: u32)) = n"
proof -
  assume n: "0 < n" "n \<le> 4096"
  then have e: "of_nat n - 1 = (of_nat (n - 1) :: u32)" by (simp add: of_nat_diff)
  have "unat (take_bit 12 (of_nat (n - 1)) :: u32) = n - 1"
    using n unat_of_nat32 [of "n - 1"] by (simp only: unsigned_take_bit_eq) (simp add: take_bit_eq_mod)
  then show ?thesis using n unfolding e by (simp only: and_mask12)
qed

lemma flash_start_info:
  fixes c a
  assumes "bitfield_bit32_read c FLASH_CTRL_CONTROL_PARTITION_SEL_BIT"
    and "bitfield_field32_read c FLASH_CTRL_CONTROL_INFO_SEL_FIELD = 0"
    and "\<not> bitfield_bit32_read c FLASH_CTRL_CONTROL_ERASE_SEL_BIT"
    and n: "bitfield_field32_read c FLASH_CTRL_CONTROL_NUM_FIELD = (of_nat n - 1) AND 0xfff" "0 < n" "n \<le> 4096"
    and w: "unat a div 4 = w" "page_cfg_reg w = reg"
  shows "bitfield_field32_read c FLASH_CTRL_CONTROL_OP_FIELD = FLASH_CTRL_CONTROL_OP_VALUE_READ \<Longrightarrow>
      permitted FLASH_CTRL_BANK0_INFO0_PAGE_CFG_0_RD_EN_0_FIELD (fl_cfg s reg) \<Longrightarrow>
      flash_start c (s\<lparr>fl_addr := a\<rparr>) = s\<lparr>fl_addr := a, fl_op := Reading, fl_pos := w, fl_end := w + n\<rparr>"
    "bitfield_field32_read c FLASH_CTRL_CONTROL_OP_FIELD = FLASH_CTRL_CONTROL_OP_VALUE_PROG \<Longrightarrow> w mod 16 + n \<le> 16 \<Longrightarrow>
      permitted FLASH_CTRL_BANK0_INFO0_PAGE_CFG_0_PROG_EN_0_FIELD (fl_cfg s reg) \<Longrightarrow>
      flash_start c (s\<lparr>fl_addr := a\<rparr>) = s\<lparr>fl_addr := a, fl_op := Programming, fl_pos := w, fl_end := w + n\<rparr>"
    "bitfield_field32_read c FLASH_CTRL_CONTROL_OP_FIELD = FLASH_CTRL_CONTROL_OP_VALUE_ERASE \<Longrightarrow>
      permitted FLASH_CTRL_BANK0_INFO0_PAGE_CFG_0_ERASE_EN_0_FIELD (fl_cfg s reg) \<Longrightarrow>
      flash_start c (s\<lparr>fl_addr := a\<rparr>) = s\<lparr>fl_addr := a, fl_op := Idle,
        fl_mem := (\<lambda>k. if k div 512 = w div 512 then kFlashCtrlErasedWord else fl_mem s k)\<rparr>"
  using assms(1-3) word_count [OF n(2,3)] unfolding flash_start_def Let_def n(1)
  by (simp_all add: w, cases s, simp add: fun_eq_iff)

lemma info_read_returns:
  assumes dev: "flash_device s0 (plat m)" and page: "page \<in> set kPages"
    and off: "unat off = 4 * k" "0 < n" "k + n \<le> 512"
    and perm: "permitted FLASH_CTRL_BANK0_INFO0_PAGE_CFG_0_RD_EN_0_FIELD (fl_cfg (info_at s0 m) (log_cfg page))"
  shows "returns (flash_ctrl_info_read page off (of_nat n)) (\<lambda>(e, ws) t. e = kErrorOk \<and>
     ws = map (fl_mem (info_at s0 m)) [log_base page + k..<log_base page + k + n] \<and> keeps s0 m t) m"
proof -
  let ?w = "log_base page + k"
  define a where "a = of_nat (4 * log_base page) + off"
  have a: "unat a div 4 = ?w" using word_address [OF page off(1)] off by (simp add: a_def)
  obtain t c where t: "transaction_start \<lparr>tp_addr = a, tp_op_type = FLASH_CTRL_CONTROL_OP_VALUE_READ,
      tp_erase_type = kFlashCtrlEraseTypePage, tp_partition = kFlashCtrlPartitionInfo0, tp_word_count = of_nat n\<rparr> m = Done () t"
    and i: "info_at s0 t = flash_start c ((info_at s0 m)\<lparr>fl_addr := a\<rparr>)"
    and same: "plat t = plat m" "g_sec_mmio_ctx t = g_sec_mmio_ctx m"
    and c: "bitfield_bit32_read c FLASH_CTRL_CONTROL_PARTITION_SEL_BIT" "bitfield_field32_read c FLASH_CTRL_CONTROL_INFO_SEL_FIELD = 0"
    "bitfield_field32_read c FLASH_CTRL_CONTROL_OP_FIELD = FLASH_CTRL_CONTROL_OP_VALUE_READ AND 3"
    "\<not> bitfield_bit32_read c FLASH_CTRL_CONTROL_ERASE_SEL_BIT"
    "bitfield_field32_read c FLASH_CTRL_CONTROL_NUM_FIELD = (of_nat n - 1) AND 0xfff"
    by (rule start_run)
  have s: "info_at s0 t = (info_at s0 m)\<lparr>fl_addr := a, fl_op := Reading, fl_pos := ?w, fl_end := ?w + n\<rparr>"
    unfolding i using off c perm
    by (intro flash_start_info(1) [where reg = "log_cfg page"] a page_cfg_reg_log [OF page]) simp_all
  then have k1: "keeps s0 m t" using same by (simp add: keeps_def)
  have f: "length [0..<unat (of_nat n :: u32)] = n" using off by (simp add: unat_of_nat)
  obtain u where u: "fifo_read (unat (of_nat n :: u32)) t = Done (map (fl_mem (info_at s0 m)) [?w..<?w + n]) u"
    "keeps s0 t u" "fl_op (info_at s0 u) = Reading"
    using fifo_read_run [of s0 t "[0..<unat (of_nat n :: u32)]"] dev unfolding f fifo_read_def by (auto simp: s same)
  have w: "returns (wait_for_done kErrorFlashCtrlInfoRead) (\<lambda>r v. r = kErrorOk \<and> keeps s0 u v) u"
    using dev u(2,3) k1 by (intro wait_returns) (simp_all add: keeps_def)
  show ?thesis
    unfolding flash_ctrl_info_read_def
    apply (rule returns_bind, rule returns_done, rule page_tables(1) [OF page])
    apply (rule returns_bind, rule returns_done, rule t [unfolded a_def])
    apply (rule returns_bind, rule returns_done, rule u(1))
    apply (rule returns_bind, rule returns_mono, rule w)
    using k1 u(2) by (auto intro!: returns_done intro: keeps_trans)
qed

text \<open>The memory after programming words.\<close>

definition programmed :: "nat \<Rightarrow> u32 list \<Rightarrow> (nat \<Rightarrow> u32) \<Rightarrow> nat \<Rightarrow> u32" where
  "programmed p ws mem = (\<lambda>i. if p \<le> i \<and> i < p + length ws then mem i AND ws ! (i - p) else mem i)"

definition erased_page :: "nat \<Rightarrow> (nat \<Rightarrow> u32) \<Rightarrow> nat \<Rightarrow> u32" where
  "erased_page w mem = (\<lambda>i. if i div 512 = w div 512 then kFlashCtrlErasedWord else mem i)"

lemma programmed_Nil [simp]: "programmed p [] mem = mem"
  by (auto simp: programmed_def fun_eq_iff)

lemma programmed_Cons:
  "programmed p (v # ws) mem = programmed (Suc p) ws (mem(p := mem p AND v))"
  by (auto simp: programmed_def fun_eq_iff nth_Cons')

text \<open>What a write leaves as it was.\<close>

definition same_cfg :: "info_flash \<Rightarrow> machine \<Rightarrow> machine \<Rightarrow> bool" where
  "same_cfg s0 m t \<longleftrightarrow> plat t = plat m \<and> g_sec_mmio_ctx t = g_sec_mmio_ctx m \<and>
     (\<forall>a\<in>set info_cfg_addrs. fl_cfg (info_at s0 t) a = fl_cfg (info_at s0 m) a)"

lemma same_cfg_trans: "same_cfg s0 m t \<Longrightarrow> same_cfg s0 t u \<Longrightarrow> same_cfg s0 m u"
  by (simp add: same_cfg_def)

lemma keeps_same_cfg: "keeps s0 m t \<longleftrightarrow> same_cfg s0 m t \<and> fl_mem (info_at s0 t) = fl_mem (info_at s0 m)"
  by (auto simp: keeps_def same_cfg_def)

lemma fifo_write_run:
  assumes op: "fl_op (info_at s0 m) = Programming"
    and len: "fl_pos (info_at s0 m) + length ws \<le> fl_end (info_at s0 m)"
  shows "\<exists>t. fifo_write ws m = Done () t \<and> same_cfg s0 m t \<and> fl_op (info_at s0 t) = Programming \<and>
    fl_mem (info_at s0 t) = programmed (fl_pos (info_at s0 m)) ws (fl_mem (info_at s0 m))"
  using op len
proof (induction ws arbitrary: m)
  case (Cons v ws)
  let ?s = "info_at s0 m"
  define m1 where "m1 = m\<lparr>io_log := W32 (flash_reg FLASH_CTRL_PROG_FIFO_REG_OFFSET) v # io_log m\<rparr>"
  have s1: "info_at s0 m1 = ?s\<lparr>fl_mem := (fl_mem ?s)(fl_pos ?s := fl_mem ?s (fl_pos ?s) AND v), fl_pos := Suc (fl_pos ?s)\<rparr>"
    using Cons.prems by (simp add: m1_def flash_program_def)
  have k1: "same_cfg s0 m m1" using s1 by (simp add: same_cfg_def m1_def)
  obtain t where t: "fifo_write ws m1 = Done () t" "same_cfg s0 m1 t" "fl_op (info_at s0 t) = Programming"
    "fl_mem (info_at s0 t) = programmed (Suc (fl_pos ?s)) ws ((fl_mem ?s)(fl_pos ?s := fl_mem ?s (fl_pos ?s) AND v))"
    using Cons.IH [of m1] Cons.prems unfolding s1 by (auto simp del: fun_upd_apply)
  have "fifo_write (v # ws) m = Done () t" using t(1) by (simp add: fifo_write_def m1_def)
  then show ?case using t same_cfg_trans [OF k1 t(2)] by (auto simp: programmed_Cons)
qed (simp add: fifo_write_def same_cfg_def)

lemma window_fits: "unat a div 4 = w \<Longrightarrow> w mod 16 + n \<le> 16 \<Longrightarrow> n \<le> first_window a"
  by (simp add: first_window_def unat_div)

lemma info_write_returns:
  assumes dev: "flash_device s0 (plat m)" and page: "page \<in> set kPages"
    and off: "unat off = 4 * k" "ws \<noteq> []" "k mod 16 + length ws \<le> 16" "k < 512"
    and perm: "permitted FLASH_CTRL_BANK0_INFO0_PAGE_CFG_0_PROG_EN_0_FIELD (fl_cfg (info_at s0 m) (log_cfg page))"
  shows "returns (flash_ctrl_info_write page off ws) (\<lambda>e t. e = kErrorOk \<and> same_cfg s0 m t \<and>
     fl_mem (info_at s0 t) = programmed (log_base page + k) ws (fl_mem (info_at s0 m))) m"
proof -
  let ?w = "log_base page + k"
  let ?n = "length ws"
  define a where "a = of_nat (4 * log_base page) + off"
  have a: "unat a div 4 = ?w" using word_address [OF page off(1)] off by (simp add: a_def)
  have win: "?w mod 16 + ?n \<le> 16" using off by (simp add: log_base_def mod_add_eq [symmetric] split: if_splits)
  have n: "min ?n (first_window a) = ?n" "first_window a \<noteq> 0"
    using window_fits [OF a win] off(2) by (cases ws; auto simp: min_def)+
  obtain t c where t: "transaction_start \<lparr>tp_addr = a, tp_op_type = FLASH_CTRL_CONTROL_OP_VALUE_PROG,
      tp_erase_type = kFlashCtrlEraseTypePage, tp_partition = kFlashCtrlPartitionInfo0, tp_word_count = of_nat ?n\<rparr> m = Done () t"
    and i: "info_at s0 t = flash_start c ((info_at s0 m)\<lparr>fl_addr := a\<rparr>)"
    and same: "plat t = plat m" "g_sec_mmio_ctx t = g_sec_mmio_ctx m"
    and c: "bitfield_bit32_read c FLASH_CTRL_CONTROL_PARTITION_SEL_BIT" "bitfield_field32_read c FLASH_CTRL_CONTROL_INFO_SEL_FIELD = 0"
    "bitfield_field32_read c FLASH_CTRL_CONTROL_OP_FIELD = FLASH_CTRL_CONTROL_OP_VALUE_PROG AND 3"
    "\<not> bitfield_bit32_read c FLASH_CTRL_CONTROL_ERASE_SEL_BIT"
    "bitfield_field32_read c FLASH_CTRL_CONTROL_NUM_FIELD = (of_nat ?n - 1) AND 0xfff"
    by (rule start_run)
  have s: "info_at s0 t = (info_at s0 m)\<lparr>fl_addr := a, fl_op := Programming, fl_pos := ?w, fl_end := ?w + ?n\<rparr>"
    unfolding i using off c perm win
    by (intro flash_start_info(2) [where reg = "log_cfg page"] a page_cfg_reg_log [OF page]) simp_all
  then have k1: "same_cfg s0 m t" using same by (simp add: same_cfg_def)
  obtain u where u: "fifo_write ws t = Done () u" "same_cfg s0 t u" "fl_op (info_at s0 u) = Programming"
    "fl_mem (info_at s0 u) = programmed ?w ws (fl_mem (info_at s0 m))"
    using fifo_write_run [of s0 t ws] by (auto simp: s)
  have k2: "same_cfg s0 m u" by (rule same_cfg_trans [OF k1 u(2)])
  have w: "returns (wait_for_done kErrorFlashCtrlInfoWrite) (\<lambda>r v. r = kErrorOk \<and> keeps s0 u v) u"
    using dev u(3) k2 by (intro wait_returns) (simp_all add: same_cfg_def)
  show ?thesis
    unfolding flash_ctrl_info_write_def flash_write_def
    apply (rule returns_bind, rule returns_done, rule page_tables(1) [OF page])
    apply (subst flash_write_loop.simps)
    apply (simp only: a_def [symmetric] n off(2) if_False Let_def take_all order_refl drop_all)
    apply (rule returns_bind, rule returns_done, rule t)
    apply (rule returns_bind, rule returns_done, rule u(1))
    unfolding RETURN_IF_ERROR_def
    apply (rule returns_bind, rule returns_mono, rule w)
    using k2 u(4) by (auto intro!: returns_done same_cfg_trans [of s0 m u] simp: keeps_same_cfg flash_write_loop.simps)
qed

lemma info_erase_returns:
  assumes dev: "flash_device s0 (plat m)" and page: "page \<in> set kPages"
    and perm: "permitted FLASH_CTRL_BANK0_INFO0_PAGE_CFG_0_ERASE_EN_0_FIELD (fl_cfg (info_at s0 m) (log_cfg page))"
  shows "returns (flash_ctrl_info_erase page kFlashCtrlEraseTypePage) (\<lambda>e t. e = kErrorOk \<and> same_cfg s0 m t \<and>
     fl_mem (info_at s0 t) = erased_page (log_base page) (fl_mem (info_at s0 m))) m"
proof -
  let ?w = "log_base page"
  define a where "a = (of_nat (4 * ?w) :: u32)"
  have a: "unat a div 4 = ?w" using word_address [OF page, of 0 0] by (simp add: a_def)
  obtain t c where t: "transaction_start \<lparr>tp_addr = a, tp_op_type = FLASH_CTRL_CONTROL_OP_VALUE_ERASE,
      tp_erase_type = kFlashCtrlEraseTypePage, tp_partition = kFlashCtrlPartitionInfo0, tp_word_count = 1\<rparr> m = Done () t"
    and i: "info_at s0 t = flash_start c ((info_at s0 m)\<lparr>fl_addr := a\<rparr>)"
    and same: "plat t = plat m" "g_sec_mmio_ctx t = g_sec_mmio_ctx m"
    and c: "bitfield_bit32_read c FLASH_CTRL_CONTROL_PARTITION_SEL_BIT" "bitfield_field32_read c FLASH_CTRL_CONTROL_INFO_SEL_FIELD = 0"
    "bitfield_field32_read c FLASH_CTRL_CONTROL_OP_FIELD = FLASH_CTRL_CONTROL_OP_VALUE_ERASE AND 3"
    "\<not> bitfield_bit32_read c FLASH_CTRL_CONTROL_ERASE_SEL_BIT"
    "bitfield_field32_read c FLASH_CTRL_CONTROL_NUM_FIELD = (1 - 1) AND 0xfff"
    by (rule start_run)
  have s: "info_at s0 t = (info_at s0 m)\<lparr>fl_addr := a, fl_op := Idle, fl_mem := erased_page ?w (fl_mem (info_at s0 m))\<rparr>"
    unfolding i erased_page_def using c perm page_cfg_reg_log [OF page, of 0]
    by (intro flash_start_info(3) [where reg = "log_cfg page" and n = 1] a) simp_all
  then have k1: "same_cfg s0 m t" using same by (simp add: same_cfg_def)
  have w: "returns (wait_for_done kErrorFlashCtrlInfoErase) (\<lambda>r v. r = kErrorOk \<and> keeps s0 t v) t"
    using dev same by (intro wait_returns) (simp_all add: s)
  show ?thesis
    unfolding flash_ctrl_info_erase_def
    apply (rule returns_bind, rule returns_done, rule page_tables(1) [OF page])
    apply (rule returns_bind, rule returns_done, rule t [unfolded a_def])
    apply (rule returns_mono, rule w)
    using same_cfg_trans [OF k1] by (simp add: keeps_same_cfg s)
qed

section \<open>Permissions\<close>

text \<open>The machine on which the log is used: a flash controller that behaves as documented, and
  a table of expected registers that already knows the two permission registers.\<close>

definition log_machine :: "info_flash \<Rightarrow> machine \<Rightarrow> bool" where
  "log_machine s0 m \<longleftrightarrow> flash_device s0 (plat m) \<and> sec_ctx_ok (g_sec_mmio_ctx m) \<and>
     (\<forall>page\<in>set kPages. expected_value (g_sec_mmio_ctx m) (log_cfg page) \<noteq> None)"

abbreviation log_mem :: "info_flash \<Rightarrow> machine \<Rightarrow> nat \<Rightarrow> u32" where
  "log_mem s0 m \<equiv> fl_mem (info_at s0 m)"

text \<open>Steps that change the memory of the log machine in a known way.\<close>

definition log_step :: "info_flash \<Rightarrow> machine \<Rightarrow> machine \<Rightarrow> (nat \<Rightarrow> u32) \<Rightarrow> bool" where
  "log_step s0 m t mem \<longleftrightarrow> log_machine s0 t \<and> plat t = plat m \<and> log_mem s0 t = mem"

lemma keeps_log_step: "log_machine s0 m \<Longrightarrow> keeps s0 m t \<Longrightarrow> log_step s0 m t (log_mem s0 m)"
  by (simp add: log_machine_def keeps_def log_step_def)

lemma same_cfg_log_step: "log_machine s0 m \<Longrightarrow> same_cfg s0 m t \<Longrightarrow> log_step s0 m t (log_mem s0 t)"
  by (simp add: log_machine_def same_cfg_def log_step_def)

lemma log_step_trans: "log_step s0 m t mem \<Longrightarrow> log_step s0 t u mem' \<Longrightarrow> log_step s0 m u mem'"
  by (simp add: log_step_def)

lemma log_cfg_in: "page \<in> set kPages \<Longrightarrow> log_cfg page \<in> set info_cfg_addrs"
  by (auto simp: log_cfg_def info_cfg_numerals dest!: log_page_cases)

definition allows :: "u32 \<Rightarrow> flash_ctrl_perms \<Rightarrow> bool" where
  "allows reg p \<longleftrightarrow>
     (perm_read p = kMultiBitBool4True \<longrightarrow> permitted FLASH_CTRL_BANK0_INFO0_PAGE_CFG_0_RD_EN_0_FIELD reg) \<and>
     (perm_write p = kMultiBitBool4True \<longrightarrow> permitted FLASH_CTRL_BANK0_INFO0_PAGE_CFG_0_PROG_EN_0_FIELD reg) \<and>
     (perm_erase p = kMultiBitBool4True \<longrightarrow> permitted FLASH_CTRL_BANK0_INFO0_PAGE_CFG_0_ERASE_EN_0_FIELD reg)"

lemma log_room: "log_machine s0 m \<Longrightarrow> page \<in> set kPages \<Longrightarrow> sec_room (log_cfg page) (g_sec_mmio_ctx m)"
  by (simp add: log_machine_def table.room_known)

lemma log_upsert:
  "sec_ctx_ok c \<Longrightarrow> expected_value c a \<noteq> None \<Longrightarrow> sec_ctx_ok (upsert_ctx a v c) \<and>
   (\<forall>b. expected_value c b \<noteq> None \<longrightarrow> expected_value (upsert_ctx a v c) b \<noteq> None)"
  by (simp add: table.room_known table.put_ok table.put_expect)

lemma ctx_counts [simp]:
  "sec_ctx_ok (c\<lparr>write_count := k\<rparr>) = sec_ctx_ok c" "expected_value (c\<lparr>write_count := k\<rparr>) = expected_value c"
  "sec_ctx_ok (c\<lparr>expected_write_count := k\<rparr>) = sec_ctx_ok c"
  "expected_value (c\<lparr>expected_write_count := k\<rparr>) = expected_value c"
  by (simp_all add: sec_ctx_ok_def expected_value_def)

lemma perms_set_returns:
  assumes lm: "log_machine s0 m" and page: "page \<in> set kPages"
  shows "returns (flash_ctrl_info_perms_set page p) (\<lambda>_ t. log_step s0 m t (log_mem s0 m) \<and>
    allows (fl_cfg (info_at s0 t) (log_cfg page)) p) m"
proof -
  let ?a = "log_cfg page"
  let ?c = "g_sec_mmio_ctx m"
  have dev: "flash_device s0 (plat m)" and ctx: "sec_ctx_ok ?c" "expected_value ?c ?a \<noteq> None"
    using lm page by (auto simp: log_machine_def)
  have le: "unat (last_index ?c) \<le> kSecMmioRegFileSize" using ctx(1) by (simp add: sec_ctx_ok_def)
  define v where "v = fl_cfg (info_at s0 m) ?a"
  note cfg = flash_dev_cfg [OF dev log_cfg_in [OF page]]
  define c1 where "c1 = upsert_ctx ?a (v XOR kSecMmioMaskVal) ?c"
  define m1 where "m1 = m\<lparr>io_log := R32 ?a v # R32 ?a v # io_log m, g_sec_mmio_ctx := c1\<rparr>"
  have a_ne: "?a \<noteq> flash_reg FLASH_CTRL_RD_FIFO_REG_OFFSET" "?a \<noteq> flash_reg FLASH_CTRL_ADDR_REG_OFFSET"
    "?a \<noteq> flash_reg FLASH_CTRL_CONTROL_REG_OFFSET" "?a \<noteq> flash_reg FLASH_CTRL_PROG_FIFO_REG_OFFSET"
    by (simp_all add: log_cfg_def)
  have r: "sec_mmio_read32 ?a m = Done v m1"
    unfolding sec_read_Done [OF le]
    using cfg a_ne log_room [OF lm page] by (simp add: v_def m1_def c1_def)
  define w where "w = bitfield_field32_write (bitfield_field32_write (bitfield_field32_write (bitfield_field32_write v
     FLASH_CTRL_BANK0_INFO0_PAGE_CFG_0_EN_0_FIELD kMultiBitBool4True)
     FLASH_CTRL_BANK0_INFO0_PAGE_CFG_0_RD_EN_0_FIELD (perm_read p))
     FLASH_CTRL_BANK0_INFO0_PAGE_CFG_0_PROG_EN_0_FIELD (perm_write p))
     FLASH_CTRL_BANK0_INFO0_PAGE_CFG_0_ERASE_EN_0_FIELD (perm_erase p)"
  have al: "allows w p" unfolding allows_def permitted_def w_def by (simp add: bitfield_simps)
  have c1: "sec_ctx_ok c1" "\<forall>b. expected_value ?c b \<noteq> None \<longrightarrow> expected_value c1 b \<noteq> None"
    using log_upsert [OF ctx, of "v XOR kSecMmioMaskVal"] by (simp_all add: c1_def)
  have le1: "unat (last_index (g_sec_mmio_ctx m1)) \<le> kSecMmioRegFileSize" using c1(1) by (simp add: sec_ctx_ok_def m1_def)
  define c2 where "c2 = (upsert_ctx ?a (w XOR kSecMmioMaskVal) c1)\<lparr>write_count := write_count c1 + 1\<rparr>"
  define t where "t = m1\<lparr>io_log := R32 ?a w # W32 ?a w # io_log m1, g_sec_mmio_ctx := c2\<rparr>"
  have s1: "info_at s0 m1 = info_at s0 m" using a_ne by (simp add: m1_def)
  have st: "info_at s0 t = (info_at s0 m)\<lparr>fl_cfg := (fl_cfg (info_at s0 m))(?a := w)\<rparr>"
    using a_ne log_cfg_in [OF page] s1 by (simp add: t_def)
  have wr: "sec_mmio_write32 ?a w m1 = Done () t"
    unfolding sec_write_Done [OF le1]
    using cfg a_ne s1 log_cfg_in [OF page] c1 ctx(2)
    by (simp add: t_def c2_def m1_def table.room_known)
  have c2: "sec_ctx_ok c2" "\<forall>b. expected_value ?c b \<noteq> None \<longrightarrow> expected_value c2 b \<noteq> None"
    using log_upsert [OF c1(1), of ?a "w XOR kSecMmioMaskVal"] c1(2) ctx(2)
    by (simp_all add: c2_def)
  have "log_step s0 m t (log_mem s0 m)"
    using dev c2 lm st by (simp add: log_step_def log_machine_def t_def m1_def)
  then show ?thesis
    using al st r wr page_tables(2) [OF page, of m]
    by (simp add: flash_ctrl_info_perms_set_def wp_def w_def)
qed

end
