(* ===== verification/Boot_Data_Log.thy ===== *)
theory Boot_Data_Log
  imports Boot_Data_Flash
begin

text \<open>The boot data log of \<open>lib/boot_data.c\<close> against a specification: two pages of entries,
  of which the live ones (not invalidated, with the identifier and a digest that passes the check)
  have distinct, increasing counters. Reading boot data finds the live entry with the greatest
  counter; writing adds one with the next counter and invalidates the old one.\<close>

unbundle bit_operations_syntax

section \<open>Hashing leaves the log alone\<close>

abbreviation kept :: "info_flash \<Rightarrow> 'a rom \<Rightarrow> bool" where
  "kept s0 p \<equiv> framed (keeps s0) (\<lambda>e. e = Out_of_polls) p"

interpretation kp: frame_base "keeps s0" "\<lambda>e. e = Out_of_polls" for s0
  by unfold_locales (auto simp: keeps_refl intro: keeps_trans)

lemma kept_primitive:
  "kept s0 (abs_mmio_read32 a)" "kept s0 (abs_mmio_write8 a b)"
  "a \<notin> set info_cfg_addrs \<Longrightarrow> a \<noteq> flash_reg FLASH_CTRL_CONTROL_REG_OFFSET \<Longrightarrow>
   a \<noteq> flash_reg FLASH_CTRL_PROG_FIFO_REG_OFFSET \<Longrightarrow> kept s0 (abs_mmio_write32 a v)"
  by (auto simp: framed_def keeps_def)

lemma kept_poll: "kept s0 p \<Longrightarrow> kept s0 (poll_until p ready)"
  using kp.framed_poll [of s0 p] unfolding poll_until_def framed_def by blast

lemmas kept_intros = kp.base_rules kept_primitive kept_poll

lemma kept_hmac_loops: "kept s0 (hmac_head a bs)" "kept s0 (hmac_body bs)" "kept s0 (hmac_tail bs)"
proof -
  show "kept s0 (hmac_head a bs)"
    by (induction a bs rule: hmac_head.induct) (simp_all only: hmac_head.simps, auto simp del: if_app returnM_run intro!: kept_intros)
  show "kept s0 (hmac_body bs)"
    by (induction bs rule: hmac_body.induct) (simp_all only: hmac_body.simps, auto simp: info_cfg_numerals simp del: mmio_run returnM_run intro!: kept_intros)
  show "kept s0 (hmac_tail bs)"
    by (induction bs) (simp_all only: hmac_tail.simps, auto simp del: mmio_run returnM_run intro!: kept_intros)
qed

lemma kept_digest: "kept s0 (boot_data_digest_compute b)"
  unfolding boot_data_digest_compute_def hmac_sha256_init_def hmac_sha256_update_def hmac_sha256_final_def Let_def
  by (intro kept_intros kept_hmac_loops; simp add: info_cfg_numerals)+

text \<open>The hash engine of the log machine.\<close>

definition log_hash :: "(u8 list \<Rightarrow> u32 list) \<Rightarrow> machine \<Rightarrow> bool" where
  "log_hash sha m \<longleftrightarrow> hmac_device sha (plat m) \<and> (\<forall>msg. length (sha msg) = 8)"

lemma digest_returns:
  assumes "log_hash sha m"
  shows "returns (boot_data_digest_compute b) (\<lambda>d t. d = entry_digest sha b \<and> keeps s0 m t) m"
  using boot_data_digest_run [of sha m b] framedD1 [OF kept_digest, of b m _ _ s0] assms
  by (auto simp: log_hash_def wp_def split: outcome.splits)

lemma check_returns:
  assumes "log_hash sha m" "digest_shaped b"
  shows "returns (boot_data_check b) (\<lambda>r t. r = (if entry_accepted sha b then kErrorOk else kErrorBootDataInvalid) \<and>
    keeps s0 m t) m"
proof -
  have "check_error (bd_digest b) (entry_digest sha b) (bd_identifier b) = kErrorOk \<longleftrightarrow> entry_accepted sha b"
    using assms by (simp add: check_error_Ok entry_accepted_def log_hash_def entry_digest_def)
  then show ?thesis
    unfolding boot_data_check_def Let_def
    by (intro returns_bind returns_mono [OF digest_returns [OF assms(1)]]) (auto simp: wp_def)
qed

section \<open>The log as two pages of entries\<close>

definition entry_words :: "(nat \<Rightarrow> u32) \<Rightarrow> nat \<Rightarrow> nat \<Rightarrow> u32 list" where
  "entry_words mem w i = map mem [w + 16 * i..<w + 16 * i + 16]"

definition log_page :: "(nat \<Rightarrow> u32) \<Rightarrow> u32 \<Rightarrow> u32 list list" where
  "log_page mem page = map (entry_words mem (log_base page)) [0..<32]"

definition blank :: "u32 list \<Rightarrow> bool" where
  "blank ws \<longleftrightarrow> list_all (\<lambda>w. w = kFlashCtrlErasedWord) ws"

definition sniffed :: "u32 list \<Rightarrow> u32" where
  "sniffed ws = ws ! 8 AND ws ! 9 AND ws ! 10"

text \<open>An entry counts when it carries the identifier, has not been invalidated, and passes the
  integrity check; a page is used up to its first blank entry.\<close>

definition live :: "(u8 list \<Rightarrow> u32 list) \<Rightarrow> u32 list \<Rightarrow> bool" where
  "live sha ws \<longleftrightarrow> sniffed ws = kBootDataIdentifier \<and> entry_accepted sha (boot_data_of_words ws)"

definition first_blank :: "u32 list list \<Rightarrow> nat" where
  "first_blank es = length (takeWhile (\<lambda>e. \<not> blank e) es)"

definition last_live :: "(u8 list \<Rightarrow> u32 list) \<Rightarrow> u32 list list \<Rightarrow> nat option" where
  "last_live sha es = find (\<lambda>i. live sha (es ! i)) (rev [0..<first_blank es])"

abbreviation hbool :: "bool \<Rightarrow> u32" where
  "hbool b \<equiv> if b then kHardenedBoolTrue else kHardenedBoolFalse"

definition page_summary :: "(u8 list \<Rightarrow> u32 list) \<Rightarrow> u32 \<Rightarrow> u32 list list \<Rightarrow> active_page_info" where
  "page_summary sha page es = \<lparr>ap_page = page, ap_has_empty_entry = hbool (first_blank es < 32),
     ap_first_empty_index = of_nat (first_blank es), ap_has_valid_entry = hbool (last_live sha es \<noteq> None),
     ap_last_valid_index = (case last_live sha es of None \<Rightarrow> UINT32_MAX | Some j \<Rightarrow> of_nat j)\<rparr>"

lemma length_entry_words [simp]: "length (entry_words mem w i) = 16"
  by (simp add: entry_words_def)

lemma log_page_nth [simp]: "i < 32 \<Longrightarrow> log_page mem page ! i = entry_words mem (log_base page) i"
  "length (log_page mem page) = 32"
  by (simp_all add: log_page_def)

lemma blank_sniffed: "blank ws \<Longrightarrow> length ws = 16 \<Longrightarrow> sniffed ws = kFlashCtrlErasedWord"
  by (simp add: blank_def sniffed_def list_all_length)

lemma first_blank_le: "first_blank es \<le> length es"
  by (simp add: first_blank_def length_takeWhile_le)

lemma is_empty_run: "length ws = 16 \<Longrightarrow> boot_data_is_empty ws m = Done (hbool (blank ws)) m"
  using fold_and_ones [of ws] fold_and_same [of ws kHardenedBoolTrue]
  unfolding boot_data_is_empty_def Let_def blank_def erased_word
  by (cases "list_all (\<lambda>w. w = - 1) ws") simp_all

section \<open>Scanning a page\<close>

abbreviation readable :: "info_flash \<Rightarrow> machine \<Rightarrow> u32 \<Rightarrow> bool" where
  "readable s0 m page \<equiv>
     permitted FLASH_CTRL_BANK0_INFO0_PAGE_CFG_0_RD_EN_0_FIELD (fl_cfg (info_at s0 m) (log_cfg page))"

lemma entry_offset_word: "i < 32 \<Longrightarrow> d < 16 \<Longrightarrow> unat (entry_offset (of_nat i) + of_nat (4 * d)) = 4 * (16 * i + d)"
proof -
  assume i: "i < 32" "d < 16"
  have "entry_offset (of_nat i) + of_nat (4 * d) = of_nat (4 * (16 * i + d))" by (simp add: entry_offset_def)
  then show ?thesis using unat_of_nat32 [of "4 * (16 * i + d)"] i by simp
qed

lemma entry_read_returns:
  assumes "flash_device s0 (plat m)" "page \<in> set kPages" "i < 32" "readable s0 m page"
  shows "returns (boot_data_entry_read page (of_nat i)) (\<lambda>(e, ws) t. e = kErrorOk \<and>
     ws = entry_words (log_mem s0 m) (log_base page) i \<and> keeps s0 m t) m"
  using info_read_returns [OF assms(1,2), of "entry_offset (of_nat i)" "16 * i" 16] entry_offset_word [of i 0] assms(3,4)
  by (simp add: boot_data_entry_read_def entry_words_def add.assoc)

lemma entry_nth: "d < 16 \<Longrightarrow> entry_words mem w i ! d = mem (w + 16 * i + d)"
  by (simp add: entry_words_def)

lemma upt_three: "map f [w..<w + 3] = [f w, f (w + 1), f (w + 2)]"
  by (simp add: upt_rec)

lemma sniff_returns:
  assumes "flash_device s0 (plat m)" "page \<in> set kPages" "i < 32" "readable s0 m page"
  shows "returns (boot_data_sniff page (of_nat i)) (\<lambda>(e, s) t. e = kErrorOk \<and>
     s = sniffed (entry_words (log_mem s0 m) (log_base page) i) \<and> keeps s0 m t) m"
proof -
  let ?w = "log_base page + (16 * i + 8)"
  have r: "returns (flash_ctrl_info_read page (entry_offset (of_nat i) + kIsValidOffset) 3) (\<lambda>(e, ws) t. e = kErrorOk \<and>
     ws = map (log_mem s0 m) [?w..<?w + 3] \<and> keeps s0 m t) m"
    using info_read_returns [OF assms(1,2), of "entry_offset (of_nat i) + kIsValidOffset" "16 * i + 8" 3]
      entry_offset_word [of i 8] assms(3,4) by simp
  let ?e = "entry_words (log_mem s0 m) (log_base page) i"
  have w: "map (log_mem s0 m) [?w..<?w + 3] = [?e ! 8, ?e ! 9, ?e ! 10]"
    unfolding upt_three by (simp add: entry_nth ac_simps)
  show ?thesis
    unfolding boot_data_sniff_def
    by (rule returns_bind, rule returns_mono [OF r [unfolded w]])
      (auto simp: wp_def sniffed_def)
qed

definition not_blank_below :: "u32 list list \<Rightarrow> nat \<Rightarrow> bool" where
  "not_blank_below es i \<longleftrightarrow> (\<forall>j<i. \<not> blank (es ! j))"

lemma first_blank_at:
  "i < length es \<Longrightarrow> not_blank_below es i \<Longrightarrow> blank (es ! i) \<Longrightarrow> first_blank es = i"
  unfolding first_blank_def not_blank_below_def
  by (subst takeWhile_eq_take_P_nth [of i]) auto

lemma first_blank_none:
  "not_blank_below es (length es) \<Longrightarrow> first_blank es = length es"
  unfolding first_blank_def not_blank_below_def
  by (subst takeWhile_eq_all_conv [THEN iffD2]) (auto simp: in_set_conv_nth)

lemma find_empty_returns:
  assumes dev: "flash_device s0 (plat m)" and page: "page \<in> set kPages" and rd: "readable s0 m page"
    and es: "es = log_page (log_mem s0 m) page"
  shows "i \<le> 32 \<Longrightarrow> keeps s0 m u \<Longrightarrow> not_blank_below es i \<Longrightarrow> ss = map (\<lambda>j. sniffed (es ! j)) [0..<i] \<Longrightarrow>
    returns (find_empty page [i..<32] ss kHardenedBoolFalse) (\<lambda>(e, ss', has, k) t. e = kErrorOk \<and> k = first_blank es \<and>
      has = hbool (first_blank es < 32) \<and> (\<forall>j<k. ss' ! j = sniffed (es ! j)) \<and> keeps s0 m t) u"
proof (induction "32 - i" arbitrary: i ss u)
  case 0
  then have "first_blank es = 32" using first_blank_none [of es] by (simp add: es)
  then show ?case using 0 by (simp add: wp_def)
next
  case (Suc d)
  then have i: "i < 32" "[i..<32] = i # [Suc i..<32]" by (simp_all add: upt_conv_Cons)
  let ?e = "es ! i"
  have e: "?e = entry_words (log_mem s0 u) (log_base page) i" "length ?e = 16" using i Suc.prems(2) by (simp_all add: es keeps_def)
  have u: "flash_device s0 (plat u)" "readable s0 u page"
    using dev rd Suc.prems(2) log_cfg_in [OF page] by (simp_all add: keeps_def)
  have ss': "ss @ [sniffed ?e] = map (\<lambda>j. sniffed (es ! j)) [0..<Suc i]" using Suc.prems(4) by simp
  have next_one: "returns (find_empty page [Suc i..<32] (ss @ [sniffed ?e]) kHardenedBoolFalse) (\<lambda>(e, ss', has, k) t.
      e = kErrorOk \<and> k = first_blank es \<and> has = hbool (first_blank es < 32) \<and>
      (\<forall>j<k. ss' ! j = sniffed (es ! j)) \<and> keeps s0 m t) t"
    if "keeps s0 m t" "\<not> blank ?e" for t
    using Suc.hyps Suc.prems that i ss' by (intro Suc.hyps(1)) (auto simp: not_blank_below_def less_Suc_eq)
  let ?Q = "\<lambda>(e, ss', has, k) t. e = kErrorOk \<and> k = first_blank es \<and> has = hbool (first_blank es < 32) \<and>
      (\<forall>j<k. ss' ! j = sniffed (es ! j)) \<and> keeps s0 m t"
  have step: "returns (if sniffed ?e = kFlashCtrlErasedWord
     then (bindM (boot_data_entry_read page (of_nat i)) (\<lambda>(error, buf).
    if error \<noteq> kErrorOk then returnM (error, ss @ [sniffed ?e], kHardenedBoolFalse, i) else
    bindM (HARDENED_CHECK_EQ error kErrorOk) (\<lambda>_.
    bindM (boot_data_is_empty buf) (\<lambda>empty.
    if empty = kHardenedBoolTrue
       then (bindM (HARDENED_CHECK_EQ empty kHardenedBoolTrue) (\<lambda>_.
     returnM (kErrorOk, ss @ [sniffed ?e], empty, i)))
       else (bindM (HARDENED_CHECK_EQ empty kHardenedBoolFalse) (\<lambda>_.
     find_empty page [Suc i..<32] (ss @ [sniffed ?e]) empty))))))
     else find_empty page [Suc i..<32] (ss @ [sniffed ?e]) kHardenedBoolFalse) ?Q t" if t: "keeps s0 u t" for t
  proof -
    have mt: "keeps s0 m t" using Suc.prems(2) t by (rule keeps_trans)
    have t': "flash_device s0 (plat t)" "readable s0 t page" "entry_words (log_mem s0 t) (log_base page) i = ?e"
      using u t log_cfg_in [OF page] e(1) by (simp_all add: keeps_def)
    have rd': "returns (boot_data_entry_read page (of_nat i)) (\<lambda>(e, ws) v. e = kErrorOk \<and> ws = ?e \<and> keeps s0 t v) t"
      using entry_read_returns [OF t'(1) page i(1) t'(2)] t'(3) by simp
    show ?thesis
    proof (cases "sniffed ?e = kFlashCtrlErasedWord")
      case False
      then have "\<not> blank ?e" using blank_sniffed [OF _ e(2)] by blast
      then show ?thesis using next_one [OF mt] False by simp
    next
      case True
      have "returns ((bindM (boot_data_is_empty ?e) (\<lambda>empty.
    if empty = kHardenedBoolTrue
         then (bindM (HARDENED_CHECK_EQ empty kHardenedBoolTrue) (\<lambda>_.
     returnM (kErrorOk, ss @ [sniffed ?e], empty, i)))
         else (bindM (HARDENED_CHECK_EQ empty kHardenedBoolFalse) (\<lambda>_.
     find_empty page [Suc i..<32] (ss @ [sniffed ?e]) empty))))) ?Q v" if v: "keeps s0 t v" for v
      proof (cases "blank ?e")
        case True
        then have fb: "first_blank es = i" using Suc.prems(3) i(1) by (intro first_blank_at) (simp_all add: es)
        have "\<forall>j<i. (ss @ [sniffed ?e]) ! j = sniffed (es ! j)" by (simp add: Suc.prems(4) nth_append)
        then show ?thesis
          using True fb i(1) keeps_trans [OF mt v] by (simp add: wp_def is_empty_run [OF e(2)])
      next
        case False
        then show ?thesis
          using next_one [OF keeps_trans [OF mt v]] by (simp add: wp_def is_empty_run [OF e(2)])
      qed
      then show ?thesis
        unfolding if_P [OF True] by (intro returns_bind returns_mono [OF rd']) auto
    qed
  qed
  have sn: "returns (boot_data_sniff page (of_nat i)) (\<lambda>(e, s) t. e = kErrorOk \<and> s = sniffed ?e \<and> keeps s0 u t) u"
    using sniff_returns [OF u(1) page i(1) u(2)] e(1) by simp
  show ?case
    unfolding i(2) find_empty.simps
    by (rule returns_bind, rule returns_mono [OF sn]) (use step in \<open>auto split del: if_split simp del: if_app\<close>)
qed

lemma boot_data_of_words_digest: "length ws = 16 \<Longrightarrow> digest_shaped (boot_data_of_words ws)"
  by (simp add: boot_data_of_words_def)

lemma find_valid_returns:
  assumes dev: "flash_device s0 (plat m)" and page: "page \<in> set kPages" and rd: "readable s0 m page"
    and es: "es = log_page (log_mem s0 m) page" and sha: "log_hash sha m"
  shows "\<forall>i\<in>set ix. i < 32 \<and> ss ! i = sniffed (es ! i) \<Longrightarrow> keeps s0 m u \<Longrightarrow>
    returns (find_valid page ix ss buf) (\<lambda>(e, has, k, b) t. e = kErrorOk \<and> keeps s0 m t \<and>
      (case find (\<lambda>i. live sha (es ! i)) ix of
         None \<Rightarrow> has = kHardenedBoolFalse \<and> k = UINT32_MAX
       | Some j \<Rightarrow> has = kHardenedBoolTrue \<and> k = of_nat j \<and> b = boot_data_of_words (es ! j))) u"
proof (induction ix arbitrary: u buf)
  case Nil
  then show ?case by (simp add: wp_def)
next
  case (Cons i ix)
  let ?e = "es ! i"
  have i: "i < 32" "ss ! i = sniffed ?e" using Cons.prems(1) by simp_all
  have e: "entry_words (log_mem s0 u) (log_base page) i = ?e" "length ?e = 16"
    using i Cons.prems(2) by (simp_all add: es keeps_def)
  have u: "flash_device s0 (plat u)" "readable s0 u page"
    using dev rd Cons.prems(2) log_cfg_in [OF page] by (simp_all add: keeps_def)
  have later: "returns (find_valid page ix ss b) (\<lambda>(e, has, k, b) t. e = kErrorOk \<and> keeps s0 m t \<and>
      (case find (\<lambda>i. live sha (es ! i)) ix of
         None \<Rightarrow> has = kHardenedBoolFalse \<and> k = UINT32_MAX
       | Some j \<Rightarrow> has = kHardenedBoolTrue \<and> k = of_nat j \<and> b = boot_data_of_words (es ! j))) t"
    if "keeps s0 m t" for b t
    using Cons.prems(1) that by (intro Cons.IH) simp_all
  show ?case
  proof (cases "sniffed ?e = kBootDataIdentifier")
    case False
    then show ?thesis using later [OF Cons.prems(2)] i(2) by (simp add: live_def)
  next
    case True
    have rd': "returns (boot_data_entry_read page (of_nat i)) (\<lambda>(e, ws) t. e = kErrorOk \<and> ws = ?e \<and> keeps s0 m t) u"
      using entry_read_returns [OF u(1) page i(1) u(2)] Cons.prems(2)
      by (elim returns_mono) (auto simp: e intro: keeps_trans)
    have ck: "returns (boot_data_check (boot_data_of_words ?e))
       (\<lambda>r t. r = (if live sha ?e then kErrorOk else kErrorBootDataInvalid) \<and> keeps s0 m t) t" if "keeps s0 m t" for t
    proof -
      have "log_hash sha t" using sha that by (simp add: log_hash_def keeps_def)
      then show ?thesis
        using True by (intro returns_mono [OF check_returns [where ?s0.0 = s0]] boot_data_of_words_digest e(2))
          (auto simp: live_def intro: keeps_trans [OF that])
    qed
    have "returns ((bindM (boot_data_check (boot_data_of_words ?e)) (\<lambda>is_valid.
    if is_valid = kErrorOk
        then (bindM (HARDENED_CHECK_EQ is_valid kErrorOk) (\<lambda>_.
     returnM (kErrorOk, is_valid, of_nat i, boot_data_of_words ?e)))
        else (bindM (HARDENED_CHECK_EQ is_valid kErrorBootDataInvalid) (\<lambda>_.
     find_valid page ix ss (boot_data_of_words ?e)))))) (\<lambda>(e, has, k, b) t. e = kErrorOk \<and> keeps s0 m t \<and>
      (case find (\<lambda>i. live sha (es ! i)) (i # ix) of
         None \<Rightarrow> has = kHardenedBoolFalse \<and> k = UINT32_MAX
       | Some j \<Rightarrow> has = kHardenedBoolTrue \<and> k = of_nat j \<and> b = boot_data_of_words (es ! j))) t"
      if "keeps s0 m t" for t
      by (rule returns_bind, rule returns_mono [OF ck [OF that]])
        (use later in \<open>auto simp: returns_done\<close>)
    then show ?thesis
      unfolding find_valid.simps i(2) if_P [OF True] Let_def by (intro returns_bind returns_mono [OF rd']) auto
  qed
qed

lemma page_scan_returns:
  assumes dev: "flash_device s0 (plat m)" and page: "page \<in> set kPages" and rd: "readable s0 m page"
    and es: "es = log_page (log_mem s0 m) page" and sha: "log_hash sha m"
  shows "returns (boot_data_page_scan page buf) (\<lambda>(e, new, b) t. e = kErrorOk \<and> keeps s0 m t \<and>
      new = page_summary sha page es \<and>
      (\<forall>j. last_live sha es = Some j \<longrightarrow> b = boot_data_of_words (es ! j))) m"
proof -
  have fb: "first_blank es \<le> 32" using first_blank_le [of es] by (simp add: es)
  have le: "(of_nat (first_blank es) :: u32) \<le> 32"
    using fb unat_of_nat32 [of "first_blank es"] by (simp add: word_le_nat_alt)
  have f: "returns (find_empty page [0..<kBootDataEntriesPerPage] [] kHardenedBoolFalse) (\<lambda>(e, ss, has, k) t.
      e = kErrorOk \<and> k = first_blank es \<and> has = hbool (first_blank es < 32) \<and>
      (\<forall>j<k. ss ! j = sniffed (es ! j)) \<and> keeps s0 m t) m"
    by (rule find_empty_returns [OF dev page rd es]) (simp_all add: keeps_refl not_blank_below_def)
  have v: "returns (find_valid page (rev [0..<first_blank es]) ss buf) (\<lambda>(e, has, k, b) t. e = kErrorOk \<and> keeps s0 m t \<and>
      (case last_live sha es of
         None \<Rightarrow> has = kHardenedBoolFalse \<and> k = UINT32_MAX
       | Some j \<Rightarrow> has = kHardenedBoolTrue \<and> k = of_nat j \<and> b = boot_data_of_words (es ! j))) t"
    if "\<forall>j<first_blank es. ss ! j = sniffed (es ! j)" "keeps s0 m t" for ss t
    unfolding last_live_def using that fb
    by (intro find_valid_returns [OF dev page rd es sha]) auto
  let ?Q = "\<lambda>(e, new, b) t. e = kErrorOk \<and> keeps s0 m t \<and> new = page_summary sha page es \<and>
      (\<forall>j. last_live sha es = Some j \<longrightarrow> b = boot_data_of_words (es ! j))"
  have "returns ((bindM (find_valid page (rev [0..<first_blank es]) ss buf) (\<lambda>(error, has_valid, k, buf').
    returnM (error, \<lparr>ap_page = page, ap_has_empty_entry = hbool (first_blank es < 32),
       ap_first_empty_index = of_nat (first_blank es), ap_has_valid_entry = has_valid, ap_last_valid_index = k\<rparr>, buf')))) ?Q t"
    if "\<forall>j<first_blank es. ss ! j = sniffed (es ! j)" "keeps s0 m t" for ss t
    by (rule returns_bind, rule returns_mono [OF v [OF that]])
      (auto simp: wp_def page_summary_def split: option.splits)
  then show ?thesis
    unfolding boot_data_page_scan_def
    by (intro returns_bind returns_mono [OF f])
      (clarsimp simp: HARDENED_CHECK_LE_def le simp del: if_app split del: if_split)
qed

section \<open>The newest entry of the log\<close>

text \<open>The specification of the search: of the two last live entries, the one with the greater
  counter.\<close>

type_synonym log_entry = "(active_page_info * boot_data) option"

definition newer :: "(u8 list \<Rightarrow> u32 list) \<Rightarrow> u32 \<Rightarrow> u32 list list \<Rightarrow> log_entry \<Rightarrow> log_entry" where
  "newer sha page es best = (case last_live sha es of
     None \<Rightarrow> best
   | Some j \<Rightarrow>
       let e = (page_summary sha page es, boot_data_of_words (es ! j)) in
       case best of None \<Rightarrow> Some e
       | Some (i, b) \<Rightarrow> if bd_counter b < bd_counter (snd e) then Some e else best)"

definition log_newest :: "(u8 list \<Rightarrow> u32 list) \<Rightarrow> (nat \<Rightarrow> u32) \<Rightarrow> log_entry" where
  "log_newest sha mem = fold (\<lambda>page. newer sha page (log_page mem page)) kPages None"

text \<open>The counter of the last live entry of a page, if any.\<close>

definition page_counter :: "(u8 list \<Rightarrow> u32 list) \<Rightarrow> (nat \<Rightarrow> u32) \<Rightarrow> u32 \<Rightarrow> u32 option" where
  "page_counter sha mem page = (let es = log_page mem page in
     map_option (\<lambda>j. bd_counter (boot_data_of_words (es ! j))) (last_live sha es))"

text \<open>Counters are incremented at each write, so the two pages never agree on one.\<close>

definition log_ordered :: "(u8 list \<Rightarrow> u32 list) \<Rightarrow> (nat \<Rightarrow> u32) \<Rightarrow> bool" where
  "log_ordered sha mem \<longleftrightarrow> (page_counter sha mem (kPages ! 0) = None \<or>
     page_counter sha mem (kPages ! 0) \<noteq> page_counter sha mem (kPages ! 1))"

definition found :: "log_entry \<Rightarrow> active_page_info \<Rightarrow> boot_data \<Rightarrow> bool" where
  "found best info bd \<longleftrightarrow> (case best of
     None \<Rightarrow> info = no_active_page
   | Some (i, b) \<Rightarrow> info = i \<and> bd = b \<and> ap_has_valid_entry i = kHardenedBoolTrue)"

lemma merge_returns:
  assumes "found best info bd"
    and "\<And>j. last_live sha es = Some j \<Longrightarrow> buf = boot_data_of_words (es ! j)"
    and "\<And>i b j. best = Some (i, b) \<Longrightarrow> last_live sha es = Some j \<Longrightarrow>
      bd_counter b \<noteq> bd_counter (boot_data_of_words (es ! j))"
  shows "\<exists>info' bd'. page_info_merge (page_summary sha page es) buf info bd m = Done (info', bd') m \<and>
    found (newer sha page es best) info' bd'"
proof (cases "last_live sha es")
  case None
  then show ?thesis using assms(1) by (simp add: page_info_merge_def newer_def page_summary_def)
next
  case (Some j)
  have v: "ap_has_valid_entry (page_summary sha page es) = kHardenedBoolTrue" by (simp add: page_summary_def Some)
  note buf = assms(2) [OF Some]
  show ?thesis
  proof (cases best)
    case None
    then show ?thesis
      using assms(1) v by (simp add: page_info_merge_def newer_def Some found_def no_active_page_def buf)
  next
    case (Some ib)
    obtain i b where ib: "ib = (i, b)" by (cases ib)
    have i: "info = i" "bd = b" "ap_has_valid_entry i = kHardenedBoolTrue"
      using assms(1) by (simp_all add: found_def Some ib)
    have ne: "bd_counter b \<noteq> bd_counter buf" using assms(3) [OF Some [unfolded ib] \<open>last_live sha es = Some j\<close>] buf by simp
    show ?thesis
      using i v ne unfolding page_info_merge_def newer_def \<open>last_live sha es = Some j\<close> Some ib
      by (simp add: buf found_def HARDENED_CHECK_GT_def HARDENED_CHECK_LT_def not_less order_le_less)
  qed
qed

lemma increment_returns: "log_machine s0 m \<Longrightarrow>
   returns (SEC_MMIO_WRITE_INCREMENT v) (\<lambda>_ t. log_step s0 m t (log_mem s0 m)) m"
  by (simp add: wp_def SEC_MMIO_WRITE_INCREMENT_def log_step_def log_machine_def)

text \<open>An operation between the two writes of the permission register.\<close>

lemma guarded_returns:
  assumes lm: "log_machine s0 m" and page: "page \<in> set kPages"
    and body: "\<And>t. log_step s0 m t (log_mem s0 m) \<Longrightarrow> allows (fl_cfg (info_at s0 t) (log_cfg page)) p \<Longrightarrow>
      returns body (\<lambda>r u. log_step s0 t u (log_mem s0 u) \<and> Q r (log_mem s0 u)) t"
  shows "returns ((bindM (flash_ctrl_info_perms_set page p) (\<lambda>_.
    bindM body (\<lambda>r.
    bindM (flash_ctrl_info_perms_set page q) (\<lambda>_.
    bindM (SEC_MMIO_WRITE_INCREMENT v) (\<lambda>_.
    returnM r)))))) (\<lambda>r u. log_step s0 m u (log_mem s0 u) \<and> Q r (log_mem s0 u)) m"
proof (rule returns_bind, rule returns_mono [OF perms_set_returns [OF lm page]], elim conjE)
  fix t assume t: "log_step s0 m t (log_mem s0 m)" "allows (fl_cfg (info_at s0 t) (log_cfg page)) p"
  have off: "returns ((bindM (flash_ctrl_info_perms_set page q) (\<lambda>_.
    bindM (SEC_MMIO_WRITE_INCREMENT v) (\<lambda>_.
    returnM r))))
      (\<lambda>r' w. r' = r \<and> log_step s0 u w (log_mem s0 u)) u" if u: "log_machine s0 u" for r u
    by (intro returns_bind returns_mono [OF perms_set_returns [OF u page]] returns_mono [OF increment_returns])
      (auto simp: log_step_def intro!: returns_done)
  show "returns ((bindM body (\<lambda>r.
    bindM (flash_ctrl_info_perms_set page q) (\<lambda>_.
    bindM (SEC_MMIO_WRITE_INCREMENT v) (\<lambda>_.
    returnM r)))))
     (\<lambda>r u. log_step s0 m u (log_mem s0 u) \<and> Q r (log_mem s0 u)) t"
  proof (rule returns_bind, rule returns_mono [OF body [OF t]], elim conjE)
    fix r u assume u: "log_step s0 t u (log_mem s0 u)" "Q r (log_mem s0 u)"
    then show "returns ((bindM (flash_ctrl_info_perms_set page q) (\<lambda>_.
    bindM (SEC_MMIO_WRITE_INCREMENT v) (\<lambda>_.
    returnM r))))
       (\<lambda>r u. log_step s0 m u (log_mem s0 u) \<and> Q r (log_mem s0 u)) u"
      using t by (intro returns_mono [OF off]) (auto simp: log_step_def)
  qed
qed

lemma page_update_returns:
  assumes lm: "log_machine s0 m" and sha: "log_hash sha m" and page: "page \<in> set kPages"
    and sh: "found best info bd" and es: "es = log_page (log_mem s0 m) page"
    and ne: "\<And>i b j. best = Some (i, b) \<Longrightarrow> last_live sha es = Some j \<Longrightarrow>
      bd_counter b \<noteq> bd_counter (boot_data_of_words (es ! j))"
  shows "returns (boot_data_page_info_update page info bd) (\<lambda>(e, info', bd') t. e = kErrorOk \<and>
     found (newer sha page es best) info' bd' \<and> log_step s0 m t (log_mem s0 m)) m"
proof -
  have body: "returns (boot_data_page_info_update_impl page info bd) (\<lambda>r u. log_step s0 t u (log_mem s0 u) \<and>
     (case r of (e, info', bd') \<Rightarrow> e = kErrorOk \<and> found (newer sha page es best) info' bd' \<and> log_mem s0 u = log_mem s0 m)) t"
    if t: "log_step s0 m t (log_mem s0 m)"
      "allows (fl_cfg (info_at s0 t) (log_cfg page)) (perms kMultiBitBool4True kMultiBitBool4False kMultiBitBool4False)" for t
  proof -
    have d: "flash_device s0 (plat t)" "readable s0 t page" "es = log_page (log_mem s0 t) page" "log_hash sha t" "log_machine s0 t"
      using t sha es lm by (auto simp: log_step_def log_machine_def allows_def perms_def log_hash_def)
    have mrg: "\<exists>info' bd'. page_info_merge (page_summary sha page es) b info bd u = Done (info', bd') u \<and>
        found (newer sha page es best) info' bd' \<and> log_step s0 t u (log_mem s0 u) \<and> log_mem s0 u = log_mem s0 m"
      if k: "keeps s0 t u" and b: "\<forall>j. last_live sha es = Some j \<longrightarrow> b = boot_data_of_words (es ! j)" for b u
    proof -
      have "log_step s0 t u (log_mem s0 u)" "log_mem s0 u = log_mem s0 m"
        using keeps_log_step [OF d(5) k] t(1) by (simp_all add: log_step_def)
      then show ?thesis using merge_returns [of best info bd sha es b page u] sh b ne by blast
    qed
    show ?thesis
      unfolding boot_data_page_info_update_impl_def
      by (rule returns_bind, rule returns_mono [OF page_scan_returns [OF d(1) page d(2-4)]])
        (auto simp: wp_def dest!: mrg)
  qed
  have "returns (boot_data_page_info_update page info bd) (\<lambda>r u. log_step s0 m u (log_mem s0 u) \<and>
     (case r of (e, info', bd') \<Rightarrow> e = kErrorOk \<and> found (newer sha page es best) info' bd' \<and> log_mem s0 u = log_mem s0 m)) m"
    unfolding boot_data_page_info_update_def by (rule guarded_returns [OF lm page]) (rule body)
  then show ?thesis by (rule returns_mono) auto
qed

lemma newer_counter:
  "newer sha page es None = Some (i, b) \<Longrightarrow> \<exists>j. last_live sha es = Some j \<and> b = boot_data_of_words (es ! j)"
  by (auto simp: newer_def split: option.splits)

lemma active_find_returns:
  assumes lm: "log_machine s0 m" and sha: "log_hash sha m" and ord: "log_ordered sha (log_mem s0 m)"
  shows "returns (boot_data_active_page_find bd) (\<lambda>(e, info, bd') t. e = kErrorOk \<and>
     found (log_newest sha (log_mem s0 m)) info bd' \<and> log_step s0 m t (log_mem s0 m)) m"
proof -
  let ?p0 = "kPages ! 0" and ?p1 = "kPages ! 1"
  let ?es0 = "log_page (log_mem s0 m) ?p0" and ?es1 = "log_page (log_mem s0 m) ?p1"
  have pages: "kPages = [?p0, ?p1]" "?p0 \<in> set kPages" "?p1 \<in> set kPages" by (simp_all add: kPages_def)
  have newest: "log_newest sha (log_mem s0 m) = newer sha ?p1 ?es1 (newer sha ?p0 ?es0 None)"
    unfolding log_newest_def by (subst pages(1)) simp
  have one: "returns (boot_data_page_info_update ?p0 no_active_page bd) (\<lambda>(e, info', bd') t. e = kErrorOk \<and>
     found (newer sha ?p0 ?es0 None) info' bd' \<and> log_step s0 m t (log_mem s0 m)) m"
    by (rule page_update_returns [OF lm sha pages(2) _ refl]) (simp_all add: found_def)
  have two: "returns (boot_data_page_info_update ?p1 info' bd') (\<lambda>(e, info, bd'') u. e = kErrorOk \<and>
     found (log_newest sha (log_mem s0 m)) info bd'' \<and> log_step s0 m u (log_mem s0 m)) t"
    if t: "found (newer sha ?p0 ?es0 None) info' bd'" "log_step s0 m t (log_mem s0 m)" for info' bd' t
  proof -
    have t1: "log_machine s0 t" "log_hash sha t" "?es1 = log_page (log_mem s0 t) ?p1"
      using t(2) sha by (simp_all add: log_step_def log_hash_def)
    have ne: "bd_counter b \<noteq> bd_counter (boot_data_of_words (?es1 ! j))"
      if "newer sha ?p0 ?es0 None = Some (i, b)" "last_live sha ?es1 = Some j" for i b j
      using ord newer_counter [OF that(1)] that(2) by (auto simp: log_ordered_def page_counter_def Let_def)
    show ?thesis
      unfolding newest
      by (rule returns_mono [OF page_update_returns [OF t1(1,2) pages(3) t(1) t1(3) ne]])
        (use t(2) in \<open>auto simp: log_step_def\<close>)
  qed
  show ?thesis
    unfolding boot_data_active_page_find_def
    apply (subst pages(1)) unfolding active_page_loop.simps
    apply (rule returns_bind, rule returns_mono [OF one])
    apply (clarsimp simp del: if_app)
    apply (rule returns_bind, rule returns_mono [OF two [unfolded One_nat_def]], assumption, assumption)
    apply (auto simp: wp_def)
    done
qed

section \<open>Writing an entry\<close>

text \<open>An entry as the code writes it: all words present, and the field that is skipped already
  has the value of erased flash.\<close>

definition writable :: "boot_data \<Rightarrow> bool" where
  "writable b \<longleftrightarrow> digest_shaped b \<and> bd_is_valid b = kBootDataValidEntry \<and> length (bd_padding b) = 8"

definition put_words :: "nat \<Rightarrow> u32 list \<Rightarrow> (nat \<Rightarrow> u32) \<Rightarrow> nat \<Rightarrow> u32" where
  "put_words p ws mem = (\<lambda>k. if p \<le> k \<and> k < p + length ws then ws ! (k - p) else mem k)"

lemma length_boot_data_words [simp]: "digest_shaped b \<Longrightarrow> length (boot_data_words b) = 16"
  by (simp add: boot_data_words_def)

lemma length_word_concat [simp]: "length (concat (map word_bytes ws)) = 4 * length ws"
  by (induction ws) simp_all

lemma memcmp_same: "len \<le> length bs \<Longrightarrow> memcmp p bs q bs len = kMemCmpEq"
  by (simp add: memcmp_value cmp_step_def)

lemma valid_words: "writable b \<Longrightarrow> boot_data_words b ! 8 = kFlashCtrlErasedWord \<and> boot_data_words b ! 9 = kFlashCtrlErasedWord"
  by (simp add: writable_def boot_data_words_def nth_append)

lemma blank_nth: "blank ws \<Longrightarrow> k < length ws \<Longrightarrow> ws ! k = - 1"
  by (simp add: blank_def list_all_length)

lemma put_entry:
  assumes "writable b" and blank: "blank (entry_words mem w i)"
  shows "programmed (w + (16 * i + 10)) (drop 10 (boot_data_words b))
     (programmed (w + 16 * i) (take 8 (boot_data_words b)) mem) = put_words (w + 16 * i) (boot_data_words b) mem"
proof
  fix k
  let ?p = "w + 16 * i"
  have len: "length (boot_data_words b) = 16" using assms(1) by (simp add: writable_def)
  have ones: "mem k = - 1" if "?p \<le> k" "k < ?p + 16"
    using blank_nth [OF blank, of "k - ?p"] that by (simp add: entry_nth)
  have k: "k = ?p + 8 \<or> k = ?p + 9 \<or> k < ?p + 8 \<or> ?p + 10 \<le> k" by linarith
  show "programmed (w + (16 * i + 10)) (drop 10 (boot_data_words b)) (programmed ?p (take 8 (boot_data_words b)) mem) k =
    put_words ?p (boot_data_words b) mem k"
    using ones valid_words [OF assms(1)] k len by (auto simp: programmed_def put_words_def diff_diff_add)
qed

lemma entry_put:
  "length ws = 16 \<Longrightarrow> entry_words (put_words (w + 16 * i) ws mem) w i = ws"
  by (simp add: list_eq_iff_nth_eq entry_nth put_words_def)

lemma programmed_other: "k < p \<or> p + length ws \<le> k \<Longrightarrow> programmed p ws mem k = mem k"
  by (auto simp: programmed_def)

abbreviation entry_slot :: "info_flash \<Rightarrow> machine \<Rightarrow> u32 \<Rightarrow> nat \<Rightarrow> bool" where
  "entry_slot s0 t page i \<equiv> blank (entry_words (log_mem s0 t) (log_base page) i)"

lemma programmable_returns:
  assumes lm: "flash_device s0 (plat m)" and page: "page \<in> set kPages" and i: "i < 32"
    and al: "allows (fl_cfg (info_at s0 m) (log_cfg page)) (perms kMultiBitBool4True kMultiBitBool4True e)"
    and b: "writable b" and blank: "entry_slot s0 m page i"
  shows "returns (RETURN_IF_ERROR (flash_ctrl_info_write page (entry_offset (of_nat i)) (take kHmacDigestNumWords (boot_data_words b)))
     (RETURN_IF_ERROR (flash_ctrl_info_write page (entry_offset (of_nat i) + kSecondWriteOffsetBytes)
       (drop kSecondWriteOffsetWords (boot_data_words b)))
     ((bindM (flash_ctrl_info_read page (entry_offset (of_nat i)) (of_nat kBootDataNumWords)) (\<lambda>(error, written).
    if error \<noteq> kErrorOk then returnM error else
    if memcmp 0 (concat (map word_bytes written)) 0 (boot_data_bytes b) (unat sizeof_boot_data) \<noteq> 0
     then returnM kErrorBootDataWriteCheck
     else returnM kErrorOk)))))
    (\<lambda>r t. r = kErrorOk \<and> same_cfg s0 m t \<and>
      log_mem s0 t = put_words (log_base page + 16 * i) (boot_data_words b) (log_mem s0 m)) m"
proof -
  let ?p = "log_base page + 16 * i"
  have perm: "readable s0 m page" "permitted FLASH_CTRL_BANK0_INFO0_PAGE_CFG_0_PROG_EN_0_FIELD (fl_cfg (info_at s0 m) (log_cfg page))"
    using al by (simp_all add: allows_def perms_def)
  have len: "length (boot_data_words b) = 16" using b by (simp add: writable_def)
  then have "boot_data_words b \<noteq> []" by auto
  have w1: "returns (flash_ctrl_info_write page (entry_offset (of_nat i)) (take kHmacDigestNumWords (boot_data_words b)))
     (\<lambda>e t. e = kErrorOk \<and> same_cfg s0 m t \<and> log_mem s0 t = programmed ?p (take 8 (boot_data_words b)) (log_mem s0 m)) m"
    using info_write_returns [OF lm page, of "entry_offset (of_nat i)" "16 * i" "take 8 (boot_data_words b)"]
      entry_offset_word [of i 0] i len perm(2) \<open>boot_data_words b \<noteq> []\<close> by simp
  have w2: "returns (flash_ctrl_info_write page (entry_offset (of_nat i) + kSecondWriteOffsetBytes) (drop kSecondWriteOffsetWords (boot_data_words b)))
     (\<lambda>e u. e = kErrorOk \<and> same_cfg s0 m u \<and> log_mem s0 u = put_words ?p (boot_data_words b) (log_mem s0 m)) t"
    if t: "same_cfg s0 m t" "log_mem s0 t = programmed ?p (take 8 (boot_data_words b)) (log_mem s0 m)" for t
  proof -
    have t': "flash_device s0 (plat t)" "permitted FLASH_CTRL_BANK0_INFO0_PAGE_CFG_0_PROG_EN_0_FIELD (fl_cfg (info_at s0 t) (log_cfg page))"
      using lm perm(2) t(1) log_cfg_in [OF page] by (simp_all add: same_cfg_def)
    show ?thesis
      by (rule returns_mono [OF info_write_returns [OF t'(1) page _ _ _ _ t'(2), where k = "16 * i + 10"]])
        (use entry_offset_word [of i 10] i len same_cfg_trans [OF t(1)] in
          \<open>auto simp: put_entry [OF b blank, symmetric] t(2)\<close>)
  qed
  have rd: "returns (flash_ctrl_info_read page (entry_offset (of_nat i)) (of_nat kBootDataNumWords))
     (\<lambda>(e, ws) v. e = kErrorOk \<and> ws = boot_data_words b \<and> same_cfg s0 m v \<and>
        log_mem s0 v = put_words ?p (boot_data_words b) (log_mem s0 m)) u"
    if u: "same_cfg s0 m u" "log_mem s0 u = put_words ?p (boot_data_words b) (log_mem s0 m)" for u
  proof -
    have u': "flash_device s0 (plat u)" "readable s0 u page"
      using lm perm(1) u(1) log_cfg_in [OF page] by (simp_all add: same_cfg_def)
    show ?thesis
      using entry_read_returns [OF u'(1) page i u'(2)] entry_put [OF len(1), of "log_base page" i "log_mem s0 m"]
      unfolding boot_data_entry_read_def u(2)
      by (elim returns_mono) (auto simp: keeps_same_cfg u(2) intro: same_cfg_trans [OF u(1)])
  qed
  have cmp: "memcmp 0 (concat (map word_bytes (boot_data_words b))) 0 (boot_data_bytes b) (unat sizeof_boot_data) = 0"
    using memcmp_same [of 64 "boot_data_bytes b" 0 0] by (simp add: boot_data_bytes_def len)
  show ?thesis
    unfolding RETURN_IF_ERROR_def
    apply (rule returns_bind, rule returns_mono [OF w1], clarsimp simp del: if_app)
    apply (rule returns_bind, rule returns_mono [OF w2], assumption, assumption, clarsimp simp del: if_app)
    apply (rule returns_bind, rule returns_mono [OF rd [unfolded of_nat_numeral]], assumption, assumption)
    using cmp by (auto simp: wp_def)
qed

lemma log_base_page: "page \<in> set kPages \<Longrightarrow> k < 512 \<Longrightarrow> (log_base page + k) div 512 = log_base page div 512"
  by (simp add: log_base_def div_add1_eq)

lemma erased_slot:
  assumes "page \<in> set kPages" "i < 32"
  shows "blank (entry_words (erased_page (log_base page) mem) (log_base page) i)"
  using log_base_page [OF assms(1)] assms(2)
  by (simp add: blank_def list_all_length entry_nth erased_page_def add.assoc)

lemma same_cfg_log_step':
  "log_machine s0 m \<Longrightarrow> same_cfg s0 m t \<Longrightarrow> log_mem s0 t = mem \<Longrightarrow> log_step s0 m t mem"
  using same_cfg_log_step by blast

lemma log_stepD: "log_step s0 m t mem \<Longrightarrow> log_machine s0 t" "log_step s0 m t mem \<Longrightarrow> flash_device s0 (plat t)"
  by (auto simp: log_step_def) (auto simp: log_machine_def)

abbreviation slot_mem :: "u32 \<Rightarrow> u32 \<Rightarrow> (nat \<Rightarrow> u32) \<Rightarrow> nat \<Rightarrow> u32" where
  "slot_mem page erase mem \<equiv> if erase = kHardenedBoolTrue then erased_page (log_base page) mem else mem"

lemma entry_write_returns:
  assumes lm: "log_machine s0 m" and page: "page \<in> set kPages" and i: "i < 32" and b: "writable b"
    and blank: "blank (entry_words (slot_mem page erase (log_mem s0 m)) (log_base page) i)"
  shows "returns (boot_data_entry_write page (of_nat i) b erase) (\<lambda>r u. log_step s0 m u (log_mem s0 u) \<and>
     (r = kErrorOk \<and> log_mem s0 u = put_words (log_base page + 16 * i) (boot_data_words b)
       (slot_mem page erase (log_mem s0 m)))) m"
  unfolding boot_data_entry_write_def
proof (rule guarded_returns [OF lm page])
  fix t
  let ?perms = "perms kMultiBitBool4True kMultiBitBool4True (if erase = kHardenedBoolTrue then kMultiBitBool4True else kMultiBitBool4False)"
  let ?mem = "slot_mem page erase (log_mem s0 m)"
  assume t: "log_step s0 m t (log_mem s0 m)" and al: "allows (fl_cfg (info_at s0 t) (log_cfg page)) ?perms"
  have dev: "flash_device s0 (plat t)" "log_machine s0 t" using log_stepD [OF t] by simp_all
  have er: "returns (if erase = kHardenedBoolTrue then flash_ctrl_info_erase page kFlashCtrlEraseTypePage else returnM kErrorOk)
     (\<lambda>e u. e = kErrorOk \<and> same_cfg s0 t u \<and> log_mem s0 u = ?mem) t"
  proof (cases "erase = kHardenedBoolTrue")
    case True
    then show ?thesis
      using info_erase_returns [OF dev(1) page] al t by (simp add: allows_def perms_def log_step_def)
  next
    case False
    then show ?thesis using t by (simp add: wp_def same_cfg_def log_step_def)
  qed
  show "returns (boot_data_entry_write_impl page (of_nat i) b erase) (\<lambda>r u. log_step s0 t u (log_mem s0 u) \<and>
     (r = kErrorOk \<and> log_mem s0 u = put_words (log_base page + 16 * i) (boot_data_words b) ?mem)) t"
    unfolding boot_data_entry_write_impl_def Let_def
    apply (subst RETURN_IF_ERROR_def, rule returns_bind, rule returns_mono [OF er], clarsimp simp del: if_app split del: if_split)
    subgoal premises p for u
    proof -
      have u: "flash_device s0 (plat u)" "allows (fl_cfg (info_at s0 u) (log_cfg page)) ?perms" "entry_slot s0 u page i"
        using p dev(1) al log_cfg_in [OF page] blank by (simp_all add: same_cfg_def split del: if_split)
      show ?thesis
        by (rule returns_mono [OF programmable_returns [OF u(1) page i u(2) b u(3), simplified]])
          (use p in \<open>auto intro!: same_cfg_log_step' [OF dev(2)] intro: same_cfg_trans split del: if_split\<close>)
    qed
    done
qed

definition invalidated :: "nat \<Rightarrow> (nat \<Rightarrow> u32) \<Rightarrow> nat \<Rightarrow> u32" where
  "invalidated p mem = mem(p + 8 := 0, p + 9 := 0)"

lemma programmed_zeros: "programmed (p + 8) [0, 0] mem = invalidated p mem"
  by (auto simp: programmed_def invalidated_def fun_eq_iff nth_Cons')

lemma invalidate_returns:
  assumes lm: "log_machine s0 m" and page: "page \<in> set kPages" and i: "i < 32"
  shows "returns (boot_data_entry_invalidate page (of_nat i)) (\<lambda>r u. log_step s0 m u (log_mem s0 u) \<and>
     (r = kErrorOk \<and> log_mem s0 u = invalidated (log_base page + 16 * i) (log_mem s0 m))) m"
  unfolding boot_data_entry_invalidate_def Let_def
proof (rule guarded_returns [OF lm page])
  fix t
  assume t: "log_step s0 m t (log_mem s0 m)"
    and al: "allows (fl_cfg (info_at s0 t) (log_cfg page)) (perms kMultiBitBool4False kMultiBitBool4True kMultiBitBool4False)"
  have dev: "flash_device s0 (plat t)" "log_machine s0 t" using log_stepD [OF t] by simp_all
  have perm: "permitted FLASH_CTRL_BANK0_INFO0_PAGE_CFG_0_PROG_EN_0_FIELD (fl_cfg (info_at s0 t) (log_cfg page))"
    using al by (simp add: allows_def perms_def)
  show "returns (flash_ctrl_info_write page (entry_offset (of_nat i) + kIsValidOffset) [0, 0]) (\<lambda>r u. log_step s0 t u (log_mem s0 u) \<and>
     (r = kErrorOk \<and> log_mem s0 u = invalidated (log_base page + 16 * i) (log_mem s0 m))) t"
    by (rule returns_mono [OF info_write_returns [OF dev(1) page _ _ _ _ perm, where k = "16 * i + 8"]])
      (use entry_offset_word [of i 8] i t programmed_zeros [of "log_base page + 16 * i"] in
        \<open>auto simp: log_step_def [of s0 m] add.assoc intro: same_cfg_log_step' [OF dev(2)]\<close>)
qed

section \<open>Operations on pages of entries\<close>

lemma first_blank_iff:
  "first_blank es = n \<longleftrightarrow> n \<le> length es \<and> (\<forall>j<n. \<not> blank (es ! j)) \<and> (n < length es \<longrightarrow> blank (es ! n))"
proof
  assume "first_blank es = n"
  then show "n \<le> length es \<and> (\<forall>j<n. \<not> blank (es ! j)) \<and> (n < length es \<longrightarrow> blank (es ! n))"
    unfolding first_blank_def
    by (auto simp: length_takeWhile_le dest: nth_length_takeWhile)
      (metis nth_mem set_takeWhileD takeWhile_nth)
next
  assume r: "n \<le> length es \<and> (\<forall>j<n. \<not> blank (es ! j)) \<and> (n < length es \<longrightarrow> blank (es ! n))"
  then have "takeWhile (\<lambda>e. \<not> blank e) es = take n es" by (intro takeWhile_eq_take_P_nth) auto
  then show "first_blank es = n" using r by (simp add: first_blank_def)
qed

lemma find_rev_upt:
  "find P (rev [0..<n]) = Some j \<longleftrightarrow> j < n \<and> P j \<and> (\<forall>k. j < k \<longrightarrow> k < n \<longrightarrow> \<not> P k)"
  by (induction n) (auto simp: less_Suc_eq)

lemma find_rev_none: "find P (rev [0..<n]) = None \<longleftrightarrow> (\<forall>k<n. \<not> P k)"
  by (auto simp: find_None_iff)

definition live_slots :: "(u8 list \<Rightarrow> u32 list) \<Rightarrow> u32 list list \<Rightarrow> nat set" where
  "live_slots sha es = {j. j < first_blank es \<and> live sha (es ! j)}"

lemma last_live_Some: "last_live sha es = Some j \<longleftrightarrow> j \<in> live_slots sha es \<and> (\<forall>k\<in>live_slots sha es. k \<le> j)"
  unfolding last_live_def find_rev_upt live_slots_def by (auto simp: not_less)

lemma last_live_None: "last_live sha es = None \<longleftrightarrow> live_slots sha es = {}"
  unfolding last_live_def find_rev_none live_slots_def by auto

text \<open>Only blank entries follow the first blank one.\<close>

definition tail_blank :: "u32 list list \<Rightarrow> bool" where
  "tail_blank es \<longleftrightarrow> (\<forall>j. first_blank es \<le> j \<longrightarrow> j < length es \<longrightarrow> blank (es ! j))"

text \<open>Appending, invalidating, and starting an erased page.\<close>

definition zeroed :: "u32 list \<Rightarrow> u32 list" where
  "zeroed ws = ws[8 := 0, 9 := 0]"

lemma append_slot:
  assumes "first_blank es = i" "i < length es" "tail_blank es" "\<not> blank ws"
  shows "first_blank (es[i := ws]) = Suc i" "tail_blank (es[i := ws])"
    "live_slots sha (es[i := ws]) = live_slots sha es \<union> (if live sha ws then {i} else {})"
proof -
  show f: "first_blank (es[i := ws]) = Suc i"
    using assms(2,4) assms(1) [unfolded first_blank_iff] assms(3) [unfolded tail_blank_def assms(1)]
    unfolding first_blank_iff by (auto simp: nth_list_update less_Suc_eq)
  show "tail_blank (es[i := ws])"
    using assms(1,3) unfolding tail_blank_def f by (auto simp: nth_list_update)
  show "live_slots sha (es[i := ws]) = live_slots sha es \<union> (if live sha ws then {i} else {})"
    using assms(1,2) unfolding live_slots_def f by (auto simp: nth_list_update less_Suc_eq)
qed

lemma zeroed_dead: "length ws = 16 \<Longrightarrow> \<not> blank (zeroed ws) \<and> \<not> live sha (zeroed ws)"
proof -
  assume "length ws = 16"
  then have "zeroed ws ! 8 = 0" "8 < length (zeroed ws)" by (simp_all add: zeroed_def)
  then show ?thesis using blank_nth [of "zeroed ws" 8] by (auto simp: live_def sniffed_def)
qed

lemma kill_slot:
  assumes "j < first_blank es" "\<not> blank ws" "\<not> live sha ws"
  shows "first_blank (es[j := ws]) = first_blank es" "live_slots sha (es[j := ws]) = live_slots sha es - {j}"
    "tail_blank es \<Longrightarrow> tail_blank (es[j := ws])"
proof -
  have len: "first_blank es \<le> length es" by (rule first_blank_le)
  have b: "\<forall>j<first_blank es. \<not> blank (es ! j)" "first_blank es < length es \<longrightarrow> blank (es ! first_blank es)"
    using first_blank_iff [of es "first_blank es"] by auto
  show f: "first_blank (es[j := ws]) = first_blank es"
    unfolding first_blank_iff using assms(1,2) len b by (auto simp: nth_list_update)
  show "live_slots sha (es[j := ws]) = live_slots sha es - {j}"
    unfolding live_slots_def f using assms(1,3) len by (auto simp: nth_list_update)
  show "tail_blank (es[j := ws])" if "tail_blank es"
    using that assms(1) unfolding tail_blank_def f by (auto simp: nth_list_update)
qed

abbreviation (input) erased_entries :: "u32 list list" where
  "erased_entries \<equiv> replicate 32 (replicate 16 kFlashCtrlErasedWord)"

lemma erased_entries_blank: "first_blank erased_entries = 0" "tail_blank erased_entries" "live_slots sha erased_entries = {}"
proof -
  have bl: "blank (replicate 16 kFlashCtrlErasedWord)" by (simp add: blank_def list_all_length)
  then show f: "first_blank erased_entries = 0" unfolding first_blank_iff by simp
  show "tail_blank erased_entries" using bl by (simp add: tail_blank_def)
  show "live_slots sha erased_entries = {}" unfolding live_slots_def f by simp
qed

lemma start_slot:
  assumes "\<not> blank ws"
  shows "tail_blank (erased_entries[0 := ws])"
    "live_slots sha (erased_entries[0 := ws]) = (if live sha ws then {0} else {})"
  using append_slot [OF erased_entries_blank(1) _ erased_entries_blank(2) assms] erased_entries_blank(3) by auto

section \<open>Entries in memory\<close>

lemma entry_words_cong:
  "(\<And>d. d < 16 \<Longrightarrow> mem (w + 16 * i + d) = mem' (w + 16 * i + d)) \<Longrightarrow> entry_words mem w i = entry_words mem' w i"
  by (simp add: list_eq_iff_nth_eq entry_nth)

lemma log_page_put:
  assumes "page \<in> set kPages" "page' \<in> set kPages" "i < 32" "length ws = 16"
  shows "log_page (put_words (log_base page + 16 * i) ws mem) page' =
    (if page' = page then (log_page mem page)[i := ws] else log_page mem page')"
proof (rule nth_equalityI)
  fix k assume "k < length (log_page (put_words (log_base page + 16 * i) ws mem) page')"
  then have k: "k < 32" by simp
  show "log_page (put_words (log_base page + 16 * i) ws mem) page' ! k =
    (if page' = page then (log_page mem page)[i := ws] else log_page mem page') ! k"
  proof (cases "page' = page \<and> k = i")
    case True
    then show ?thesis using k entry_put [OF assms(4)] by simp
  next
    case False
    have "entry_words (put_words (log_base page + 16 * i) ws mem) (log_base page') k = entry_words mem (log_base page') k"
    proof (rule entry_words_cong)
      fix d :: nat assume d: "d < 16"
      have ne: "\<not> (log_base page + 16 * i \<le> log_base page' + 16 * k + d \<and> log_base page' + 16 * k + d < log_base page + 16 * i + 16)"
        using False k d assms(1-3) by (auto simp: log_base_def dest!: log_page_cases)
      then show "put_words (log_base page + 16 * i) ws mem (log_base page' + 16 * k + d) = mem (log_base page' + 16 * k + d)"
        using assms(4) by (auto simp: put_words_def)
    qed
    then show ?thesis using False k by auto
  qed
qed simp

lemma invalidated_put:
  "invalidated p mem = put_words p (zeroed (map mem [p..<p + 16])) mem"
  by (auto simp: invalidated_def put_words_def zeroed_def fun_eq_iff nth_list_update)

lemma log_page_invalidated:
  assumes "page \<in> set kPages" "page' \<in> set kPages" "i < 32"
  shows "log_page (invalidated (log_base page + 16 * i) mem) page' =
    (if page' = page then (log_page mem page)[i := zeroed (log_page mem page ! i)] else log_page mem page')"
proof -
  have e: "map mem [log_base page + 16 * i..<log_base page + 16 * i + 16] = log_page mem page ! i"
    using assms(3) by (simp add: entry_words_def)
  show ?thesis unfolding invalidated_put e using assms by (intro log_page_put) (simp_all add: zeroed_def)
qed

lemma log_page_erased:
  assumes "page \<in> set kPages" "page' \<in> set kPages"
  shows "log_page (erased_page (log_base page) mem) page' = (if page' = page then erased_entries else log_page mem page')"
proof (rule nth_equalityI)
  fix k assume "k < length (log_page (erased_page (log_base page) mem) page')"
  then have k: "k < 32" by simp
  have d: "(log_base page' + 16 * k + d) div 512 = log_base page div 512 \<longleftrightarrow> page' = page" if "d < 16" for d
    using log_base_page [OF assms(2), of "16 * k + d"] that k assms by (auto simp: log_base_def add.assoc dest!: log_page_cases)
  have "entry_words (erased_page (log_base page) mem) (log_base page') k =
      (if page' = page then replicate 16 kFlashCtrlErasedWord else entry_words mem (log_base page') k)"
    using d by (auto simp: list_eq_iff_nth_eq entry_nth erased_page_def)
  then show "log_page (erased_page (log_base page) mem) page' ! k =
      (if page' = page then erased_entries else log_page mem page') ! k"
    using k by simp
qed simp

section \<open>The new entry\<close>

definition new_entry :: "(u8 list \<Rightarrow> u32 list) \<Rightarrow> boot_data \<Rightarrow> u32 \<Rightarrow> boot_data" where
  "new_entry sha b c = (let b' = b\<lparr>bd_is_valid := kBootDataValidEntry, bd_identifier := kBootDataIdentifier, bd_counter := c\<rparr>
     in b'\<lparr>bd_digest := entry_digest sha b'\<rparr>)"

lemma bytes_words: "length p = 8 \<Longrightarrow> word_bytes (buf_word p 0) @ word_bytes (buf_word p 4) = p"
  by (rule nth_equalityI) (auto simp: buf_word_def numeral_eq_Suc less_Suc_eq)

lemma boot_data_words_inverse:
  assumes "digest_shaped b" "length (bd_padding b) = 8"
  shows "boot_data_of_words (boot_data_words b) = b"
proof -
  have v: "push_bit 32 (ucast (ucast (drop_bit 32 v) :: u32)) OR ucast (ucast v :: u32) = v" for v :: u64
    by (rule bit_word_eqI) (auto simp: bit_simps)
  show ?thesis
    using assms bytes_words [OF assms(2)]
    by (cases b) (simp add: boot_data_of_words_def boot_data_words_def nth_append v)
qed

lemma new_entry_props:
  assumes sha: "\<forall>msg. length (sha msg) = 8" and b: "digest_shaped b" "length (bd_padding b) = 8"
  shows "writable (new_entry sha b c)" "boot_data_of_words (boot_data_words (new_entry sha b c)) = new_entry sha b c"
    "live sha (boot_data_words (new_entry sha b c))" "\<not> blank (boot_data_words (new_entry sha b c))"
proof -
  let ?e = "new_entry sha b c"
  let ?b = "b\<lparr>bd_is_valid := kBootDataValidEntry, bd_identifier := kBootDataIdentifier, bd_counter := c\<rparr>"
  have d: "digest_shaped ?e" using sha by (simp add: new_entry_def Let_def entry_digest_def)
  show w: "writable ?e" using d b(2) by (simp add: writable_def new_entry_def Let_def)
  show inv: "boot_data_of_words (boot_data_words ?e) = ?e"
    using d b(2) by (intro boot_data_words_inverse) (simp_all add: new_entry_def Let_def)
  have i: "boot_data_words ?e ! 10 = kBootDataIdentifier"
    using d by (simp add: boot_data_words_def nth_append) (simp add: new_entry_def Let_def)
  have "?e = signed_entry sha ?b" by (simp add: new_entry_def Let_def signed_entry_id)
  then have "entry_accepted sha ?e" using signed_entry_accepted [OF sha, of ?b] b(1) by simp
  then show "live sha (boot_data_words ?e)"
    using valid_words [OF w] i inv by (simp add: live_def sniffed_def)
  show "\<not> blank (boot_data_words ?e)"
    using blank_nth [of "boot_data_words ?e" 10] i d by auto
qed

section \<open>Writing boot data\<close>

lemma log_newest_Some:
  assumes "log_newest sha mem = Some (info, lst)"
  obtains page j where "page \<in> set kPages" "last_live sha (log_page mem page) = Some j"
    "info = page_summary sha page (log_page mem page)" "lst = boot_data_of_words (log_page mem page ! j)"
proof -
  have "\<exists>page\<in>set kPages. \<exists>j. last_live sha (log_page mem page) = Some j \<and>
      info = page_summary sha page (log_page mem page) \<and> lst = boot_data_of_words (log_page mem page ! j)"
    using assms by (auto simp: log_newest_def kPages_def newer_def Let_def split: option.splits if_splits)
  then show thesis using that by blast
qed

text \<open>What a write does to the memory of the log.\<close>

definition other_page :: "u32 \<Rightarrow> u32" where
  "other_page page = (if page = kPages ! 0 then kPages ! 1 else kPages ! 0)"

definition log_put :: "(u8 list \<Rightarrow> u32 list) \<Rightarrow> boot_data \<Rightarrow> (nat \<Rightarrow> u32) \<Rightarrow> nat \<Rightarrow> u32" where
  "log_put sha b mem = (case log_newest sha mem of
     None \<Rightarrow> put_words (log_base (kPages ! 0)) (boot_data_words (new_entry sha b (kBootDataDefaultCounterVal + 1)))
       (erased_page (log_base (kPages ! 0)) mem)
   | Some (info, lst) \<Rightarrow>
       let ws = boot_data_words (new_entry sha b (bd_counter lst + 1)); page = ap_page info
       in invalidated (log_base page + 16 * unat (ap_last_valid_index info))
         (if ap_has_empty_entry info = kHardenedBoolTrue
          then put_words (log_base page + 16 * unat (ap_first_empty_index info)) ws mem
          else put_words (log_base (other_page page)) ws (erased_page (log_base (other_page page)) mem)))"

lemma returns_error:
  "returns e (\<lambda>r t. r = kErrorOk \<and> P t) m \<Longrightarrow> (\<And>t. P t \<Longrightarrow> returns rest Q t) \<Longrightarrow> returns (RETURN_IF_ERROR e rest) Q m"
  unfolding RETURN_IF_ERROR_def by (rule returns_bind, erule returns_mono) auto

lemma first_write_returns:
  assumes lm: "log_machine s0 m" and b: "writable b"
  shows "returns (boot_data_entry_write (kPages ! 0) 0 b kHardenedBoolTrue) (\<lambda>r u. r = kErrorOk \<and>
     log_step s0 m u (put_words (log_base (kPages ! 0)) (boot_data_words b) (erased_page (log_base (kPages ! 0)) (log_mem s0 m)))) m"
proof -
  have page: "kPages ! 0 \<in> set kPages" by (simp add: kPages_def)
  show ?thesis
    by (rule returns_mono [OF entry_write_returns [OF lm page _ b, of 0 kHardenedBoolTrue, simplified]])
      (use erased_slot [OF page, of 0] in auto)
qed

lemma write_returns:
  assumes lm: "log_machine s0 m" and sha: "log_hash sha m" and ord: "log_ordered sha (log_mem s0 m)"
    and b: "digest_shaped b" "length (bd_padding b) = 8"
  shows "returns (boot_data_write stack b) (\<lambda>e t. e = kErrorOk \<and> log_step s0 m t (log_put sha b (log_mem s0 m))) m"
proof -
  let ?mem = "log_mem s0 m"
  let ?b = "b\<lparr>bd_is_valid := kBootDataValidEntry, bd_identifier := kBootDataIdentifier\<rparr>"
  have sha8: "\<forall>msg. length (sha msg) = 8" using sha by (simp add: log_hash_def)
  have dg: "returns (boot_data_digest_compute (?b\<lparr>bd_counter := c\<rparr>))
      (\<lambda>d u. (?b\<lparr>bd_counter := c, bd_digest := d\<rparr>) = new_entry sha b c \<and> log_step s0 m u ?mem) t"
    if t: "log_step s0 m t ?mem" for c t
  proof -
    have "log_hash sha t" using sha t by (simp add: log_hash_def log_step_def)
    then show ?thesis
      by (rule returns_mono [OF digest_returns])
        (use keeps_log_step [OF log_stepD(1) [OF t]] t in \<open>auto simp: new_entry_def Let_def log_step_def\<close>)
  qed
  note e = new_entry_props [OF sha8 b]
  have go: "returns (if ap_has_valid_entry info = kHardenedBoolTrue
     then (bindM (boot_data_digest_compute (?b\<lparr>bd_counter := bd_counter lst + 1\<rparr>)) (\<lambda>digest.
    RETURN_IF_ERROR ((if ap_has_empty_entry info = kHardenedBoolTrue
         then boot_data_entry_write (ap_page info) (ap_first_empty_index info)
           (?b\<lparr>bd_counter := bd_counter lst + 1, bd_digest := digest\<rparr>) kHardenedBoolFalse
         else boot_data_entry_write (if ap_page info = kPages ! 0 then kPages ! 1 else kPages ! 0) 0
           (?b\<lparr>bd_counter := bd_counter lst + 1, bd_digest := digest\<rparr>) kHardenedBoolTrue)) (
    RETURN_IF_ERROR ((boot_data_entry_invalidate (ap_page info) (ap_last_valid_index info))) (
    returnM kErrorOk))))
     else (bindM (boot_data_digest_compute (?b\<lparr>bd_counter := kBootDataDefaultCounterVal + 1\<rparr>)) (\<lambda>digest.
    RETURN_IF_ERROR ((boot_data_entry_write (kPages ! 0) 0
         (?b\<lparr>bd_counter := kBootDataDefaultCounterVal + 1, bd_digest := digest\<rparr>) kHardenedBoolTrue)) (
    returnM kErrorOk)))) (\<lambda>e t. e = kErrorOk \<and> log_step s0 m t (log_put sha b ?mem)) t"
    if t: "log_step s0 m t ?mem" and f: "found (log_newest sha ?mem) info lst" for info lst t
  proof (cases "log_newest sha ?mem")
    case None
    then have i: "ap_has_valid_entry info \<noteq> kHardenedBoolTrue" using f by (simp add: found_def no_active_page_def)
    let ?e = "new_entry sha b (kBootDataDefaultCounterVal + 1)"
    have wr: "returns (boot_data_entry_write (kPages ! 0) 0 ?e kHardenedBoolTrue)
       (\<lambda>e t. e = kErrorOk \<and> log_step s0 m t (log_put sha b ?mem)) u" if u: "log_step s0 m u ?mem" for u
      by (rule returns_mono [OF first_write_returns [OF log_stepD(1) [OF u] e(1)]])
        (use u None in \<open>auto simp: log_put_def log_step_def\<close>)
    show ?thesis
      unfolding if_not_P [OF i]
      apply (rule returns_bind, rule returns_mono [OF dg [OF t]], elim conjE)
      apply (simp only:)
      apply (rule returns_error, erule wr)
      apply (simp add: returns_done)
      done
  next
    case (Some ib)
    obtain page j where page: "page \<in> set kPages" and j: "last_live sha (log_page ?mem page) = Some j"
      and ib: "fst ib = page_summary sha page (log_page ?mem page)" "snd ib = boot_data_of_words (log_page ?mem page ! j)"
      using log_newest_Some [of sha ?mem "fst ib" "snd ib"] Some by auto
    let ?es = "log_page ?mem page"
    have info: "info = page_summary sha page ?es" "lst = snd ib" using f Some ib by (auto simp: found_def split: prod.splits)
    have fb: "first_blank ?es \<le> 32" using first_blank_le [of ?es] by simp
    have jl: "j < first_blank ?es" using j by (simp add: last_live_Some live_slots_def)
    have fields: "ap_has_valid_entry info = kHardenedBoolTrue" "ap_page info = page"
      "ap_first_empty_index info = of_nat (first_blank ?es)" "ap_last_valid_index info = of_nat j"
      "ap_has_empty_entry info = hbool (first_blank ?es < 32)"
      by (simp_all add: info page_summary_def j)
    have nums: "unat (of_nat j :: u32) = j" "unat (of_nat (first_blank ?es) :: u32) = first_blank ?es"
      using jl fb by (simp_all add: unat_of_nat32)
    let ?e = "new_entry sha b (bd_counter lst + 1)"
    let ?q = "if page = kPages ! 0 then kPages ! 1 else kPages ! 0"
    let ?put = "if first_blank ?es < 32 then put_words (log_base page + 16 * first_blank ?es) (boot_data_words ?e) ?mem
      else put_words (log_base ?q) (boot_data_words ?e) (erased_page (log_base ?q) ?mem)"
    have put: "log_put sha b ?mem = invalidated (log_base page + 16 * j) ?put"
      using Some ib info fields nums by (cases ib) (simp add: log_put_def Let_def other_page_def)
    have q: "?q \<in> set kPages" by (simp add: kPages_def)
    have wr: "returns (if hbool (first_blank ?es < 32) = kHardenedBoolTrue
         then boot_data_entry_write page (of_nat (first_blank ?es)) ?e kHardenedBoolFalse
         else boot_data_entry_write ?q 0 ?e kHardenedBoolTrue) (\<lambda>r v. r = kErrorOk \<and> log_step s0 m v ?put) u"
      if u: "log_step s0 m u ?mem" for u
    proof (cases "first_blank ?es < 32")
      case True
      then have "blank (entry_words ?mem (log_base page) (first_blank ?es))"
        using first_blank_iff [of ?es "first_blank ?es"] by simp
      then show ?thesis
        using True u
        by (auto simp: log_step_def intro!: returns_mono [OF entry_write_returns [OF log_stepD(1) [OF u] page True e(1)]])
    next
      case False
      have "blank (entry_words (erased_page (log_base ?q) (log_mem s0 u)) (log_base ?q) 0)" by (rule erased_slot [OF q]) simp
      then show ?thesis
        using False u
        by (auto simp: log_step_def split del: if_split intro!: returns_mono [OF entry_write_returns [OF log_stepD(1) [OF u] q, of 0 ?e kHardenedBoolTrue, simplified]] e(1))
    qed
    have inv: "returns (boot_data_entry_invalidate page (of_nat j)) (\<lambda>r v. r = kErrorOk \<and> log_step s0 m v (log_put sha b ?mem)) u"
      if u: "log_step s0 m u ?put" for u
      by (rule returns_mono [OF invalidate_returns [OF log_stepD(1) [OF u] page]])
        (use jl fb u in \<open>auto simp: put log_step_def\<close>)
    show ?thesis
      unfolding if_P [OF fields(1)] fields(2-5)
      apply (rule returns_bind, rule returns_mono [OF dg [OF t]], elim conjE)
      apply (simp only:)
      apply (rule returns_error, erule wr)
      apply (rule returns_error, erule inv)
      apply (simp add: returns_done)
      done
  qed
  show ?thesis
    unfolding boot_data_write_def Let_def
    apply (rule returns_bind, rule returns_mono [OF active_find_returns [OF lm sha ord]])
    apply (simp only: split_paired_all prod.case)
    apply (elim conjE, hypsubst, simp only: simp_thms if_False)
    by (rule go)
qed

section \<open>The log as a set of entries\<close>

text \<open>The live entries by page and index, and the entry at such a place.\<close>

definition log_live :: "(u8 list \<Rightarrow> u32 list) \<Rightarrow> (nat \<Rightarrow> u32) \<Rightarrow> (u32 * nat) set" where
  "log_live sha mem = {(page, j). page \<in> set kPages \<and> j \<in> live_slots sha (log_page mem page)}"

definition entry_at :: "(nat \<Rightarrow> u32) \<Rightarrow> u32 * nat \<Rightarrow> boot_data" where
  "entry_at mem = (\<lambda>(page, j). boot_data_of_words (log_page mem page ! j))"

abbreviation counter_at :: "(nat \<Rightarrow> u32) \<Rightarrow> u32 * nat \<Rightarrow> u32" where
  "counter_at mem x \<equiv> bd_counter (entry_at mem x)"

lemma pages: "set kPages = {kPages ! 0, kPages ! 1}" "kPages ! 0 \<noteq> kPages ! 1"
  by (simp_all add: kPages_def)

text \<open>The shape the log keeps: entries are appended, the counters increase along each page, and
  no two live entries share one.\<close>

definition log_ok :: "(u8 list \<Rightarrow> u32 list) \<Rightarrow> (nat \<Rightarrow> u32) \<Rightarrow> bool" where
  "log_ok sha mem \<longleftrightarrow> (\<forall>page\<in>set kPages. tail_blank (log_page mem page)) \<and>
     (\<forall>page j k. (page, j) \<in> log_live sha mem \<longrightarrow> (page, k) \<in> log_live sha mem \<longrightarrow> j < k \<longrightarrow>
        counter_at mem (page, j) < counter_at mem (page, k)) \<and>
     inj_on (counter_at mem) (log_live sha mem)"

lemma log_live_last: "page \<in> set kPages \<Longrightarrow> last_live sha (log_page mem page) = Some j \<Longrightarrow> (page, j) \<in> log_live sha mem"
  by (simp add: log_live_def last_live_Some)

lemma log_ok_ordered:
  assumes "log_ok sha mem"
  shows "log_ordered sha mem"
proof -
  have "counter_at mem (kPages ! 0, j) \<noteq> counter_at mem (kPages ! 1, k)"
    if "last_live sha (log_page mem (kPages ! 0)) = Some j" "last_live sha (log_page mem (kPages ! 1)) = Some k" for j k
    using log_live_last [OF _ that(1)] log_live_last [OF _ that(2)] pages assms unfolding log_ok_def
    by (auto dest!: inj_onD)
  then show ?thesis
    unfolding log_ordered_def page_counter_def Let_def entry_at_def
    by (cases "last_live sha (log_page mem (kPages ! 0))"; cases "last_live sha (log_page mem (kPages ! 1))") simp_all
qed

text \<open>The last live entry of a page has the greatest counter of the page.\<close>

lemma last_live_greatest:
  assumes "log_ok sha mem" "last_live sha (log_page mem page) = Some j" "(page, k) \<in> log_live sha mem"
  shows "counter_at mem (page, k) \<le> counter_at mem (page, j)"
proof (cases "k = j")
  case False
  then have "k < j" using assms(2,3) by (auto simp: last_live_Some log_live_def order_le_less)
  moreover have "(page, j) \<in> log_live sha mem" using assms(2,3) log_live_last by (auto simp: log_live_def)
  ultimately show ?thesis using assms(1,3) unfolding log_ok_def by (meson order_less_imp_le)
qed simp

lemma log_live_cases:
  assumes "x \<in> log_live sha mem"
  obtains page j k where "page \<in> set kPages" "x = (page, k)" "last_live sha (log_page mem page) = Some j"
proof -
  obtain page k where x: "x = (page, k)" "page \<in> set kPages" "k \<in> live_slots sha (log_page mem page)"
    using assms by (auto simp: log_live_def)
  then have "last_live sha (log_page mem page) \<noteq> None" unfolding last_live_None by blast
  then show thesis using that x by blast
qed

definition newest_ok :: "(u8 list \<Rightarrow> u32 list) \<Rightarrow> (nat \<Rightarrow> u32) \<Rightarrow> u32 list \<Rightarrow> log_entry \<Rightarrow> bool" where
  "newest_ok sha mem ps best \<longleftrightarrow> (case best of
      None \<Rightarrow> (\<forall>page\<in>set ps. last_live sha (log_page mem page) = None)
    | Some (info, b) \<Rightarrow> \<exists>page\<in>set ps. \<exists>j. last_live sha (log_page mem page) = Some j \<and> b = entry_at mem (page, j) \<and>
        info = page_summary sha page (log_page mem page) \<and>
        (\<forall>p\<in>set ps. \<forall>k. last_live sha (log_page mem p) = Some k \<longrightarrow> counter_at mem (p, k) \<le> bd_counter b))"

lemma newer_ok: "newest_ok sha mem ps best \<Longrightarrow> newest_ok sha mem (ps @ [page]) (newer sha page (log_page mem page) best)"
  unfolding newest_ok_def newer_def entry_at_def
  by (cases "last_live sha (log_page mem page)") (auto simp: Let_def not_less split: option.splits if_splits dest: order_less_imp_le order_trans)

lemma log_newest_ok: "newest_ok sha mem kPages (log_newest sha mem)"
proof -
  have "newest_ok sha mem [] None" by (simp add: newest_ok_def)
  from newer_ok [OF newer_ok [OF this]] show ?thesis
    by (simp add: log_newest_def kPages_def)
qed

text \<open>The search finds the live entry with the greatest counter.\<close>

lemma log_newest_cases:
  assumes ok: "log_ok sha mem"
  shows "case log_newest sha mem of
      None \<Rightarrow> log_live sha mem = {}
    | Some (info, b) \<Rightarrow> \<exists>x\<in>log_live sha mem. b = entry_at mem x \<and> info = page_summary sha (fst x) (log_page mem (fst x)) \<and>
        last_live sha (log_page mem (fst x)) = Some (snd x) \<and> (\<forall>y\<in>log_live sha mem. counter_at mem y \<le> counter_at mem x)"
proof (cases "log_newest sha mem")
  case None
  then show ?thesis
    using log_newest_ok [of sha mem] by (auto simp: newest_ok_def elim!: log_live_cases)
next
  case (Some ib)
  obtain page j where page: "page \<in> set kPages" "last_live sha (log_page mem page) = Some j" "snd ib = entry_at mem (page, j)"
    "fst ib = page_summary sha page (log_page mem page)"
    and top: "\<forall>p\<in>set kPages. \<forall>k. last_live sha (log_page mem p) = Some k \<longrightarrow> counter_at mem (p, k) \<le> counter_at mem (page, j)"
    using log_newest_ok [of sha mem] Some by (auto simp: newest_ok_def split: prod.splits)
  have "counter_at mem y \<le> counter_at mem (page, j)" if "y \<in> log_live sha mem" for y
    using that
  proof (rule log_live_cases)
    fix p k l assume p: "p \<in> set kPages" "y = (p, l)" "last_live sha (log_page mem p) = Some k"
    have "counter_at mem y \<le> counter_at mem (p, k)" using last_live_greatest [OF ok p(3)] that p(2) by simp
    then show ?thesis using top p(1,3) order_trans by blast
  qed
  then show ?thesis
    using page log_live_last [OF page(1,2)] Some by (cases ib) (auto intro!: bexI [of _ "(page, j)"])
qed

lemma log_newest_greatest:
  assumes ok: "log_ok sha mem" and x: "x \<in> log_live sha mem"
    and top: "\<And>y. y \<in> log_live sha mem \<Longrightarrow> counter_at mem y \<le> counter_at mem x"
  shows "\<exists>info. log_newest sha mem = Some (info, entry_at mem x) \<and> ap_has_valid_entry info = kHardenedBoolTrue"
proof (cases "log_newest sha mem")
  case None
  then show ?thesis using log_newest_cases [OF ok] x by auto
next
  case (Some ib)
  then obtain y where y: "y \<in> log_live sha mem" "snd ib = entry_at mem y" "counter_at mem x \<le> counter_at mem y"
    "fst ib = page_summary sha (fst y) (log_page mem (fst y))" "last_live sha (log_page mem (fst y)) = Some (snd y)"
    using log_newest_cases [OF ok] x by (auto split: prod.splits)
  have "counter_at mem x = counter_at mem y" using top [OF y(1)] y(3) by (rule order_antisym [rotated])
  then have "x = y" using ok x y(1) unfolding log_ok_def by (meson inj_onD)
  then show ?thesis using Some y by (cases ib) (simp add: page_summary_def)
qed

section \<open>Writing keeps the shape\<close>

lemma entry_at_new: "i < 32 \<Longrightarrow> log_page mem page ! i = boot_data_words b \<Longrightarrow> boot_data_of_words (boot_data_words b) = b \<Longrightarrow>
   entry_at mem (page, i) = b"
  by (simp add: entry_at_def)

text \<open>A live entry added on top of some of the old ones.\<close>

lemma log_added:
  assumes ok: "log_ok sha mem" and x: "x \<in> log_live sha mem'"
    and old: "\<And>y. y \<in> log_live sha mem' \<Longrightarrow> y \<noteq> x \<Longrightarrow> y \<in> log_live sha mem \<and> counter_at mem' y = counter_at mem y \<and>
      counter_at mem y < counter_at mem' x \<and> (fst y = fst x \<longrightarrow> snd y < snd x)"
    and tail: "\<forall>page\<in>set kPages. tail_blank (log_page mem' page)"
  shows "log_ok sha mem'" "\<exists>info. log_newest sha mem' = Some (info, entry_at mem' x) \<and> ap_has_valid_entry info = kHardenedBoolTrue"
proof -
  show ok': "log_ok sha mem'"
    unfolding log_ok_def
  proof (intro conjI tail)
    show "\<forall>page j k. (page, j) \<in> log_live sha mem' \<longrightarrow> (page, k) \<in> log_live sha mem' \<longrightarrow> j < k \<longrightarrow>
        counter_at mem' (page, j) < counter_at mem' (page, k)"
    proof (intro allI impI)
      fix page j k assume y: "(page, j) \<in> log_live sha mem'" "(page, k) \<in> log_live sha mem'" "j < k"
      have "(page, j) \<noteq> x" using old [OF y(2)] y(3) by (cases "(page, k) = x") auto
      then show "counter_at mem' (page, j) < counter_at mem' (page, k)"
        using old [OF y(1)] old [OF y(2)] y(3) ok unfolding log_ok_def by (cases "(page, k) = x") auto
    qed
    show "inj_on (counter_at mem') (log_live sha mem')"
    proof (rule inj_onI)
      fix y z assume yz: "y \<in> log_live sha mem'" "z \<in> log_live sha mem'" "counter_at mem' y = counter_at mem' z"
      show "y = z"
        using old [OF yz(1)] old [OF yz(2)] yz(3) ok unfolding log_ok_def
        by (cases "y = x"; cases "z = x") (auto dest: inj_onD)
    qed
  qed
  show "\<exists>info. log_newest sha mem' = Some (info, entry_at mem' x) \<and> ap_has_valid_entry info = kHardenedBoolTrue"
  proof (rule log_newest_greatest [OF ok' x])
    fix y assume "y \<in> log_live sha mem'"
    then show "counter_at mem' y \<le> counter_at mem' x" using old [of y] by (cases "y = x") auto
  qed
qed

definition next_counter :: "(u8 list \<Rightarrow> u32 list) \<Rightarrow> (nat \<Rightarrow> u32) \<Rightarrow> u32" where
  "next_counter sha mem = (case log_newest sha mem of
     None \<Rightarrow> kBootDataDefaultCounterVal + 1
   | Some (info, lst) \<Rightarrow> bd_counter lst + 1)"

text \<open>A counter that can still be incremented.\<close>

definition counter_room :: "(u8 list \<Rightarrow> u32 list) \<Rightarrow> (nat \<Rightarrow> u32) \<Rightarrow> bool" where
  "counter_room sha mem \<longleftrightarrow> next_counter sha mem \<noteq> 0"

lemma less_next: "c \<le> d \<Longrightarrow> d + 1 \<noteq> 0 \<Longrightarrow> c < d + (1 :: u32)"
  using unatSuc [of d] by (simp add: word_less_nat_alt word_le_nat_alt add.commute)

lemmas log_page_put_first = log_page_put [where i = 0, simplified]

lemma log_put_empty:
  assumes none: "log_newest sha mem = None" and ok: "log_ok sha mem"
    and e: "e = new_entry sha b (next_counter sha mem)" "boot_data_of_words (boot_data_words e) = e"
    "live sha (boot_data_words e)" "\<not> blank (boot_data_words e)" "length (boot_data_words e) = 16"
  shows "log_ok sha (log_put sha b mem) \<and>
    (\<exists>info. log_newest sha (log_put sha b mem) = Some (info, e) \<and> ap_has_valid_entry info = kHardenedBoolTrue)"
proof -
  let ?p0 = "kPages ! 0" and ?p1 = "kPages ! 1"
  let ?mem' = "log_put sha b mem"
  have in_pages: "?p0 \<in> set kPages" "?p1 \<in> set kPages" by (simp_all add: kPages_def)
  have mem': "?mem' = put_words (log_base ?p0) (boot_data_words e) (erased_page (log_base ?p0) mem)"
    by (simp add: log_put_def none e(1) next_counter_def)
  have pg: "log_page ?mem' ?p0 = erased_entries[0 := boot_data_words e]" "log_page ?mem' ?p1 = log_page mem ?p1"
    unfolding mem' using in_pages pages(2) e(5) by (simp_all add: log_page_put_first log_page_erased)
  have live0: "log_live sha mem = {}" using log_newest_cases [OF ok] none by simp
  then have l1: "live_slots sha (log_page mem ?p1) = {}" using in_pages by (auto simp: log_live_def)
  have s0: "live_slots sha (log_page ?mem' ?p0) = {0}" unfolding pg using start_slot(2) [OF e(4), of sha] e(3) by simp
  have live': "log_live sha ?mem' = {(?p0, 0)}"
    unfolding log_live_def pages(1) using s0 l1 pg(2) by auto
  have tail: "\<forall>page\<in>set kPages. tail_blank (log_page ?mem' page)"
    unfolding pages(1) using start_slot(1) [OF e(4)] pg ok in_pages by (auto simp: log_ok_def)
  have at: "entry_at ?mem' (?p0, 0) = e" by (rule entry_at_new) (simp_all add: pg e(2) log_page_nth(2) del: log_page_nth(1))
  show ?thesis
    using log_added [OF ok, of "(?p0, 0)" ?mem'] live' tail at by simp
qed

lemma other_page_props: "page \<in> set kPages \<Longrightarrow> other_page page \<in> set kPages \<and> other_page page \<noteq> page"
  by (auto simp: other_page_def kPages_def)

lemma page_or_other: "page \<in> set kPages \<Longrightarrow> set kPages = {page, other_page page}"
  by (auto simp: other_page_def kPages_def)

lemma entry_at_same: "log_page mem' page ! k = log_page mem page ! k \<Longrightarrow> entry_at mem' (page, k) = entry_at mem (page, k)"
  by (simp add: entry_at_def)

lemma log_put_some:
  assumes newest: "log_newest sha mem = Some (info, lst)" and ok: "log_ok sha mem" and room: "counter_room sha mem"
    and e: "e = new_entry sha b (next_counter sha mem)" "boot_data_of_words (boot_data_words e) = e"
    "live sha (boot_data_words e)" "\<not> blank (boot_data_words e)" "length (boot_data_words e) = 16"
    "bd_counter e = next_counter sha mem"
  shows "log_ok sha (log_put sha b mem) \<and>
    (\<exists>info. log_newest sha (log_put sha b mem) = Some (info, e) \<and> ap_has_valid_entry info = kHardenedBoolTrue)"
proof -
  let ?mem' = "log_put sha b mem"
  obtain page j where x0: "(page, j) \<in> log_live sha mem" "lst = entry_at mem (page, j)"
    "info = page_summary sha page (log_page mem page)" "last_live sha (log_page mem page) = Some j"
    and top: "\<forall>y\<in>log_live sha mem. counter_at mem y \<le> counter_at mem (page, j)"
    using log_newest_cases [OF ok] newest by auto
  let ?es = "log_page mem page"
  let ?fb = "first_blank ?es"
  let ?ws = "boot_data_words e"
  have page: "page \<in> set kPages" and j: "j \<in> live_slots sha ?es" using x0(1) by (simp_all add: log_live_def)
  have jl: "j < ?fb" "?fb \<le> 32" using j first_blank_le [of ?es] by (simp_all add: live_slots_def)
  have nc: "next_counter sha mem = counter_at mem (page, j) + 1" using newest x0(2) by (simp add: next_counter_def)
  have less: "counter_at mem y < bd_counter e" if "y \<in> log_live sha mem" for y
    using less_next [of "counter_at mem y" "counter_at mem (page, j)"] top that room unfolding e(6) nc counter_room_def by auto
  have tails: "\<forall>p\<in>set kPages. tail_blank (log_page mem p)" using ok by (simp add: log_ok_def)
  have fields: "ap_page info = page" "ap_has_empty_entry info = hbool (?fb < 32)"
    "ap_first_empty_index info = of_nat ?fb" "ap_last_valid_index info = of_nat j"
    by (simp_all add: x0(3,4) page_summary_def)
  have nums: "unat (of_nat j :: u32) = j" "unat (of_nat ?fb :: u32) = ?fb" using jl by (simp_all add: unat_of_nat32)
  note q = other_page_props [OF page]
  have zd: "\<not> blank (zeroed (?es ! j))" "\<not> live sha (zeroed (?es ! j))" using zeroed_dead [of "?es ! j"] jl by auto
  show ?thesis
  proof (cases "?fb < 32")
    case True
    have mem': "?mem' = invalidated (log_base page + 16 * j) (put_words (log_base page + 16 * ?fb) ?ws mem)"
      using True newest fields nums e(1) by (simp add: log_put_def Let_def next_counter_def)
    have pg: "log_page ?mem' page = (?es[?fb := ?ws])[j := zeroed (?es ! j)]"
      "log_page ?mem' (other_page page) = log_page mem (other_page page)"
      unfolding mem' using page q True jl e(5) by (simp_all add: log_page_invalidated log_page_put del: log_page_nth)
    have tb: "tail_blank ?es" using tails page by blast
    note ap = append_slot [OF refl _ tb e(4)]
    have kl: "j < first_blank (?es[?fb := ?ws])" using ap(1) True jl by simp
    have slots: "live_slots sha (log_page ?mem' page) = insert ?fb (live_slots sha ?es) - {j}"
      unfolding pg kill_slot(2) [OF kl zd] using ap(3) [of sha] True e(3) by simp
    have tail: "\<forall>p\<in>set kPages. tail_blank (log_page ?mem' p)"
      unfolding page_or_other [OF page] using kill_slot(3) [OF kl zd] ap(2) True tails q pg by auto
    have at: "entry_at ?mem' (page, ?fb) = e" by (rule entry_at_new) (use True jl in \<open>simp_all add: pg e(2) log_page_nth(2) del: log_page_nth(1)\<close>)
    have x: "(page, ?fb) \<in> log_live sha ?mem'" using page slots jl by (auto simp: log_live_def)
    have old: "y \<in> log_live sha mem \<and> counter_at ?mem' y = counter_at mem y \<and>
      counter_at mem y < counter_at ?mem' (page, ?fb) \<and> (fst y = fst (page, ?fb) \<longrightarrow> snd y < snd (page, ?fb))"
      if y: "y \<in> log_live sha ?mem'" "y \<noteq> (page, ?fb)" for y
    proof (cases "fst y = page")
      case True
      then have k: "snd y \<in> live_slots sha ?es" "snd y \<noteq> j" "snd y \<noteq> ?fb"
        using y slots by (cases y; auto simp: log_live_def)+
      have "entry_at ?mem' (page, snd y) = entry_at mem (page, snd y)"
        using k by (intro entry_at_same) (simp add: pg log_page_nth(2) del: log_page_nth(1))
      then show ?thesis using True page k less [of y] at by (cases y) (auto simp: log_live_def live_slots_def)
    next
      case False
      then have "fst y = other_page page" using y(1) page_or_other [OF page] by (cases y) (simp add: log_live_def)
      then have "entry_at ?mem' y = entry_at mem y" "y \<in> log_live sha mem"
        using y(1) pg(2) by (cases y; simp add: entry_at_def log_live_def)+
      then show ?thesis using False less [of y] at by simp
    qed
    show ?thesis using log_added [OF ok x old tail] at by simp
  next
    case False
    then have fb: "?fb = 32" using jl by simp
    let ?q = "other_page page"
    have mem': "?mem' = invalidated (log_base page + 16 * j) (put_words (log_base ?q) ?ws (erased_page (log_base ?q) mem))"
      using False newest fields nums e(1) by (simp add: log_put_def Let_def next_counter_def)
    have pg: "log_page ?mem' page = ?es[j := zeroed (?es ! j)]" "log_page ?mem' ?q = erased_entries[0 := ?ws]"
      unfolding mem' using page q q [THEN conjunct2, THEN not_sym] jl e(5)
      by (simp_all add: log_page_invalidated log_page_put_first log_page_erased del: log_page_nth)
    have tb: "tail_blank ?es" using tails page by blast
    have slots: "live_slots sha (log_page ?mem' page) = live_slots sha ?es - {j}" "live_slots sha (log_page ?mem' ?q) = {0}"
      unfolding pg kill_slot(2) [OF jl(1) zd] using start_slot(2) [OF e(4), of sha] e(3) by simp_all
    have tail: "\<forall>p\<in>set kPages. tail_blank (log_page ?mem' p)"
      unfolding page_or_other [OF page] using kill_slot(3) [OF jl(1) zd tb] start_slot(1) [OF e(4)] pg by auto
    have at: "entry_at ?mem' (?q, 0) = e" by (rule entry_at_new) (simp_all add: pg e(2) log_page_nth(2) del: log_page_nth(1))
    have x: "(?q, 0) \<in> log_live sha ?mem'" using q slots by (auto simp: log_live_def)
    have old: "y \<in> log_live sha mem \<and> counter_at ?mem' y = counter_at mem y \<and>
      counter_at mem y < counter_at ?mem' (?q, 0) \<and> (fst y = fst (?q, 0 :: nat) \<longrightarrow> snd y < snd (?q, 0 :: nat))"
      if y: "y \<in> log_live sha ?mem'" "y \<noteq> (?q, 0)" for y
    proof -
      have f: "fst y = page" using y slots page_or_other [OF page] by (cases y) (auto simp: log_live_def)
      then have k: "snd y \<in> live_slots sha ?es" "snd y \<noteq> j" using y slots by (cases y; auto simp: log_live_def)+
      have "entry_at ?mem' (page, snd y) = entry_at mem (page, snd y)"
        using k by (intro entry_at_same) (simp add: pg log_page_nth(2) del: log_page_nth(1))
      then show ?thesis using f page k q less [of y] at by (cases y) (auto simp: log_live_def)
    qed
    show ?thesis using log_added [OF ok x old tail] at by simp
  qed
qed

lemma log_put_ok:
  assumes ok: "log_ok sha mem" and room: "counter_room sha mem" and sha: "\<forall>msg. length (sha msg) = 8"
    and b: "digest_shaped b" "length (bd_padding b) = 8"
  shows "log_ok sha (log_put sha b mem) \<and> (\<exists>info. log_newest sha (log_put sha b mem) =
      Some (info, new_entry sha b (next_counter sha mem)) \<and> ap_has_valid_entry info = kHardenedBoolTrue)"
proof -
  define e where "e = new_entry sha b (next_counter sha mem)"
  note props = new_entry_props [OF sha b, of "next_counter sha mem", folded e_def]
  have len: "length (boot_data_words e) = 16" using props(1) by (simp add: writable_def)
  have c: "bd_counter e = next_counter sha mem" by (simp add: e_def new_entry_def Let_def)
  show ?thesis
  proof (cases "log_newest sha mem")
    case None
    then show ?thesis using log_put_empty [OF None ok e_def props(2-4) len] by (simp add: e_def)
  next
    case (Some ib)
    then show ?thesis
      using log_put_some [of sha mem "fst ib" "snd ib" e b] ok room props(2-4) len c by (simp add: e_def)
  qed
qed

lemma read_returns:
  assumes lm: "log_machine s0 m" and sha: "log_hash sha m" and ok: "log_ok sha (log_mem s0 m)"
    and newest: "log_newest sha (log_mem s0 m) = Some (info, e)" and v: "ap_has_valid_entry info = kHardenedBoolTrue"
  shows "returns (boot_data_read lc b) (\<lambda>(r, b') t. r = kErrorOk \<and> b' = e \<and> log_step s0 m t (log_mem s0 m)) m"
proof -
  have f: "returns (boot_data_active_page_find b) (\<lambda>(r, info', b') t. r = kErrorOk \<and> info' = info \<and> b' = e \<and>
      log_step s0 m t (log_mem s0 m)) m"
    by (rule returns_mono [OF active_find_returns [OF lm sha log_ok_ordered [OF ok]]]) (auto simp: newest found_def)
  show ?thesis
    unfolding boot_data_read_def
    by (rule returns_bind, rule returns_mono [OF f]) (auto simp: v wp_def)
qed

section \<open>A sample log\<close>

definition sample_flash :: "(nat \<Rightarrow> u32) \<Rightarrow> info_flash" where
  "sample_flash mem = \<lparr>fl_mem = mem, fl_cfg = \<lambda>a. 0, fl_addr = 0, fl_op = Idle, fl_pos = 0, fl_end = 0\<rparr>"

definition sample_flash_resp :: "info_flash \<Rightarrow> io_event list \<Rightarrow> u32 \<Rightarrow> u32" where
  "sample_flash_resp s0 l a = (let s = info_flash s0 l in
     if a = flash_reg FLASH_CTRL_RD_FIFO_REG_OFFSET then fl_mem s (fl_pos s)
     else if a \<in> set info_cfg_addrs then fl_cfg s a else 1)"

definition log_sample :: "(nat \<Rightarrow> u32) \<Rightarrow> machine" where
  "log_sample mem = sample_machine\<lparr>plat := sample_platform\<lparr>mmio_resp := sample_flash_resp (sample_flash mem)\<rparr>,
     g_sec_mmio_ctx := sample_ctx\<lparr>last_index := 2,
       reg_addrs := [log_cfg (kPages ! 0), log_cfg (kPages ! 1)] @ replicate 998 0\<rparr>\<rparr>"

lemma log_sample_machine: "log_machine (sample_flash mem) (log_sample mem)"
proof -
  have "flash_device (sample_flash mem) (plat (log_sample mem))"
    by (simp add: flash_device_def log_sample_def sample_flash_resp_def Let_def info_cfg_numerals
        bitfield_bit32_read_def bitfield_field32_read_def bitfield_bit32_to_field32_def)
  moreover have "sec_ctx_ok (g_sec_mmio_ctx (log_sample mem))"
    by (simp add: sec_ctx_ok_def log_sample_def sample_ctx_def kPages_def log_cfg_def)
  ultimately show ?thesis
    unfolding log_machine_def
    by (auto simp: log_sample_def expected_value_def sample_ctx_def map_of_zip_is_None kPages_def simp del: not_None_eq)
qed

lemma log_sample_hash: "log_hash (\<lambda>msg. replicate 8 1) (log_sample mem)"
proof -
  have "mmio_resp (plat (log_sample mem)) l (TOP_EARLGREY_HMAC_BASE_ADDR + HMAC_DIGEST_7_REG_OFFSET - of_nat i * 4) = 1"
    if "i < 8" for l i
  proof -
    have "i = 0 \<or> i = 1 \<or> i = 2 \<or> i = 3 \<or> i = 4 \<or> i = 5 \<or> i = 6 \<or> i = 7" using that by linarith
    then show ?thesis
      by (elim disjE) (simp_all add: log_sample_def sample_flash_resp_def Let_def info_cfg_numerals)
  qed
  then show ?thesis by (simp add: log_hash_def hmac_device_def)
qed

lemma log_sample_mem: "log_mem (sample_flash mem) (log_sample mem) = mem"
  by (simp add: log_sample_def sample_machine_def sample_flash_def)

abbreviation (input) blank_mem :: "nat \<Rightarrow> u32" where "blank_mem \<equiv> (\<lambda>n. kFlashCtrlErasedWord)"

lemma blank_log: "log_ok sha blank_mem" "log_newest sha blank_mem = None"
proof -
  have p: "log_page blank_mem page = erased_entries" for page
    by (simp add: log_page_def entry_words_def map_replicate_trivial list_eq_iff_nth_eq)
  have l: "log_live sha blank_mem = {}" by (simp add: log_live_def p erased_entries_blank)
  show "log_ok sha blank_mem" by (simp add: log_ok_def l p erased_entries_blank)
  then show "log_newest sha blank_mem = None" using log_newest_cases [of sha blank_mem] l by (auto split: option.splits)
qed

section \<open>Properties\<close>

text \<open>C33: as long as the log has an entry that passes the integrity check,
  reading boot data returns, of all entries of both pages that pass it, the one with the greatest
  counter, and leaves the flash as it is; the only other outcome is that a device keeps the code
  waiting.\<close>

theorem boot_data_read_newest:
  assumes "log_machine s0 m" "log_hash sha m" "log_ok sha (log_mem s0 m)" "log_live sha (log_mem s0 m) \<noteq> {}"
  shows "case boot_data_read lc b m of
      Done (r, b') t \<Rightarrow> r = kErrorOk \<and> log_mem s0 t = log_mem s0 m \<and>
        (\<exists>x\<in>log_live sha (log_mem s0 m). b' = entry_at (log_mem s0 m) x \<and>
          (\<forall>y\<in>log_live sha (log_mem s0 m). counter_at (log_mem s0 m) y \<le> counter_at (log_mem s0 m) x))
    | Stop e t \<Rightarrow> e = Out_of_polls"
proof -
  obtain info x where n: "log_newest sha (log_mem s0 m) = Some (info, entry_at (log_mem s0 m) x)" "x \<in> log_live sha (log_mem s0 m)"
    "\<forall>y\<in>log_live sha (log_mem s0 m). counter_at (log_mem s0 m) y \<le> counter_at (log_mem s0 m) x"
    "ap_has_valid_entry info = kHardenedBoolTrue"
  proof (cases "log_newest sha (log_mem s0 m)")
    case None
    then show thesis using log_newest_cases [OF assms(3)] assms(4) by simp
  next
    case (Some ib)
    then obtain x where "x \<in> log_live sha (log_mem s0 m)" "snd ib = entry_at (log_mem s0 m) x"
      "fst ib = page_summary sha (fst x) (log_page (log_mem s0 m) (fst x))"
      "last_live sha (log_page (log_mem s0 m) (fst x)) = Some (snd x)"
      "\<forall>y\<in>log_live sha (log_mem s0 m). counter_at (log_mem s0 m) y \<le> counter_at (log_mem s0 m) x"
      using log_newest_cases [OF assms(3)] by (auto split: prod.splits)
    then show thesis using that [of "fst ib" x] Some by (cases ib) (simp add: page_summary_def)
  qed
  show ?thesis
    using read_returns [OF assms(1-3) n(1,4), of lc b] n(2,3)
    by (auto simp: wp_def log_step_def split: outcome.splits)
qed

theorem boot_data_read_newest_witness:
  "case boot_data_read 0 (g_boot_data sample_machine)
      (log_sample (log_put (\<lambda>msg. replicate 8 1) (g_boot_data sample_machine) blank_mem)) of
      Done (r, b') t \<Rightarrow> r = kErrorOk
    | Stop e t \<Rightarrow> e = Out_of_polls"
proof -
  let ?sha = "\<lambda>msg :: u8 list. replicate 8 1 :: u32 list"
  let ?mem = "log_put ?sha (g_boot_data sample_machine) blank_mem"
  have room: "counter_room ?sha blank_mem" by (simp add: counter_room_def next_counter_def blank_log)
  have put: "log_ok ?sha ?mem" "log_newest ?sha ?mem \<noteq> None"
    using log_put_ok [OF blank_log(1) room, of "g_boot_data sample_machine"] by (auto simp: sample_machine_def)
  then have "log_live ?sha ?mem \<noteq> {}" using log_newest_cases [OF put(1)] by (auto split: option.splits)
  then show ?thesis
    using boot_data_read_newest [OF log_sample_machine log_sample_hash, of ?mem 0 "g_boot_data sample_machine"] put(1)
    by (auto simp: log_sample_mem split: outcome.splits)
qed

text \<open>C34: writing boot data succeeds, and reading them back gives exactly
  the entry that was to be written, with the identifier, its digest and the next counter, whatever
  the log contained (no entry, a free slot, a full page); the log keeps its shape. The counter of
  the newest entry must not be the last one. The only other outcome is that a device keeps the code
  waiting.\<close>

theorem boot_data_write_read:
  assumes "log_machine s0 m" "log_hash sha m" "log_ok sha (log_mem s0 m)" "counter_room sha (log_mem s0 m)"
    and "length (bd_digest b) = 8" "length (bd_padding b) = 8"
  shows "case (bindM (boot_data_write stack b) (\<lambda>e.
    bindM (boot_data_read lc buf) (\<lambda>(r, b').
    returnM (e, r, b')))) m of
      Done (e, r, b') t \<Rightarrow> e = kErrorOk \<and> r = kErrorOk \<and>
        b' = new_entry sha b (next_counter sha (log_mem s0 m)) \<and> log_ok sha (log_mem s0 t)
    | Stop e t \<Rightarrow> e = Out_of_polls"
proof -
  let ?mem = "log_mem s0 m"
  have sha: "\<forall>msg. length (sha msg) = 8" using assms(2) by (simp add: log_hash_def)
  obtain info where put: "log_ok sha (log_put sha b ?mem)" "ap_has_valid_entry info = kHardenedBoolTrue"
    "log_newest sha (log_put sha b ?mem) = Some (info, new_entry sha b (next_counter sha ?mem))"
    using log_put_ok [OF assms(3,4) sha assms(5,6)] by blast
  have rd: "returns (boot_data_read lc buf) (\<lambda>(r, b') u. r = kErrorOk \<and> b' = new_entry sha b (next_counter sha ?mem) \<and>
      log_mem s0 u = log_put sha b ?mem) t" if t: "log_step s0 m t (log_put sha b ?mem)" for t
  proof -
    have t': "log_mem s0 t = log_put sha b ?mem" "log_machine s0 t" "log_hash sha t"
      using t assms(2) by (simp_all add: log_step_def log_hash_def)
    show ?thesis
      by (rule returns_mono [OF read_returns [OF t'(2,3), unfolded t'(1), OF put(1,3,2)]]) (auto simp: log_step_def)
  qed
  have "returns ((bindM (boot_data_write stack b) (\<lambda>e.
    bindM (boot_data_read lc buf) (\<lambda>(r, b').
    returnM (e, r, b')))))
     (\<lambda>(e, r, b') t. e = kErrorOk \<and> r = kErrorOk \<and> b' = new_entry sha b (next_counter sha ?mem) \<and> log_ok sha (log_mem s0 t)) m"
    apply (rule returns_bind, rule returns_mono [OF write_returns [OF assms(1,2) log_ok_ordered [OF assms(3)] assms(5,6)]])
    apply (elim conjE, rule returns_bind, rule returns_mono [OF rd], assumption)
    using put(1) by (auto intro!: returns_done)
  then show ?thesis by (auto simp: wp_def split: outcome.splits)
qed

theorem boot_data_write_read_witness:
  "case (bindM (boot_data_write (g_boot_data sample_machine) (g_boot_data sample_machine)) (\<lambda>e.
    bindM (boot_data_read 0 (g_boot_data sample_machine)) (\<lambda>(r, b').
    returnM (e, r, b')))) (log_sample blank_mem) of
      Done (e, r, b') t \<Rightarrow> e = kErrorOk \<and> r = kErrorOk \<and> bd_counter b' = 6
    | Stop e t \<Rightarrow> e = Out_of_polls"
proof -
  have "counter_room (\<lambda>msg. replicate 8 1) blank_mem" by (simp add: counter_room_def next_counter_def blank_log)
  then show ?thesis
    using boot_data_write_read [OF log_sample_machine log_sample_hash, of blank_mem "g_boot_data sample_machine"
        "g_boot_data sample_machine" 0 "g_boot_data sample_machine"] blank_log [of "\<lambda>msg. replicate 8 1"]
    by (auto simp: log_sample_mem sample_machine_def new_entry_def Let_def next_counter_def split: outcome.splits)
qed

end
