(* ===== verification/Base_Math.thy ===== *)
theory Base_Math
  imports Memory
begin

text \<open>\<open>lib/base/math.c\<close>, \<open>lib/base/math_builtins.c\<close> and the bit operations of
  \<open>lib/base/bitfield.h\<close>: 64-bit division and shifts out of 32-bit steps, and the branch-poor
  bit tricks the compiler calls for its builtins, each shown to be the operation it stands for.\<close>

unbundle bit_operations_syntax

section \<open>Division (math.c)\<close>

text \<open>One round of the loop brings down the next bit of the dividend; \<open>n\<close> rounds are left.\<close>

primrec udiv64_loop :: "nat \<Rightarrow> u64 \<Rightarrow> u64 \<Rightarrow> u64 \<Rightarrow> u64 \<Rightarrow> u64 * u64" where
  "udiv64_loop 0 a b quot rem = (quot, rem)"
| "udiv64_loop (Suc n) a b quot rem =
     (let rem = push_bit 1 rem;
          quot = push_bit 1 quot;
          rem = rem OR (drop_bit n a AND 1)
      in if rem \<ge> b then udiv64_loop n a b (quot OR 1) (rem - b)
         else udiv64_loop n a b quot rem)"

definition udiv64_slow :: "u64 \<Rightarrow> u64 \<Rightarrow> u64 * u64" where
  "udiv64_slow a b = udiv64_loop 64 a b 0 0"

section \<open>Shifts of 64-bit integers (math_builtins.c)\<close>

text \<open>The two halves of an integer, the \<open>union u32x2\<close>.\<close>

record u32x2 =
  lo :: u32
  hi :: u32

definition u32x2_of :: "u64 \<Rightarrow> u32x2" where
  "u32x2_of full = \<lparr>lo = ucast full, hi = ucast (drop_bit 32 full)\<rparr>"

definition u32x2_full :: "u32x2 \<Rightarrow> u64" where
  "u32x2_full w = push_bit 32 (ucast (hi w)) OR ucast (lo w)"

text \<open>The shift amount is an \<open>int32_t\<close>; negative ones and those beyond 63 are undefined in C.\<close>

definition ot_builtin_lshift_i64 :: "u64 \<Rightarrow> int \<Rightarrow> u64" where
  "ot_builtin_lshift_i64 val shift =
     (if shift = 0 then val
      else let word = u32x2_of val in
        if shift \<ge> 32
        then let word = word\<lparr>hi := push_bit (nat (shift - 32)) (lo word)\<rparr> in
          u32x2_full (word\<lparr>lo := 0\<rparr>)
        else let word = word\<lparr>hi := push_bit (nat shift) (hi word)\<rparr>;
               word = word\<lparr>hi := hi word OR drop_bit (nat (32 - shift)) (lo word)\<rparr>
          in u32x2_full (word\<lparr>lo := push_bit (nat shift) (lo word)\<rparr>))"

definition ot_builtin_rshift_i64 :: "u64 \<Rightarrow> int \<Rightarrow> u64" where
  "ot_builtin_rshift_i64 val shift =
     (if shift = 0 then val
      else let word = u32x2_of val in
        if shift \<ge> 32
        then let word = word\<lparr>lo := drop_bit (nat (shift - 32)) (hi word)\<rparr> in
          u32x2_full (word\<lparr>hi := 0\<rparr>)
        else let word = word\<lparr>lo := drop_bit (nat shift) (lo word)\<rparr>;
               word = word\<lparr>lo := lo word OR push_bit (nat (32 - shift)) (hi word)\<rparr>
          in u32x2_full (word\<lparr>hi := drop_bit (nat shift) (hi word)\<rparr>))"

definition ot_builtin_ashift_i64 :: "u64 \<Rightarrow> int \<Rightarrow> u64" where
  "ot_builtin_ashift_i64 val shift =
     (if shift = 0 then val
      else let word = u32x2_of val in
        if shift \<ge> 32
        then let word = word\<lparr>lo := signed_drop_bit (nat (shift - 32)) (hi word)\<rparr> in
          u32x2_full (word\<lparr>hi := signed_drop_bit 31 (hi word)\<rparr>)
        else let word = word\<lparr>lo := drop_bit (nat shift) (lo word)\<rparr>;
               word = word\<lparr>lo := lo word OR push_bit (nat (32 - shift)) (hi word)\<rparr>
          in u32x2_full (word\<lparr>hi := signed_drop_bit (nat shift) (hi word)\<rparr>))"

section \<open>Bits of 32-bit integers (math_builtins.c)\<close>

definition ot_builtin_bswap_i32 :: "u32 \<Rightarrow> u32" where
  "ot_builtin_bswap_i32 x = drop_bit 24 (x AND 0xff000000) OR drop_bit 8 (x AND 0x00ff0000) OR
     push_bit 8 (x AND 0x0000ff00) OR push_bit 24 (x AND 0x000000ff)"

definition ot_builtin_popcount_i32 :: "u32 \<Rightarrow> int" where
  "ot_builtin_popcount_i32 val =
     (let i1x32 = val;
          i2x16 = (i1x32 AND 0x55555555) + (drop_bit 1 i1x32 AND 0x55555555);
          i4x8 = (i2x16 AND 0x33333333) + (drop_bit 2 i2x16 AND 0x33333333);
          i8x4 = (i4x8 AND 0x0f0f0f0f) + (drop_bit 4 i4x8 AND 0x0f0f0f0f);
          i16x2 = (i8x4 AND 0x00ff00ff) + (drop_bit 8 i8x4 AND 0x00ff00ff);
          i32x1 = (i16x2 AND 0xffff) + (drop_bit 16 i16x2 AND 0xffff)
      in sint i32x1)"

text \<open>The loops \<open>for (i = 16; i > 0; i /= 2)\<close>.\<close>

fun parity_loop :: "nat \<Rightarrow> u32 \<Rightarrow> u32" where
  "parity_loop i x = (if i > 0 then parity_loop (i div 2) (x XOR drop_bit i x) else x)"

definition ot_builtin_parity_i32 :: "u32 \<Rightarrow> int" where
  "ot_builtin_parity_i32 val = sint (parity_loop 16 val AND 1)"

fun ctz_loop :: "nat \<Rightarrow> u32 \<Rightarrow> int \<Rightarrow> int" where
  "ctz_loop i x count =
     (if i > 0 then
        let mask = push_bit i 1 - 1 in
        if x AND mask = 0 then ctz_loop (i div 2) (drop_bit i x) (count + int i)
        else ctz_loop (i div 2) x count
      else count)"

definition ot_builtin_ctz_i32 :: "u32 \<Rightarrow> int" where
  "ot_builtin_ctz_i32 val = ctz_loop 16 val 0"

fun clz_loop :: "nat \<Rightarrow> u32 \<Rightarrow> int \<Rightarrow> int" where
  "clz_loop i x count =
     (if i > 0 then
        let mask = push_bit (32 - i) (push_bit i 1 - 1) in
        if x AND mask = 0 then clz_loop (i div 2) (push_bit i x) (count + int i)
        else clz_loop (i div 2) x count
      else count)"

definition ot_builtin_clz_i32 :: "u32 \<Rightarrow> int" where
  "ot_builtin_clz_i32 val = clz_loop 16 val 0"

definition ot_builtin_find_first_i32 :: "u32 \<Rightarrow> int" where
  "ot_builtin_find_first_i32 val = (if val = 0 then 0 else ot_builtin_ctz_i32 val + 1)"

declare parity_loop.simps [simp del] ctz_loop.simps [simp del] clz_loop.simps [simp del]

section \<open>The bit operations of bitfield.h\<close>

text \<open>The compiler turns its builtins into calls of the functions above
  (\<open>__builtin_clz\<close> into \<open>__clzsi2\<close> and so on).\<close>

definition bitfield_find_first_set32 :: "u32 \<Rightarrow> int" where
  "bitfield_find_first_set32 bitfield = ot_builtin_find_first_i32 bitfield"

definition bitfield_count_leading_zeroes32 :: "u32 \<Rightarrow> int" where
  "bitfield_count_leading_zeroes32 bitfield = (if bitfield \<noteq> 0 then ot_builtin_clz_i32 bitfield else 32)"

definition bitfield_count_trailing_zeroes32 :: "u32 \<Rightarrow> int" where
  "bitfield_count_trailing_zeroes32 bitfield = (if bitfield \<noteq> 0 then ot_builtin_ctz_i32 bitfield else 32)"

definition bitfield_popcount32 :: "u32 \<Rightarrow> int" where
  "bitfield_popcount32 bitfield = ot_builtin_popcount_i32 bitfield"

definition bitfield_parity32 :: "u32 \<Rightarrow> int" where
  "bitfield_parity32 bitfield = ot_builtin_parity_i32 bitfield"

definition bitfield_byteswap32 :: "u32 \<Rightarrow> u32" where
  "bitfield_byteswap32 bitfield = ot_builtin_bswap_i32 bitfield"

section \<open>Division is division\<close>

lemma unat_u64_less: "unat (x :: u64) < 2 ^ 64"
  by (rule order_less_le_trans [OF unsigned_less]) simp

lemma unat_double_OR:
  fixes x y :: u64
  assumes "unat x < 2 ^ 63" "unat y \<le> 1"
  shows "unat (push_bit 1 x OR y) = 2 * unat x + unat y"
proof -
  have "unat y = unat (0 :: u64) \<or> unat y = unat (1 :: u64)"
    using assms(2) by auto
  then have "y = 0 \<or> y = 1"
    by (simp only: word_unat_eq_iff)
  then have y: "y = of_bool (odd y)" by auto
  have "push_bit 1 x OR y = push_bit 1 x + y"
    by (subst y, subst (2) y, rule disjunctive_add [symmetric]) (auto simp: bit_simps bit_1_iff simp del: push_bit_Suc)
  moreover have "unat (push_bit 1 x) = 2 * unat x"
    using assms(1) by (simp add: unat_word_ariths)
  ultimately show ?thesis
    using assms by (simp add: unat_word_ariths)
qed

lemma unat_next_bit: "unat (drop_bit n (a :: u64) AND 1) = unat a div 2 ^ n mod 2"
proof -
  have "unat (drop_bit n a) = unat a div 2 ^ n"
    by (subst unat_drop_bit_eq) (rule drop_bit_eq_div)
  then show ?thesis by (simp add: and_one_eq unat_mod del: drop_bit_eq_div)
qed

lemma udiv64_loop_divides:
  fixes a b quot rem :: u64
  assumes "b \<noteq> 0" "n \<le> 64" "unat a div 2 ^ n = unat quot * unat b + unat rem" "unat rem < unat b"
  shows "udiv64_loop n a b quot rem = (a div b, a mod b)"
  using assms(2-)
proof (induction n arbitrary: quot rem)
  case 0
  then have "unat a div unat b = unat quot" "unat a mod unat b = unat rem"
    using assms(1) by (simp_all add: unat_eq_0)
  then show ?case
    by (simp add: word_arith_nat_div word_arith_nat_mod)
next
  case (Suc n)
  let ?bit = "drop_bit n a AND 1"
  let ?rem = "push_bit 1 rem OR ?bit"
  have "unat a < 2 ^ (63 - n) * 2 ^ Suc n"
    using Suc.prems(1) unat_u64_less [of a] by (simp flip: power_add power_Suc)
  then have "unat a div 2 ^ Suc n < 2 ^ (63 - n)"
    by (simp only: less_mult_imp_div_less)
  also have "... \<le> (2::nat) ^ 63" by (rule power_increasing) simp_all
  finally have small: "unat rem < 2 ^ 63" "unat quot * unat b < 2 ^ 63"
    using Suc.prems(2) by simp_all
  moreover have "unat quot \<le> unat quot * unat b"
    using assms(1) by (simp add: unat_gt_0 Suc_leI)
  ultimately have small_quot: "unat quot < 2 ^ 63" by linarith
  have bit: "unat ?bit = unat a div 2 ^ n mod 2" by (rule unat_next_bit)
  then have bit_le: "unat ?bit \<le> 1" by simp
  have next_prefix: "unat a div 2 ^ n = 2 * (unat a div 2 ^ Suc n) + unat ?bit"
    unfolding bit power_Suc2 div_mult2_eq by simp
  have rem: "unat ?rem = 2 * unat rem + unat ?bit"
    using small(1) bit_le by (rule unat_double_OR)
  have quot: "unat (push_bit 1 quot) = 2 * unat quot" "unat (push_bit 1 quot OR 1) = 2 * unat quot + 1"
    using unat_double_OR [OF small_quot, of 0] unat_double_OR [OF small_quot, of 1] by simp_all
  have dividend: "unat a div 2 ^ n = 2 * (unat quot * unat b) + 2 * unat rem + unat ?bit"
    using Suc.prems(2) next_prefix by linarith
  show ?case
  proof (cases "?rem \<ge> b")
    case True
    then have sub: "unat (?rem - b) = unat ?rem - unat b" "unat b \<le> unat ?rem"
      by (simp_all only: unat_sub word_le_nat_alt)
    have "unat (push_bit 1 quot OR 1) * unat b = 2 * (unat quot * unat b) + unat b"
      by (simp only: quot distrib_right mult.assoc mult_1)
    then have "udiv64_loop n a b (push_bit 1 quot OR 1) (?rem - b) = (a div b, a mod b)"
      using Suc.prems dividend sub rem bit_le by (intro Suc.IH) linarith+
    with True show ?thesis
      by (simp only: udiv64_loop.simps Let_def if_True)
  next
    case False
    have "unat (push_bit 1 quot) * unat b = 2 * (unat quot * unat b)"
      by (simp only: quot mult.assoc)
    then have "udiv64_loop n a b (push_bit 1 quot) ?rem = (a div b, a mod b)"
      using Suc.prems dividend False rem by (intro Suc.IH) (simp_all add: word_le_nat_alt del: push_bit_Suc One_nat_def)
    with False show ?thesis
      by (simp only: udiv64_loop.simps Let_def if_False)
  qed
qed

lemma udiv64_loop_zero: "n \<le> 64 \<Longrightarrow> quot = mask (64 - n) \<Longrightarrow> rem = drop_bit n a \<Longrightarrow>
   udiv64_loop n a 0 quot rem = (mask 64, a)"
proof (induction n arbitrary: quot rem)
  case (Suc n)
  have "push_bit 1 (drop_bit (Suc n) a) OR (drop_bit n a AND 1) = drop_bit n a"
    by (rule bit_word_eqI) (auto simp: bit_simps bit_1_iff Suc_le_eq simp del: push_bit_Suc)
  moreover have "push_bit 1 (mask (64 - Suc n)) OR 1 = (mask (64 - n) :: u64)"
    using Suc.prems(1) by (intro bit_word_eqI) (auto simp: bit_simps bit_1_iff simp del: push_bit_Suc)
  ultimately show ?case using Suc by (simp add: Let_def)
qed simp

lemma udiv64_slow_correct:
  "udiv64_slow a b = (if b = 0 then (- 1, a) else (a div b, a mod b))"
proof (cases "b = 0")
  case True
  have "drop_bit 64 a = 0" by (rule bit_word_eqI) (simp add: bit_simps bit_imp_le_length)
  with True show ?thesis
    using udiv64_loop_zero [of 64 0 0 a] by (simp add: udiv64_slow_def minus_1_eq_mask)
next
  case False
  then have "unat a div 2 ^ 64 = 0" "0 < unat b"
    using unat_u64_less [of a] by (simp_all add: unat_gt_0)
  then show ?thesis
    using udiv64_loop_divides [OF False, of 64 a 0 0] False by (simp add: udiv64_slow_def)
qed

section \<open>Shifts are shifts\<close>

lemma bit_u32x2_full: "bit (u32x2_full w) n \<longleftrightarrow> (if n < 32 then bit (lo w) n else bit (hi w) (n - 32))"
  by (auto simp: u32x2_full_def bit_simps dest: bit_imp_le_length)

lemma u32x2_halves [simp]: "lo (u32x2_of v) = ucast v" "hi (u32x2_of v) = ucast (drop_bit 32 v)"
  by (simp_all add: u32x2_of_def)

lemma bit_signed_shift:
  "bit (signed_drop_bit m (w :: u64)) n \<longleftrightarrow> n < 64 \<and> bit w (if 64 - m \<le> n then 63 else m + n)"
  "bit (signed_drop_bit m (v :: u32)) n \<longleftrightarrow> n < 32 \<and> bit v (if 32 - m \<le> n then 31 else m + n)"
proof -
  show "bit (signed_drop_bit m w) n \<longleftrightarrow> n < 64 \<and> bit w (if 64 - m \<le> n then 63 else m + n)"
    by (cases "n < 64") (auto simp: bit_signed_drop_bit_iff dest: bit_imp_le_length)
  show "bit (signed_drop_bit m v) n \<longleftrightarrow> n < 32 \<and> bit v (if 32 - m \<le> n then 31 else m + n)"
    by (cases "n < 32") (auto simp: bit_signed_drop_bit_iff dest: bit_imp_le_length)
qed

lemma shifts_correct:
  assumes "0 \<le> shift" "shift < 64"
  shows "ot_builtin_lshift_i64 val shift = push_bit (nat shift) val"
    "ot_builtin_rshift_i64 val shift = drop_bit (nat shift) val"
    "ot_builtin_ashift_i64 val shift = signed_drop_bit (nat shift) val"
proof -
  obtain k where k: "shift = int k" "k < 64" using assms by (metis nat_eq_iff2 nat_less_iff numeral_code zero_le_imp_eq_int of_nat_less_numeral_iff)
  show "ot_builtin_lshift_i64 val shift = push_bit (nat shift) val"
    by (rule bit_word_eqI) (auto simp: ot_builtin_lshift_i64_def k Let_def bit_u32x2_full bit_simps nat_diff_distrib' add.commute dest: bit_imp_le_length)
  show "ot_builtin_rshift_i64 val shift = drop_bit (nat shift) val"
    by (rule bit_word_eqI) (auto simp: ot_builtin_rshift_i64_def k Let_def bit_u32x2_full bit_simps nat_diff_distrib' add.commute dest: bit_imp_le_length)
  show "ot_builtin_ashift_i64 val shift = signed_drop_bit (nat shift) val"
  proof (rule bit_word_eqI)
    fix n :: nat assume "n < LENGTH(64)"
    then show "bit (ot_builtin_ashift_i64 val shift) n = bit (signed_drop_bit (nat shift) val) n"
    proof -
      have e: "nat (int k - 32) = k - 32" "nat (32 - int k) = 32 - k" by simp_all
      note defs = ot_builtin_ashift_i64_def k(1) Let_def bit_u32x2_full bit_signed_shift bit_or_iff bit_unsigned_iff
        bit_push_bit_iff bit_drop_bit_eq e
      consider "k < 32" "n + k < 32" | "k < 32" "n < 32" "32 - k \<le> n"
        | "k < 32" "32 \<le> n" "n < 64 - k" | "k < 32" "64 - k \<le> n"
        | "32 \<le> k" "n < 64 - k" | "32 \<le> k" "64 - k \<le> n" "n < 32" | "32 \<le> k" "32 \<le> n" "64 - k \<le> n"
        by linarith
      then show ?thesis
      proof cases
        case 1 then show ?thesis by (auto simp: defs add.commute dest: bit_imp_le_length)
      next
        case 2
        then have "32 + (n - (32 - k)) = n + k" "n - (32 - k) < 32" "\<not> 64 - k \<le> n" using k(2) by linarith+
        then show ?thesis using 2 by (auto simp: defs add.commute dest: bit_imp_le_length)
      next
        case 3
        then have "\<not> 64 - k \<le> n" "\<not> 32 - k \<le> n - 32" "k + n - 32 < 32" "\<not> n < 32" by linarith+
        then show ?thesis using 3 by (auto simp: defs add.commute)
      next
        case 4
        then have "32 - k \<le> n - 32" "n - 32 < 32" "\<not> n < 32" using \<open>n < LENGTH(64)\<close> by simp_all
        then show ?thesis using 4 by (auto simp: defs)
      next
        case 5
        then show ?thesis using k(2) by (auto simp: defs add.commute)
      next
        case 6
        then show ?thesis using k(2) by (auto simp: defs add.commute)
      next
        case 7
        then show ?thesis using k(2) \<open>n < LENGTH(64)\<close> by (auto simp: defs add.commute)
      qed
    qed
  qed
qed

lemma byte_masks:
  "(0xff :: u32) = mask 8" "(0xff00 :: u32) = push_bit 8 (mask 8)"
  "(0xff0000 :: u32) = push_bit 16 (mask 8)" "(0xff000000 :: u32) = push_bit 24 (mask 8)"
  by (simp_all add: mask_eq_exp_minus_1)

lemma u8_bit_beyond: "8 \<le> n \<Longrightarrow> \<not> bit (x :: u8) n"
  by (auto dest: bit_imp_le_length)

lemma bit_le_word_bytes:
  assumes "r < 8"
  shows "bit (le_word a b c d) r = bit a r" "bit (le_word a b c d) (r + 8) = bit b r"
    "bit (le_word a b c d) (r + 16) = bit c r" "bit (le_word a b c d) (r + 24) = bit d r"
  using assms by (simp_all add: le_word_def bit_or_iff bit_push_bit_iff bit_unsigned_iff u8_bit_beyond)

lemma bit_bswap_bytes:
  assumes "r < 8"
  shows "bit (ot_builtin_bswap_i32 x) r = bit x (r + 24)" "bit (ot_builtin_bswap_i32 x) (r + 8) = bit x (r + 16)"
    "bit (ot_builtin_bswap_i32 x) (r + 16) = bit x (r + 8)" "bit (ot_builtin_bswap_i32 x) (r + 24) = bit x r"
  using assms
  by (simp_all add: ot_builtin_bswap_i32_def byte_masks bit_or_iff bit_and_iff bit_mask_iff bit_push_bit_iff
      bit_drop_bit_eq add.commute)

lemma bswap_correct: "ot_builtin_bswap_i32 (le_word a b c d) = le_word d c b a"
proof (rule bit_word_eqI)
  fix n :: nat assume "n < LENGTH(32)"
  then have "n < 32" by simp
  then consider "n < 8" | "n - 8 < 8" "n = (n - 8) + 8" | "n - 16 < 8" "n = (n - 16) + 16"
    | "n - 24 < 8" "n = (n - 24) + 24"
    by linarith
  then show "bit (ot_builtin_bswap_i32 (le_word a b c d)) n = bit (le_word d c b a) n"
    by cases (metis bit_le_word_bytes bit_bswap_bytes)+
qed

section \<open>Counting zeroes\<close>

text \<open>The lowest and the highest set bit.\<close>

definition lowest_bit :: "u32 \<Rightarrow> nat \<Rightarrow> bool" where
  "lowest_bit x n \<longleftrightarrow> bit x n \<and> (\<forall>j < n. \<not> bit x j)"

definition highest_bit :: "u32 \<Rightarrow> nat \<Rightarrow> bool" where
  "highest_bit x n \<longleftrightarrow> bit x n \<and> (\<forall>j > n. \<not> bit x j)"

lemma ones_mask: "push_bit i 1 - 1 = (mask i :: u32)"
  by (simp add: mask_eq_exp_minus_1 push_bit_of_1)

lemma u32_bit_less: "bit (x :: u32) j \<Longrightarrow> j < 32"
  by (auto dest: bit_imp_le_length)

lemma u32_zero_iff: "(x :: u32) = 0 \<longleftrightarrow> (\<forall>j < 32. \<not> bit x j)"
  by (auto simp: bit_eq_iff)

lemma low_mask_zero: "x AND (push_bit i 1 - 1) = 0 \<longleftrightarrow> (\<forall>j < i. \<not> bit (x :: u32) j)"
  unfolding ones_mask u32_zero_iff
  by (auto simp: bit_and_iff bit_mask_iff dest: u32_bit_less)

lemma high_mask_zero:
  "i \<le> 32 \<Longrightarrow> x AND push_bit (32 - i) (push_bit i 1 - 1) = 0 \<longleftrightarrow> (\<forall>j \<ge> 32 - i. \<not> bit (x :: u32) j)"
  unfolding ones_mask u32_zero_iff
  apply (auto simp: bit_and_iff bit_push_bit_iff bit_mask_iff dest: u32_bit_less)
  subgoal for j using u32_bit_less [of x j] by (auto dest: spec [of _ j])
  done

lemma ctz_loop_finds:
  assumes "lowest_bit x n" "n < 2 ^ k"
  shows "ctz_loop (2 ^ k div 2) x c = c + int n"
  using assms
proof (induction k arbitrary: x n c)
  case 0
  then show ?case by (simp add: ctz_loop.simps)
next
  case (Suc k)
  show ?case
  proof (cases "n < 2 ^ k")
    case True
    then have "x AND (push_bit (2 ^ k) 1 - 1) \<noteq> 0"
      using Suc.prems(1) by (subst low_mask_zero) (auto simp: lowest_bit_def)
    with Suc.IH [OF Suc.prems(1) True] show ?thesis
      by (subst ctz_loop.simps) (simp add: Let_def)
  next
    case False
    then have "x AND (push_bit (2 ^ k) 1 - 1) = 0"
      using Suc.prems by (subst low_mask_zero) (auto simp: lowest_bit_def)
    moreover have "lowest_bit (drop_bit (2 ^ k) x) (n - 2 ^ k)" "n - 2 ^ k < 2 ^ k"
      using Suc.prems False by (auto simp: lowest_bit_def bit_drop_bit_eq)
    ultimately show ?thesis
      using Suc.IH [of "drop_bit (2 ^ k) x" "n - 2 ^ k" "c + int (2 ^ k)"] False
      by (subst ctz_loop.simps) (simp add: Let_def of_nat_diff)
  qed
qed

lemma clz_loop_finds:
  assumes "highest_bit x (31 - n)" "n < 2 ^ k" "k \<le> 5"
  shows "clz_loop (2 ^ k div 2) x c = c + int n"
  using assms
proof (induction k arbitrary: x n c)
  case 0
  then show ?case by (simp add: clz_loop.simps)
next
  case (Suc k)
  have k: "(2::nat) ^ k \<le> 16" using power_increasing [of k 4 "2::nat"] Suc.prems(3) by simp
  show ?case
  proof (cases "n < 2 ^ k")
    case True
    then have "31 - n \<ge> 32 - 2 ^ k" using k by linarith
    then have "x AND push_bit (32 - 2 ^ k) (push_bit (2 ^ k) 1 - 1) \<noteq> 0"
      using Suc.prems(1) k by (subst high_mask_zero) (auto simp: highest_bit_def)
    with Suc.IH [OF Suc.prems(1) True] Suc.prems(3) show ?thesis
      by (subst clz_loop.simps) (simp add: Let_def)
  next
    case False
    have "x AND push_bit (32 - 2 ^ k) (push_bit (2 ^ k) 1 - 1) = 0"
      using Suc.prems False k by (subst high_mask_zero) (auto simp: highest_bit_def)
    moreover have "highest_bit (push_bit (2 ^ k) x) (31 - (n - 2 ^ k))" "n - 2 ^ k < 2 ^ k"
      using Suc.prems False k by (auto simp: highest_bit_def bit_push_bit_iff)
    ultimately show ?thesis
      using Suc.IH [of "push_bit (2 ^ k) x" "n - 2 ^ k" "c + int (2 ^ k)"] False Suc.prems(3)
      by (subst clz_loop.simps) (simp add: Let_def of_nat_diff)
  qed
qed

lemma ctz_correct: "lowest_bit x n \<Longrightarrow> ot_builtin_ctz_i32 x = int n"
  using ctz_loop_finds [of x n 5 0] bit_imp_le_length [of x n]
  by (auto simp: ot_builtin_ctz_i32_def lowest_bit_def)

lemma clz_correct: "highest_bit x n \<Longrightarrow> ot_builtin_clz_i32 x = 31 - int n"
  using clz_loop_finds [of x "31 - n" 5 0] bit_imp_le_length [of x n]
  by (auto simp: ot_builtin_clz_i32_def highest_bit_def of_nat_diff)

lemma find_first_correct: "lowest_bit x n \<Longrightarrow> ot_builtin_find_first_i32 x = int n + 1"
  by (auto simp: ot_builtin_find_first_i32_def ctz_correct lowest_bit_def)

section \<open>Parity and population count\<close>

lemma sum_split_add: "(\<Sum>j < n + m. f j) = (\<Sum>j < n. f j) + (\<Sum>j < m. f (j + n) :: nat)" for n m :: nat
  by (induction m) (simp_all add: ac_simps)

lemma parity_loop_halves:
  "k \<le> 5 \<Longrightarrow> bit (parity_loop (2 ^ k div 2) x) 0 \<longleftrightarrow> odd (\<Sum>j < 2 ^ k. of_bool (bit x j) :: nat)"
proof (induction k arbitrary: x)
  case 0
  then show ?case by (simp add: parity_loop.simps)
next
  case (Suc k)
  let ?n = "2 ^ k :: nat"
  have "(\<Sum>j < 2 ^ Suc k. of_bool (bit x j)) = (\<Sum>j < ?n. of_bool (bit x j)) + (\<Sum>j < ?n. of_bool (bit x (j + ?n)) :: nat)"
    using sum_split_add [of "\<lambda>j. of_bool (bit x j)" ?n ?n] by (simp only: power_Suc mult_2)
  moreover have "even (\<Sum>j < ?n. of_bool (bit (x XOR drop_bit ?n x) j) + (of_bool (bit x j) + of_bool (bit x (j + ?n))) :: nat)"
    by (rule dvd_sum) (auto simp: bit_xor_iff bit_drop_bit_eq add.commute)
  ultimately show ?case
    using Suc by (subst parity_loop.simps) (simp add: sum.distrib)
qed

definition count_bits :: "u32 \<Rightarrow> nat" where
  "count_bits x = (\<Sum>j < 32. of_bool (bit x j))"

lemma parity_correct: "ot_builtin_parity_i32 x = int (count_bits x mod 2)"
proof -
  have "parity_loop 16 x AND 1 = of_bool (odd (count_bits x))"
    using parity_loop_halves [of 5 x] by (simp add: and_one_eq bit_0 count_bits_def mod_2_eq_odd)
  then show ?thesis by (simp add: ot_builtin_parity_i32_def mod_2_eq_odd)
qed

text \<open>A number as digits of \<open>m\<close> bits, lowest first. One stage of the population count adds
  neighbouring digits, giving half as many digits of twice the width.\<close>

fun pack :: "nat \<Rightarrow> nat list \<Rightarrow> nat" where
  "pack m [] = 0"
| "pack m (d # ds) = d + 2 ^ m * pack m ds"

fun pairs :: "nat list \<Rightarrow> nat list" where
  "pairs (a # b # ds) = (a + b) # pairs ds"
| "pairs ds = []"

primrec low_halves :: "nat \<Rightarrow> nat \<Rightarrow> nat" where
  "low_halves m 0 = 0"
| "low_halves m (Suc k) = mask m + 2 ^ (2 * m) * low_halves m k"

lemma nat_bits_eqI: "take_bit n a = take_bit n b \<Longrightarrow> drop_bit n a = drop_bit n b \<Longrightarrow> a = (b :: nat)"
  by (metis bits_ident)

lemma and_digits:
  assumes "a < 2 ^ n" "c < 2 ^ n"
  shows "(a + 2 ^ n * b) AND (c + 2 ^ n * d) = (a AND c) + 2 ^ n * (b AND d :: nat)"
proof -
  have digits: "take_bit n (x + 2 ^ n * y) = x" "drop_bit n (x + 2 ^ n * y) = y" if "x < 2 ^ n" for x y :: nat
    using that by (simp_all add: take_bit_eq_mod drop_bit_eq_div)
  have "take_bit n (a AND c) = a AND c"
    unfolding take_bit_and by (simp only: assms take_bit_nat_eq_self)
  with take_bit_nat_less_exp [of n "a AND c"] have low: "a AND c < 2 ^ n" by (simp only:)
  show ?thesis
    by (rule nat_bits_eqI [of n]) (simp_all add: take_bit_and drop_bit_and digits assms low)
qed

lemma and_low_half:
  fixes a b p q :: nat
  assumes "a < 2 ^ m" "b < 2 ^ m"
  shows "(a + 2 ^ m * b + 2 ^ (2 * m) * p) AND (mask m + 2 ^ (2 * m) * q) = a + 2 ^ (2 * m) * (p AND q)"
proof -
  have "2 ^ m * Suc b \<le> 2 ^ m * 2 ^ m" using assms(2) by (intro mult_le_mono2) simp
  then have "a + 2 ^ m * b < 2 ^ m * 2 ^ m" using assms(1) by simp
  moreover have "(mask m :: nat) < 2 ^ m * 2 ^ m"
    by (rule less_le_trans [OF mask_nat_less_exp]) simp
  moreover have "(a + 2 ^ m * b) AND mask m = a"
    using assms(1) by (simp add: take_bit_eq_mask [symmetric] take_bit_eq_mod)
  ultimately show ?thesis
    using and_digits [of "a + 2 ^ m * b" "2 * m" "mask m" p q] by (simp add: mult_2 power_add)
qed

lemma stage_pairs:
  "length ds = 2 * k \<Longrightarrow> list_all (\<lambda>d. d < 2 ^ m) ds \<Longrightarrow>
   (pack m ds AND low_halves m k) + (drop_bit m (pack m ds) AND low_halves m k) = pack (2 * m) (pairs ds)"
proof (induction ds arbitrary: k rule: pairs.induct)
  case (1 a b ds)
  then obtain l where k: "k = Suc l" "length ds = 2 * l" by (cases k) auto
  let ?p = "pack m ds"
  have ab: "a < 2 ^ m" "b < 2 ^ m" using 1 by simp_all
  have whole: "pack m (a # b # ds) = a + 2 ^ m * b + 2 ^ (2 * m) * ?p"
    by (simp add: distrib_left mult_2 power_add mult.assoc)
  have "drop_bit m (pack m (a # b # ds)) = b + 2 ^ m * ?p"
    using ab by (simp add: drop_bit_eq_div)
  also have "... = b + 2 ^ m * (?p mod 2 ^ m) + 2 ^ (2 * m) * drop_bit m ?p"
    by (simp add: drop_bit_eq_div mult_2 power_add mult.assoc flip: distrib_left)
  finally have "drop_bit m (pack m (a # b # ds)) AND low_halves m k = b + 2 ^ (2 * m) * (drop_bit m ?p AND low_halves m l)"
    using and_low_half [OF ab(2), of "?p mod 2 ^ m"] by (simp add: k)
  moreover have "pack m (a # b # ds) AND low_halves m k = a + 2 ^ (2 * m) * (?p AND low_halves m l)"
    using and_low_half [OF ab] by (simp add: k whole del: pack.simps)
  moreover have "(?p AND low_halves m l) + (drop_bit m ?p AND low_halves m l) = pack (2 * m) (pairs ds)"
    using 1 k(2) by simp
  ultimately have "(pack m (a # b # ds) AND low_halves m k) + (drop_bit m (pack m (a # b # ds)) AND low_halves m k)
      = a + b + 2 ^ (2 * m) * pack (2 * m) (pairs ds)"
    by (simp only: add.assoc distrib_left [symmetric] add.left_commute [of _ b])
  then show ?case by simp
qed (auto simp: length_Suc_conv)

text \<open>The same for words, with digits that leave room for the carries.\<close>

lemma pack_less: "list_all (\<lambda>d. d < 2 ^ m) ds \<Longrightarrow> pack m ds < 2 ^ (m * length ds)"
proof (induction ds)
  case (Cons d ds)
  then have "2 ^ m * pack m ds + 2 ^ m \<le> 2 ^ m * 2 ^ (m * length ds)" 
    using mult_le_mono2 [of "Suc (pack m ds)" "2 ^ (m * length ds)" "2 ^ m"] by simp
  with Cons show ?case by (simp add: power_add)
qed simp

lemma length_pairs: "length ds = 2 * k \<Longrightarrow> length (pairs ds) = k"
proof (induction ds arbitrary: k rule: pairs.induct)
  case (1 a b ds)
  then show ?case by (cases k) auto
qed auto

lemma pairs_bound: "list_all (\<lambda>d. d \<le> c) ds \<Longrightarrow> list_all (\<lambda>d. d \<le> 2 * c) (pairs ds)"
  by (induction ds rule: pairs.induct) auto

lemma sum_pairs: "even (length ds) \<Longrightarrow> sum_list (pairs ds) = sum_list ds"
  by (induction ds rule: pairs.induct) auto

lemma unat_u32_less: "unat (x :: u32) < 2 ^ 32"
  by (rule order_less_le_trans [OF unsigned_less]) simp

lemma word_stage:
  fixes x y :: u32
  assumes x: "unat x = pack m ds" and y: "unat y = low_halves m k"
    and len: "length ds = 2 * k" "2 * m * k = 32"
    and dig: "list_all (\<lambda>d. d < 2 ^ m) ds" "list_all (\<lambda>d. d < 2 ^ (2 * m)) (pairs ds)"
  shows "unat ((x AND y) + (drop_bit m x AND y)) = pack (2 * m) (pairs ds)"
proof -
  have "pack (2 * m) (pairs ds) < 2 ^ 32"
    using pack_less [OF dig(2)] len length_pairs [OF len(1)] by simp
  moreover have "take_bit 32 (pack m ds) = pack m ds"
    using unat_u32_less [of x] by (simp add: x take_bit_nat_eq_self)
  ultimately show ?thesis
    using stage_pairs [OF len(1) dig(1)]
    by (simp add: unat_word_ariths unsigned_and_eq unsigned_drop_bit_eq x y)
qed

lemma word_bits_pack: "take_bit k (n :: nat) = pack 1 (map (\<lambda>j. of_bool (bit n j)) [0..<k])"
proof (induction k arbitrary: n)
  case (Suc k)
  have e: "map (\<lambda>j. of_bool (bit n j)) [0..<Suc k] = of_bool (odd n) # map (\<lambda>j. of_bool (bit (n div 2) j)) [0..<k]"
    by (simp add: upt_conv_Cons map_Suc_upt [symmetric] bit_0 bit_Suc o_def del: upt_Suc)
  show ?case by (simp only: e take_bit_Suc Suc.IH [of "n div 2"] pack.simps mod_2_eq_odd) simp
qed simp

lemma low_halves_numeral [simp]:
  "low_halves m (numeral k) = mask m + 2 ^ (2 * m) * low_halves m (pred_numeral k)"
  by (simp add: numeral_eq_Suc)

lemma popcount_masks:
  "unat (0x55555555 :: u32) = low_halves 1 16" "unat (0x33333333 :: u32) = low_halves 2 8"
  "unat (0x0f0f0f0f :: u32) = low_halves 4 4" "unat (0x00ff00ff :: u32) = low_halves 8 2"
  "unat (0xffff :: u32) = low_halves 16 1"
  by (simp_all add: mask_eq_exp_minus_1)

lemma popcount_correct: "ot_builtin_popcount_i32 x = int (count_bits x)"
proof -
  let ?ds = "map (\<lambda>j. of_bool (bit (unat x) j)) [0..<32] :: nat list"
  have bits: "length ?ds = 2 * 16" "list_all (\<lambda>d. d \<le> 1) ?ds" "unat x = pack 1 ?ds"
    using word_bits_pack [of 32 "unat x"] unat_u32_less [of x] by (auto simp: list_all_iff take_bit_nat_eq_self)
  define d1 where "d1 = pairs ?ds"
  define d2 where "d2 = pairs d1"
  define d3 where "d3 = pairs d2"
  define d4 where "d4 = pairs d3"
  have len: "length d1 = 2 * 8" "length d2 = 2 * 4" "length d3 = 2 * 2" "length d4 = 2 * 1"
    using length_pairs [of ?ds 16] length_pairs [of d1 8] length_pairs [of d2 4] length_pairs [of d3 2]
    by (simp_all add: d1_def d2_def d3_def d4_def)
  have dig: "list_all (\<lambda>d. d \<le> 2) d1" "list_all (\<lambda>d. d \<le> 4) d2" "list_all (\<lambda>d. d \<le> 8) d3"
    "list_all (\<lambda>d. d \<le> 16) d4" "list_all (\<lambda>d. d \<le> 32) (pairs d4)"
    using pairs_bound [of 1 ?ds] pairs_bound [of 2 d1] pairs_bound [of 4 d2] pairs_bound [of 8 d3]
      pairs_bound [of 16 d4] bits(2) by (simp_all add: d1_def d2_def d3_def d4_def)
  have less: "list_all (\<lambda>d. d < c) ds" if "list_all (\<lambda>d. d \<le> b) ds" "b < c" for b c :: nat and ds
    using that by (auto simp: list_all_iff)
  obtain s where s: "pairs d4 = [s]"
    using length_pairs [OF len(4)] by (auto simp: length_Suc_conv)
  have "s = sum_list (pairs d4)" using s by simp
  also have "... = sum_list ?ds"
    using sum_pairs [of ?ds] sum_pairs [of d1] sum_pairs [of d2] sum_pairs [of d3] sum_pairs [of d4] len
    by (simp add: d1_def d2_def d3_def d4_def)
  also have "... = count_bits x"
    by (simp add: count_bits_def interv_sum_list_conv_sum_set_nat lessThan_atLeast0 bit_unsigned_iff)
  finally have sum: "s = count_bits x" .
  define i2x16 where "i2x16 = (x AND 0x55555555) + (drop_bit 1 x AND 0x55555555)"
  define i4x8 where "i4x8 = (i2x16 AND 0x33333333) + (drop_bit 2 i2x16 AND 0x33333333)"
  define i8x4 where "i8x4 = (i4x8 AND 0x0f0f0f0f) + (drop_bit 4 i4x8 AND 0x0f0f0f0f)"
  define i16x2 where "i16x2 = (i8x4 AND 0x00ff00ff) + (drop_bit 8 i8x4 AND 0x00ff00ff)"
  have p1: "unat i2x16 = pack 2 d1"
    using word_stage [OF bits(3) popcount_masks(1) bits(1)] less [OF bits(2)] less [OF dig(1)]
    by (simp add: i2x16_def d1_def)
  have p2: "unat i4x8 = pack 4 d2"
    using word_stage [OF p1 popcount_masks(2) len(1)] less [OF dig(1)] less [OF dig(2)]
    by (simp add: i4x8_def d2_def)
  have p3: "unat i8x4 = pack 8 d3"
    using word_stage [OF p2 popcount_masks(3) len(2)] less [OF dig(2)] less [OF dig(3)]
    by (simp add: i8x4_def d3_def)
  have p4: "unat i16x2 = pack 16 d4"
    using word_stage [OF p3 popcount_masks(4) len(3)] less [OF dig(3)] less [OF dig(4)]
    by (simp add: i16x2_def d4_def)
  have p5: "unat ((i16x2 AND 0xffff) + (drop_bit 16 i16x2 AND 0xffff)) = s"
    using word_stage [OF p4 popcount_masks(5) len(4)] less [OF dig(4)] less [OF dig(5)]
    by (simp add: s)
  have "s \<le> 32" using dig(5) s by simp
  then have "sint w = int s" if "unat w = s" for w :: u32
    unfolding sint_uint using that by (subst signed_take_bit_int_eq_self) (auto simp: uint_nat)
  note this [OF p5]
  then show ?thesis
    by (simp only: ot_builtin_popcount_i32_def Let_def i2x16_def i4x8_def i8x4_def i16x2_def sum)
qed

section \<open>Properties\<close>

lemma count_bits_card: "count_bits x = card {n. bit x n}"
proof -
  have "{n. bit x n} = {..<32} \<inter> {n. bit x n}" by (auto dest: u32_bit_less)
  then show ?thesis by (simp add: count_bits_def sum.If_cases of_bool_def)
qed

lemma finite_bits: "finite {n. bit (x :: u32) n}"
  by (rule finite_subset [of _ "{..<32}"]) (auto dest: u32_bit_less)

lemma some_bit: "(x :: u32) \<noteq> 0 \<Longrightarrow> {n. bit x n} \<noteq> {}"
  using u32_zero_iff [of x] by auto

lemma lowest_bit_Min: "x \<noteq> 0 \<Longrightarrow> lowest_bit x (Min {n. bit x n})"
  using Min_in [OF finite_bits some_bit, of x] by (auto simp: lowest_bit_def finite_bits not_le [symmetric])

lemma highest_bit_Max: "x \<noteq> 0 \<Longrightarrow> highest_bit x (Max {n. bit x n})"
  using Max_in [OF finite_bits some_bit, of x] by (auto simp: highest_bit_def finite_bits not_le [symmetric])

lemma byteswap_bytes: "word_bytes (bitfield_byteswap32 x) = rev (word_bytes x)"
proof -
  obtain a b c d where x: "x = le_word a b c d"
    using le_word_word_bytes [of x] by metis
  show ?thesis by (simp add: x bitfield_byteswap32_def bswap_correct)
qed

text \<open>C36: the arithmetic the compiler does not have instructions for. The
  64-bit division returns quotient and remainder (and the documented values for a zero divisor), the
  64-bit shifts by less than 64 are the logical and arithmetic shifts, and the operations of
  \<open>bitfield.h\<close> count the set bits, their parity, the zeroes below the lowest and above the highest
  set bit, with the documented values at zero, and reverse the bytes.\<close>

theorem math_builtins_correct:
  assumes "0 \<le> shift" "shift < 64"
  shows "udiv64_slow a b = (if b = 0 then (- 1, a) else (a div b, a mod b)) \<and>
    ot_builtin_lshift_i64 a shift = push_bit (nat shift) a \<and>
    ot_builtin_rshift_i64 a shift = drop_bit (nat shift) a \<and>
    ot_builtin_ashift_i64 a shift = signed_drop_bit (nat shift) a \<and>
    bitfield_popcount32 x = int (card {n. bit x n}) \<and>
    bitfield_parity32 x = int (card {n. bit x n} mod 2) \<and>
    bitfield_count_trailing_zeroes32 x = (if x = 0 then 32 else int (Min {n. bit x n})) \<and>
    bitfield_count_leading_zeroes32 x = (if x = 0 then 32 else 31 - int (Max {n. bit x n})) \<and>
    bitfield_find_first_set32 x = (if x = 0 then 0 else int (Min {n. bit x n}) + 1) \<and>
    word_bytes (bitfield_byteswap32 x) = rev (word_bytes x)"
  by (intro conjI)
    (simp_all add: udiv64_slow_correct shifts_correct [OF assms] bitfield_popcount32_def popcount_correct
      bitfield_parity32_def parity_correct count_bits_card bitfield_count_trailing_zeroes32_def
      bitfield_count_leading_zeroes32_def bitfield_find_first_set32_def byteswap_bytes
      ctz_correct [OF lowest_bit_Min] clz_correct [OF highest_bit_Max] find_first_correct [OF lowest_bit_Min]
      ot_builtin_find_first_i32_def)

theorem math_builtins_correct_witness:
  "ot_builtin_lshift_i64 3 40 = push_bit (nat 40) 3 \<and> bitfield_popcount32 0xff = int (card {n. bit (0xff :: u32) n})"
  using math_builtins_correct [of 40 3 1 "0xff"] by simp

end
