(* ===== verification/Hardened_Memory.thy ===== *)
theory Hardened_Memory
  imports Base_Math
begin

text \<open>The constant-time helpers of \<open>lib/base/hardened.h\<close>, \<open>lib/base/random_order.c\<close> and
  \<open>lib/base/hardened_memory.c\<close>. The hardened memory functions walk their buffers in a traversal
  order that may visit more indices than the buffer has and the same index twice; an index beyond the
  buffer is redirected to a decoy on the stack. What they do is proved for every order that keeps the
  documented promise of \<open>random_order.h\<close> (locale \<open>traversal\<close>), and the code's order is one.\<close>

unbundle bit_operations_syntax

section \<open>Branchless comparison and selection (hardened.h)\<close>

definition ct_sltz32 :: "u32 \<Rightarrow> u32" where
  "ct_sltz32 a = signed_drop_bit (4 * 8 - 1) a"

definition ct_sltu32 :: "u32 \<Rightarrow> u32 \<Rightarrow> u32" where
  "ct_sltu32 a b = ct_sltz32 ((a AND NOT b) OR ((a XOR NOT b) AND (a - b)))"

definition ct_seqz32 :: "u32 \<Rightarrow> u32" where
  "ct_seqz32 a = ct_sltz32 (NOT a AND (a - 1))"

definition ct_seq32 :: "u32 \<Rightarrow> u32 \<Rightarrow> u32" where
  "ct_seq32 a b = ct_seqz32 (a XOR b)"

definition ct_cmov32 :: "u32 \<Rightarrow> u32 \<Rightarrow> u32 \<Rightarrow> u32" where
  "ct_cmov32 c a b = (c AND a) OR (NOT c AND b)"

text \<open>The variants for the pointer-sized \<open>uintptr_t\<close>, 32 bits on the device.\<close>

definition ct_sltzw :: "u32 \<Rightarrow> u32" where
  "ct_sltzw a = signed_drop_bit (4 * 8 - 1) a"

definition ct_sltuw :: "u32 \<Rightarrow> u32 \<Rightarrow> u32" where
  "ct_sltuw a b = ct_sltzw ((a AND NOT b) OR ((a XOR NOT b) AND (a - b)))"

definition ct_seqzw :: "u32 \<Rightarrow> u32" where
  "ct_seqzw a = ct_sltzw (NOT a AND (a - 1))"

definition ct_seqw :: "u32 \<Rightarrow> u32 \<Rightarrow> u32" where
  "ct_seqw a b = ct_seqzw (a XOR b)"

definition ct_cmovw :: "u32 \<Rightarrow> u32 \<Rightarrow> u32 \<Rightarrow> u32" where
  "ct_cmovw c a b = (c AND a) OR (NOT c AND b)"

section \<open>Traversal orders (random\_order.c)\<close>

record random_order =
  ro_state :: u32
  ro_max :: u32

definition random_order_init :: "u32 \<Rightarrow> random_order" where
  "random_order_init min_len = \<lparr>ro_state = 0, ro_max = min_len * 2\<rparr>"

definition random_order_len :: "random_order \<Rightarrow> u32" where
  "random_order_len ctx = ro_max ctx"

definition random_order_advance :: "random_order \<Rightarrow> u32 * random_order" where
  "random_order_advance ctx = (ro_state ctx, ctx\<lparr>ro_state := ro_state ctx + 1\<rparr>)"

section \<open>The hardened memory functions (hardened\_memory.c)\<close>

text \<open>The loop the three functions share: the body gets the byte index of the iteration. The final
  count is returned for the check that follows.\<close>

function order_loop :: "(u32 \<Rightarrow> 's \<Rightarrow> 's) \<Rightarrow> u32 \<Rightarrow> u32 \<Rightarrow> random_order \<Rightarrow> 's \<Rightarrow> u32 * 's" where
  "order_loop body count expected_count order s =
     (if count < expected_count
      then let (i, order) = random_order_advance order in
        order_loop body (count + 1) expected_count order (body (i * 4) s)
      else (count, s))"
  by pat_completeness auto
termination
proof (relation "measure (\<lambda>(body, count, expected_count, order, s). unat expected_count - unat count)")
  fix count expected_count :: u32
  assume "count < expected_count"
  then have "unat count < unat expected_count" by (simp only: word_less_nat_alt)
  then have "unat (count + 1) = Suc (unat count)" "unat count < unat expected_count"
    using unat_u32_less [of expected_count] by (simp_all add: unat_word_ariths)
  then show "((b, count + 1, expected_count, r, t), (body, count, expected_count, order, s))
      \<in> measure (\<lambda>(body, count, expected_count, order, s). unat expected_count - unat count)" for b r t body order s
    by simp
qed simp

declare order_loop.simps [simp del]

text \<open>The decoys are eight words on the stack, at the address \<open>decoy_addr\<close>.\<close>

abbreviation (input) decoys_size :: u32 where "decoys_size \<equiv> 32"

definition memcpy_step :: "u32 \<Rightarrow> u32 \<Rightarrow> u32 \<Rightarrow> u32 \<Rightarrow> u32 \<Rightarrow> memory \<Rightarrow> memory" where
  "memcpy_step dest_addr src_addr byte_len decoy_addr byte_idx mem =
     (let srcp = src_addr + byte_idx;
          destp = dest_addr + byte_idx;
          decoy1 = decoy_addr + (byte_idx mod decoys_size);
          decoy2 = decoy_addr + ((byte_idx + decoys_size div 2) mod decoys_size);
          src = ct_cmovw (ct_sltuw byte_idx byte_len) srcp decoy1;
          dest = ct_cmovw (ct_sltuw byte_idx byte_len) destp decoy2
      in write_32 (read_32 mem src) dest mem)"

text \<open>\<open>None\<close> when the final check traps.\<close>

definition hardened_memcpy :: "u32 \<Rightarrow> u32 \<Rightarrow> u32 \<Rightarrow> u32 \<Rightarrow> memory \<Rightarrow> memory option" where
  "hardened_memcpy dest src word_len decoys mem =
     (let order = random_order_init word_len;
          expected_count = random_order_len order;
          byte_len = word_len * 4;
          (count, mem) = order_loop (memcpy_step dest src byte_len decoys) 0 expected_count order mem
      in if count = expected_count then Some mem else None)"

text \<open>The source of randomness of the shredder (a weak symbol).\<close>

definition hardened_memshred_random_word :: u32 where
  "hardened_memshred_random_word = 0xcaffe17e"

definition memshred_step :: "u32 \<Rightarrow> u32 \<Rightarrow> u32 \<Rightarrow> u32 \<Rightarrow> memory \<Rightarrow> memory" where
  "memshred_step data_addr byte_len decoy_addr byte_idx mem =
     (let datap = data_addr + byte_idx;
          decoy = decoy_addr + (byte_idx mod decoys_size);
          data = ct_cmovw (ct_sltuw byte_idx byte_len) datap decoy
      in write_32 hardened_memshred_random_word data mem)"

definition hardened_memshred :: "u32 \<Rightarrow> u32 \<Rightarrow> u32 \<Rightarrow> memory \<Rightarrow> memory option" where
  "hardened_memshred dest word_len decoys mem =
     (let order = random_order_init word_len;
          expected_count = random_order_len order;
          byte_len = word_len * 4;
          (count, mem) = order_loop (memshred_step dest byte_len decoys) 0 expected_count order mem
      in if count = expected_count then Some mem else None)"

definition memeq_step :: "memory \<Rightarrow> u32 \<Rightarrow> u32 \<Rightarrow> u32 \<Rightarrow> u32 \<Rightarrow> u32 \<Rightarrow> u32 * u32 \<Rightarrow> u32 * u32" where
  "memeq_step mem lhs_addr rhs_addr byte_len decoy_addr byte_idx zo =
     (let (zeros, ones) = zo;
          ap = lhs_addr + byte_idx;
          bp = rhs_addr + byte_idx;
          decoy1 = decoy_addr + (byte_idx mod decoys_size);
          decoy2 = decoy_addr + ((byte_idx + decoys_size div 2) mod decoys_size);
          av = ct_cmovw (ct_sltuw byte_idx byte_len) ap decoy1;
          bv = ct_cmovw (ct_sltuw byte_idx byte_len) bp decoy2;
          a = read_32 mem av;
          b = read_32 mem bv
      in (zeros OR (a XOR b), ones AND (a XOR NOT b)))"

definition hardened_memeq :: "u32 \<Rightarrow> u32 \<Rightarrow> u32 \<Rightarrow> u32 \<Rightarrow> memory \<Rightarrow> u32 option" where
  "hardened_memeq lhs rhs word_len decoys mem =
     (let order = random_order_init word_len;
          expected_count = random_order_len order;
          mem = fold (\<lambda>i. write_32 0xaaaaaaaa (decoys + 4 * of_nat i)) [0..<8] mem;
          byte_len = word_len * 4;
          (count, zeros, ones) =
            order_loop (memeq_step mem lhs rhs byte_len decoys) 0 expected_count order (0, UINT32_MAX)
      in if count \<noteq> expected_count then None
         else if zeros = 0
         then if ones = UINT32_MAX then Some kHardenedBoolTrue else None
         else if ones \<noteq> UINT32_MAX then Some kHardenedBoolFalse else None)"

section \<open>What the branchless comparisons compute\<close>

lemma bit_31_iff: "bit (w :: u32) 31 \<longleftrightarrow> 2 ^ 31 \<le> unat w"
proof -
  have "bit w 31 \<longleftrightarrow> bit (unat w) 31" by (simp add: bit_unsigned_iff)
  also have "... \<longleftrightarrow> odd (unat w div 2 ^ 31)" by (rule bit_iff_odd)
  finally have "bit w 31 \<longleftrightarrow> odd (unat w div 2 ^ 31)" .
  moreover have "unat w div 2 ^ 31 \<le> 1"
    using unat_u32_less [of w] by simp
  ultimately show ?thesis by (auto simp: le_Suc_eq div_greater_zero_iff)
qed

lemma ct_sltz_iff: "ct_sltz32 a = (if bit a 31 then - 1 else 0)" "ct_sltzw a = (if bit a 31 then - 1 else 0)"
  by (rule bit_word_eqI; auto simp: ct_sltz32_def ct_sltzw_def bit_signed_shift Suc_le_eq)+

lemma diff_bit_31:
  fixes a b :: u32
  assumes "bit a 31 = bit b 31"
  shows "bit (a - b) 31 \<longleftrightarrow> a < b"
proof (cases "a < b")
  case True
  then have "unat (a - b) = 2 ^ 32 + unat a - unat b"
    by (simp add: unat_sub_if_size word_less_nat_alt word_size)
  then show ?thesis
    using True assms unat_u32_less [of b] by (auto simp: bit_31_iff word_less_nat_alt)
next
  case False
  then have "unat (a - b) = unat a - unat b" by (simp add: unat_sub not_less)
  then show ?thesis
    using False assms unat_u32_less [of a] by (auto simp: bit_31_iff word_less_nat_alt)
qed

lemma uint_u32_less: "uint (x :: u32) < 2 ^ 32"
  by (rule order_less_le_trans [OF unsigned_less]) simp

lemma sint_u32: "sint (w :: u32) = (if bit w 31 then uint w - 2 ^ 32 else uint w)"
proof -
  have "sint w = signed_take_bit 31 (uint w)" by (simp add: sint_uint)
  also have "... = take_bit 32 (uint w) - 2 ^ 32 * of_bool (bit (uint w) 31)"
    using signed_take_bit_eq_take_bit_minus [of 31 "uint w"] by simp
  also have "take_bit 32 (uint w) = uint w"
    using uint_u32_less by (simp add: take_bit_int_eq_self)
  finally show ?thesis by (simp add: bit_unsigned_iff)
qed

lemma sless_bits: "a <s b \<longleftrightarrow> (if bit a 31 = bit b 31 then a < b else bit (a :: u32) 31)"
proof -
  have "uint a < 2 ^ 32" "uint b < 2 ^ 32" "0 \<le> uint a" "0 \<le> uint b"
    by (simp_all only: uint_u32_less unsigned_greater_eq)
  then show ?thesis
    unfolding word_sless_alt sint_u32 word_less_def by (cases "bit a 31"; cases "bit b 31"; simp only: if_True if_False simp_thms; linarith)
qed

lemma ct_sltu_signed: "ct_sltu32 a b = (if a <s b then - 1 else 0)" "ct_sltuw a b = (if a <s b then - 1 else 0)"
  unfolding ct_sltu32_def ct_sltuw_def ct_sltz_iff sless_bits
  by (auto simp: bit_or_iff bit_and_iff bit_xor_iff bit_not_iff diff_bit_31)

lemma sless_small: "unat a < 2 ^ 31 \<Longrightarrow> unat b < 2 ^ 31 \<Longrightarrow> a <s b \<longleftrightarrow> a < (b :: u32)"
  by (auto simp: sless_bits bit_31_iff)

lemma ct_seqz_iff: "ct_seqz32 a = (if a = 0 then - 1 else 0)" "ct_seqzw a = (if a = 0 then - 1 else 0)"
proof -
  have "bit (NOT a AND (a - 1)) 31 \<longleftrightarrow> a = 0"
  proof (cases "a = 0")
    case False
    then have "unat (a - 1) = unat a - 1" using unat_sub [of 1 a] by (simp add: word_le_nat_alt unat_gt_0 Suc_le_eq)
    then have "bit (a - 1) 31 \<Longrightarrow> bit a 31" by (simp add: bit_31_iff)
    with False show ?thesis by (auto simp: bit_and_iff bit_not_iff)
  qed (simp add: bit_and_iff bit_not_iff)
  then show "ct_seqz32 a = (if a = 0 then - 1 else 0)" "ct_seqzw a = (if a = 0 then - 1 else 0)"
    by (simp_all add: ct_seqz32_def ct_seqzw_def ct_sltz_iff)
qed

lemma xor_eq_0_iff: "a XOR b = 0 \<longleftrightarrow> a = (b :: 'a :: len word)"
  by (auto simp: bit_eq_iff bit_xor_iff)

lemma ct_seq_iff: "ct_seq32 a b = (if a = b then - 1 else 0)" "ct_seqw a b = (if a = b then - 1 else 0)"
  by (simp_all add: ct_seq32_def ct_seqw_def ct_seqz_iff xor_eq_0_iff)

lemma ct_cmov_select [simp]:
  "ct_cmov32 (if p then - 1 else 0) a b = (if p then a else b)"
  "ct_cmovw (if p then - 1 else 0) a b = (if p then a else b)"
  "ct_cmovw (- 1) a b = a" "ct_cmovw 0 a b = b"
  by (simp_all add: ct_cmov32_def ct_cmovw_def)

section \<open>Words in memory\<close>

lemma div4_iff:
  fixes u k :: u32
  assumes "unat k < 2 ^ 30"
  shows "u - k * 4 < 4 \<longleftrightarrow> u div 4 = k"
proof -
  have k: "unat (k * 4) = 4 * unat k" using assms by (simp add: unat_word_ariths)
  have "u div 4 = k \<longleftrightarrow> unat u div 4 = unat k" by (simp add: word_unat_eq_iff unat_div)
  moreover have "unat (u - k * 4) = (if 4 * unat k \<le> unat u then unat u - 4 * unat k else unat u + 2 ^ 32 - 4 * unat k)"
    by (simp add: unat_sub_if_size word_size k)
  ultimately show ?thesis
    using assms by (auto simp: word_less_nat_alt)
qed

lemma less_4_iff: "(d :: u32) < 4 \<longleftrightarrow> d = 0 \<or> d = 1 \<or> d = 2 \<or> d = 3"
proof -
  have "unat d < 4 \<longleftrightarrow> unat d = 0 \<or> unat d = 1 \<or> unat d = 2 \<or> unat d = 3" by auto
  then show ?thesis by (simp add: word_less_nat_alt word_unat_eq_iff)
qed

lemma le_word_bytes:
  "ucast (le_word a b c d) = a" "ucast (drop_bit 8 (le_word a b c d)) = b"
  "ucast (drop_bit 16 (le_word a b c d)) = c" "ucast (drop_bit 24 (le_word a b c d)) = d"
  using word_bytes_le_word [of a b c d] by (simp_all add: word_bytes_def)

lemma offset_cases:
  assumes "x - p < (4 :: u32)"
  obtains "x = p" | "x = p + 1" | "x = p + 2" | "x = p + 3"
  using assms unfolding less_4_iff by (auto simp: diff_eq_eq add.commute)

lemma offsets_distinct: "p + 1 \<noteq> (p :: u32)" "p + 2 \<noteq> p" "p + 3 \<noteq> p" "p \<noteq> p + 1" "p \<noteq> p + 2" "p \<noteq> p + 3"
  by simp_all

lemma copy_word_at: "write_32 (read_32 mem s) d mem x = (if x - d < 4 then mem (s + (x - d)) else mem x)"
proof (cases "x - d < 4")
  case True
  then show ?thesis
    by (rule offset_cases) (simp_all add: write_32_def read_32_def le_word_bytes)
next
  case False
  then have "x \<noteq> d" "x \<noteq> d + 1" "x \<noteq> d + 2" "x \<noteq> d + 3" by auto
  with False show ?thesis by (simp add: write_32_def)
qed

lemma write_same_bytes_at:
  assumes "word_bytes w = [b, b, b, b]"
  shows "write_32 w d mem x = (if x - d < 4 then b else mem x)"
proof (cases "x - d < 4")
  case True
  then show ?thesis
    using assms by (elim offset_cases) (simp_all add: write_32_def word_bytes_def)
next
  case False
  then have "x \<noteq> d" "x \<noteq> d + 1" "x \<noteq> d + 2" "x \<noteq> d + 3" by auto
  with False show ?thesis by (simp add: write_32_def)
qed

lemma write_32_at: "write_32 w d mem x = (if x - d < 4 then word_bytes w ! unat (x - d) else mem x)"
proof (cases "x - d < 4")
  case True
  then show ?thesis
    by (rule offset_cases) (simp_all add: write_32_def word_bytes_def)
next
  case False
  then have "x \<noteq> d" "x \<noteq> d + 1" "x \<noteq> d + 2" "x \<noteq> d + 3" by auto
  with False show ?thesis by (simp add: write_32_def)
qed

lemma read_32_cong: "(\<And>x. x - s < 4 \<Longrightarrow> mem (t + (x - s)) = mem' x) \<Longrightarrow> read_32 mem t = read_32 mem' s"
proof -
  assume "\<And>x. x - s < 4 \<Longrightarrow> mem (t + (x - s)) = mem' x"
  from this [of s] this [of "s + 1"] this [of "s + 2"] this [of "s + 3"] show ?thesis
    by (simp add: read_32_def)
qed

section \<open>One iteration\<close>

text \<open>The ranges of addresses \<open>[a, a + k)\<close> and \<open>[b, b + l)\<close> have no address in common.\<close>

definition buffers_apart :: "u32 \<Rightarrow> u32 \<Rightarrow> u32 \<Rightarrow> u32 \<Rightarrow> bool" where
  "buffers_apart a k b l \<longleftrightarrow> (\<forall>x. \<not> (x - a < k \<and> x - b < l))"

lemma unat_times_4: "unat (i :: u32) < 2 ^ 29 \<Longrightarrow> unat (i * 4) = 4 * unat i"
  by (simp add: unat_word_ariths)

lemma within_iff:
  fixes i n :: u32
  assumes "unat n \<le> 2 ^ 28"
  shows "unat i < 2 ^ 29 \<Longrightarrow> ct_sltuw (i * 4) (n * 4) = (if i < n then - 1 else 0)"
    and "u < n * 4 \<longleftrightarrow> u div 4 < n"
proof -
  have n: "unat (n * 4) = 4 * unat n" using assms by (simp add: unat_times_4)
  show "ct_sltuw (i * 4) (n * 4) = (if i < n then - 1 else 0)" if "unat i < 2 ^ 29"
    using that assms sless_small [of "i * 4" "n * 4"]
    by (simp add: ct_sltu_signed n unat_times_4 word_less_nat_alt)
  show "u < n * 4 \<longleftrightarrow> u div 4 < n"
    by (simp add: word_less_nat_alt n unat_div less_mult_imp_div_less div_less_iff_less_mult mult.commute)
qed

lemma decoy_offset:
  assumes "x - (d + (v * 4) mod 32) < (4 :: u32)"
  shows "x - d < 32"
proof -
  have "unat ((v * 4) mod 32) = unat (v * 4) mod 32" by (simp add: unat_mod)
  moreover have "unat (v * 4) mod 4 = 0"
    by (simp add: unat_word_ariths mod_mod_cancel [of 4 4294967296])
  ultimately have m: "unat ((v * 4) mod 32) \<le> 28" by presburger
  define r where "r = x - (d + (v * 4) mod 32)"
  have "x - d = r + (v * 4) mod 32" by (simp add: r_def)
  moreover have "unat r < 4" using assms by (simp add: r_def word_less_nat_alt)
  ultimately show ?thesis using m by (simp add: word_less_nat_alt unat_word_ariths)
qed

lemma second_decoy: "(v * 4 + 16) mod 32 = ((v + 4) * 4) mod (32 :: u32)"
  by (simp add: distrib_right)

lemma hit_iff: "unat i < 2 ^ 29 \<Longrightarrow> x - (dest + i * 4) < 4 \<longleftrightarrow> (x - dest) div 4 = (i :: u32)"
  using div4_iff [of i "x - dest"] by (simp add: diff_diff_eq)

lemma memeq_step_run:
  assumes "unat n \<le> 2 ^ 28" "unat i < 2 ^ 29" "\<And>v. read_32 mem (decoys + (v * 4) mod 32) = d"
  shows "memeq_step mem a b (n * 4) decoys (i * 4) (zeros, ones) =
     (if i < n then (zeros OR (read_32 mem (a + i * 4) XOR read_32 mem (b + i * 4)),
        ones AND (read_32 mem (a + i * 4) XOR NOT (read_32 mem (b + i * 4))))
      else (zeros, ones))"
proof (cases "i < n")
  case False
  moreover have "d XOR NOT d = - 1" "d XOR d = 0" by simp_all
  moreover have "read_32 mem (decoys + (i * 4 + 16) mod 32) = d" "read_32 mem (decoys + (i * 4) mod 32) = d"
    unfolding second_decoy by (rule assms(3))+
  ultimately show ?thesis
    using assms(1,2) by (simp add: memeq_step_def Let_def within_iff del: bit.xor_compl_right)
qed (use assms(1,2) in \<open>simp add: memeq_step_def Let_def within_iff\<close>)

lemma u32_ones: "(0xffffffff :: u32) = - 1"
  by simp

lemma or_eq_0_iff: "a OR b = 0 \<longleftrightarrow> a = 0 \<and> b = (0 :: 'a :: len word)"
  by (auto simp: bit_eq_iff bit_or_iff)

lemma and_eq_ones_iff: "a AND b = - 1 \<longleftrightarrow> a = - 1 \<and> b = (- 1 :: 'a :: len word)"
  by (auto simp: bit_eq_iff bit_and_iff)

lemma xor_not_ones_iff: "a XOR NOT b = - 1 \<longleftrightarrow> a = b" "NOT (a XOR b) = - 1 \<longleftrightarrow> a = (b :: 'a :: len word)"
  by (auto simp: bit_eq_iff bit_xor_iff bit_not_iff)

lemma memcpy_step_at:
  assumes "unat n \<le> 2 ^ 28" "unat i < 2 ^ 29" "\<not> x - decoys < 32"
  shows "memcpy_step dest src (n * 4) decoys (i * 4) mem x =
     (if i < n \<and> (x - dest) div 4 = i then mem (src + (x - dest)) else mem x)"
proof (cases "i < n")
  case True
  have "src + i * 4 + (x - (dest + i * 4)) = src + (x - dest)" by simp
  with True assms show ?thesis
    by (simp add: memcpy_step_def Let_def within_iff copy_word_at hit_iff)
next
  case False
  have "\<not> x - (decoys + (i * 4 + 16) mod 32) < 4"
    unfolding second_decoy using assms(3) decoy_offset by blast
  with False assms show ?thesis by (simp add: memcpy_step_def Let_def within_iff copy_word_at)
qed

lemma memshred_step_at:
  assumes "unat n \<le> 2 ^ 28" "unat i < 2 ^ 29" "\<not> x - decoys < 32"
  shows "memshred_step dest (n * 4) decoys (i * 4) mem x =
     (if i < n \<and> (x - dest) div 4 = i
      then word_bytes hardened_memshred_random_word ! unat ((x - dest) mod 4) else mem x)"
proof (cases "i < n")
  case True
  have "x - (dest + (x - dest) div 4 * 4) = (x - dest) mod 4"
    by (simp add: diff_diff_eq [symmetric] minus_div_mult_eq_mod)
  with True assms show ?thesis
    by (auto simp add: memshred_step_def Let_def within_iff write_32_at hit_iff)
next
  case False
  have "\<not> x - (decoys + (i * 4) mod 32) < 4"
    using assms(3) decoy_offset by blast
  with False assms show ?thesis by (simp add: memshred_step_def Let_def within_iff write_32_at)
qed

section \<open>Any traversal order\<close>

text \<open>The promise of \<open>random_order.h\<close>: the indices visited for a buffer of \<open>n\<close> words contain every
  index of the buffer. Sizes are such that byte indices stay below \<open>2 ^ 31\<close>, where the signed
  comparison of \<open>ct_sltuw\<close> is the unsigned one.\<close>

locale traversal =
  fixes indices :: "u32 \<Rightarrow> u32 list"
  assumes visits: "unat n \<le> 2 ^ 28 \<Longrightarrow> i < n \<Longrightarrow> i \<in> set (indices n)"
    and bounded: "unat n \<le> 2 ^ 28 \<Longrightarrow> i \<in> set (indices n) \<Longrightarrow> unat i < 2 ^ 29"
begin

text \<open>The bytes of the destination are those of the source, all others are untouched except the
  decoys.\<close>

lemma memcpy_effect:
  assumes n: "unat n \<le> 2 ^ 28"
    and apart: "buffers_apart src (n * 4) dest (n * 4)" "buffers_apart src (n * 4) decoys 32"
    and x: "\<not> x - decoys < 32"
  shows "fold (\<lambda>i. memcpy_step dest src (n * 4) decoys (i * 4)) (indices n) mem x =
     (if x - dest < n * 4 then mem (src + (x - dest)) else mem x)"
proof -
  have "fold (\<lambda>i. memcpy_step dest src (n * 4) decoys (i * 4)) is mem x =
     (if x - dest < n * 4 \<and> (x - dest) div 4 \<in> set is then mem (src + (x - dest)) else mem x)"
    if "\<forall>i \<in> set is. unat i < 2 ^ 29" "\<not> x - decoys < 32" for "is" x
    using that
  proof (induction "is" arbitrary: x rule: rev_induct)
    case (snoc i "is")
    let ?y = "src + (x - dest)"
    have "\<not> ?y - decoys < 32 \<and> \<not> ?y - dest < n * 4" if "x - dest < n * 4"
      using apart that by (auto simp: buffers_apart_def dest: spec [of _ ?y])
    with snoc n show ?case
      by (auto simp: memcpy_step_at within_iff(2))
  qed simp
  then show ?thesis
    using x bounded [OF n] visits [OF n] by (auto simp: within_iff(2) [OF n])
qed

lemma memshred_effect:
  assumes n: "unat n \<le> 2 ^ 28" and x: "\<not> x - decoys < 32"
  shows "fold (\<lambda>i. memshred_step dest (n * 4) decoys (i * 4)) (indices n) mem x =
     (if x - dest < n * 4 then word_bytes hardened_memshred_random_word ! unat ((x - dest) mod 4) else mem x)"
proof -
  have "fold (\<lambda>i. memshred_step dest (n * 4) decoys (i * 4)) is mem x =
     (if x - dest < n * 4 \<and> (x - dest) div 4 \<in> set is
      then word_bytes hardened_memshred_random_word ! unat ((x - dest) mod 4) else mem x)"
    if "\<forall>i \<in> set is. unat i < 2 ^ 29" for "is"
    using that
  proof (induction "is" rule: rev_induct)
    case (snoc i "is")
    with n x show ?case by (auto simp: memshred_step_at within_iff(2))
  qed simp
  then show ?thesis
    using bounded [OF n] visits [OF n] by (auto simp: within_iff(2) [OF n])
qed

text \<open>The two accumulators tell whether all words agree.\<close>

lemma memeq_effect:
  assumes n: "unat n \<le> 2 ^ 28" and d: "\<And>v. read_32 mem (decoys + (v * 4) mod 32) = d"
  shows "case fold (\<lambda>i. memeq_step mem a b (n * 4) decoys (i * 4)) (indices n) (0, UINT32_MAX) of
     (zeros, ones) \<Rightarrow>
       (zeros = 0 \<longleftrightarrow> (\<forall>i < n. read_32 mem (a + i * 4) = read_32 mem (b + i * 4))) \<and>
       (ones = UINT32_MAX \<longleftrightarrow> (\<forall>i < n. read_32 mem (a + i * 4) = read_32 mem (b + i * 4)))"
proof -
  let ?same = "\<lambda>i. read_32 mem (a + i * 4) = read_32 mem (b + i * 4)"
  have "case fold (\<lambda>i. memeq_step mem a b (n * 4) decoys (i * 4)) is (0, - 1) of
     (zeros, ones) \<Rightarrow> (zeros = 0 \<longleftrightarrow> (\<forall>i \<in> set is. i < n \<longrightarrow> ?same i)) \<and>
       (ones = - 1 \<longleftrightarrow> (\<forall>i \<in> set is. i < n \<longrightarrow> ?same i))"
    if "\<forall>i \<in> set is. unat i < 2 ^ 29" for "is"
    using that
  proof (induction "is" rule: rev_induct)
    case (snoc i "is")
    obtain z k where zk: "fold (\<lambda>i. memeq_step mem a b (n * 4) decoys (i * 4)) is (0, - 1) = (z, k)"
      by (cases "fold (\<lambda>i. memeq_step mem a b (n * 4) decoys (i * 4)) is (0, - 1)")
    from snoc.prems have "unat i < 2 ^ 29" by simp
    note step = memeq_step_run [OF n this d, of a b z k]
    from snoc zk show ?case
      by (auto simp: step or_eq_0_iff and_eq_ones_iff xor_not_ones_iff xor_eq_0_iff)
  qed simp
  from this [of "indices n"] bounded [OF n] visits [OF n] show ?thesis
    unfolding u32_ones by fastforce
qed

end

section \<open>The traversal order of the code\<close>

primrec order_indices :: "nat \<Rightarrow> random_order \<Rightarrow> u32 list" where
  "order_indices 0 order = []"
| "order_indices (Suc k) order =
     fst (random_order_advance order) # order_indices k (snd (random_order_advance order))"

lemma order_loop_fold:
  "unat count + k = unat expected_count \<Longrightarrow>
   order_loop body count expected_count order s =
     (expected_count, fold (\<lambda>i. body (i * 4)) (order_indices k order) s)"
proof (induction k arbitrary: count order s)
  case 0
  then have "count = expected_count" by (simp add: word_unat_eq_iff)
  then show ?case by (subst order_loop.simps) simp
next
  case (Suc k)
  then have "count < expected_count" by (simp add: word_less_nat_alt)
  moreover have "unat (count + 1) + k = unat expected_count"
    using Suc.prems unat_u32_less [of expected_count] by (simp add: unat_word_ariths)
  ultimately show ?case
    using Suc.IH by (subst order_loop.simps) (simp add: split_beta)
qed

lemma order_indices_from:
  "order_indices k order = map (\<lambda>j. ro_state order + of_nat j) [0..<k]"
proof (induction k arbitrary: order)
  case (Suc k)
  have "map (\<lambda>j. ro_state order + of_nat j) [0..<Suc k] =
      ro_state order # map (\<lambda>j. ro_state order + 1 + of_nat j) [0..<k]"
    by (simp add: upt_conv_Cons map_Suc_upt [symmetric] o_def add.assoc del: upt_Suc)
  with Suc show ?case by (simp add: random_order_advance_def)
qed simp

definition traversal_of :: "u32 \<Rightarrow> u32 list" where
  "traversal_of n = order_indices (unat (random_order_len (random_order_init n))) (random_order_init n)"

lemma traversal_of_eq: "unat n \<le> 2 ^ 28 \<Longrightarrow> traversal_of n = map of_nat [0..<2 * unat n]"
  by (simp add: traversal_of_def order_indices_from random_order_init_def random_order_len_def unat_word_ariths mult.commute)

interpretation order: traversal traversal_of
proof
  fix n i :: u32
  assume n: "unat n \<le> 2 ^ 28"
  show "i \<in> set (traversal_of n)" if "i < n"
    using that by (auto simp: traversal_of_eq [OF n] word_less_nat_alt intro!: image_eqI [of i of_nat "unat i"])
  show "unat i < 2 ^ 29" if "i \<in> set (traversal_of n)"
    using that n by (auto simp: traversal_of_eq [OF n] unat_of_nat take_bit_nat_eq_self)
qed

lemma order_loop_run:
  "order_loop body 0 (random_order_len (random_order_init n)) (random_order_init n) s =
     (random_order_len (random_order_init n), fold (\<lambda>i. body (i * 4)) (traversal_of n) s)"
  by (simp add: order_loop_fold traversal_of_def)

section \<open>Properties\<close>

lemma decoys_filled:
  "k \<le> 8 \<Longrightarrow> fold (\<lambda>i. write_32 0xaaaaaaaa (decoys + 4 * of_nat i)) [0..<k] mem x =
     (if unat (x - decoys) < 4 * k then 0xaa else mem x)"
proof (induction k)
  case (Suc k)
  let ?f = "fold (\<lambda>i. write_32 0xaaaaaaaa (decoys + 4 * of_nat i)) [0..<k] mem"
  have k: "unat (of_nat k :: u32) = k" using Suc.prems by (simp add: unat_of_nat take_bit_nat_eq_self)
  have "write_32 0xaaaaaaaa (decoys + of_nat k * 4) ?f x =
      (if x - (decoys + of_nat k * 4) < 4 then 0xaa else ?f x)"
    by (rule write_same_bytes_at) (simp add: word_bytes_def)
  moreover have "x - (decoys + of_nat k * 4) < 4 \<longleftrightarrow> unat (x - decoys) div 4 = k"
    using Suc.prems by (subst hit_iff) (simp_all add: k word_unat_eq_iff unat_div)
  moreover have "unat (x - decoys) div 4 = k \<longleftrightarrow> 4 * k \<le> unat (x - decoys) \<and> unat (x - decoys) < 4 * Suc k"
    by auto
  ultimately show ?case
    using Suc by (auto simp: mult.commute [of 4])
qed simp

lemma hardened_memeq_run:
  assumes n: "unat n \<le> 2 ^ 28"
    and apart: "buffers_apart a (n * 4) decoys 32" "buffers_apart b (n * 4) decoys 32"
  shows "hardened_memeq a b n decoys mem =
     Some (if \<forall>i < n. read_32 mem (a + i * 4) = read_32 mem (b + i * 4)
       then kHardenedBoolTrue else kHardenedBoolFalse)"
proof -
  define mem1 where "mem1 = fold (\<lambda>i. write_32 0xaaaaaaaa (decoys + 4 * of_nat i)) [0..<8] mem"
  have mem1: "mem1 x = (if x - decoys < 32 then 0xaa else mem x)" for x
    using decoys_filled [of 8 decoys mem x] by (simp add: mem1_def word_less_nat_alt)
  have "read_32 mem1 (decoys + (v * 4) mod 32) = 0xaaaaaaaa" for v
  proof -
    have "mem1 (decoys + (v * 4) mod 32 + r) = 0xaa" if "r < 4" for r
      using decoy_offset [of "decoys + (v * 4) mod 32 + r" decoys v] that by (simp add: mem1)
    from this [of 0] this [of 1] this [of 2] this [of 3] show ?thesis
      by (simp add: read_32_def le_word_def)
  qed
  note effect = order.memeq_effect [OF n this, of a b]
  have same: "read_32 mem1 (c + i * 4) = read_32 mem (c + i * 4)"
    if c: "buffers_apart c (n * 4) decoys 32" and i: "i < n" for c i
  proof (rule read_32_cong)
    fix x assume x: "x - (c + i * 4) < 4"
    have "unat i < 2 ^ 29" using i n by (simp add: word_less_nat_alt)
    then have "(x - c) div 4 = i" using x hit_iff by blast
    then have "x - c < n * 4" using i within_iff(2) [OF n] by simp
    then have "\<not> x - decoys < 32" using c by (auto simp: buffers_apart_def)
    then show "mem1 (c + i * 4 + (x - (c + i * 4))) = mem x" by (simp add: mem1)
  qed
  let ?eq = "\<forall>i < n. read_32 mem (a + i * 4) = read_32 mem (b + i * 4)"
  have eq: "(\<forall>i < n. read_32 mem1 (a + i * 4) = read_32 mem1 (b + i * 4)) \<longleftrightarrow> ?eq"
    using same [OF apart(1)] same [OF apart(2)] by auto
  show ?thesis
    using effect unfolding eq
    by (auto simp: hardened_memeq_def Let_def order_loop_run mem1_def [symmetric] split: prod.splits)
qed

lemma apart_distance:
  assumes "unat k \<le> unat (b - a)" "unat (b - a) + unat l \<le> 2 ^ 32"
  shows "buffers_apart a k b l"
  unfolding buffers_apart_def
proof (intro allI notI, elim conjE)
  fix x assume x: "x - a < k" "x - b < l"
  have "x - a = (x - b) + (b - a)" by simp
  then have "unat (x - a) = unat (x - b) + unat (b - a)"
    using x(2) assms(2) by (simp only: unat_word_ariths word_less_nat_alt) simp
  with x assms(1) show False by (simp add: word_less_nat_alt)
qed

text \<open>C37: the hardened memory functions never trap and compute what
  their plain counterparts do, in the traversal order of the code with its indices beyond the
  buffer: a copy leaves the bytes of the source in the destination, shredding leaves the random word
  in every word of the buffer, both change nothing else but the decoys, and the comparison returns
  the hardened boolean for equality of all words. Buffers have at most \<open>2 ^ 28\<close> words and do not
  overlap.\<close>

theorem hardened_memory_correct:
  assumes n: "unat n \<le> 2 ^ 28"
    and apart: "buffers_apart src (n * 4) dest (n * 4)" "buffers_apart src (n * 4) decoys 32"
      "buffers_apart dest (n * 4) decoys 32"
  shows "(case hardened_memcpy dest src n decoys mem of
      None \<Rightarrow> False
    | Some mem' \<Rightarrow> \<forall>x. mem' x = (if x - decoys < 32 then mem' x
        else if x - dest < n * 4 then mem (src + (x - dest)) else mem x)) \<and>
   (case hardened_memshred dest n decoys mem of
      None \<Rightarrow> False
    | Some mem' \<Rightarrow> \<forall>x. mem' x = (if x - decoys < 32 then mem' x
        else if x - dest < n * 4
        then word_bytes hardened_memshred_random_word ! unat ((x - dest) mod 4) else mem x)) \<and>
   hardened_memeq src dest n decoys mem =
     Some (if {i. i < n \<and> read_32 mem (src + i * 4) \<noteq> read_32 mem (dest + i * 4)} = {}
       then kHardenedBoolTrue else kHardenedBoolFalse)"
proof (intro conjI)
  show "hardened_memeq src dest n decoys mem =
     Some (if {i. i < n \<and> read_32 mem (src + i * 4) \<noteq> read_32 mem (dest + i * 4)} = {}
       then kHardenedBoolTrue else kHardenedBoolFalse)"
    by (simp add: hardened_memeq_run [OF n apart(2,3)])
qed (simp_all add: hardened_memcpy_def hardened_memshred_def Let_def order_loop_run
    order.memcpy_effect [OF n apart(1,2)] order.memshred_effect [OF n])

theorem hardened_memory_correct_witness:
  "hardened_memeq 0x1000 0x2000 4 0x3000 (\<lambda>x. if x = 0x2005 then 1 else 0) =
     Some (if {i. i < 4 \<and> read_32 (\<lambda>x. if x = 0x2005 then 1 else 0) (0x1000 + i * 4) \<noteq>
         read_32 (\<lambda>x. if x = 0x2005 then 1 else 0) (0x2000 + i * 4)} = {}
       then kHardenedBoolTrue else kHardenedBoolFalse)"
proof -
  have "buffers_apart 0x1000 (4 * 4) 0x2000 (4 * 4)" "buffers_apart 0x1000 (4 * 4) 0x3000 32"
      "buffers_apart 0x2000 (4 * 4) 0x3000 32"
    by (rule apart_distance; simp)+
  from hardened_memory_correct [OF _ this] show ?thesis by simp
qed

text \<open>C38: the branchless operations of \<open>hardened.h\<close> return all ones for true and
  zero for false. \<open>ct_sltu32\<close>, documented as the unsigned comparison, is the signed one: it agrees
  with the unsigned order exactly when the sign bits of its arguments are equal.\<close>

theorem ct_comparisons:
  "ct_sltz32 a = (if a <s 0 then - 1 else 0) \<and>
   ct_seqz32 a = (if a = 0 then - 1 else 0) \<and>
   ct_seq32 a b = (if a = b then - 1 else 0) \<and>
   ct_cmov32 (if p then - 1 else 0) a b = (if p then a else b) \<and>
   ct_sltu32 a b = (if a <s b then - 1 else 0) \<and>
   (ct_sltu32 a b = (if a < b then - 1 else 0) \<longleftrightarrow> bit a 31 = bit b 31) \<and>
   ct_sltuw a b = ct_sltu32 a b"
proof -
  have "(a <s b) = (a < b) \<longleftrightarrow> bit a 31 = bit b 31"
    using bit_31_iff [of a] bit_31_iff [of b] by (auto simp: sless_bits word_less_nat_alt)
  then show ?thesis
    by (auto simp: ct_sltz_iff ct_seqz_iff ct_seq_iff ct_sltu_signed sless_bits [of a 0])
qed

end
