(* ===== verification/Aes.thy ===== *)
theory Aes
  imports Memory
begin

text \<open>\<open>lib/crypto/drivers/aes.c\<close>: the driver of the AES unit. What the unit computes is a
  parameter: a block cipher \<open>E\<close> of key length, key and block. Its documented behaviour is stated for
  the sequence of register writes that encrypts one block in counter mode.\<close>

unbundle bit_operations_syntax

section \<open>Registers (aes.hjson)\<close>

abbreviation (input) TOP_EARLGREY_AES_BASE_ADDR :: u32 where "TOP_EARLGREY_AES_BASE_ADDR \<equiv> 0x41100000"
abbreviation (input) AES_KEY_SHARE0_0_REG_OFFSET :: u32 where "AES_KEY_SHARE0_0_REG_OFFSET \<equiv> 0x4"
abbreviation (input) AES_KEY_SHARE1_0_REG_OFFSET :: u32 where "AES_KEY_SHARE1_0_REG_OFFSET \<equiv> 0x24"
abbreviation (input) AES_IV_0_REG_OFFSET :: u32 where "AES_IV_0_REG_OFFSET \<equiv> 0x44"
abbreviation (input) AES_DATA_IN_0_REG_OFFSET :: u32 where "AES_DATA_IN_0_REG_OFFSET \<equiv> 0x54"
abbreviation (input) AES_DATA_OUT_0_REG_OFFSET :: u32 where "AES_DATA_OUT_0_REG_OFFSET \<equiv> 0x64"
abbreviation (input) AES_CTRL_SHADOWED_REG_OFFSET :: u32 where "AES_CTRL_SHADOWED_REG_OFFSET \<equiv> 0x74"
abbreviation (input) AES_CTRL_SHADOWED_REG_RESVAL :: u32 where "AES_CTRL_SHADOWED_REG_RESVAL \<equiv> 0x1181"
abbreviation (input) AES_CTRL_SHADOWED_OPERATION_FIELD :: bitfield_field32 where
  "AES_CTRL_SHADOWED_OPERATION_FIELD \<equiv> \<lparr>bf_mask = 0x3, bf_index = 0\<rparr>"
abbreviation (input) AES_CTRL_SHADOWED_MODE_FIELD :: bitfield_field32 where
  "AES_CTRL_SHADOWED_MODE_FIELD \<equiv> \<lparr>bf_mask = 0x3f, bf_index = 2\<rparr>"
abbreviation (input) AES_CTRL_SHADOWED_KEY_LEN_FIELD :: bitfield_field32 where
  "AES_CTRL_SHADOWED_KEY_LEN_FIELD \<equiv> \<lparr>bf_mask = 0x7, bf_index = 8\<rparr>"
abbreviation (input) AES_CTRL_SHADOWED_SIDELOAD_BIT :: u32 where "AES_CTRL_SHADOWED_SIDELOAD_BIT \<equiv> 11"
abbreviation (input) AES_CTRL_SHADOWED_PRNG_RESEED_RATE_FIELD :: bitfield_field32 where
  "AES_CTRL_SHADOWED_PRNG_RESEED_RATE_FIELD \<equiv> \<lparr>bf_mask = 0x7, bf_index = 12\<rparr>"
abbreviation (input) AES_CTRL_SHADOWED_MANUAL_OPERATION_BIT :: u32 where "AES_CTRL_SHADOWED_MANUAL_OPERATION_BIT \<equiv> 15"
abbreviation (input) AES_CTRL_SHADOWED_OPERATION_VALUE_AES_ENC :: u32 where "AES_CTRL_SHADOWED_OPERATION_VALUE_AES_ENC \<equiv> 1"
abbreviation (input) AES_CTRL_SHADOWED_OPERATION_VALUE_AES_DEC :: u32 where "AES_CTRL_SHADOWED_OPERATION_VALUE_AES_DEC \<equiv> 2"
abbreviation (input) AES_CTRL_SHADOWED_PRNG_RESEED_RATE_VALUE_PER_64 :: u32 where
  "AES_CTRL_SHADOWED_PRNG_RESEED_RATE_VALUE_PER_64 \<equiv> 2"
abbreviation (input) AES_TRIGGER_REG_OFFSET :: u32 where "AES_TRIGGER_REG_OFFSET \<equiv> 0x80"
abbreviation (input) AES_TRIGGER_KEY_IV_DATA_IN_CLEAR_BIT :: u32 where "AES_TRIGGER_KEY_IV_DATA_IN_CLEAR_BIT \<equiv> 1"
abbreviation (input) AES_TRIGGER_DATA_OUT_CLEAR_BIT :: u32 where "AES_TRIGGER_DATA_OUT_CLEAR_BIT \<equiv> 2"
abbreviation (input) AES_STATUS_REG_OFFSET :: u32 where "AES_STATUS_REG_OFFSET \<equiv> 0x84"
abbreviation (input) AES_STATUS_IDLE_BIT :: u32 where "AES_STATUS_IDLE_BIT \<equiv> 0"
abbreviation (input) AES_STATUS_OUTPUT_VALID_BIT :: u32 where "AES_STATUS_OUTPUT_VALID_BIT \<equiv> 3"
abbreviation (input) AES_STATUS_INPUT_READY_BIT :: u32 where "AES_STATUS_INPUT_READY_BIT \<equiv> 4"
abbreviation (input) AES_STATUS_ALERT_RECOV_CTRL_UPDATE_ERR_BIT :: u32 where
  "AES_STATUS_ALERT_RECOV_CTRL_UPDATE_ERR_BIT \<equiv> 5"
abbreviation (input) AES_STATUS_ALERT_FATAL_FAULT_BIT :: u32 where "AES_STATUS_ALERT_FATAL_FAULT_BIT \<equiv> 6"

section \<open>Types (aes.h)\<close>

type_synonym aes_error = u32
type_synonym aes_block = "u32 list"

abbreviation (input) kAesOk :: aes_error where "kAesOk \<equiv> 0"
abbreviation (input) kAesInternalError :: aes_error where "kAesInternalError \<equiv> 1"
abbreviation (input) kAesBlockNumBytes :: nat where "kAesBlockNumBytes \<equiv> 16"
abbreviation (input) kAesBlockNumWords :: nat where "kAesBlockNumWords \<equiv> 4"
abbreviation (input) kAesCipherModeEcb :: u32 where "kAesCipherModeEcb \<equiv> 1"
abbreviation (input) kAesCipherModeCtr :: u32 where "kAesCipherModeCtr \<equiv> 16"
abbreviation (input) kAesKeyLen128 :: u32 where "kAesKeyLen128 \<equiv> 1"
abbreviation (input) kAesKeyLen192 :: u32 where "kAesKeyLen192 \<equiv> 2"
abbreviation (input) kAesKeyLen256 :: u32 where "kAesKeyLen256 \<equiv> 4"
abbreviation (input) kAesKeyWordLen128 :: nat where "kAesKeyWordLen128 \<equiv> 4"
abbreviation (input) kAesKeyWordLen192 :: nat where "kAesKeyWordLen192 \<equiv> 6"
abbreviation (input) kAesKeyWordLen256 :: nat where "kAesKeyWordLen256 \<equiv> 8"

record aes_key =
  key_mode :: u32
  key_sideload :: u32
  key_len :: u32
  key_share0 :: "u32 list"
  key_share1 :: "u32 list"

section \<open>Operations\<close>

text \<open>The outcome of one read of the status register in \<open>spin_until\<close>: an error, done, or wait.\<close>

definition status_outcome :: "u32 \<Rightarrow> u32 \<Rightarrow> aes_error option" where
  "status_outcome status_bit reg =
     (if bitfield_bit32_read reg AES_STATUS_ALERT_RECOV_CTRL_UPDATE_ERR_BIT
         \<or> bitfield_bit32_read reg AES_STATUS_ALERT_FATAL_FAULT_BIT
      then Some kAesInternalError
      else if bitfield_bit32_read reg status_bit then Some kAesOk else None)"

definition spin_until :: "u32 \<Rightarrow> aes_error rom" where
  "spin_until status_bit = (bindM (poll_until (abs_mmio_read32 (TOP_EARLGREY_AES_BASE_ADDR + AES_STATUS_REG_OFFSET))
       (\<lambda>reg. status_outcome status_bit reg \<noteq> None)) (\<lambda>reg.
    returnM (the (status_outcome status_bit reg))))"

definition aes_write_key :: "aes_key \<Rightarrow> aes_error rom" where
  "aes_write_key key =
     (if key_sideload key \<noteq> kHardenedBoolFalse then returnM kAesOk
      else if key_len key \<noteq> kAesKeyLen128 \<and> key_len key \<noteq> kAesKeyLen192 \<and> key_len key \<noteq> kAesKeyLen256
      then returnM kAesInternalError
      else
        let key_words = (if key_len key = kAesKeyLen128 then kAesKeyWordLen128
              else if key_len key = kAesKeyLen192 then kAesKeyWordLen192 else kAesKeyWordLen256);
            share0 = TOP_EARLGREY_AES_BASE_ADDR + AES_KEY_SHARE0_0_REG_OFFSET;
            share1 = TOP_EARLGREY_AES_BASE_ADDR + AES_KEY_SHARE1_0_REG_OFFSET
        in (bindM (for_each [0..<key_words] (\<lambda>i. (bindM (abs_mmio_write32 (share0 + of_nat i * 4) (key_share0 key ! i)) (\<lambda>_.
       abs_mmio_write32 (share1 + of_nat i * 4) (key_share1 key ! i))))) (\<lambda>_.
    bindM (for_each [key_words..<8] (\<lambda>i. (bindM (abs_mmio_write32 (share0 + of_nat i * 4) 0) (\<lambda>_.
       abs_mmio_write32 (share1 + of_nat i * 4) 0)))) (\<lambda>_.
    spin_until AES_STATUS_IDLE_BIT))))"

text \<open>The value of the control register, \<open>None\<close> for an invalid direction or sideload flag.
  The checks of the flags \<open>operation_written\<close> and \<open>sideload_written\<close> hold on every path that reaches
  them and are left out.\<close>

definition aes_ctrl_value :: "aes_key \<Rightarrow> u32 \<Rightarrow> u32 option" where
  "aes_ctrl_value key encrypt =
     (let ctrl_reg = AES_CTRL_SHADOWED_REG_RESVAL in
      if encrypt \<noteq> kHardenedBoolTrue \<and> encrypt \<noteq> kHardenedBoolFalse then None
      else let ctrl_reg = bitfield_field32_write ctrl_reg AES_CTRL_SHADOWED_OPERATION_FIELD
             (if encrypt = kHardenedBoolTrue then AES_CTRL_SHADOWED_OPERATION_VALUE_AES_ENC
              else AES_CTRL_SHADOWED_OPERATION_VALUE_AES_DEC) in
      if key_sideload key \<noteq> kHardenedBoolTrue \<and> key_sideload key \<noteq> kHardenedBoolFalse then None
      else let ctrl_reg = bitfield_bit32_write ctrl_reg AES_CTRL_SHADOWED_SIDELOAD_BIT
             (key_sideload key = kHardenedBoolTrue);
           ctrl_reg = bitfield_field32_write ctrl_reg AES_CTRL_SHADOWED_MODE_FIELD (key_mode key);
           ctrl_reg = bitfield_field32_write ctrl_reg AES_CTRL_SHADOWED_KEY_LEN_FIELD (key_len key);
           ctrl_reg = bitfield_bit32_write ctrl_reg AES_CTRL_SHADOWED_MANUAL_OPERATION_BIT False;
           ctrl_reg = bitfield_field32_write ctrl_reg AES_CTRL_SHADOWED_PRNG_RESEED_RATE_FIELD
             AES_CTRL_SHADOWED_PRNG_RESEED_RATE_VALUE_PER_64
      in Some ctrl_reg)"

definition aes_begin :: "aes_key \<Rightarrow> aes_block \<Rightarrow> u32 \<Rightarrow> aes_error rom" where
  "aes_begin key iv encrypt = (bindM (spin_until AES_STATUS_IDLE_BIT) (\<lambda>err.
    if err \<noteq> kAesOk then returnM err else
    (case aes_ctrl_value key encrypt of
        None \<Rightarrow> returnM kAesInternalError
      | Some ctrl_reg \<Rightarrow> (bindM (abs_mmio_write32_shadowed (TOP_EARLGREY_AES_BASE_ADDR + AES_CTRL_SHADOWED_REG_OFFSET) ctrl_reg) (\<lambda>_.
     bindM (spin_until AES_STATUS_IDLE_BIT) (\<lambda>err.
     if err \<noteq> kAesOk then returnM err else
     bindM (aes_write_key key) (\<lambda>err.
     if err \<noteq> kAesOk then returnM err else
     if key_mode key = kAesCipherModeEcb then returnM kAesOk else
     bindM (for_each [0..<kAesBlockNumWords] (\<lambda>i.
            abs_mmio_write32 (TOP_EARLGREY_AES_BASE_ADDR + AES_IV_0_REG_OFFSET + of_nat i * 4) (iv ! i))) (\<lambda>_.
     returnM kAesOk))))))))"

definition aes_encrypt_begin :: "aes_key \<Rightarrow> aes_block \<Rightarrow> aes_error rom" where
  "aes_encrypt_begin key iv = aes_begin key iv kHardenedBoolTrue"

definition aes_decrypt_begin :: "aes_key \<Rightarrow> aes_block \<Rightarrow> aes_error rom" where
  "aes_decrypt_begin key iv = aes_begin key iv kHardenedBoolFalse"

text \<open>The two halves of \<open>aes_update\<close>: reading an output block (when \<open>dest\<close> is not null), and
  writing an input block (when \<open>src\<close> is not null).\<close>

definition aes_output_read :: "(aes_error * aes_block) rom" where
  "aes_output_read = (bindM (abs_mmio_read32 (TOP_EARLGREY_AES_BASE_ADDR + AES_STATUS_REG_OFFSET)) (\<lambda>reg.
    if bitfield_bit32_read reg AES_STATUS_IDLE_BIT
         \<and> \<not> bitfield_bit32_read reg AES_STATUS_OUTPUT_VALID_BIT then returnM (kAesInternalError, []) else
    bindM (spin_until AES_STATUS_OUTPUT_VALID_BIT) (\<lambda>err.
    if err \<noteq> kAesOk then returnM (err, []) else
    bindM (map_each [0..<kAesBlockNumWords] (\<lambda>i.
       abs_mmio_read32 (TOP_EARLGREY_AES_BASE_ADDR + AES_DATA_OUT_0_REG_OFFSET + of_nat i * 4))) (\<lambda>d.
    returnM (kAesOk, d)))))"

definition aes_input_write :: "aes_block \<Rightarrow> aes_error rom" where
  "aes_input_write src = (bindM (spin_until AES_STATUS_INPUT_READY_BIT) (\<lambda>err.
    if err \<noteq> kAesOk then returnM err else
    bindM (for_each [0..<kAesBlockNumWords] (\<lambda>i.
       abs_mmio_write32 (TOP_EARLGREY_AES_BASE_ADDR + AES_DATA_IN_0_REG_OFFSET + of_nat i * 4) (src ! i))) (\<lambda>_.
    returnM kAesOk)))"

text \<open>\<open>aes_update\<close>: whether an output is wanted, and the input if there is one.\<close>

definition aes_update :: "bool \<Rightarrow> aes_block option \<Rightarrow> (aes_error * aes_block) rom" where
  "aes_update dest src = (bindM ((if dest then aes_output_read else returnM (kAesOk, []))) (\<lambda>(err, d).
    if err \<noteq> kAesOk then returnM (err, d) else
    (case src of
        None \<Rightarrow> returnM (kAesOk, d)
      | Some b \<Rightarrow> (bindM (aes_input_write b) (\<lambda>err.
     returnM (err, d))))))"

definition aes_end :: "aes_error rom" where
  "aes_end = (let ctrl_reg = bitfield_bit32_write AES_CTRL_SHADOWED_REG_RESVAL AES_CTRL_SHADOWED_MANUAL_OPERATION_BIT True in
    bindM (abs_mmio_write32_shadowed (TOP_EARLGREY_AES_BASE_ADDR + AES_CTRL_SHADOWED_REG_OFFSET) ctrl_reg) (\<lambda>_.
    let trigger_reg = bitfield_bit32_write 0 AES_TRIGGER_KEY_IV_DATA_IN_CLEAR_BIT True in
    let trigger_reg = bitfield_bit32_write trigger_reg AES_TRIGGER_DATA_OUT_CLEAR_BIT True in
    bindM (abs_mmio_write32 (TOP_EARLGREY_AES_BASE_ADDR + AES_TRIGGER_REG_OFFSET) trigger_reg) (\<lambda>_.
    spin_until AES_STATUS_IDLE_BIT)))"

section \<open>One block in counter mode\<close>

abbreviation (input) aes_reg :: "u32 \<Rightarrow> nat \<Rightarrow> u32" where
  "aes_reg offset i \<equiv> TOP_EARLGREY_AES_BASE_ADDR + offset + of_nat i * 4"

abbreviation (input) aes_ctrl_reg :: u32 where
  "aes_ctrl_reg \<equiv> TOP_EARLGREY_AES_BASE_ADDR + AES_CTRL_SHADOWED_REG_OFFSET"

text \<open>The register writes to the unit, newest first.\<close>

fun aes_writes :: "io_event list \<Rightarrow> (u32 * u32) list" where
  "aes_writes [] = []"
| "aes_writes (W32 a v # l) = (if a - TOP_EARLGREY_AES_BASE_ADDR < 0x88 then (a, v) # aes_writes l else aes_writes l)"
| "aes_writes (ev # l) = aes_writes l"

text \<open>The writes, oldest first, that set up the unit and give it one block.\<close>

definition aes_session :: "u32 \<Rightarrow> u32 list \<Rightarrow> u32 list \<Rightarrow> aes_block \<Rightarrow> aes_block \<Rightarrow> (u32 * u32) list" where
  "aes_session ctrl k0 k1 iv d =
     [(aes_ctrl_reg, ctrl), (aes_ctrl_reg, ctrl)] @
     concat (map (\<lambda>i. [(aes_reg AES_KEY_SHARE0_0_REG_OFFSET i, k0 ! i), (aes_reg AES_KEY_SHARE1_0_REG_OFFSET i, k1 ! i)]) [0..<8]) @
     map (\<lambda>i. (aes_reg AES_IV_0_REG_OFFSET i, iv ! i)) [0..<4] @
     map (\<lambda>i. (aes_reg AES_DATA_IN_0_REG_OFFSET i, d ! i)) [0..<4]"

text \<open>The control register asks for automatic encryption in counter mode with a key given in the
  registers.\<close>

definition ctr_encryption :: "u32 \<Rightarrow> bool" where
  "ctr_encryption ctrl \<longleftrightarrow>
     bitfield_field32_read ctrl AES_CTRL_SHADOWED_OPERATION_FIELD = AES_CTRL_SHADOWED_OPERATION_VALUE_AES_ENC \<and>
     bitfield_field32_read ctrl AES_CTRL_SHADOWED_MODE_FIELD = kAesCipherModeCtr \<and>
     \<not> bitfield_bit32_read ctrl AES_CTRL_SHADOWED_SIDELOAD_BIT \<and>
     \<not> bitfield_bit32_read ctrl AES_CTRL_SHADOWED_MANUAL_OPERATION_BIT"

definition xor_words :: "u32 list \<Rightarrow> u32 list \<Rightarrow> u32 list" where
  "xor_words xs ys = map2 (XOR) xs ys"

text \<open>The documented behaviour of the unit, for a block cipher \<open>E\<close> of key length, key and block:
  after a session in counter mode the output registers hold the input block xored with the encrypted
  initial counter block; the key is the xor of its shares.\<close>

definition aes_device :: "(u32 \<Rightarrow> u32 list \<Rightarrow> aes_block \<Rightarrow> aes_block) \<Rightarrow> platform \<Rightarrow> bool" where
  "aes_device E p \<longleftrightarrow> (\<forall>l l' ctrl k0 k1 iv d i.
     aes_writes l = rev (aes_session ctrl k0 k1 iv d) @ l' \<longrightarrow> ctr_encryption ctrl \<longrightarrow> i < 4 \<longrightarrow>
     length k0 = 8 \<longrightarrow> length k1 = 8 \<longrightarrow> length iv = 4 \<longrightarrow> length d = 4 \<longrightarrow>
     mmio_resp p l (aes_reg AES_DATA_OUT_0_REG_OFFSET i) =
       xor_words d (E (bitfield_field32_read ctrl AES_CTRL_SHADOWED_KEY_LEN_FIELD) (xor_words k0 k1) iv) ! i)"

text \<open>The key of a key structure: both shares filled up with zeroes.\<close>

definition key_word_count :: "u32 \<Rightarrow> nat" where
  "key_word_count len = (if len = kAesKeyLen128 then 4 else if len = kAesKeyLen192 then 6 else 8)"

definition padded_share :: "u32 \<Rightarrow> u32 list \<Rightarrow> u32 list" where
  "padded_share len share = map (\<lambda>i. if i < key_word_count len then share ! i else 0) [0..<8]"

definition aes_key_value :: "aes_key \<Rightarrow> u32 list" where
  "aes_key_value key = xor_words (padded_share (key_len key) (key_share0 key)) (padded_share (key_len key) (key_share1 key))"

definition ctr_key :: "aes_key \<Rightarrow> bool" where
  "ctr_key key \<longleftrightarrow> key_mode key = kAesCipherModeCtr \<and> key_sideload key = kHardenedBoolFalse \<and>
     key_len key \<in> {kAesKeyLen128, kAesKeyLen192, kAesKeyLen256}"

lemma for_each_writes:
  "for_each xs (\<lambda>x. abs_mmio_write32 (g x) (f x)) m =
     Done () (m\<lparr>io_log := rev (map (\<lambda>x. W32 (g x) (f x)) xs) @ io_log m\<rparr>)"
  by (induction xs arbitrary: m) simp_all

lemma for_each_write_pairs:
  "for_each xs (\<lambda>x. bindM (abs_mmio_write32 (g x) (f x)) (\<lambda>_. abs_mmio_write32 (h x) (k x))) m =
     Done () (m\<lparr>io_log := rev (concat (map (\<lambda>x. [W32 (g x) (f x), W32 (h x) (k x)]) xs)) @ io_log m\<rparr>)"
  by (induction xs arbitrary: m) simp_all

lemma aes_writes_append: "aes_writes (l @ l') = aes_writes l @ aes_writes l'"
  by (induction l rule: aes_writes.induct) auto

text \<open>A unit that is never busy and raises no alert: with it every operation of the driver succeeds.\<close>

definition aes_ready :: "platform \<Rightarrow> bool" where
  "aes_ready p \<longleftrightarrow> 0 < poll_limit p \<and>
     (\<forall>l. let reg = mmio_resp p l (TOP_EARLGREY_AES_BASE_ADDR + AES_STATUS_REG_OFFSET) in
        bitfield_bit32_read reg AES_STATUS_IDLE_BIT \<and> bitfield_bit32_read reg AES_STATUS_OUTPUT_VALID_BIT \<and>
        bitfield_bit32_read reg AES_STATUS_INPUT_READY_BIT \<and>
        \<not> bitfield_bit32_read reg AES_STATUS_ALERT_RECOV_CTRL_UPDATE_ERR_BIT \<and>
        \<not> bitfield_bit32_read reg AES_STATUS_ALERT_FATAL_FAULT_BIT)"

text \<open>How an operation may stop (waiting too long for a busy unit), and its error code.\<close>

abbreviation aes_stop :: "machine \<Rightarrow> stop \<Rightarrow> machine \<Rightarrow> bool" where
  "aes_stop m e t \<equiv> e = Out_of_polls \<and> plat t = plat m \<and> \<not> aes_ready (plat m)"

text \<open>What the driver keeps while it only reads: the platform and the writes.\<close>

definition aes_keeps :: "machine \<Rightarrow> machine \<Rightarrow> bool" where
  "aes_keeps s t \<longleftrightarrow> plat t = plat s \<and> aes_writes (io_log t) = aes_writes (io_log s)"

interpretation aes_keeps: frame_base aes_keeps "\<lambda>e. e = Out_of_polls"
  by unfold_locales (auto simp: aes_keeps_def)

lemma aes_keeps_read: "framed aes_keeps (\<lambda>e. e = Out_of_polls) (abs_mmio_read32 a)"
  by (simp add: framed_def aes_keeps_def)

lemma spin_keeps: "framed aes_keeps (\<lambda>e. e = Out_of_polls) (spin_until b)"
proof -
  have "framed aes_keeps (\<lambda>e. e = Out_of_polls) (poll n (abs_mmio_read32 a) ready)" for n a ready
    by (rule aes_keeps.framed_poll) (rule aes_keeps_read)
  then have "framed aes_keeps (\<lambda>e. e = Out_of_polls) (poll_until (abs_mmio_read32 a) ready)" for a ready
    by (auto simp: framed_def poll_until_def)
  then show ?thesis
    unfolding spin_until_def by (intro aes_keeps.framed_bind aes_keeps.framed_return)
qed

lemma wp_run: "p m = Done a s \<Longrightarrow> Q a s \<Longrightarrow> wp p Q E m"
  by (simp add: wp_def)

lemma wp_return: "Q a m \<Longrightarrow> wp (returnM a) Q E m"
  by (simp add: wp_def)

lemma wp_if_return: "(b \<Longrightarrow> Q r m) \<Longrightarrow> (\<not> b \<Longrightarrow> wp p Q E m) \<Longrightarrow> wp (if b then returnM r else p) Q E m"
  by (simp add: wp_def)

lemma wp_framed_stop:
  "framed R S p \<Longrightarrow> (\<And>a t. R s t \<Longrightarrow> Q a t) \<Longrightarrow> (\<And>e t. R s t \<Longrightarrow> S e \<Longrightarrow> E e t) \<Longrightarrow> wp p Q E s"
  by (auto simp: wp_def framed_def split: outcome.splits dest: spec [of _ s])

lemma aes_ready_reads:
  assumes "aes_ready p"
  shows "bitfield_bit32_read (mmio_resp p l 0x41100084) 0" "bitfield_bit32_read (mmio_resp p l 0x41100084) 3"
    "bitfield_bit32_read (mmio_resp p l 0x41100084) 4" "\<not> bitfield_bit32_read (mmio_resp p l 0x41100084) 5"
    "\<not> bitfield_bit32_read (mmio_resp p l 0x41100084) 6"
  using assms by (simp_all add: aes_ready_def Let_def)

lemma spin_ready:
  assumes "aes_ready (plat m)" "b = 0 \<or> b = 3 \<or> b = 4"
  shows "\<exists>t. spin_until b m = Done kAesOk t"
proof -
  obtain n where n: "poll_limit (plat m) = Suc n"
    using assms(1) by (cases "poll_limit (plat m)") (auto simp: aes_ready_def)
  have "status_outcome b (mmio_resp (plat m) l 0x41100084) = Some kAesOk" for l
    using assms(2) aes_ready_reads [OF assms(1), of l] by (auto simp: status_outcome_def)
  then show ?thesis
    by (simp add: spin_until_def poll_until_def n bindM_def)
qed

lemma wp_spin:
  assumes "b = 0 \<or> b = 3 \<or> b = 4"
    and "\<And>err t. aes_keeps s t \<Longrightarrow> aes_ready (plat s) \<longrightarrow> err = kAesOk \<Longrightarrow> Q err t"
    and "\<And>e t. aes_stop s e t \<Longrightarrow> E e t"
  shows "wp (spin_until b) Q E s"
proof (cases "aes_ready (plat s)")
  case True
  then obtain t where t: "spin_until b s = Done kAesOk t"
    using spin_ready assms(1) by blast
  then have "aes_keeps s t" by (rule framedD1 [OF spin_keeps])
  then show ?thesis using assms(2) t by (simp add: wp_def)
next
  case False
  then show ?thesis
    by (intro wp_framed_stop [OF spin_keeps] assms(2,3)) (auto simp: aes_keeps_def)
qed

text \<open>The part of a session before the input block.\<close>

definition aes_setup :: "u32 \<Rightarrow> u32 list \<Rightarrow> u32 list \<Rightarrow> aes_block \<Rightarrow> (u32 * u32) list" where
  "aes_setup ctrl k0 k1 iv =
     [(aes_ctrl_reg, ctrl), (aes_ctrl_reg, ctrl)] @
     concat (map (\<lambda>i. [(aes_reg AES_KEY_SHARE0_0_REG_OFFSET i, k0 ! i), (aes_reg AES_KEY_SHARE1_0_REG_OFFSET i, k1 ! i)]) [0..<8]) @
     map (\<lambda>i. (aes_reg AES_IV_0_REG_OFFSET i, iv ! i)) [0..<4]"

lemma aes_session_setup:
  "aes_session ctrl k0 k1 iv d = aes_setup ctrl k0 k1 iv @ map (\<lambda>i. (aes_reg AES_DATA_IN_0_REG_OFFSET i, d ! i)) [0..<4]"
  by (simp add: aes_session_def aes_setup_def)

lemma aes_ctrl_fields:
  assumes "key_mode key = kAesCipherModeCtr" "key_sideload key = kHardenedBoolFalse"
  shows "\<exists>c. aes_ctrl_value key kHardenedBoolTrue = Some c \<and> ctr_encryption c \<and>
     bitfield_field32_read c AES_CTRL_SHADOWED_KEY_LEN_FIELD = key_len key AND 7"
  using assms
  by (simp add: aes_ctrl_value_def Let_def ctr_encryption_def bitfield_bit32_read_def bitfield_bit32_write_def
      bitfield_bit32_to_field32_def bitfield_simps)

lemma upt_8: "[0..<8] = [0, 1, 2, 3, 4, 5, 6, 7]" "[0..<6] = [0, 1, 2, 3, 4, 5]" "[0..<4] = [0, 1, 2, 3]"
    "[4..<8] = [4, 5, 6, 7]" "[6..<8] = [6, 7]"
  by (simp_all add: upt_rec)

lemma aes_write_key_wp:
  assumes "ctr_key key"
  shows "wp (aes_write_key key) (\<lambda>err t. plat t = plat m \<and> (aes_ready (plat m) \<longrightarrow> err = kAesOk) \<and>
     aes_writes (io_log t) = rev (concat (map (\<lambda>i.
       [(aes_reg AES_KEY_SHARE0_0_REG_OFFSET i, padded_share (key_len key) (key_share0 key) ! i),
        (aes_reg AES_KEY_SHARE1_0_REG_OFFSET i, padded_share (key_len key) (key_share1 key) ! i)]) [0..<8])) @ aes_writes (io_log m))
     (aes_stop m) m"
proof -
  have len: "key_len key = 1 \<or> key_len key = 2 \<or> key_len key = 4" and side: "key_sideload key = kHardenedBoolFalse"
    using assms by (auto simp: ctr_key_def)
  have run: "aes_write_key key = (bindM (for_each [0..<key_word_count (key_len key)] (\<lambda>i. (bindM (abs_mmio_write32 (aes_reg AES_KEY_SHARE0_0_REG_OFFSET i) (key_share0 key ! i)) (\<lambda>_.
       abs_mmio_write32 (aes_reg AES_KEY_SHARE1_0_REG_OFFSET i) (key_share1 key ! i))))) (\<lambda>_.
    bindM (for_each [key_word_count (key_len key)..<8] (\<lambda>i. (bindM (abs_mmio_write32 (aes_reg AES_KEY_SHARE0_0_REG_OFFSET i) 0) (\<lambda>_.
       abs_mmio_write32 (aes_reg AES_KEY_SHARE1_0_REG_OFFSET i) 0)))) (\<lambda>_.
    spin_until AES_STATUS_IDLE_BIT)))"
    using len side by (auto simp: aes_write_key_def key_word_count_def)
  show ?thesis
    unfolding run
    apply (rule wp_bind, rule wp_run [OF for_each_write_pairs], rule wp_bind, rule wp_run [OF for_each_write_pairs], rule wp_spin, simp)
    using len by (auto simp: aes_keeps_def key_word_count_def padded_share_def upt_8)
qed

lemma aes_begin_wp:
  assumes "ctr_key key"
  shows "wp (aes_encrypt_begin key iv) (\<lambda>err t. plat t = plat m \<and> (aes_ready (plat m) \<longrightarrow> err = kAesOk) \<and> (err = kAesOk \<longrightarrow>
       (\<exists>ctrl. ctr_encryption ctrl \<and> bitfield_field32_read ctrl AES_CTRL_SHADOWED_KEY_LEN_FIELD = key_len key \<and>
         aes_writes (io_log t) = rev (aes_setup ctrl (padded_share (key_len key) (key_share0 key))
           (padded_share (key_len key) (key_share1 key)) iv) @ aes_writes (io_log m))))
     (aes_stop m) m"
proof -
  obtain c where c: "aes_ctrl_value key kHardenedBoolTrue = Some c" "ctr_encryption c"
      "bitfield_field32_read c AES_CTRL_SHADOWED_KEY_LEN_FIELD = key_len key AND 7"
    using aes_ctrl_fields [of key] assms by (auto simp: ctr_key_def)
  have len: "key_len key AND 7 = key_len key" and mode: "key_mode key \<noteq> kAesCipherModeEcb"
    using assms by (auto simp: ctr_key_def)
  show ?thesis
    unfolding aes_encrypt_begin_def aes_begin_def c(1) option.case
    apply (rule wp_bind, rule wp_spin, simp, rule wp_if_return)
    subgoal by (simp add: aes_keeps_def)
     apply (unfold abs_mmio_write32_shadowed_def)
     apply (rule wp_bind, rule wp_bind, rule wp_run [OF mmio_run(2)], rule wp_run [OF mmio_run(2)])
     apply (rule wp_bind, rule wp_spin, simp, rule wp_if_return)
    subgoal by (simp add: aes_keeps_def)
      apply (rule wp_bind, rule wp_mono [OF aes_write_key_wp [OF assms]], rule wp_if_return)
    subgoal by (simp add: aes_keeps_def)
       apply (rule wp_if_return)
    subgoal using mode by simp
       apply (rule wp_bind, rule wp_run [OF for_each_writes], rule wp_return)
    subgoal using c len by (auto simp: aes_keeps_def aes_setup_def upt_8 intro!: exI [of _ c])
    by (simp_all add: aes_keeps_def)
qed


lemma wp_map_each_reads:
  "(\<And>ws t. aes_keeps m t \<Longrightarrow> (\<And>k. k < length xs \<Longrightarrow> \<exists>l. aes_writes l = aes_writes (io_log m) \<and> ws ! k = mmio_resp (plat m) l (a (xs ! k)))
     \<Longrightarrow> length ws = length xs \<Longrightarrow> Q ws t) \<Longrightarrow>
   wp (map_each xs (\<lambda>i. abs_mmio_read32 (a i))) Q E m"
proof (induction xs arbitrary: m Q)
  case Nil
  show ?case by (auto simp: wp_def aes_keeps_def intro!: Nil)
next
  case (Cons x xs)
  show ?case
    apply (simp only: map_each.simps)
    apply (rule wp_bind, rule wp_run [OF mmio_run(1)], rule wp_bind, rule Cons.IH, rule wp_return, rule Cons.prems)
      apply (simp_all add: aes_keeps_def less_Suc_eq_0_disj)
    by (auto simp: nth_Cons split: nat.splits)
qed

lemma aes_input_write_wp:
  "wp (aes_input_write d) (\<lambda>err t. plat t = plat m \<and> (aes_ready (plat m) \<longrightarrow> err = kAesOk) \<and> (err = kAesOk \<longrightarrow>
     aes_writes (io_log t) = rev (map (\<lambda>i. (aes_reg AES_DATA_IN_0_REG_OFFSET i, d ! i)) [0..<4]) @ aes_writes (io_log m)))
   (aes_stop m) m"
  unfolding aes_input_write_def
  apply (rule wp_bind, rule wp_spin, simp, rule wp_if_return)
  subgoal by (simp add: aes_keeps_def)
   apply (rule wp_bind, rule wp_run [OF for_each_writes], rule wp_return)
  by (simp_all add: aes_keeps_def upt_8)

lemma aes_output_read_wp:
  assumes "aes_device E (plat m)" "aes_writes (io_log m) = rev (aes_session ctrl k0 k1 iv d) @ l'" "ctr_encryption ctrl"
    "length k0 = 8" "length k1 = 8" "length iv = 4" "length d = 4"
    "length (E (bitfield_field32_read ctrl AES_CTRL_SHADOWED_KEY_LEN_FIELD) (xor_words k0 k1) iv) = 4"
  shows "wp aes_output_read (\<lambda>(err, b) t. plat t = plat m \<and> (aes_ready (plat m) \<longrightarrow> err = kAesOk) \<and> (err = kAesOk \<longrightarrow>
     b = xor_words d (E (bitfield_field32_read ctrl AES_CTRL_SHADOWED_KEY_LEN_FIELD) (xor_words k0 k1) iv)))
   (aes_stop m) m"
proof -
  have out: "mmio_resp (plat m) l (0x41100064 + of_nat i * 4) =
      xor_words d (E (bitfield_field32_read ctrl AES_CTRL_SHADOWED_KEY_LEN_FIELD) (xor_words k0 k1) iv) ! i"
    if "aes_writes l = aes_writes (io_log m)" "i < 4" for l i
    using assms(1) [unfolded aes_device_def, rule_format, OF _ assms(3) that(2) assms(4-7)] assms(2) that(1) by simp
  have read: "w = xor_words d (E (bitfield_field32_read ctrl AES_CTRL_SHADOWED_KEY_LEN_FIELD) (xor_words k0 k1) iv) ! i"
    if "\<exists>l. aes_writes l = aes_writes (io_log m) \<and> w = mmio_resp (plat m) l (0x41100064 + of_nat i * 4)" "i < 4" for w i
    using that out by blast
  show ?thesis
    unfolding aes_output_read_def
    apply (rule wp_bind, rule wp_run [OF mmio_run(1)], rule wp_if_return)
    subgoal using aes_ready_reads [of "plat m"] by auto
    apply (rule wp_bind, rule wp_spin, simp, rule wp_if_return)
    subgoal by (simp add: aes_keeps_def)
     apply (rule wp_bind, rule wp_map_each_reads, rule wp_return)
    subgoal for err t ws u
      using assms(7,8)
      by (clarsimp simp: aes_keeps_def, intro nth_equalityI read) (auto simp: xor_words_def)
    by (simp add: aes_keeps_def)
qed

lemma aes_end_wp:
  "wp aes_end (\<lambda>err t. plat t = plat m \<and> (aes_ready (plat m) \<longrightarrow> err = kAesOk)) (aes_stop m) m"
  unfolding aes_end_def Let_def abs_mmio_write32_shadowed_def
  apply (rule wp_bind, rule wp_bind, rule wp_run [OF mmio_run(2)], rule wp_run [OF mmio_run(2)], rule wp_bind,
    rule wp_run [OF mmio_run(2)], rule wp_spin)
  by (simp_all add: aes_keeps_def)

end
