(* ===== verification/Ghash.thy ===== *)
theory Ghash
  imports Aes Hardened_Memory
begin

text \<open>The pure part of \<open>lib/crypto/impl/aes_gcm/aes_gcm.c\<close>: blocks, counters, the multiplication in
  the Galois field of GCM with 4-bit windows and precomputed tables, and GHASH. The reference is the
  bit-serial multiplication (Algorithm 1) and GHASH (Algorithm 2) of NIST SP 800-38D on 128-bit
  big-endian words. A block is the list of its four words as the processor holds them.\<close>

unbundle bit_operations_syntax

type_synonym u16 = "16 word"
type_synonym u128 = "128 word"

section \<open>Blocks\<close>

definition zero_block :: aes_block where
  "zero_block = replicate kAesBlockNumWords 0"

definition block_xor :: "aes_block \<Rightarrow> aes_block \<Rightarrow> aes_block" where
  "block_xor x y = map (\<lambda>i. x ! i XOR y ! i) [0..<kAesBlockNumWords]"

definition reverse_bits :: "u8 \<Rightarrow> u8" where
  "reverse_bits byte = fold (\<lambda>i out. push_bit 1 out OR (drop_bit i byte AND 1)) [0..<4] 0"

definition reverse_bytes :: "u32 \<Rightarrow> u32" where
  "reverse_bytes word = fold (\<lambda>i out. push_bit 8 out OR (drop_bit (8 * i) word AND 255)) [0..<4] 0"

text \<open>The loop of \<open>block_shiftr\<close> over the words, with the carry of the previous word.\<close>

fun block_shiftr_words :: "nat \<Rightarrow> u32 \<Rightarrow> aes_block \<Rightarrow> aes_block" where
  "block_shiftr_words nbits carry [] = []"
| "block_shiftr_words nbits carry (w # ws) =
     (let rev = reverse_bytes w;
          next_carry = rev AND (push_bit nbits 1 - 1);
          rev = drop_bit nbits rev;
          rev = rev OR push_bit (32 - nbits) carry
      in reverse_bytes rev # block_shiftr_words nbits next_carry ws)"

definition block_shiftr :: "aes_block \<Rightarrow> nat \<Rightarrow> aes_block" where
  "block_shiftr block nbits = block_shiftr_words nbits 0 block"

definition block_byte_get :: "aes_block \<Rightarrow> nat \<Rightarrow> u8" where
  "block_byte_get block index = word_bytes (block ! (index div 4)) ! (index mod 4)"

definition get_last_block_num_bytes :: "u32 \<Rightarrow> u32" where
  "get_last_block_num_bytes sz = (let remainder = sz mod 16 in if remainder = 0 then 16 else remainder)"

definition get_nblocks :: "u32 \<Rightarrow> u32" where
  "get_nblocks sz =
     (let out = drop_bit 4 sz in if get_last_block_num_bytes sz \<noteq> 16 then out + 1 else out)"

definition word_inc32 :: "u32 \<Rightarrow> u32" where
  "word_inc32 word = reverse_bytes (reverse_bytes word + 1)"

definition block_inc32 :: "aes_block \<Rightarrow> aes_block" where
  "block_inc32 block = block[kAesBlockNumWords - 1 := word_inc32 (block ! (kAesBlockNumWords - 1))]"

section \<open>Multiplication in the Galois field\<close>

definition galois_mulx :: "aes_block \<Rightarrow> aes_block" where
  "galois_mulx p =
     (let p127 = block_byte_get p (kAesBlockNumBytes - 1) AND 1;
          out = block_shiftr p 1;
          gf_mask = 0 - (ucast p127 :: u32)
      in out[0 := out ! 0 XOR (0xe1 AND gf_mask)])"

text \<open>One round of the loop of \<open>make_product_table\<close>, for the even index \<open>i\<close>.\<close>

definition product_step :: "aes_block \<Rightarrow> nat \<Rightarrow> aes_block list \<Rightarrow> aes_block list" where
  "product_step H i tbl =
     (let idx = (\<lambda>k. unat (reverse_bits (of_nat k)));
          tbl = tbl[idx i := galois_mulx (tbl ! idx (i div 2))]
      in tbl[idx (i + 1) := block_xor (tbl ! idx i) H])"

text \<open>The product table, given what the memory of the table held before.\<close>

definition make_product_table :: "aes_block \<Rightarrow> aes_block list \<Rightarrow> aes_block list" where
  "make_product_table H tbl =
     (let tbl = tbl[0 := zero_block];
          tbl = tbl[8 := H]
      in fold (product_step H) [2, 4, 6, 8, 10, 12, 14] tbl)"

definition kGFReduceTable :: "u16 list" where
  "kGFReduceTable =
     [0x0000, 0x201c, 0x4038, 0x6024, 0x8070, 0xa06c, 0xc048, 0xe054,
      0x00e1, 0x20fd, 0x40d9, 0x60c5, 0x8091, 0xa08d, 0xc0a9, 0xe0b5]"

text \<open>Shifting by one window and reducing, then adding the product of the next window.\<close>

definition galois_shift4 :: "aes_block \<Rightarrow> aes_block" where
  "galois_shift4 result =
     (let overflow = block_byte_get result (kAesBlockNumBytes - 1) AND 0x0f;
          result = block_shiftr result 4;
          reduce_term = kGFReduceTable ! unat overflow
      in result[0 := result ! 0 XOR ucast reduce_term])"

definition galois_mul_window :: "aes_block \<Rightarrow> aes_block list \<Rightarrow> nat \<Rightarrow> aes_block \<Rightarrow> aes_block" where
  "galois_mul_window p tbl i result =
     (let result = (if i \<noteq> 0 then galois_shift4 result else result);
          pi = block_byte_get p ((31 - i) div 2);
          pi = (if i mod 2 = 1 then drop_bit 4 pi else pi AND 0x0f)
      in block_xor result (tbl ! unat pi))"

definition galois_mul :: "aes_block \<Rightarrow> aes_block list \<Rightarrow> aes_block" where
  "galois_mul p tbl = fold (galois_mul_window p tbl) [0..<32] zero_block"

section \<open>GHASH\<close>

text \<open>The block of sixteen bytes, and the block number \<open>i\<close> of an input, the last one filled up with
  zeroes.\<close>

definition bytes_block :: "u8 list \<Rightarrow> aes_block" where
  "bytes_block bs = map (\<lambda>k. le_word (bs ! (4 * k)) (bs ! (4 * k + 1)) (bs ! (4 * k + 2)) (bs ! (4 * k + 3))) [0..<4]"

definition block_bytes :: "aes_block \<Rightarrow> u8 list" where
  "block_bytes b = concat (map word_bytes b)"

definition input_block :: "u32 \<Rightarrow> u8 list \<Rightarrow> nat \<Rightarrow> aes_block" where
  "input_block input_len input i =
     (if i = unat (get_nblocks input_len) - 1
      then let nbytes = unat (get_last_block_num_bytes input_len)
           in bytes_block (take nbytes (drop (16 * i) input) @ replicate (16 - nbytes) 0)
      else bytes_block (take 16 (drop (16 * i) input)))"

definition aes_gcm_ghash_update :: "aes_block list \<Rightarrow> u32 \<Rightarrow> u8 list \<Rightarrow> aes_block \<Rightarrow> aes_block" where
  "aes_gcm_ghash_update tbl input_len input state =
     fold (\<lambda>i state. galois_mul (block_xor state (input_block input_len input i)) tbl)
       [0..<unat (get_nblocks input_len)] state"

text \<open>The product table on the stack of a caller, before it is filled.\<close>

definition stack_table :: "aes_block list" where
  "stack_table = replicate 16 zero_block"

definition aes_gcm_ghash :: "aes_block \<Rightarrow> u32 \<Rightarrow> u8 list \<Rightarrow> aes_error * aes_block" where
  "aes_gcm_ghash hash_subkey input_len input =
     (let tbl = make_product_table hash_subkey stack_table in
      if get_last_block_num_bytes input_len \<noteq> 16 then (kAesInternalError, zero_block)
      else (kAesOk, aes_gcm_ghash_update tbl input_len input zero_block))"

section \<open>The reference: NIST SP 800-38D\<close>

text \<open>A block as a 128-bit string: the leftmost bit of the string is bit 127 of the word and the
  coefficient of \<open>x\<close> to the power 0.\<close>

definition bytes_value :: "u8 list \<Rightarrow> u128" where
  "bytes_value bs = fold (\<lambda>b acc. push_bit 8 acc OR ucast b) bs 0"

definition block_value :: "aes_block \<Rightarrow> u128" where
  "block_value b = bytes_value (block_bytes b)"

text \<open>Algorithm 1, \<open>R\<close> the string \<open>11100001\<close> followed by 120 zeroes.\<close>

definition nist_shift :: "u128 \<Rightarrow> u128" where
  "nist_shift v = (if bit v 0 then drop_bit 1 v XOR push_bit 120 0xe1 else drop_bit 1 v)"

definition nist_mult :: "u128 \<Rightarrow> u128 \<Rightarrow> u128" where
  "nist_mult x y = fst (fold (\<lambda>i (z, v). (if bit x (127 - i) then z XOR v else z, nist_shift v)) [0..<128] (0, y))"

text \<open>Algorithm 2, from a given state.\<close>

definition nist_ghash :: "u128 \<Rightarrow> u128 list \<Rightarrow> u128 \<Rightarrow> u128" where
  "nist_ghash h xs y = fold (\<lambda>x y. nist_mult (y XOR x) h) xs y"

text \<open>An input filled up with zeroes to full blocks.\<close>

definition zero_padded :: "u8 list \<Rightarrow> u8 list" where
  "zero_padded bs = bs @ replicate (16 - length bs) 0"

definition nist_blocks :: "u8 list \<Rightarrow> u128 list" where
  "nist_blocks bs = map (\<lambda>i. bytes_value (zero_padded (take 16 (drop (16 * i) bs)))) [0..<(length bs + 15) div 16]"

section \<open>Blocks as 128-bit strings\<close>

lemma word_cases_bytes: obtains a b c d where "w = le_word a b c d"
  using le_word_word_bytes [of w] by metis

lemma low_byte: "w AND 255 = ucast (ucast w :: u8)" for w :: u32
  by (rule bit_word_eqI) (auto simp: bit_and_iff bit_unsigned_iff byte_masks bit_mask_iff)

lemma reverse_bytes_le_word: "reverse_bytes (le_word a b c d) = le_word d c b a"
proof -
  have "reverse_bytes w = le_word (ucast (drop_bit 24 w)) (ucast (drop_bit 16 w)) (ucast (drop_bit 8 w)) (ucast w)" for w
    unfolding reverse_bytes_def upt_8 low_byte le_word_def by simp (simp only: ac_simps)
  then show ?thesis by (simp only: le_word_bytes)
qed

lemma reverse_reverse_bytes [simp]: "reverse_bytes (reverse_bytes w) = w"
  by (cases w rule: word_cases_bytes) (simp add: reverse_bytes_le_word)

lemma word_bytes_reverse: "word_bytes (reverse_bytes w) = rev (word_bytes w)"
  by (cases w rule: word_cases_bytes) (simp add: reverse_bytes_le_word)

lemma bit_reverse_bytes:
  assumes "r < 8"
  shows "bit (reverse_bytes w) r = bit w (r + 24)" "bit (reverse_bytes w) (r + 8) = bit w (r + 16)"
    "bit (reverse_bytes w) (r + 16) = bit w (r + 8)" "bit (reverse_bytes w) (r + 24) = bit w r"
  using assms by (cases w rule: word_cases_bytes; simp add: reverse_bytes_le_word bit_le_word_bytes)+

lemma bit_reverse_bytes_at: "n < 32 \<Longrightarrow> bit (reverse_bytes w) n = bit w (8 * (3 - n div 8) + n mod 8)"
proof -
  assume "n < 32"
  then have "n div 8 < 4" by (simp add: less_mult_imp_div_less)
  then have q: "n div 8 = 0 \<or> n div 8 = 1 \<or> n div 8 = 2 \<or> n div 8 = 3" by linarith
  have n: "n = 8 * (n div 8) + n mod 8" and r: "n mod 8 < 8" by simp_all
  show ?thesis
    by (subst n) (use q bit_reverse_bytes [OF r, of w] in \<open>elim disjE; simp add: add.commute\<close>)
qed

lemma reverse_bytes_xor: "reverse_bytes (v XOR w) = reverse_bytes v XOR reverse_bytes w"
  by (rule bit_word_eqI) (simp add: bit_reverse_bytes_at bit_xor_iff)

text \<open>Four bytes of a string are one reversed word.\<close>

abbreviation (input) join_word :: "u128 \<Rightarrow> u32 \<Rightarrow> u128" where
  "join_word acc r \<equiv> push_bit 32 acc OR ucast r"

lemma bytes_value_word:
  "fold (\<lambda>b acc. push_bit 8 acc OR ucast b) (word_bytes w) acc = join_word acc (reverse_bytes w)"
proof (cases w rule: word_cases_bytes)
  case (1 a b c d)
  have u: "(ucast (push_bit k (ucast x :: u32)) :: u128) = push_bit k (ucast x)" if "k \<le> 24" for k and x :: u8
    by (rule bit_word_eqI) (use that in \<open>auto simp: bit_unsigned_iff bit_push_bit_iff dest: bit_imp_le_length\<close>)
  have u0: "(ucast (ucast x :: u32) :: u128) = ucast x" for x :: u8
    using u [of 0 x] by simp
  show ?thesis
    unfolding 1 reverse_bytes_le_word word_bytes_le_word
    by (simp add: le_word_def unsigned_or_eq u u0 push_bit_or ac_simps del: push_bit_Suc)
qed

lemma block_value_words:
  "block_value [a, b, c, d] = join_word (join_word (join_word (ucast (reverse_bytes a)) (reverse_bytes b)) (reverse_bytes c)) (reverse_bytes d)"
  by (simp add: block_value_def bytes_value_def block_bytes_def bytes_value_word)

lemma u32_bit_beyond: "32 \<le> n \<Longrightarrow> \<not> bit (x :: u32) n"
  by (auto dest: bit_imp_le_length)

lemma bit_block_value:
  "n < 32 \<Longrightarrow> bit (block_value [a, b, c, d]) n = bit (reverse_bytes d) n"
  "n < 32 \<Longrightarrow> bit (block_value [a, b, c, d]) (n + 32) = bit (reverse_bytes c) n"
  "n < 32 \<Longrightarrow> bit (block_value [a, b, c, d]) (n + 64) = bit (reverse_bytes b) n"
  "n < 32 \<Longrightarrow> bit (block_value [a, b, c, d]) (n + 96) = bit (reverse_bytes a) n"
  by (simp_all add: block_value_words bit_or_iff bit_push_bit_iff bit_unsigned_iff u32_bit_beyond)

lemma block_value_eqI:
  assumes "\<And>n. n < 32 \<Longrightarrow> bit v n = bit (reverse_bytes d) n" "\<And>n. n < 32 \<Longrightarrow> bit v (n + 32) = bit (reverse_bytes c) n"
    "\<And>n. n < 32 \<Longrightarrow> bit v (n + 64) = bit (reverse_bytes b) n" "\<And>n. n < 32 \<Longrightarrow> bit v (n + 96) = bit (reverse_bytes a) n"
  shows "block_value [a, b, c, d] = v"
proof (rule bit_word_eqI)
  fix n :: nat assume "n < LENGTH(128)"
  then have "n < 128" by simp
  then consider "n < 32" | "n - 32 < 32" "n = (n - 32) + 32" | "n - 64 < 32" "n = (n - 64) + 64"
    | "n - 96 < 32" "n = (n - 96) + 96" by linarith
  then show "bit (block_value [a, b, c, d]) n = bit v n"
    by cases (metis assms bit_block_value)+
qed

lemma block_cases: "length b = 4 \<Longrightarrow> (\<And>w0 w1 w2 w3. b = [w0, w1, w2, w3] \<Longrightarrow> P) \<Longrightarrow> P"
  by (auto simp: length_Suc_conv numeral_eq_Suc)


lemma block_value_xor:
  "block_value [a XOR e, b XOR f, c XOR g, d XOR h] = block_value [a, b, c, d] XOR block_value [e, f, g, h]"
  by (rule block_value_eqI) (simp_all add: bit_xor_iff bit_block_value reverse_bytes_xor)

lemma block_xor_value:
  "length x = 4 \<Longrightarrow> length y = 4 \<Longrightarrow> block_value (block_xor x y) = block_value x XOR block_value y"
  by (elim block_cases) (simp add: block_xor_def upt_8 block_value_xor)

lemma zero_block_value [simp]: "block_value zero_block = 0"
  by (simp add: zero_block_def numeral_eq_Suc) (simp add: block_value_words reverse_bytes_def upt_8)

lemma shift_word:
  assumes "0 < k" "k < 32" "n < 32"
  shows "bit (drop_bit k r OR push_bit (32 - k) (c AND (push_bit k 1 - 1)) :: u32) n =
    (if n + k < 32 then bit r (n + k) else bit c (n + k - 32))"
proof -
  have "(push_bit k 1 - 1 :: u32) = mask k"
    by (simp add: mask_eq_exp_minus_1 push_bit_eq_mult)
  then show ?thesis
    using assms by (auto simp: bit_or_iff bit_and_iff bit_drop_bit_eq bit_push_bit_iff bit_mask_iff u32_bit_beyond add.commute)
qed

lemma block_shiftr_value:
  assumes k: "0 < k" "k < 32" and "length b = 4"
  shows "block_value (block_shiftr b k) = drop_bit k (block_value b)"
proof -
  obtain w0 w1 w2 w3 where b: "b = [w0, w1, w2, w3]" using assms(3) by (rule block_cases) blast
  have z: "(0 :: u32) = 0 AND (push_bit k 1 - 1)" by simp
  let ?v = "block_value [w0, w1, w2, w3]"
  have at: "bit (drop_bit k ?v) (n + j) =
      bit (reverse_bytes (reverse_bytes (drop_bit k lo OR push_bit (32 - k) (hi AND (push_bit k 1 - 1))))) n"
    if lo: "\<And>i. i < 32 \<Longrightarrow> bit ?v (i + j) = bit lo i" and hi: "\<And>i. i < 32 \<Longrightarrow> bit ?v (i + (j + 32)) = bit hi i"
      and n: "n < 32" for n j lo hi
  proof -
    have "bit (drop_bit k ?v) (n + j) = bit ?v ((n + k) + j)"
      by (simp only: bit_drop_bit_eq o_def ac_simps)
    also have "\<dots> = (if n + k < 32 then bit lo (n + k) else bit hi (n + k - 32))"
    proof (cases "n + k < 32")
      case False
      then have "(n + k) + j = (n + k - 32) + (j + 32)" "n + k - 32 < 32" using n k by simp_all
      then show ?thesis using hi [of "n + k - 32"] False by presburger
    qed (simp add: lo)
    finally show ?thesis
      unfolding reverse_reverse_bytes shift_word [OF k n] .
  qed
  have beyond: "bit ?v (i + (96 + 32)) = bit (0 :: u32) i" for i
    by (auto dest: bit_imp_le_length)
  show ?thesis
    unfolding b block_shiftr_def block_shiftr_words.simps Let_def
  proof (rule block_value_eqI, goal_cases)
    case (1 n)
    then show ?case using at [of 0 "reverse_bytes w3" "reverse_bytes w2" n] bit_block_value(1,2) by simp
  next
    case (2 n)
    then show ?case using at [of 32 "reverse_bytes w2" "reverse_bytes w1" n] bit_block_value(2,3) by simp
  next
    case (3 n)
    then show ?case using at [of 64 "reverse_bytes w1" "reverse_bytes w0" n] bit_block_value(3,4) by simp
  next
    case (4 n)
    then show ?case using at [of 96 "reverse_bytes w0" 0 n] bit_block_value(4) beyond by simp
  qed
qed

lemma block_lengths [simp]:
  "length zero_block = 4" "length (block_xor x y) = 4" "length (block_shiftr b k) = length b"
  "length (galois_mulx b) = length b" "length (galois_shift4 b) = length b" "length (block_inc32 b) = length b"
  "length (bytes_block bs) = 4" "length (input_block l inp i) = 4" "length (galois_mul_window p tbl i r) = 4"
proof -
  have "length (block_shiftr_words k c b) = length b" for k c b
    by (induction k c b rule: block_shiftr_words.induct) (simp_all add: Let_def)
  then show "length (block_shiftr b k) = length b" for b k
    by (simp add: block_shiftr_def)
  then show "length (galois_mulx b) = length b" "length (galois_shift4 b) = length b"
    by (simp_all add: galois_mulx_def galois_shift4_def Let_def)
qed (simp_all add: zero_block_def block_xor_def block_inc32_def bytes_block_def input_block_def galois_mul_window_def Let_def)

text \<open>The bytes of a block.\<close>

lemma bit_word_bytes: "t < 4 \<Longrightarrow> r < 8 \<Longrightarrow> bit (word_bytes w ! t) r = bit w (8 * t + r)"
  by (auto simp: word_bytes_def less_Suc_eq numeral_eq_Suc bit_unsigned_iff bit_drop_bit_eq)


lemma bit_block_value_word:
  "length b = 4 \<Longrightarrow> q < 4 \<Longrightarrow> n < 32 \<Longrightarrow> bit (block_value b) (32 * (3 - q) + n) = bit (reverse_bytes (b ! q)) n"
proof (elim block_cases)
  fix w0 w1 w2 w3 assume q: "q < 4" "n < 32" and b: "b = [w0, w1, w2, w3]"
  from q(1) consider "q = 0" | "q = 1" | "q = 2" | "q = 3" by linarith
  then show ?thesis
    by cases (use q(2) in \<open>simp_all add: b bit_block_value add.commute\<close>)
qed

lemma bit_block_byte_get:
  assumes "length b = 4" "j < 16" "r < 8"
  shows "bit (block_byte_get b j) r = bit (block_value b) (8 * (15 - j) + r)"
proof -
  have arith: "8 * (15 - j) + r = 32 * (3 - j div 4) + (8 * (3 - j mod 4) + r)"
  proof -
    have "j = 0 \<or> j = 1 \<or> j = 2 \<or> j = 3 \<or> j = 4 \<or> j = 5 \<or> j = 6 \<or> j = 7 \<or> j = 8 \<or> j = 9 \<or>
        j = 10 \<or> j = 11 \<or> j = 12 \<or> j = 13 \<or> j = 14 \<or> j = 15"
      using assms(2) by presburger
    then show ?thesis by (elim disjE) simp_all
  qed
  have j: "j div 4 < 4" "j mod 4 < 4" "8 * (15 - j) + r = 32 * (3 - j div 4) + (8 * (3 - j mod 4) + r)"
    using assms(2) by (simp_all add: arith less_mult_imp_div_less)
  have n: "8 * (3 - j mod 4) + r < 32" "(8 * (3 - j mod 4) + r) div 8 = 3 - j mod 4" "(8 * (3 - j mod 4) + r) mod 8 = r"
    using j(2) assms(3) by (simp, simp_all only: div_mult_self4 mod_mult_self4, simp_all)
  have "3 - (3 - j mod 4) = j mod 4" using j(2) by simp
  then show ?thesis
    unfolding j(3) block_byte_get_def
    using assms j n by (simp add: bit_block_value_word bit_word_bytes bit_reverse_bytes_at)
qed

section \<open>The multiplication\<close>

lemma nist_shift_xor: "nist_shift (v XOR w) = nist_shift v XOR nist_shift w"
  by (simp add: nist_shift_def bit_xor_iff ac_simps)

lemma nist_shift_zero [simp]: "nist_shift 0 = 0"
  by (simp add: nist_shift_def)

lemma block_value_update:
  "length b = 4 \<Longrightarrow> block_value (b[0 := b ! 0 XOR c]) = block_value b XOR push_bit 96 (ucast (reverse_bytes c))"
proof (elim block_cases)
  fix w0 w1 w2 w3 assume b: "b = [w0, w1, w2, w3]"
  have "reverse_bytes 0 = 0" by (simp add: reverse_bytes_def upt_8)
  then have "block_value [c, 0, 0, 0] = push_bit 96 (ucast (reverse_bytes c))"
    by (simp add: block_value_words)
  then show ?thesis
    using block_value_xor [of w0 c w1 0 w2 0 w3 0] by (simp add: b)
qed

lemma galois_mulx_value:
  assumes "length p = 4"
  shows "block_value (galois_mulx p) = nist_shift (block_value p)"
proof -
  have r: "push_bit 96 (ucast (reverse_bytes 0xe1)) = (push_bit 120 0xe1 :: u128)" "reverse_bytes 0 = 0"
    by (simp_all add: reverse_bytes_def upt_8)
  have "block_byte_get p 15 AND 1 = (if bit (block_value p) 0 then 1 else 0)"
    using bit_block_byte_get [OF assms, of 15 0]
    by (intro bit_word_eqI) (auto simp: bit_and_iff bit_1_iff simp del: bit_0, metis gr0I)
  then show ?thesis
    using assms block_shiftr_value [of 1 p] r
    by (simp add: galois_mulx_def Let_def block_value_update nist_shift_def del: push_bit_Suc)
qed


lemma nist_shift_power_xor: "(nist_shift ^^ n) (v XOR w) = (nist_shift ^^ n) v XOR (nist_shift ^^ n) w"
  by (induction n) (simp_all add: nist_shift_xor)

text \<open>Four shifts at once: the low nibble is the index of the reduction table.\<close>

definition reduce_value :: "nat \<Rightarrow> u128" where
  "reduce_value n = push_bit 96 (ucast (reverse_bytes (ucast (kGFReduceTable ! n))))"

lemma reduce_table:
  "n < 16 \<Longrightarrow> (nist_shift ^^ 4) (of_nat n) = reduce_value n"
proof -
  have four: "(nist_shift ^^ 4) v = nist_shift (nist_shift (nist_shift (nist_shift v)))" for v
    by (simp add: numeral_eq_Suc)
  assume "n < 16"
  then have "n = 0 \<or> n = 1 \<or> n = 2 \<or> n = 3 \<or> n = 4 \<or> n = 5 \<or> n = 6 \<or> n = 7 \<or> n = 8 \<or> n = 9 \<or>
      n = 10 \<or> n = 11 \<or> n = 12 \<or> n = 13 \<or> n = 14 \<or> n = 15"
    by presburger
  then show ?thesis
    unfolding four by (elim disjE) (simp_all add: reduce_value_def kGFReduceTable_def nist_shift_def reverse_bytes_def upt_8)
qed

lemma nist_shift_high: "take_bit 4 v = 0 \<Longrightarrow> (nist_shift ^^ 4) v = drop_bit 4 v"
proof -
  assume t: "take_bit 4 v = 0"
  have z: "\<not> bit v n" if "n < 4" for n
    using arg_cong [OF t, of "\<lambda>x. bit x n"] that by (simp add: bit_take_bit_iff)
  have "nist_shift (drop_bit n v) = drop_bit (Suc n) v" if "n < 4" for n
    using z [OF that] by (simp add: nist_shift_def bit_drop_bit_eq)
  then have "(nist_shift ^^ n) v = drop_bit n v" if "n \<le> 4" for n
    using that by (induction n) simp_all
  then show ?thesis by simp
qed

lemma nist_shift4: "(nist_shift ^^ 4) v = drop_bit 4 v XOR reduce_value (unat (take_bit 4 v))"
proof -
  define a where "a = v XOR take_bit 4 v"
  have v: "v = a XOR take_bit 4 v" by (simp add: a_def xor.assoc)
  have n: "unat (take_bit 4 v) < 16" "of_nat (unat (take_bit 4 v)) = take_bit 4 v"
    by (simp add: unsigned_take_bit_eq, simp add: take_bit_eq_mod) (simp only: of_nat_unat ucast_id)
  have "take_bit 4 a = 0" "drop_bit 4 a = drop_bit 4 v"
    by (simp_all add: a_def drop_bit_xor drop_bit_take_bit)
  then have "(nist_shift ^^ 4) (a XOR take_bit 4 v) = drop_bit 4 v XOR reduce_value (unat (take_bit 4 v))"
    using reduce_table [OF n(1)] n(2) by (simp only: nist_shift_power_xor nist_shift_high)
  then show ?thesis using v by simp
qed

lemma galois_shift4_value:
  assumes "length b = 4"
  shows "block_value (galois_shift4 b) = (nist_shift ^^ 4) (block_value b)"
proof -
  have "unat (block_byte_get b 15 AND 15) = unat (take_bit 4 (block_value b))"
  proof -
    have "ucast (block_byte_get b 15 AND 15) = take_bit 4 (block_value b)"
    proof (rule bit_word_eqI)
      fix n
      have m: "(15 :: u8) = mask 4" by (simp add: mask_eq_exp_minus_1)
      show "bit (ucast (block_byte_get b 15 AND 15) :: u128) n = bit (take_bit 4 (block_value b)) n" if "n < LENGTH(128)"
        using bit_block_byte_get [OF assms, of 15 n] that
        by (auto simp: bit_unsigned_iff m bit_and_iff bit_mask_iff bit_take_bit_iff)
    qed
    then have "unat (ucast (block_byte_get b 15 AND 15) :: u128) = unat (take_bit 4 (block_value b))" by simp
    moreover have "unat (ucast x :: u128) = unat x" for x :: u8
      by (simp add: unsigned_ucast_eq take_bit_nat_eq_self_iff order_less_le_trans [OF unsigned_less])
    ultimately show ?thesis by simp
  qed
  then show ?thesis
    using assms by (simp add: galois_shift4_def Let_def block_value_update block_shiftr_value nist_shift4 reduce_value_def)
qed


text \<open>Horner's rule over the bits of the first factor, the highest power first.\<close>

primrec horner :: "(nat \<Rightarrow> bool) \<Rightarrow> u128 \<Rightarrow> nat \<Rightarrow> u128" where
  "horner f h 0 = 0"
| "horner f h (Suc q) = nist_shift (horner f h q) XOR (if f q then h else 0)"

lemma horner_split: "horner f h (q + n) = (nist_shift ^^ n) (horner f h q) XOR horner (\<lambda>t. f (q + t)) h n"
  by (induction n) (simp_all add: nist_shift_xor ac_simps)

lemma horner_cong: "(\<And>t. t < n \<Longrightarrow> f t = g t) \<Longrightarrow> horner f h n = horner g h n"
  by (induction n) simp_all

lemma nist_mult_horner: "nist_mult x y = horner (bit x) y 128"
proof -
  have "fold (\<lambda>i (z, v). (if bit x (127 - i) then z XOR v else z, nist_shift v)) [0..<n] (0, y) =
      (horner (\<lambda>t. bit x (128 - n + t)) y n, (nist_shift ^^ n) y)" if "n \<le> 128" for n
    using that
  proof (induction n)
    case (Suc n)
    have "(\<lambda>t. bit x (128 - Suc n + (1 + t))) = (\<lambda>t. bit x (128 - n + t))"
      using Suc.prems by (auto intro!: arg_cong [of _ _ "bit x"])
    then have "horner (\<lambda>t. bit x (128 - Suc n + t)) y (1 + n) =
        (nist_shift ^^ n) (if bit x (127 - n) then y else 0) XOR horner (\<lambda>t. bit x (128 - n + t)) y n"
      unfolding horner_split by simp
    moreover have "(nist_shift ^^ n) 0 = 0" by (induction n) simp_all
    ultimately show ?case using Suc by (simp add: xor.commute)
  qed simp
  from this [of 128] show ?thesis by (simp add: nist_mult_def)
qed

text \<open>The product table.\<close>

lemma reverse_bits_values:
  "unat (reverse_bits 1) = 8" "unat (reverse_bits 2) = 4" "unat (reverse_bits 3) = 12" "unat (reverse_bits 4) = 2"
  "unat (reverse_bits 5) = 10" "unat (reverse_bits 6) = 6" "unat (reverse_bits 7) = 14" "unat (reverse_bits 8) = 1"
  "unat (reverse_bits 9) = 9" "unat (reverse_bits 10) = 5" "unat (reverse_bits 11) = 13" "unat (reverse_bits 12) = 3"
  "unat (reverse_bits 13) = 11" "unat (reverse_bits 14) = 7" "unat (reverse_bits 15) = 15"
  by (simp_all add: reverse_bits_def upt_8)

lemma horner_four:
  "horner f h 4 = nist_shift (nist_shift (nist_shift (if f 0 then h else 0) XOR (if f 1 then h else 0)) XOR (if f 2 then h else 0))
     XOR (if f 3 then h else 0)"
  by (simp add: numeral_eq_Suc)

lemma upt_16: "[0..<16] = [0, 1, 2, 3, 4, 5, 6, 7, 8, 9, 10, 11, 12, 13, 14, 15]"
  by (simp add: upt_rec)

lemma list_of_16: "length bs = 16 \<Longrightarrow> bs = map ((!) bs) [0..<16]"
  by (rule nth_equalityI) simp_all

lemma product_table:
  assumes "length H = 4" "length tbl = 16" "n < 16"
  shows "length (make_product_table H tbl ! n) = 4"
    and "block_value (make_product_table H tbl ! n) = horner (bit n) (block_value H) 4"
proof -
  have tbl: "tbl = [tbl ! 0, tbl ! 1, tbl ! 2, tbl ! 3, tbl ! 4, tbl ! 5, tbl ! 6, tbl ! 7, tbl ! 8, tbl ! 9,
      tbl ! 10, tbl ! 11, tbl ! 12, tbl ! 13, tbl ! 14, tbl ! 15]"
    using list_of_16 [OF assms(2)] unfolding upt_16 list.map .
  define H2 H3 H4 H5 H6 H7 where "H2 = galois_mulx H" "H3 = block_xor H2 H"
    "H4 = galois_mulx H2" "H5 = block_xor H4 H" "H6 = galois_mulx H3" "H7 = block_xor H6 H"
  note h = this
  have "make_product_table H tbl = tbl[0 := zero_block, 8 := H, 4 := H2, 12 := H3, 2 := H4, 10 := H5, 6 := H6, 14 := H7,
      1 := galois_mulx H4, 9 := block_xor (galois_mulx H4) H, 5 := galois_mulx H5, 13 := block_xor (galois_mulx H5) H,
      3 := galois_mulx H6, 11 := block_xor (galois_mulx H6) H, 7 := galois_mulx H7, 15 := block_xor (galois_mulx H7) H]"
    using assms(2) by (simp add: make_product_table_def product_step_def Let_def reverse_bits_values h)
  also have "\<dots> = [zero_block, galois_mulx H4, H4, galois_mulx H6, H2, galois_mulx H5, H6, galois_mulx H7,
      H, block_xor (galois_mulx H4) H, H5, block_xor (galois_mulx H6) H, H3, block_xor (galois_mulx H5) H, H7,
      block_xor (galois_mulx H7) H]"
    by (subst tbl) simp
  finally have t: "make_product_table H tbl = [zero_block, galois_mulx H4, H4, galois_mulx H6, H2, galois_mulx H5, H6,
      galois_mulx H7, H, block_xor (galois_mulx H4) H, H5, block_xor (galois_mulx H6) H, H3, block_xor (galois_mulx H5) H, H7,
      block_xor (galois_mulx H7) H]" .
  have len: "length H2 = 4" "length H3 = 4" "length H4 = 4" "length H5 = 4" "length H6 = 4" "length H7 = 4"
    using assms(1) by (simp_all add: h)
  let ?s = nist_shift and ?v = "block_value H"
  have val: "block_value H2 = ?s ?v" "block_value H3 = ?s ?v XOR ?v" "block_value H4 = ?s (?s ?v)"
    "block_value H5 = ?s (?s ?v) XOR ?v" "block_value H6 = ?s (?s ?v XOR ?v)" "block_value H7 = ?s (?s ?v XOR ?v) XOR ?v"
    using assms(1) len by (simp_all add: h galois_mulx_value block_xor_value)
  have "list_all (\<lambda>b. length b = 4) (make_product_table H tbl)"
    unfolding t using len assms(1) by simp
  then show "length (make_product_table H tbl ! n) = 4"
    using assms(3) t by (simp add: list_all_length)
  have "map block_value (make_product_table H tbl) = map (\<lambda>n. horner (bit n) ?v 4) [0..<16]"
    unfolding t upt_16 list.map horner_four
    using len assms(1) by (simp add: val galois_mulx_value block_xor_value bit_Suc_0_iff)
  then have "map block_value (make_product_table H tbl) ! n = map (\<lambda>n. horner (bit n) ?v 4) [0..<16] ! n" by simp
  moreover have "length (make_product_table H tbl) = 16" unfolding t by simp
  ultimately show "block_value (make_product_table H tbl ! n) = horner (bit n) (block_value H) 4"
    using assms(3) by simp
qed


text \<open>One window adds four bits of the first factor.\<close>

lemma window_nibble:
  assumes "length p = 4" "i < 32"
  defines "pi \<equiv> block_byte_get p ((31 - i) div 2)"
  shows "unat (if i mod 2 = 1 then drop_bit 4 pi else pi AND 0x0f) < 16"
    and "t < 4 \<Longrightarrow> bit (unat (if i mod 2 = 1 then drop_bit 4 pi else pi AND 0x0f)) t = bit (block_value p) (4 * i + t)"
proof -
  have m: "(15 :: u8) = mask 4" by (simp add: mask_eq_exp_minus_1)
  let ?n = "if i mod 2 = 1 then drop_bit 4 pi else pi AND 0x0f"
  have high: "\<not> bit ?n k" if "4 \<le> k" for k
    using that by (auto simp: bit_drop_bit_eq bit_and_iff m bit_mask_iff dest: bit_imp_le_length)
  have "?n = take_bit 4 ?n"
    by (rule bit_word_eqI) (metis bit_take_bit_iff high not_le)
  then have "unat ?n = unat (take_bit 4 ?n)" by (rule arg_cong)
  then have e: "unat ?n = take_bit 4 (unat ?n)" by (simp only: unsigned_take_bit_eq)
  have "unat ?n < 2 ^ 4" by (subst e) (rule take_bit_nat_less_exp)
  then show "unat ?n < 16" by simp
  have j: "(31 - i) div 2 < 16" by simp
  have "(31 - i) div 2 = 15 - i div 2"
  proof (cases "even i")
    case True
    then obtain k where "i = 2 * k" ..
    then have "31 - i = 2 * (15 - k) + 1" "i div 2 = k" using assms(2) by simp_all
    then show ?thesis by simp
  next
    case False
    then obtain k where "i = 2 * k + 1" ..
    then have "31 - i = 2 * (15 - k)" "i div 2 = k" using assms(2) by simp_all
    then show ?thesis by simp
  qed
  moreover have "i div 2 \<le> 15" using assms(2) by simp
  ultimately have d: "8 * (15 - (31 - i) div 2) = 8 * (i div 2)" by simp
  show "bit (unat ?n) t = bit (block_value p) (4 * i + t)" if "t < 4"
  proof (cases "i mod 2 = 1")
    case True
    then have e: "8 * (15 - (31 - i) div 2) + (t + 4) = 4 * i + t"
      unfolding d using div_mult_mod_eq [of i 2] by linarith
    show ?thesis
      using True that bit_block_byte_get [OF assms(1) j, of "t + 4", unfolded e]
      by (simp add: pi_def bit_unsigned_iff bit_drop_bit_eq add.commute)
  next
    case False
    then have e: "8 * (15 - (31 - i) div 2) + t = 4 * i + t"
      unfolding d using div_mult_mod_eq [of i 2] by linarith
    show ?thesis
      using False that bit_block_byte_get [OF assms(1) j, of t, unfolded e]
      by (simp add: pi_def bit_unsigned_iff bit_and_iff m bit_mask_iff)
  qed
qed

lemma window_value:
  assumes p: "length p = 4" and i: "i < 32" and t: "length H = 4" "length tbl = 16" and r: "length r = 4"
    and v: "block_value r = (if i = 0 then 0 else horner (bit (block_value p)) (block_value H) (4 * i))"
  shows "block_value (galois_mul_window p (make_product_table H tbl) i r) =
    horner (bit (block_value p)) (block_value H) (4 * Suc i)"
proof -
  define n where "n = unat (let pi = block_byte_get p ((31 - i) div 2) in if i mod 2 = 1 then drop_bit 4 pi else pi AND 0x0f)"
  have n: "n < 16" and bits: "t < 4 \<Longrightarrow> bit n t = bit (block_value p) (4 * i + t)" for t
    using window_nibble [OF p i] by (simp_all add: n_def Let_def)
  have "block_value (if i \<noteq> 0 then galois_shift4 r else r) =
      (nist_shift ^^ 4) (horner (bit (block_value p)) (block_value H) (4 * i))"
    using v r by (simp add: galois_shift4_value numeral_eq_Suc)
  moreover have "galois_mul_window p (make_product_table H tbl) i r =
      block_xor (if i \<noteq> 0 then galois_shift4 r else r) (make_product_table H tbl ! n)"
    by (simp add: galois_mul_window_def Let_def n_def)
  ultimately have "block_value (galois_mul_window p (make_product_table H tbl) i r) =
      (nist_shift ^^ 4) (horner (bit (block_value p)) (block_value H) (4 * i)) XOR horner (bit n) (block_value H) 4"
    using r product_table [OF t n] by (simp add: block_xor_value)
  also have "horner (bit n) (block_value H) 4 = horner (\<lambda>t. bit (block_value p) (4 * i + t)) (block_value H) 4"
    by (rule horner_cong) (rule bits)
  finally show ?thesis
    using horner_split [of "bit (block_value p)" "block_value H" "4 * i" 4] by (simp add: add.commute)
qed

lemma galois_mul_value:
  assumes "length p = 4" "length H = 4" "length tbl = 16"
  shows "block_value (galois_mul p (make_product_table H tbl)) = nist_mult (block_value p) (block_value H)"
    and "length (galois_mul p (make_product_table H tbl)) = 4"
proof -
  let ?f = "galois_mul_window p (make_product_table H tbl)"
  have "length (fold ?f [0..<i] zero_block) = 4 \<and>
      block_value (fold ?f [0..<i] zero_block) = horner (bit (block_value p)) (block_value H) (4 * i)" if "i \<le> 32" for i
    using that
  proof (induction i)
    case (Suc i)
    then show ?case using window_value [OF assms(1) _ assms(2,3), of i "fold ?f [0..<i] zero_block"] by simp
  qed simp
  from this [of 32] show "block_value (galois_mul p (make_product_table H tbl)) = nist_mult (block_value p) (block_value H)"
      "length (galois_mul p (make_product_table H tbl)) = 4"
    by (simp_all add: galois_mul_def nist_mult_horner)
qed


section \<open>GHASH\<close>

lemma block_bytes_block: "length bs = 16 \<Longrightarrow> block_bytes (bytes_block bs) = bs"
proof -
  have "block_bytes (bytes_block bs) = map ((!) bs) [0..<16]"
    by (simp add: block_bytes_def bytes_block_def upt_8 upt_16) (simp add: numeral_2_eq_2)
  then show "length bs = 16 \<Longrightarrow> block_bytes (bytes_block bs) = bs" using list_of_16 by metis
qed

lemma bytes_block_value: "length bs = 16 \<Longrightarrow> block_value (bytes_block bs) = bytes_value bs"
  by (simp add: block_value_def block_bytes_block)

lemma unat_last_block: "unat (get_last_block_num_bytes sz) = (if unat sz mod 16 = 0 then 16 else unat sz mod 16)"
  by (simp add: get_last_block_num_bytes_def Let_def word_unat_eq_iff unat_mod)

lemma blocks_of_length: "(n + 15) div 16 = (if n mod 16 = 0 then n div 16 else n div 16 + 1)" for n :: nat
proof -
  obtain q r where q: "n div 16 = q" and r: "n mod 16 = r" by simp
  have n: "n = 16 * q + r" "r < 16" using q r by auto
  show ?thesis
    unfolding q r using n by (cases "r = 0") (auto intro!: div_nat_eqI)
qed

lemma last_block_length:
  fixes n :: nat
  assumes "i < (n + 15) div 16"
  shows "i = (n + 15) div 16 - 1 \<Longrightarrow> n - 16 * i = (if n mod 16 = 0 then 16 else n mod 16)"
    and "i = (n + 15) div 16 - 1 \<Longrightarrow> 16 * i \<le> n"
    and "i \<noteq> (n + 15) div 16 - 1 \<Longrightarrow> 16 * i + 16 \<le> n"
proof -
  obtain q r where q: "n div 16 = q" and r: "n mod 16 = r" by simp
  have n: "n = 16 * q + r" "r < 16" using q r by auto
  have b: "(n + 15) div 16 = (if r = 0 then q else q + 1)"
    using blocks_of_length [of n] unfolding q r .
  note i = assms [unfolded b]
  show "n - 16 * i = (if n mod 16 = 0 then 16 else n mod 16)" if "i = (n + 15) div 16 - 1"
  proof (cases "r = 0")
    case True
    then have "n - 16 * i = 16" using that [unfolded b] i n(1) by simp
    then show ?thesis using True r by simp
  next
    case False
    then have "n - 16 * i = r" using that [unfolded b] i n(1) by simp
    then show ?thesis using False r by simp
  qed
  show "16 * i \<le> n" if "i = (n + 15) div 16 - 1"
    using that [unfolded b] i n(1) by (cases "r = 0") simp_all
  show "16 * i + 16 \<le> n" if "i \<noteq> (n + 15) div 16 - 1"
    using that [unfolded b] i n(1) by (cases "r = 0") simp_all
qed

lemma unat_nblocks: "unat (get_nblocks sz) = (unat sz + 15) div 16"
proof -
  have d: "unat (drop_bit 4 sz) = unat sz div 16"
    by (simp only: unat_drop_bit_eq drop_bit_eq_div) (simp add: unat_div)
  have "unat sz div 16 < 2 ^ 28" using unat_u32_less [of sz] by simp
  then have "unat (drop_bit 4 sz + 1) = unat sz div 16 + 1"
    using d by (simp add: unat_word_ariths take_bit_nat_eq_self)
  moreover have "get_last_block_num_bytes sz = 16 \<longleftrightarrow> unat sz mod 16 = 0"
    using unat_last_block [of sz] mod_less_divisor [of 16 "unat sz"] by (auto simp: word_unat_eq_iff split: if_splits)
  ultimately show ?thesis by (simp add: get_nblocks_def Let_def d blocks_of_length)
qed

lemma input_block_value:
  assumes "unat len \<le> length input" "i < (unat len + 15) div 16"
  shows "block_value (input_block len input i) = bytes_value (zero_padded (take 16 (drop (16 * i) (take (unat len) input))))"
proof -
  let ?n = "unat len"
  show ?thesis
  proof (cases "i = (?n + 15) div 16 - 1")
    case True
    then have l: "?n - 16 * i = (if ?n mod 16 = 0 then 16 else ?n mod 16)" "16 * i \<le> ?n" using last_block_length [OF assms(2)] by simp_all
    have "?n mod 16 \<le> 16" by (simp add: order_less_imp_le)
    then have "?n - 16 * i \<le> 16" using l(1) by (simp split: if_splits)
    then have t: "take 16 (drop (16 * i) (take ?n input)) = take (?n - 16 * i) (drop (16 * i) input)"
        "length (take (?n - 16 * i) (drop (16 * i) input)) = ?n - 16 * i" "?n - 16 * i + (16 - (?n - 16 * i)) = 16"
      using assms(1) l(2) by (simp_all add: drop_take min_absorb2 min_absorb1)
    have u: "unat (get_last_block_num_bytes len) = ?n - 16 * i"
      unfolding unat_last_block l(1) ..
    have "input_block len input i =
        bytes_block (take (?n - 16 * i) (drop (16 * i) input) @ replicate (16 - (?n - 16 * i)) 0)"
      unfolding input_block_def unat_nblocks u Let_def by (rule if_P [OF True])
    then show ?thesis
      unfolding t(1) zero_padded_def t(2) by (simp only: bytes_block_value length_append t(2,3) length_replicate)
  next
    case False
    then have l: "16 * i + 16 \<le> ?n" using last_block_length [OF assms(2)] by simp
    then have "take 16 (drop (16 * i) (take ?n input)) = take 16 (drop (16 * i) input)"
      by (simp add: drop_take min_absorb1)
    then show ?thesis
      using False l assms(1) by (simp add: input_block_def unat_nblocks zero_padded_def bytes_block_value)
  qed
qed

lemma ghash_update_value:
  assumes "length H = 4" "length tbl = 16" "unat len \<le> length input" "length s = 4"
  shows "block_value (aes_gcm_ghash_update (make_product_table H tbl) len input s) =
      nist_ghash (block_value H) (nist_blocks (take (unat len) input)) (block_value s)"
    and "length (aes_gcm_ghash_update (make_product_table H tbl) len input s) = 4"
proof -
  let ?f = "\<lambda>i s. galois_mul (block_xor s (input_block len input i)) (make_product_table H tbl)"
  let ?n = "(unat len + 15) div 16"
  have "length (fold ?f is s) = 4 \<and> block_value (fold ?f is s) =
      nist_ghash (block_value H) (map (\<lambda>i. bytes_value (zero_padded (take 16 (drop (16 * i) (take (unat len) input))))) is) (block_value s)"
    if "set is \<subseteq> {..<?n}" for "is"
    using that assms(4)
  proof (induction "is" arbitrary: s)
    case (Cons i "is")
    then show ?case
      using Cons.IH [of "?f i s"] assms(1,2) input_block_value [OF assms(3), of i]
      by (simp add: galois_mul_value block_xor_value nist_ghash_def)
  qed (simp add: nist_ghash_def)
  moreover have "set [0..<?n] \<subseteq> {..<?n}" by auto
  ultimately have "length (fold ?f [0..<?n] s) = 4 \<and> block_value (fold ?f [0..<?n] s) =
      nist_ghash (block_value H) (map (\<lambda>i. bytes_value (zero_padded (take 16 (drop (16 * i) (take (unat len) input))))) [0..<?n])
        (block_value s)" by blast
  then show "block_value (aes_gcm_ghash_update (make_product_table H tbl) len input s) =
      nist_ghash (block_value H) (nist_blocks (take (unat len) input)) (block_value s)"
    "length (aes_gcm_ghash_update (make_product_table H tbl) len input s) = 4"
    using assms(3) by (auto simp: aes_gcm_ghash_update_def unat_nblocks nist_blocks_def min_absorb2)
qed


text \<open>C0: the multiplication of the code, by 4-bit windows over a precomputed table of
  products and with the reduction table, is the bit-serial product of NIST SP 800-38D for every pair
  of blocks and whatever the memory of the table held; updating a GHASH state with an input of any
  length is the NIST GHASH over its zero-padded blocks; and \<open>aes_gcm_ghash\<close> returns it exactly for
  inputs of full blocks, an error otherwise.\<close>

theorem ghash_is_nist_ghash:
  assumes "length H = 4" "length p = 4" "length tbl = 16" "unat len \<le> length input"
  shows "block_value (galois_mul p (make_product_table H tbl)) = nist_mult (block_value p) (block_value H) \<and>
    block_value (aes_gcm_ghash_update (make_product_table H tbl) len input p) =
      nist_ghash (block_value H) (nist_blocks (take (unat len) input)) (block_value p) \<and>
    (case aes_gcm_ghash H len input of (err, out) \<Rightarrow>
       if unat len mod 16 = 0
       then err = kAesOk \<and> block_value out = nist_ghash (block_value H) (nist_blocks (take (unat len) input)) 0
       else err = kAesInternalError)"
proof -
  have "get_last_block_num_bytes len = 16 \<longleftrightarrow> unat len mod 16 = 0"
    using unat_last_block [of len] mod_less_divisor [of 16 "unat len"] by (auto simp: word_unat_eq_iff split: if_splits)
  moreover have "length stack_table = 16" by (simp add: stack_table_def)
  ultimately show ?thesis
    using assms ghash_update_value [OF assms(1) _ assms(4), of stack_table zero_block]
    by (simp add: galois_mul_value ghash_update_value aes_gcm_ghash_def Let_def)
qed

theorem ghash_is_nist_ghash_witness:
  "block_value (galois_mul [1, 2, 3, 4] (make_product_table [5, 6, 7, 8] stack_table)) =
     nist_mult (block_value [1, 2, 3, 4]) (block_value [5, 6, 7, 8]) \<and>
   block_value (aes_gcm_ghash_update (make_product_table [5, 6, 7, 8] stack_table) 3 [9, 10, 11] [1, 2, 3, 4]) =
     nist_ghash (block_value [5, 6, 7, 8]) (nist_blocks [9, 10, 11]) (block_value [1, 2, 3, 4])"
  using ghash_is_nist_ghash [of "[5, 6, 7, 8]" "[1, 2, 3, 4]" stack_table 3 "[9, 10, 11]"]
  by (simp add: stack_table_def)

end
