(* ===== verification/Aes_Gcm.thy ===== *)
theory Aes_Gcm
  imports Ghash
begin

text \<open>The rest of \<open>lib/crypto/impl/aes_gcm/aes_gcm.c\<close>: GCTR, the hash subkey, the counter block, the
  tag, authenticated encryption and decryption, over the driver of the AES unit. The reference is
  NIST SP 800-38D for a block cipher on 128-bit strings. Outputs are returned; a null input pointer
  is \<open>None\<close>, and the flags \<open>*_null\<close> say that an output pointer is null. Input and output of GCTR may
  be the same buffer in the code: each block is read before its output is stored.\<close>

unbundle bit_operations_syntax

section \<open>Counter mode\<close>

definition aes_encrypt_block :: "aes_key \<Rightarrow> aes_block \<Rightarrow> aes_block \<Rightarrow> (aes_error * aes_block) rom" where
  "aes_encrypt_block key iv input = (bindM (aes_encrypt_begin key iv) (\<lambda>err.
    if err \<noteq> kAesOk then returnM (err, []) else
    bindM (aes_update False (Some input)) (\<lambda>(err, u).
    if err \<noteq> kAesOk then returnM (err, []) else
    bindM (aes_update True None) (\<lambda>(err, output).
    if err \<noteq> kAesOk then returnM (err, []) else
    bindM aes_end (\<lambda>err.
    if err \<noteq> kAesOk then returnM (err, []) else
    returnM (kAesOk, output))))))"

text \<open>The loop of GCTR over the remaining block indices, with the current counter block.\<close>

definition gctr_num_bytes :: "u32 \<Rightarrow> nat \<Rightarrow> nat" where
  "gctr_num_bytes len i =
     (if i = unat (get_nblocks len) - 1 then unat (get_last_block_num_bytes len) else kAesBlockNumBytes)"

primrec gctr_loop :: "aes_key \<Rightarrow> u32 \<Rightarrow> u8 list \<Rightarrow> nat list \<Rightarrow> aes_block \<Rightarrow> (aes_error * u8 list) rom" where
  "gctr_loop key len input [] iv = returnM (kAesOk, [])"
| "gctr_loop key len input (i # is) iv = (bindM (aes_encrypt_block key iv (input_block len input i)) (\<lambda>(err, block_out).
    if err \<noteq> kAesOk then returnM (err, []) else
    bindM (gctr_loop key len input is (block_inc32 iv)) (\<lambda>(err, rest).
    returnM (err, take (gctr_num_bytes len i) (block_bytes block_out) @ rest))))"

definition aes_gcm_gctr ::
  "aes_key \<Rightarrow> aes_block \<Rightarrow> u32 \<Rightarrow> u8 list option \<Rightarrow> bool \<Rightarrow> (aes_error * u8 list) rom" where
  "aes_gcm_gctr key icb len input output_null =
     (if len = 0 then returnM (kAesOk, [])
      else case input of
        None \<Rightarrow> returnM (kAesInternalError, [])
      | Some input \<Rightarrow>
          if output_null then returnM (kAesInternalError, [])
          else if key_sideload key \<noteq> kHardenedBoolFalse then returnM (kAesInternalError, [])
          else if key_mode key \<noteq> kAesCipherModeCtr then returnM (kAesInternalError, [])
          else gctr_loop key len input [0..<unat (get_nblocks len)] icb)"

section \<open>The parts of GCM\<close>

definition check_buffer_lengths :: "u32 \<Rightarrow> u32 \<Rightarrow> u32 \<Rightarrow> u32" where
  "check_buffer_lengths iv_len plaintext_len aad_len =
     (if iv_len \<noteq> 12 \<and> iv_len \<noteq> 16 then kHardenedBoolFalse
      else if plaintext_len > UINT32_MAX \<or> aad_len > UINT32_MAX then kHardenedBoolFalse
      else kHardenedBoolTrue)"

definition aes_gcm_hash_subkey :: "aes_key \<Rightarrow> (aes_error * aes_block list) rom" where
  "aes_gcm_hash_subkey key = (bindM (aes_encrypt_block key zero_block zero_block) (\<lambda>(err, hash_subkey).
    if err \<noteq> kAesOk then returnM (err, []) else
    returnM (kAesOk, make_product_table hash_subkey stack_table)))"

definition aes_gcm_counter :: "u32 \<Rightarrow> u8 list \<Rightarrow> aes_block list \<Rightarrow> aes_error * aes_block" where
  "aes_gcm_counter iv_len iv tbl =
     (if iv_len = 12 then (kAesOk, (bytes_block (take 12 iv @ replicate 4 0))[kAesBlockNumWords - 1 := reverse_bytes 1])
      else if iv_len = 16 then
        let j0 = aes_gcm_ghash_update tbl iv_len iv zero_block;
            buffer = (replicate kAesBlockNumBytes 0)[kAesBlockNumBytes - 1 := 0x80]
        in (kAesOk, aes_gcm_ghash_update tbl (of_nat kAesBlockNumBytes) buffer j0)
      else (kAesInternalError, zero_block))"

text \<open>The compiler's \<open>__builtin_bswap64\<close>, and the bytes of a 64-bit word in memory.\<close>

definition builtin_bswap64 :: "u64 \<Rightarrow> u64" where
  "builtin_bswap64 x = fold (\<lambda>i out. push_bit 8 out OR (drop_bit (8 * i) x AND 255)) [0..<8] 0"

definition word64_bytes :: "u64 \<Rightarrow> u8 list" where
  "word64_bytes x = map (\<lambda>i. ucast (drop_bit (8 * i) x)) [0..<8]"

definition aes_gcm_compute_tag ::
  "aes_key \<Rightarrow> aes_block list \<Rightarrow> u32 \<Rightarrow> u8 list \<Rightarrow> u32 \<Rightarrow> u8 list \<Rightarrow> aes_block \<Rightarrow> bool \<Rightarrow> (aes_error * u8 list) rom" where
  "aes_gcm_compute_tag key tbl ciphertext_len ciphertext aad_len aad j0 tag_null =
     (let s = zero_block;
          s = aes_gcm_ghash_update tbl aad_len aad s;
          s = aes_gcm_ghash_update tbl ciphertext_len ciphertext s;
          last_block_bytes = word64_bytes (builtin_bswap64 (ucast aad_len * 8)) @
            word64_bytes (builtin_bswap64 (ucast ciphertext_len * 8));
          s = aes_gcm_ghash_update tbl (of_nat kAesBlockNumBytes) last_block_bytes s
      in aes_gcm_gctr key j0 (of_nat kAesBlockNumBytes) (Some (block_bytes s)) tag_null)"

section \<open>Authenticated encryption and decryption\<close>

definition aes_gcm_encrypt ::
  "aes_key \<Rightarrow> u32 \<Rightarrow> u8 list \<Rightarrow> u32 \<Rightarrow> u8 list option \<Rightarrow> u32 \<Rightarrow> u8 list \<Rightarrow> bool \<Rightarrow> bool \<Rightarrow> (aes_error * u8 list * u8 list) rom" where
  "aes_gcm_encrypt key iv_len iv plaintext_len plaintext aad_len aad ciphertext_null tag_null =
     (if check_buffer_lengths iv_len plaintext_len aad_len \<noteq> kHardenedBoolTrue
      then returnM (kAesInternalError, [], [])
      else (bindM (aes_gcm_hash_subkey key) (\<lambda>(err, Htbl).
    if err \<noteq> kAesOk then returnM (err, [], []) else
    let (err, j0) = aes_gcm_counter iv_len iv Htbl in
    if err \<noteq> kAesOk then returnM (err, [], []) else
    let j0_inc = block_inc32 j0 in
    bindM (aes_gcm_gctr key j0_inc plaintext_len plaintext ciphertext_null) (\<lambda>(err, ciphertext).
    if err \<noteq> kAesOk then returnM (err, [], []) else
    bindM (aes_gcm_compute_tag key Htbl plaintext_len ciphertext aad_len aad j0 tag_null) (\<lambda>(err, tag).
    returnM (err, ciphertext, tag))))))"

text \<open>The comparison of the tags, in word-size buffers on the stack: \<open>None\<close> when the hardened
  comparison traps. The addresses stand for three disjoint places.\<close>

definition store_block :: "u32 \<Rightarrow> aes_block \<Rightarrow> memory \<Rightarrow> memory" where
  "store_block a b mem = fold (\<lambda>i. write_32 (b ! i) (a + of_nat i * 4)) [0..<4] mem"

definition tags_memeq :: "u8 list \<Rightarrow> u8 list \<Rightarrow> u32 option" where
  "tags_memeq expected_tag tag =
     hardened_memeq 0x1000 0x2000 4 0x3000
       (store_block 0x2000 (bytes_block tag) (store_block 0x1000 (bytes_block expected_tag) (\<lambda>_. 0)))"

definition aes_gcm_decrypt ::
  "aes_key \<Rightarrow> u32 \<Rightarrow> u8 list \<Rightarrow> u32 \<Rightarrow> u8 list option \<Rightarrow> u32 \<Rightarrow> u8 list \<Rightarrow> u8 list \<Rightarrow> bool \<Rightarrow> (aes_error * u32 * u8 list) rom" where
  "aes_gcm_decrypt key iv_len iv ciphertext_len ciphertext aad_len aad tag plaintext_null =
     (if check_buffer_lengths iv_len ciphertext_len aad_len \<noteq> kHardenedBoolTrue
      then returnM (kAesInternalError, 0, [])
      else (bindM (aes_gcm_hash_subkey key) (\<lambda>(err, Htbl).
    if err \<noteq> kAesOk then returnM (err, 0, []) else
    let (err, j0) = aes_gcm_counter iv_len iv Htbl in
    if err \<noteq> kAesOk then returnM (err, 0, []) else
    bindM (aes_gcm_compute_tag key Htbl ciphertext_len
          (case ciphertext of None \<Rightarrow> [] | Some c \<Rightarrow> c) aad_len aad j0 False) (\<lambda>(err, expected_tag).
    if err \<noteq> kAesOk then returnM (err, 0, []) else
    (case tags_memeq expected_tag tag of
           None \<Rightarrow> stopM Trap
         | Some success \<Rightarrow> (if success \<noteq> kHardenedBoolTrue then returnM (kAesOk, success, []) else
     bindM (aes_gcm_gctr key (block_inc32 j0) ciphertext_len ciphertext plaintext_null) (\<lambda>(err, plaintext).
     returnM (err, success, plaintext))))))))"

section \<open>The reference: NIST SP 800-38D\<close>

text \<open>The bytes of a 128-bit string, and a block cipher on blocks as one on strings.\<close>

definition value_bytes :: "u128 \<Rightarrow> u8 list" where
  "value_bytes v = map (\<lambda>i. ucast (drop_bit (8 * (15 - i)) v)) [0..<16]"

definition string_cipher :: "(aes_block \<Rightarrow> aes_block) \<Rightarrow> u128 \<Rightarrow> u128" where
  "string_cipher C x = block_value (C (bytes_block (value_bytes x)))"

text \<open>Section 6.2: the function inc32.\<close>

definition nist_inc32 :: "u128 \<Rightarrow> u128" where
  "nist_inc32 x = push_bit 32 (drop_bit 32 x) OR ucast ((ucast x :: u32) + 1)"

text \<open>Algorithm 3: GCTR is the exclusive or with the encrypted counter blocks.\<close>

definition nist_keystream :: "(u128 \<Rightarrow> u128) \<Rightarrow> u128 \<Rightarrow> nat \<Rightarrow> u8 list" where
  "nist_keystream C icb n = concat (map (\<lambda>i. value_bytes (C ((nist_inc32 ^^ i) icb))) [0..<(n + 15) div 16])"

definition nist_gctr :: "(u128 \<Rightarrow> u128) \<Rightarrow> u128 \<Rightarrow> u8 list \<Rightarrow> u8 list" where
  "nist_gctr C icb xs = map2 (XOR) xs (nist_keystream C icb (length xs))"

text \<open>Algorithms 4 and 5: the counter block, for an IV of 12 bytes or of full blocks, and the tag.\<close>

definition nist_j0 :: "(u128 \<Rightarrow> u128) \<Rightarrow> u8 list \<Rightarrow> u128" where
  "nist_j0 C iv = (if length iv = 12 then bytes_value (iv @ [0, 0, 0, 1])
     else nist_ghash (C 0) (nist_blocks iv @ [of_nat (8 * length iv)]) 0)"

definition nist_tag :: "(u128 \<Rightarrow> u128) \<Rightarrow> u128 \<Rightarrow> u8 list \<Rightarrow> u8 list \<Rightarrow> u8 list" where
  "nist_tag C j0 aad c =
     (let s = nist_ghash (C 0) (nist_blocks aad @ nist_blocks c @ [push_bit 64 (of_nat (8 * length aad)) OR of_nat (8 * length c)]) 0
      in nist_gctr C j0 (value_bytes s))"

definition nist_gcm_encrypt :: "(u128 \<Rightarrow> u128) \<Rightarrow> u8 list \<Rightarrow> u8 list \<Rightarrow> u8 list \<Rightarrow> u8 list * u8 list" where
  "nist_gcm_encrypt C iv p aad =
     (let j0 = nist_j0 C iv;
          c = nist_gctr C (nist_inc32 j0) p
      in (c, nist_tag C j0 aad c))"

text \<open>Authenticated decryption: \<open>None\<close> stands for FAIL.\<close>

definition nist_gcm_decrypt :: "(u128 \<Rightarrow> u128) \<Rightarrow> u8 list \<Rightarrow> u8 list \<Rightarrow> u8 list \<Rightarrow> u8 list \<Rightarrow> u8 list option" where
  "nist_gcm_decrypt C iv c aad tag =
     (let j0 = nist_j0 C iv
      in if nist_tag C j0 aad c = tag then Some (nist_gctr C (nist_inc32 j0) c) else None)"

end
