(* ===== verification/Spec2Isabelle.thy ===== *)
theory Spec2Isabelle
  imports Crc32 Rom_Ext Boot_Data_Log Hardened_Memory Aes_Gcm
begin

text \<open>
  \<^bold>\<open>The secure boot of OpenTitan (Earl Grey).\<close> This development models the C code that
  takes the chip from reset to an owner image: the mask ROM (\<open>sw/device/silicon_creator/rom\<close>),
  the ROM\_EXT (\<open>silicon_creator/rom_ext\<close>), and the silicon creator library they are made of
  (\<open>silicon_creator/lib\<close>, parts of \<open>sw/device/lib/base\<close>). All paths below are
  relative to \<open>src/sw/device\<close>.

  \<^bold>\<open>How the program is put together.\<close> The ROM initialises the chip (\<open>rom_init\<close>), serves a
  host that asks for bootstrap (\<open>bootstrap\<close>: erase, verify, program over SPI), reads the boot
  data log from the flash info pages, and then tries the two ROM\_EXT slots, newest first: the
  manifest is checked, a key is selected by its id, the image is hashed by the HMAC engine and the
  RSA signature is verified in software or on OTBN. The result of the signature check is also the
  value that unlocks flash execution. The ROM then sets up the key manager, the ePMP and the address
  translation, compares all security relevant registers with the table of \<open>sec_mmio\<close>, and
  jumps. The ROM\_EXT does the same for the owner image. Every error ends in \<open>shutdown_finalize\<close>.

  \<^bold>\<open>The machine.\<close> A C function that touches the hardware is a function \<open>machine => outcome\<close>
  (Prelude, Machine): it is \<open>Done\<close> with a result, or \<open>Stop\<close>s: a failed hardened check
  runs into an illegal instruction (\<open>Trap\<close>), control passes to an image (\<open>Jump\<close>), an endless
  wait loop is entered (\<open>Hang\<close>), or a busy-wait used up its polls (\<open>Out_of_polls\<close>).
  The state holds the C globals (one record field each) and the history of bus and CSR events; a
  device is an arbitrary function of that history, in the record \<open>platform\<close>, together with
  linker symbols and \<open>extern\<close> constants. Nothing is assumed of a device unless a theorem says
  so by name: \<open>hmac_device\<close> (the digest registers hold a hash of the bytes pushed into the FIFO),
  \<open>flash_device\<close> (the info pages are a memory), \<open>csr_device\<close> (a CSR holds what is written to it), 
  \<open>rom_keys_ok\<close> (the built-in keys are 3072-bit odd moduli with their Montgomery constant).

  \<^bold>\<open>Theories and the code they model.\<close>
    \<^item> Prelude: words, the outcome monad, loops with fuel (\<open>poll\<close>), the \<open>frame\<close> interface
      (a relation every operation keeps) and weakest preconditions.
    \<^item> Regs: constants of the generated register headers, \<open>lib/error.h\<close>, \<open>base/hardened.h\<close>,
      \<open>drivers/lifecycle.h\<close>. Machine: state, MMIO, CSRs, hardened checks, \<open>base/bitfield.h\<close>.
    \<^item> Sec\_Mmio: \<open>lib/base/sec_mmio.c\<close>; the two arrays refine a finite map (locale
      \<open>expected_table\<close>), the checks compare the whole map with the devices.
    \<^item> Drivers, Hmac, Keymgr, Flash\_Ctrl, Alert, Otbn, Spi\_Device: the files of \<open>lib/drivers\<close>
      and \<open>lib/otbn_util.c\<close>. Memory, Crc32, Rom\_Print: \<open>lib/base/memory.c\<close>, \<open>lib/crc32.c\<close>,
      \<open>lib/rom_print.c\<close>.
    \<^item> Epmp: \<open>lib/epmp_state.c\<close>, \<open>rom/rom_epmp.c\<close>, \<open>rom_ext/rom_ext_epmp.c\<close>.
      Shutdown: \<open>lib/shutdown.c\<close>. Manifest: \<open>lib/manifest.h\<close> and both boot policies.
    \<^item> Sigverify\_Keys, Sigverify\_Ibex, Sigverify: \<open>rom/sigverify_keys.c\<close> and \<open>lib/sigverify\<close>.
    \<^item> Boot\_Data: \<open>lib/boot_data.c\<close>. Boot\_Data\_Flash and Boot\_Data\_Log hold no code: the
      first is the contract of the flash controller, the second the specification of the log and the
      proof that the code refines it.
    \<^item> Bootstrap, Rom, Rom\_Ext: \<open>rom/bootstrap.c\<close>, \<open>rom/rom.c\<close>, \<open>rom_ext/rom_ext.c\<close>.

  \<^bold>\<open>How definitions correspond to the code.\<close> A function keeps its C name, its statements are
  in order, out parameters are returned with the error code, early returns are the forms
  \<open>RETURN_IF\<close> and \<open>RETURN_IF_ERROR\<close>. \<open>launder32\<close> and \<open>barrier32\<close> are the identity
  of the abstract machine and are left out. A pointer to a manifest is its address; buffers are lists
  of words or bytes, with their alignment where the code looks at it. Machine integers are words of
  their width (\<open>u8\<close>, \<open>u32\<close>, \<open>u64\<close>) and wrap as in C.

  \<^bold>\<open>What the groups of lemmas show.\<close> \<open>framed_*\<close>: every operation only adds events to the history
  and keeps the platform, the life cycle state and the boot data (\<open>quiet\<close>), and the well-formedness
  of the sec\_mmio table (\<open>sec_safe\<close>). \<open>boots\<close>, \<open>calm\<close>: where a boot stage can jump to.
  \<open>writes\<close>, \<open>emits\<close>: which bus events a program can or must produce. \<open>returns\<close>:
  an operation on the info pages returns with a postcondition, or runs out of polls.
  The properties then say: only authentic images are booted (ROM, ROM\_EXT), verification and key
  search accept exactly what they should, the software RSA is modular exponentiation, the boot data
  log returns the newest entry, shutdown is final, and so on; each is preceded by its statement in words.

  \<^bold>\<open>Bounds.\<close> Busy-waits (\<open>while (!ready)\<close>) have no bound in C. They are given \<open>poll_limit\<close> reads
  of the platform, an arbitrary number; running out is the outcome \<open>Out_of_polls\<close>, on which no
  theorem claims more than that no jump happens. The event loop of bootstrap has the same bound. The
  endless loops are the outcome \<open>Hang\<close> after one pass. All other loops are
  structural or have a termination proof.

  \<^bold>\<open>Not modelled.\<close> The start-up assembly (its effect on the ePMP CSRs is a hypothesis), the program
  OTBN runs (part of the device), the key material (a parameter), timing and fault injection (the
  redundant checks are modelled as checks, but no theorem is about faults), messages printed to the
  null sink in bootstrap. The device interface functions, tests, the cryptographic library, host
  software, hardware descriptions and build files are listed in the manifest with the reason.
\<close>

end
